(* ===== verification/Go_Prelude.thy ===== *)
theory Go_Prelude
  imports Complex_Main "HOL-Library.Word" "HOL-Library.AList" "HOL-Library.Multiset"
begin

text \<open>
  What every component of the model shares: the part of the Go language and of its standard
  library the code uses. It holds the signed 64-bit range and its wrap-around (an \<open>int\<close> kept
  in range, since the code's integers are compared far more than they are computed with),
  float64 values with the IEEE comparisons and addition, \<open>time.Time\<close> with its optional
  monotonic reading and the saturating \<open>Sub\<close>, decimal rendering of integers, maps as
  association lists with distinct keys together with the iteration order the runtime picks,
  and the lemma collections the components add to.
\<close>

named_theorems wf_intros \<open>introduction rules of the components' well-formedness invariants\<close>
named_theorems step_frames \<open>what the steps of a component leave unchanged\<close>
named_theorems go_eval \<open>definitions to unfold when a closed term is evaluated\<close>

section \<open>Signed 64-bit integers and durations\<close>

text \<open>A Go \<open>int\<close> or \<open>time.Duration\<close> is an \<open>int\<close> of the signed 64-bit range.\<close>

type_synonym duration = int

definition max_i64 :: int where "max_i64 = 2 ^ 63 - 1"
definition min_i64 :: int where "min_i64 = - (2 ^ 63)"

definition in_i64 :: "int \<Rightarrow> bool" where
  "in_i64 x \<longleftrightarrow> min_i64 \<le> x \<and> x \<le> max_i64"

text \<open>Two's complement wrap-around of an exact result.\<close>

definition wrap_i64 :: "int \<Rightarrow> int" where
  "wrap_i64 x = (x + 2 ^ 63) mod 2 ^ 64 - 2 ^ 63"

definition sat_i64 :: "int \<Rightarrow> int" where
  "sat_i64 x = (if x > max_i64 then max_i64 else if x < min_i64 then min_i64 else x)"

lemma wrap_i64_range [simp, intro]: "in_i64 (wrap_i64 x)"
proof -
  have "0 \<le> (x + 2 ^ 63) mod (2 ^ 64 :: int)" and "(x + 2 ^ 63) mod (2 ^ 64 :: int) < 2 ^ 64"
    by simp_all
  then show ?thesis by (simp add: in_i64_def wrap_i64_def max_i64_def min_i64_def)
qed

lemma wrap_i64_id: "in_i64 x \<Longrightarrow> wrap_i64 x = x"
  by (simp add: in_i64_def wrap_i64_def max_i64_def min_i64_def)

lemma wrap_i64_word: "wrap_i64 x = sint (word_of_int x :: 64 word)"
  by (simp add: wrap_i64_def sint_sbintrunc' signed_take_bit_eq_take_bit_shift take_bit_eq_mod)

lemma sat_i64_range [simp, intro]: "in_i64 (sat_i64 x)"
  by (simp add: sat_i64_def in_i64_def max_i64_def min_i64_def)

lemma sat_i64_id: "in_i64 x \<Longrightarrow> sat_i64 x = x"
  by (simp add: in_i64_def sat_i64_def)

lemma sat_i64_mono: "x \<le> y \<Longrightarrow> sat_i64 x \<le> sat_i64 y"
  by (simp add: sat_i64_def max_i64_def min_i64_def)

abbreviation millisecond :: duration where "millisecond \<equiv> 1000000"
abbreviation second :: duration where "second \<equiv> 1000000000"
abbreviation minute :: duration where "minute \<equiv> 60000000000"
abbreviation hour :: duration where "hour \<equiv> 3600000000000"

section \<open>float64\<close>

text \<open>
  A float64 is NaN, an infinity, the negative zero or a finite value, which is an exact
  rational. Comparison with NaN is false, and the two zeroes are equal.
\<close>

datatype f64 = F_NaN | F_PInf | F_NInf | F_NegZero | F_Fin rat

fun f64_num :: "f64 \<Rightarrow> rat" where
  "f64_num (F_Fin q) = q"
| "f64_num _ = 0"

fun f64_le :: "f64 \<Rightarrow> f64 \<Rightarrow> bool" where
  "f64_le F_NaN _ = False"
| "f64_le _ F_NaN = False"
| "f64_le F_NInf _ = True"
| "f64_le _ F_PInf = True"
| "f64_le F_PInf _ = False"
| "f64_le _ F_NInf = False"
| "f64_le a b = (f64_num a \<le> f64_num b)"

definition f64_lt :: "f64 \<Rightarrow> f64 \<Rightarrow> bool" where
  "f64_lt a b \<longleftrightarrow> f64_le a b \<and> \<not> f64_le b a"

definition f64_eq :: "f64 \<Rightarrow> f64 \<Rightarrow> bool" where
  "f64_eq a b \<longleftrightarrow> f64_le a b \<and> f64_le b a"

lemma f64_le_refl: "a \<noteq> F_NaN \<Longrightarrow> f64_le a a"
  by (cases a) auto

lemma f64_le_total: "a \<noteq> F_NaN \<Longrightarrow> b \<noteq> F_NaN \<Longrightarrow> f64_le a b \<or> f64_le b a"
  by (cases a; cases b) auto

lemma f64_le_trans: "f64_le a b \<Longrightarrow> f64_le b c \<Longrightarrow> f64_le a c"
  by (cases a; cases b; cases c) auto

lemma f64_le_NaN [simp]: "\<not> f64_le a F_NaN"
  by (cases a) auto

lemma f64_le_not_NaN: "f64_le a b \<Longrightarrow> a \<noteq> F_NaN \<and> b \<noteq> F_NaN"
  by (cases a; cases b) auto

lemma f64_lt_iff_not_le: "f64_lt a b \<longleftrightarrow> a \<noteq> F_NaN \<and> b \<noteq> F_NaN \<and> \<not> f64_le b a"
  using f64_le_total [of a b] f64_le_not_NaN [of a b] by (auto simp: f64_lt_def)

lemma f64_eq_refl_iff: "f64_eq a a \<longleftrightarrow> a \<noteq> F_NaN"
  using f64_le_refl [of a] by (auto simp: f64_eq_def)

lemma f64_eq_sym: "f64_eq a b \<longleftrightarrow> f64_eq b a"
  by (auto simp: f64_eq_def)

lemma f64_eq_trans: "f64_eq a b \<Longrightarrow> f64_eq b c \<Longrightarrow> f64_eq a c"
  by (auto simp: f64_eq_def intro: f64_le_trans)

text \<open>Rounding of an exact result to the nearest float64, ties to even.\<close>

definition pow2 :: "int \<Rightarrow> rat" where
  "pow2 e = (if 0 \<le> e then 2 ^ nat e else 1 / 2 ^ nat (- e))"

function bit_length :: "int \<Rightarrow> int" where
  "bit_length n = (if n \<le> 0 then 0 else 1 + bit_length (n div 2))"
  by pat_completeness auto
termination
  by (relation "measure nat") auto

declare bit_length.simps [simp del]

definition floor_log2 :: "rat \<Rightarrow> int" where
  "floor_log2 q =
     (let (n, d) = quotient_of q; e = bit_length n - bit_length d
      in if pow2 e \<le> q then e else e - 1)"

definition round_half_even :: "rat \<Rightarrow> int" where
  "round_half_even q =
     (let f = \<lfloor>q\<rfloor>; r = q - of_int f
      in if r < 1 / 2 then f else if r > 1 / 2 then f + 1 else if even f then f else f + 1)"

definition round_f64 :: "rat \<Rightarrow> f64" where
  "round_f64 q =
     (if q = 0 then F_Fin 0
      else let u = max (floor_log2 \<bar>q\<bar> - 52) (- 1074);
               v = of_int (round_half_even (q / pow2 u)) * pow2 u
           in if v \<ge> pow2 1024 then F_PInf
              else if v \<le> - pow2 1024 then F_NInf
              else if v = 0 \<and> q < 0 then F_NegZero else F_Fin v)"

lemma round_half_even_error: "\<bar>of_int (round_half_even q) - q\<bar> \<le> 1 / 2"
proof -
  have lo: "of_int \<lfloor>q\<rfloor> \<le> q" and hi: "q < of_int \<lfloor>q\<rfloor> + 1"
    by linarith+
  then show ?thesis by (auto simp: round_half_even_def Let_def)
qed

lemma round_half_even_int [simp]: "round_half_even (of_int i) = i"
  by (simp add: round_half_even_def)

fun f64_add :: "f64 \<Rightarrow> f64 \<Rightarrow> f64" where
  "f64_add F_NaN _ = F_NaN"
| "f64_add _ F_NaN = F_NaN"
| "f64_add F_PInf F_NInf = F_NaN"
| "f64_add F_NInf F_PInf = F_NaN"
| "f64_add F_PInf _ = F_PInf"
| "f64_add _ F_PInf = F_PInf"
| "f64_add F_NInf _ = F_NInf"
| "f64_add _ F_NInf = F_NInf"
| "f64_add F_NegZero F_NegZero = F_NegZero"
| "f64_add a b = round_f64 (f64_num a + f64_num b)"

lemma f64_add_NaN [simp]: "f64_add a F_NaN = F_NaN"
  by (cases a) auto

section \<open>time.Time\<close>

text \<open>
  A time has a wall clock reading, in nanoseconds since the zero time (year 1), and
  possibly a monotonic one. \<open>Sub\<close> uses the monotonic readings when both operands have one,
  and saturates at the ends of the \<open>Duration\<close> range.
\<close>

record go_time =
  wall :: int
  mono :: "int option"

definition zero_time :: go_time where
  "zero_time = \<lparr>wall = 0, mono = None\<rparr>"

definition time_sub :: "go_time \<Rightarrow> go_time \<Rightarrow> duration" where
  "time_sub t u = sat_i64 (case (mono t, mono u) of
       (Some a, Some b) \<Rightarrow> a - b
     | _ \<Rightarrow> wall t - wall u)"

lemma time_sub_self [simp]: "time_sub t t = 0"
  by (simp add: time_sub_def sat_i64_def max_i64_def min_i64_def split: option.splits)

lemma time_sub_range [simp, intro]: "in_i64 (time_sub t u)"
  by (simp add: time_sub_def)

section \<open>Decimal rendering (strconv.Itoa, the verb \<open>%d\<close>)\<close>

definition digit_char :: "nat \<Rightarrow> char" where
  "digit_char n = ''0123456789'' ! n"

function nat_dec :: "nat \<Rightarrow> string" where
  "nat_dec n = (if n < 10 then [digit_char n] else nat_dec (n div 10) @ [digit_char (n mod 10)])"
  by pat_completeness auto
termination
  by (relation "measure id") auto

declare nat_dec.simps [simp del]

definition itoa :: "int \<Rightarrow> string" where
  "itoa i = (if i < 0 then ''-'' @ nat_dec (nat (- i)) else nat_dec (nat i))"

definition is_digit :: "char \<Rightarrow> bool" where
  "is_digit c \<longleftrightarrow> c \<in> set ''0123456789''"

definition digit_val :: "char \<Rightarrow> nat" where
  "digit_val c = length (takeWhile (\<lambda>d. d \<noteq> c) ''0123456789'')"

definition dec_nat :: "string \<Rightarrow> nat" where
  "dec_nat s = foldl (\<lambda>n c. 10 * n + digit_val c) 0 s"

text \<open>ASCII letters.\<close>

definition is_upper :: "char \<Rightarrow> bool" where
  "is_upper c \<longleftrightarrow> 65 \<le> (of_char c :: nat) \<and> (of_char c :: nat) \<le> 90"

definition is_lower :: "char \<Rightarrow> bool" where
  "is_lower c \<longleftrightarrow> 97 \<le> (of_char c :: nat) \<and> (of_char c :: nat) \<le> 122"

definition to_lower :: "char \<Rightarrow> char" where
  "to_lower c = (if is_upper c then char_of (of_char c + 32 :: nat) else c)"

lemma digit_cases:
  assumes "n < 10"
  obtains "n = 0" | "n = 1" | "n = 2" | "n = 3" | "n = 4"
    | "n = 5" | "n = 6" | "n = 7" | "n = 8" | "n = (9 :: nat)"
  using assms by (auto simp: less_Suc_eq numeral_eq_Suc)

lemma digit_val_char [simp]: "n < 10 \<Longrightarrow> digit_val (digit_char n) = n"
  by (erule digit_cases) (simp_all add: digit_val_def digit_char_def)

lemma is_digit_char [simp]: "n < 10 \<Longrightarrow> is_digit (digit_char n)"
  by (erule digit_cases) (simp_all add: is_digit_def digit_char_def)

lemma dec_nat_snoc: "dec_nat (s @ [c]) = 10 * dec_nat s + digit_val c"
  by (simp add: dec_nat_def)

lemma dec_nat_nat_dec [simp]: "dec_nat (nat_dec n) = n"
proof (induction n rule: nat_dec.induct)
  case (1 n)
  show ?case
  proof (cases "n < 10")
    case True
    then show ?thesis by (simp add: nat_dec.simps [of n] dec_nat_def)
  next
    case False
    with 1 show ?thesis by (simp add: nat_dec.simps [of n] dec_nat_snoc)
  qed
qed

lemma nat_dec_digits: "list_all is_digit (nat_dec n)"
proof (induction n rule: nat_dec.induct)
  case (1 n)
  then show ?case by (cases "n < 10") (simp_all add: nat_dec.simps [of n])
qed

lemma nat_dec_nonempty [simp]: "nat_dec n \<noteq> []"
  by (cases "n < 10") (simp_all add: nat_dec.simps [of n])

lemma nat_dec_inj: "nat_dec m = nat_dec n \<longleftrightarrow> m = n"
  by (metis dec_nat_nat_dec)

lemma hd_nat_dec_not_minus: "nat_dec n \<noteq> CHR ''-'' # s"
proof
  assume "nat_dec n = CHR ''-'' # s"
  with nat_dec_digits [of n] have "is_digit (CHR ''-'')" by simp
  then show False by (simp add: is_digit_def)
qed

lemma itoa_inj: "itoa i = itoa j \<longleftrightarrow> i = j"
proof (cases "i < 0"; cases "j < 0")
  assume "i < 0" "j < 0"
  then show ?thesis by (auto simp: itoa_def nat_dec_inj)
next
  assume "i < 0" "\<not> j < 0"
  then show ?thesis
    using hd_nat_dec_not_minus [of "nat j" "nat_dec (nat (- i))"] by (simp add: itoa_def)
next
  assume "\<not> i < 0" "j < 0"
  then show ?thesis
    using hd_nat_dec_not_minus [of "nat i" "nat_dec (nat (- j))"] by (simp add: itoa_def)
next
  assume "\<not> i < 0" "\<not> j < 0"
  then show ?thesis by (auto simp: itoa_def nat_dec_inj)
qed

section \<open>Maps\<close>

text \<open>
  A Go map is an association list with distinct keys: \<open>AList.update\<close> stores, \<open>AList.delete\<close>
  removes, \<open>map_of\<close> looks up. A \<open>range\<close> over a map visits each entry once, in an order the
  runtime picks: a function that ranges takes that order as a parameter \<open>it\<close>, and its
  theorems hold for every \<open>it\<close> that permutes.
\<close>

type_synonym ('k, 'v) gomap = "('k \<times> 'v) list"

definition wf_gomap :: "('k, 'v) gomap \<Rightarrow> bool" where
  "wf_gomap m \<longleftrightarrow> distinct (map fst m)"

definition iter_order :: "('a list \<Rightarrow> 'a list) \<Rightarrow> bool" where
  "iter_order it \<longleftrightarrow> (\<forall>xs. mset (it xs) = mset xs)"

lemma wf_gomap_empty [wf_intros, simp]: "wf_gomap []"
  by (simp add: wf_gomap_def)

lemma wf_gomap_update [wf_intros]: "wf_gomap m \<Longrightarrow> wf_gomap (AList.update k v m)"
  by (simp add: wf_gomap_def distinct_update)

lemma wf_gomap_delete [wf_intros]: "wf_gomap m \<Longrightarrow> wf_gomap (AList.delete k m)"
  by (simp add: wf_gomap_def distinct_delete)

lemma set_gomap: "wf_gomap m \<Longrightarrow> set (map snd m) = ran (map_of m)"
  by (force simp: wf_gomap_def ran_def map_of_eq_Some_iff)

lemma iter_order_mset: "iter_order it \<Longrightarrow> mset (it xs) = mset xs"
  by (simp add: iter_order_def)

lemma iter_order_set: "iter_order it \<Longrightarrow> set (it xs) = set xs"
  by (metis iter_order_mset set_mset_mset)

lemma iter_order_length: "iter_order it \<Longrightarrow> length (it xs) = length xs"
  by (metis iter_order_mset size_mset)

lemma iter_order_distinct: "iter_order it \<Longrightarrow> distinct (it xs) \<longleftrightarrow> distinct xs"
  by (metis iter_order_mset mset_eq_imp_distinct_iff)

lemma iter_order_id [simp]: "iter_order (\<lambda>xs. xs)"
  by (simp add: iter_order_def)

lemma iter_order_rev [simp]: "iter_order rev"
  by (simp add: iter_order_def)

end
