(* ===== verification/Fifo.thy ===== *)
theory Fifo
  imports Go_Prelude
begin

text \<open>
  src/queue/fifo.go: the bounded queue that holds the unpublished messages of an MQTT client.
  \<open>list.List\<close> is a sequence with \<open>PushBack\<close>, \<open>Front\<close> and \<open>Remove\<close>; each operation runs
  under the mutex and is one atomic step. The locale \<open>bounded_queue\<close> is the interface the
  MQTT client relies on.
\<close>

section \<open>Operations\<close>

record 'a fifo =
  maxLength :: int
  fifo_list :: "'a list"

definition NewFifo :: "int \<Rightarrow> 'a fifo" where
  "NewFifo maxLen = \<lparr>maxLength = maxLen, fifo_list = []\<rparr>"

definition Enqueue :: "'a fifo \<Rightarrow> 'a \<Rightarrow> 'a fifo" where
  "Enqueue q v =
     (if maxLength q < 1 then q
      else let l = fifo_list q @ [v]
           in q\<lparr>fifo_list := (if int (length l) > maxLength q then tl l else l)\<rparr>)"

definition Dequeue :: "'a fifo \<Rightarrow> 'a option \<times> 'a fifo" where
  "Dequeue q =
     (case fifo_list q of
        [] \<Rightarrow> (None, q)
      | v # vs \<Rightarrow> (Some v, q\<lparr>fifo_list := vs\<rparr>))"

section \<open>The interface\<close>

lemma drop_1_drop_snoc: "m \<le> length c \<Longrightarrow> drop 1 (drop m c @ [x]) = drop (Suc m) (c @ [x])"
  by (induction c arbitrary: m) (auto simp: drop_Cons' split: if_splits)

text \<open>
  \<open>cap q\<close> is the number of values \<open>q\<close> keeps: an enqueue keeps the newest \<open>cap q\<close> of the old
  content and the new value, a dequeue takes the oldest.
\<close>

locale bounded_queue =
  fixes enq :: "'q \<Rightarrow> 'a \<Rightarrow> 'q"
    and deq :: "'q \<Rightarrow> 'a option \<times> 'q"
    and content :: "'q \<Rightarrow> 'a list"
    and cap :: "'q \<Rightarrow> nat"
    and inv :: "'q \<Rightarrow> bool"
  assumes bounded: "inv q \<Longrightarrow> length (content q) \<le> cap q"
    and content_enq: "inv q \<Longrightarrow>
      content (enq q v) = drop (Suc (length (content q)) - cap q) (content q @ [v])"
    and cap_enq: "cap (enq q v) = cap q"
    and inv_enq: "inv q \<Longrightarrow> inv (enq q v)"
    and deq_empty: "content q = [] \<Longrightarrow> deq q = (None, q)"
    and deq_cons: "content q = v # vs \<Longrightarrow> \<exists>q'. deq q = (Some v, q') \<and> content q' = vs \<and> cap q' = cap q"
    and inv_deq: "inv q \<Longrightarrow> inv (snd (deq q))"
begin

definition enq_all :: "'q \<Rightarrow> 'a list \<Rightarrow> 'q" where
  "enq_all q xs = foldl enq q xs"

lemma inv_enq_all: "inv q \<Longrightarrow> inv (enq_all q xs)"
  unfolding enq_all_def by (induction xs arbitrary: q) (auto intro: inv_enq)

lemma cap_enq_all: "cap (enq_all q xs) = cap q"
  unfolding enq_all_def by (induction xs arbitrary: q) (auto simp: cap_enq)

lemma content_enq_all:
  "inv q \<Longrightarrow> content (enq_all q xs) = drop (length (content q) + length xs - cap q) (content q @ xs)"
proof (induction xs rule: rev_induct)
  case Nil
  then show ?case by (simp add: enq_all_def bounded)
next
  case (snoc x xs)
  let ?q = "enq_all q xs" and ?c = "content q @ xs" and ?n = "length (content q) + length xs"
  have step: "enq_all q (xs @ [x]) = enq ?q x"
    by (simp add: enq_all_def)
  have old: "content ?q = drop (?n - cap q) ?c"
    using snoc by simp
  have "content (enq ?q x) = drop (Suc (length (content ?q)) - cap q) (content ?q @ [x])"
    using snoc.prems by (simp add: content_enq inv_enq_all cap_enq_all)
  also have "\<dots> = drop (Suc ?n - cap q) (?c @ [x])"
  proof (cases "cap q \<le> ?n")
    case True
    then have "Suc (length (content ?q)) - cap q = 1"
      by (simp add: old)
    then have "drop (Suc (length (content ?q)) - cap q) (content ?q @ [x])
        = drop 1 (drop (?n - cap q) ?c @ [x])"
      by (simp only: old)
    also have "\<dots> = drop (Suc (?n - cap q)) (?c @ [x])"
      by (rule drop_1_drop_snoc) simp
    finally show ?thesis
      using True by (simp only: Suc_diff_le)
  next
    case False
    then show ?thesis by (simp add: old)
  qed
  finally show ?case by (simp add: step)
qed

lemma deq_some_iff: "fst (deq q) = Some v \<longleftrightarrow> (\<exists>vs. content q = v # vs)"
  by (cases "content q") (use deq_empty deq_cons in fastforce)+

end

section \<open>The code's queue is a bounded queue\<close>

definition fifo_cap :: "'a fifo \<Rightarrow> nat" where
  "fifo_cap q = nat (maxLength q)"

definition wf_fifo :: "'a fifo \<Rightarrow> bool" where
  "wf_fifo q \<longleftrightarrow> length (fifo_list q) \<le> fifo_cap q"

interpretation fifo: bounded_queue Enqueue Dequeue fifo_list fifo_cap wf_fifo
proof unfold_locales
  fix q :: "'a fifo" and v :: 'a
  assume wf: "wf_fifo q"
  then show "length (fifo_list q) \<le> fifo_cap q"
    by (simp add: wf_fifo_def)
  have len: "int (length (fifo_list q)) \<le> maxLength q" if "maxLength q \<ge> 1"
    using wf that by (simp add: wf_fifo_def fifo_cap_def)
  show content: "fifo_list (Enqueue q v) = drop (Suc (length (fifo_list q)) - fifo_cap q) (fifo_list q @ [v])"
  proof (cases "maxLength q < 1")
    case True
    with wf show ?thesis by (simp add: Enqueue_def wf_fifo_def fifo_cap_def)
  next
    case False
    show ?thesis
    proof (cases "int (length (fifo_list q)) = maxLength q")
      case True
      with False have "Suc (length (fifo_list q)) - fifo_cap q = 1"
        by (simp add: fifo_cap_def)
      moreover have "fifo_list q \<noteq> []"
        using True False by auto
      ultimately show ?thesis
        using True False by (simp add: Enqueue_def Let_def drop_Suc)
    next
      case neq: False
      with len False have "Suc (length (fifo_list q)) - fifo_cap q = 0"
        by (simp add: fifo_cap_def)
      with neq len False show ?thesis
        by (simp add: Enqueue_def Let_def)
    qed
  qed
  have "length (fifo_list (Enqueue q v)) \<le> fifo_cap q"
    by (simp only: content length_drop) simp
  moreover have "fifo_cap (Enqueue q v) = fifo_cap q"
    by (simp add: fifo_cap_def Enqueue_def Let_def)
  ultimately show "wf_fifo (Enqueue q v)"
    by (simp add: wf_fifo_def)
  show "wf_fifo (snd (Dequeue q))"
    using wf by (auto simp: Dequeue_def wf_fifo_def fifo_cap_def split: list.splits)
qed (simp_all add: Enqueue_def Dequeue_def fifo_cap_def Let_def)

lemma wf_NewFifo [wf_intros, simp]: "wf_fifo (NewFifo n)"
  by (simp add: wf_fifo_def NewFifo_def)

declare fifo.inv_enq [wf_intros] fifo.inv_deq [wf_intros]

section \<open>Properties\<close>


end
