(* ===== verification/Pool.thy ===== *)
theory Pool
  imports Go_Prelude
begin

text \<open>
  src/pool/pool.go: the pools of running devices, modbus buses and MQTT clients, looked up by
  name. \<open>nm\<close> is the items' \<open>Name\<close> method. A lookup of an unknown name gives the zero value
  of the item type, a nil pointer, which the callers test for: \<open>None\<close>. Each operation runs
  under the pool's lock and is one atomic step.
\<close>

record 'i pool =
  items :: "(string, 'i) gomap"

definition RunPool :: "'i pool" where
  "RunPool = \<lparr>items = []\<rparr>"

definition Pool_Shutdown :: "(('a \<times> 'i) list \<Rightarrow> ('a \<times> 'i) list) \<Rightarrow> ('a \<times> 'i) list \<Rightarrow> 'i list" where
  \<comment> \<open>the items whose \<open>Shutdown\<close> is called, in the order of the range\<close>
  "Pool_Shutdown it m = map snd (it m)"

definition Pool_Add :: "('i \<Rightarrow> string) \<Rightarrow> 'i pool \<Rightarrow> 'i \<Rightarrow> 'i pool" where
  "Pool_Add nm p i = p\<lparr>items := AList.update (nm i) i (items p)\<rparr>"

definition Pool_Remove :: "('i \<Rightarrow> string) \<Rightarrow> 'i pool \<Rightarrow> 'i \<Rightarrow> 'i pool" where
  "Pool_Remove nm p i = p\<lparr>items := AList.delete (nm i) (items p)\<rparr>"

definition Pool_GetAll :: "'i pool \<Rightarrow> (string, 'i) gomap" where
  "Pool_GetAll p = items p"

definition Pool_GetByName :: "'i pool \<Rightarrow> string \<Rightarrow> 'i option" where
  "Pool_GetByName p n = map_of (items p) n"

fun Pool_GetByNames :: "'i pool \<Rightarrow> string list \<Rightarrow> 'i list" where
  "Pool_GetByNames p [] = []"
| "Pool_GetByNames p (n # ns) =
     (case map_of (items p) n of
        Some i \<Rightarrow> i # Pool_GetByNames p ns
      | None \<Rightarrow> Pool_GetByNames p ns)"

section \<open>The interface\<close>

locale named_pool =
  fixes nm :: "'i \<Rightarrow> string"
    and add :: "'p \<Rightarrow> 'i \<Rightarrow> 'p"
    and remove :: "'p \<Rightarrow> 'i \<Rightarrow> 'p"
    and get :: "'p \<Rightarrow> string \<Rightarrow> 'i option"
    and inv :: "'p \<Rightarrow> bool"
  assumes get_add: "get (add p i) n = (if n = nm i then Some i else get p n)"
    and get_remove: "inv p \<Longrightarrow> get (remove p i) n = (if n = nm i then None else get p n)"
    and get_named: "inv p \<Longrightarrow> get p n = Some i \<Longrightarrow> nm i = n"
    and inv_add: "inv p \<Longrightarrow> inv (add p i)"
    and inv_remove: "inv p \<Longrightarrow> inv (remove p i)"
begin

definition add_all :: "'p \<Rightarrow> 'i list \<Rightarrow> 'p" where
  "add_all p xs = foldl add p xs"

lemma inv_add_all: "inv p \<Longrightarrow> inv (add_all p xs)"
  unfolding add_all_def by (induction xs arbitrary: p) (auto intro: inv_add)

lemma get_add_all:
  "get (add_all p xs) n =
     (case find (\<lambda>i. nm i = n) (rev xs) of Some i \<Rightarrow> Some i | None \<Rightarrow> get p n)"
proof (induction xs rule: rev_induct)
  case Nil
  show ?case by (simp add: add_all_def)
next
  case (snoc x xs)
  then show ?case by (auto simp: add_all_def get_add)
qed

lemma get_add_all_distinct:
  assumes "distinct (map nm xs)" and "x \<in> set xs"
  shows "get (add_all p xs) (nm x) = Some x"
  using assms
proof (induction xs rule: rev_induct)
  case (snoc y xs)
  show ?case
  proof (cases "x = y")
    case True
    then show ?thesis by (simp add: add_all_def get_add)
  next
    case False
    with snoc.prems have "x \<in> set xs" and "nm x \<noteq> nm y"
      by (auto simp: image_iff)
    with snoc show ?thesis by (simp add: add_all_def get_add)
  qed
qed simp

end

definition wf_pool :: "('i \<Rightarrow> string) \<Rightarrow> 'i pool \<Rightarrow> bool" where
  "wf_pool nm p \<longleftrightarrow> wf_gomap (items p) \<and> (\<forall>(k, i) \<in> set (items p). k = nm i)"

lemma wf_RunPool [wf_intros, simp]: "wf_pool nm RunPool"
  by (simp add: wf_pool_def RunPool_def)

lemma set_AList_update: "set (AList.update k v m) \<subseteq> insert (k, v) (set m)"
  by (induction m) (auto split: if_splits)

lemma set_AList_delete: "set (AList.delete k m) \<subseteq> set m"
  by (simp add: AList.delete_eq)

interpretation pool: named_pool nm "Pool_Add nm" "Pool_Remove nm" Pool_GetByName "wf_pool nm"
  for nm :: "'i \<Rightarrow> string"
proof unfold_locales
  fix p :: "'i pool" and i j :: 'i and n
  show "Pool_GetByName (Pool_Add nm p i) n = (if n = nm i then Some i else Pool_GetByName p n)"
    by (simp add: Pool_GetByName_def Pool_Add_def update_conv')
  assume wf: "wf_pool nm p"
  show "Pool_GetByName (Pool_Remove nm p i) n = (if n = nm i then None else Pool_GetByName p n)"
    by (simp add: Pool_GetByName_def Pool_Remove_def delete_conv')
  show "wf_pool nm (Pool_Add nm p i)"
    using wf set_AList_update [of "nm i" i "items p"]
    by (auto simp: wf_pool_def Pool_Add_def intro: wf_intros)
  show "wf_pool nm (Pool_Remove nm p i)"
    using wf set_AList_delete [of "nm i" "items p"]
    by (auto simp: wf_pool_def Pool_Remove_def intro: wf_intros)
  assume "Pool_GetByName p n = Some j"
  then show "nm j = n"
    using wf by (auto simp: Pool_GetByName_def wf_pool_def dest: map_of_SomeD)
qed

lemma Pool_GetByNames_eq: "Pool_GetByNames p ns = List.map_filter (Pool_GetByName p) ns"
  by (induction ns) (auto simp: Pool_GetByName_def map_filter_simps split: option.splits)

lemma Pool_Shutdown_all:
  "iter_order it \<Longrightarrow> mset (Pool_Shutdown it m) = mset (map snd m)"
  by (simp add: Pool_Shutdown_def iter_order_mset)

section \<open>Properties\<close>

text \<open>
  In a pool filled by any sequence of additions a name finds the item added last under it,
  and nothing once that item is removed; the other names are not affected by the removal.
\<close>

theorem pool_lookup:
  "Pool_GetByName (foldl (Pool_Add nm) RunPool xs) n = find (\<lambda>i. nm i = n) (rev xs) \<and>
   Pool_GetByName (Pool_Remove nm (foldl (Pool_Add nm) RunPool xs) i) n =
     (if n = nm i then None else find (\<lambda>i. nm i = n) (rev xs))"
proof -
  let ?p = "foldl (Pool_Add nm) RunPool xs"
  have found: "Pool_GetByName ?p n = find (\<lambda>i. nm i = n) (rev xs)"
    using pool.get_add_all [of nm RunPool xs n]
    by (simp add: pool.add_all_def Pool_GetByName_def RunPool_def split: option.splits)
  moreover have "wf_pool nm ?p"
    using pool.inv_add_all [OF wf_RunPool, of nm xs] by (simp add: pool.add_all_def)
  ultimately show ?thesis
    by (simp add: pool.get_remove)
qed

end
