(* ===== verification/Restarter.thy ===== *)
theory Restarter
  imports Go_Prelude
begin

text \<open>
  src/restarter/restarter.go: the watchdog that runs a device, and runs it again after a
  growing delay when it ends with an error. The goroutine's loop is a function of what the
  service and the select of each round return.
\<close>

record restarter_config =
  RestartInterval :: duration
  RestartIntervalMaxBackoff :: duration

text \<open>
  \<open>errorsInARow\<close> counts up from zero, so it is a natural number. The multiplication is on
  \<open>time.Duration\<close>, an int64, and wraps around.
\<close>

definition getRestartInterval :: "restarter_config \<Rightarrow> nat \<Rightarrow> duration" where
  "getRestartInterval cfg errorsInARow =
     (let k = (if errorsInARow > 16 then 16 else errorsInARow);
          backoffFactor = 2 ^ k;
          interval = wrap_i64 (RestartInterval cfg * backoffFactor);
          mx = RestartIntervalMaxBackoff cfg
      in if interval > mx then mx else interval)"

text \<open>
  A call of the service's \<open>Run\<close> returns no error, or an error and the \<open>immediateError\<close>
  flag; the select that follows an error ends by the context or by the timer.
\<close>

datatype run_result = RunOk | RunErr (immediateError: bool)
datatype wait_result = CtxDone | TimerFired
datatype loop_status = LoopReturned | LoopRunning

text \<open>
  The loop gives the delays it waits for and whether it has returned; it is still running
  when the given rounds are used up.
\<close>

fun restart_loop ::
  "restarter_config \<Rightarrow> nat \<Rightarrow> (run_result \<times> wait_result) list \<Rightarrow> duration list \<times> loop_status" where
  "restart_loop cfg immediateErrorsInARow [] = ([], LoopRunning)"
| "restart_loop cfg immediateErrorsInARow ((RunOk, _) # rs) = ([], LoopReturned)"
| "restart_loop cfg immediateErrorsInARow ((RunErr immediate, w) # rs) =
     (let n = (if immediate then Suc immediateErrorsInARow else 0);
          retryIn = getRestartInterval cfg n
      in case w of
           CtxDone \<Rightarrow> ([retryIn], LoopReturned)
         | TimerFired \<Rightarrow> (let (ds, st) = restart_loop cfg n rs in (retryIn # ds, st)))"

text \<open>
  The restarter: \<open>Run\<close> starts the goroutine unless the context is cancelled already,
  \<open>Shutdown\<close> cancels it and waits for the goroutines.
\<close>

record restarter =
  rs_config :: restarter_config
  rs_cancelled :: bool
  rs_wg :: nat
  rs_isRunning :: bool

definition CreateRestarter :: "restarter_config \<Rightarrow> restarter" where
  "CreateRestarter cfg =
     \<lparr>rs_config = cfg, rs_cancelled = False, rs_wg = 0, rs_isRunning = False\<rparr>"

definition Restarter_Run :: "restarter \<Rightarrow> restarter" where
  "Restarter_Run w = (if rs_cancelled w then w else w\<lparr>rs_wg := Suc (rs_wg w)\<rparr>)"

definition Restarter_loop_done :: "restarter \<Rightarrow> restarter" where
  \<comment> \<open>the deferred \<open>wg.Done\<close> of a goroutine whose loop has returned\<close>
  "Restarter_loop_done w = w\<lparr>rs_wg := rs_wg w - 1\<rparr>"

definition Restarter_cancel :: "restarter \<Rightarrow> restarter" where
  \<comment> \<open>the first half of \<open>Shutdown\<close>; the second is enabled when \<open>rs_wg\<close> is zero\<close>
  "Restarter_cancel w = w\<lparr>rs_cancelled := True\<rparr>"

section \<open>Delays\<close>

definition no_overflow :: "restarter_config \<Rightarrow> bool" where
  "no_overflow cfg \<longleftrightarrow> 0 \<le> RestartInterval cfg \<and> RestartInterval cfg * 2 ^ 16 \<le> max_i64"

lemma pow_cap: "(2 :: int) ^ (if n > 16 then 16 else n) = 2 ^ min n 16" for n :: nat
  by (simp add: min_def)

lemma getRestartInterval_eq:
  assumes "no_overflow cfg"
  shows "getRestartInterval cfg n =
    min (RestartInterval cfg * 2 ^ min n 16) (RestartIntervalMaxBackoff cfg)"
proof -
  let ?i = "RestartInterval cfg"
  have "(2 :: int) ^ min n 16 \<le> 2 ^ 16"
    by (rule power_increasing) auto
  then have "?i * 2 ^ min n 16 \<le> ?i * 2 ^ 16"
    using assms by (intro mult_left_mono) (auto simp: no_overflow_def)
  moreover have "0 \<le> ?i * 2 ^ min n 16"
    using assms by (simp add: no_overflow_def)
  ultimately have "in_i64 (?i * 2 ^ min n 16)"
    using assms by (simp add: in_i64_def no_overflow_def min_i64_def)
  then have "wrap_i64 (?i * 2 ^ min n 16) = ?i * 2 ^ min n 16"
    by (rule wrap_i64_id)
  then show ?thesis
    unfolding getRestartInterval_def Let_def pow_cap by (simp add: min_def)
qed

lemma getRestartInterval_mono:
  assumes "no_overflow cfg" and "m \<le> n"
  shows "getRestartInterval cfg m \<le> getRestartInterval cfg n"
proof -
  have "(2 :: int) ^ min m 16 \<le> 2 ^ min n 16"
    using assms(2) by (intro power_increasing) auto
  then have "RestartInterval cfg * 2 ^ min m 16 \<le> RestartInterval cfg * 2 ^ min n 16"
    using assms(1) by (intro mult_left_mono) (auto simp: no_overflow_def)
  then show ?thesis
    by (simp add: getRestartInterval_eq [OF assms(1)] min_def)
qed

lemma getRestartInterval_le_max:
  "getRestartInterval cfg n \<le> RestartIntervalMaxBackoff cfg"
  by (simp add: getRestartInterval_def Let_def)

section \<open>The loop\<close>

fun error_counts :: "nat \<Rightarrow> run_result list \<Rightarrow> nat list" where
  "error_counts n [] = []"
| "error_counts n (RunOk # rs) = []"
| "error_counts n (RunErr immediate # rs) =
     (let n' = (if immediate then Suc n else 0) in n' # error_counts n' rs)"

text \<open>With the timer ending every select, the delays are those of the error counts.\<close>

lemma restart_loop_delays:
  "fst (restart_loop cfg n (map (\<lambda>r. (r, TimerFired)) rs)) =
     map (getRestartInterval cfg) (error_counts n rs)"
  by (induction n rs rule: error_counts.induct) (auto simp: Let_def split: prod.splits)

lemma error_counts_immediate:
  "error_counts n (replicate m (RunErr True)) = map (\<lambda>i. n + i) [1..<Suc m]"
proof (induction m arbitrary: n)
  case (Suc m)
  have "[1..<Suc (Suc m)] = 1 # map Suc [1..<Suc m]"
    by (simp add: upt_conv_Cons map_Suc_upt del: upt_Suc)
  with Suc show ?case
    by (simp add: Let_def del: upt_Suc)
qed simp

lemma error_counts_bound: "c \<in> set (error_counts n rs) \<Longrightarrow> c \<le> n + length rs"
  by (induction n rs rule: error_counts.induct) (auto simp: Let_def split: if_splits)

lemma restart_loop_stops_iff:
  "snd (restart_loop cfg n rs) = LoopReturned \<longleftrightarrow>
     list_ex (\<lambda>(r, w). r = RunOk \<or> w = CtxDone) rs"
  by (induction cfg n rs rule: restart_loop.induct)
    (auto simp: Let_def split: prod.splits wait_result.splits)

section \<open>Properties\<close>



text \<open>
  The restarter's loop ends exactly when some run of the service returned without an error
  or the context was done during a wait; otherwise it keeps running, one delay per error.
\<close>

theorem restart_loop_ends:
  "snd (restart_loop cfg n rs) =
     (if list_ex (\<lambda>(r, w). r = RunOk \<or> w = CtxDone) rs then LoopReturned else LoopRunning) \<and>
   list_all (\<lambda>d. d \<le> RestartIntervalMaxBackoff cfg) (fst (restart_loop cfg n rs))"
proof -
  have "d \<le> RestartIntervalMaxBackoff cfg" if "d \<in> set (fst (restart_loop cfg n rs))" for d
    using that
    by (induction cfg n rs rule: restart_loop.induct)
      (auto simp: Let_def getRestartInterval_le_max split: prod.splits wait_result.splits)
  then show ?thesis
    using restart_loop_stops_iff [of cfg n rs]
    by (cases "snd (restart_loop cfg n rs)") (auto simp: list_all_iff)
qed

end
