(* ===== verification/Topic_Matcher.thy ===== *)
theory Topic_Matcher
  imports Go_Prelude
begin

text \<open>
  src/topicMatcher/topicMatcher.go: a matcher made from an MQTT topic template with one
  placeholder, which extracts the variable part of a topic. The code builds a regular
  expression from the quoted template; the model builds the same expression string and
  interprets the fragment of the regexp syntax such strings use: literal characters, quoted
  characters and the capture group of one or more characters other than a slash, anchored at
  both ends.
\<close>

section \<open>Strings\<close>

fun is_prefix :: "string \<Rightarrow> string \<Rightarrow> bool" where
  "is_prefix [] s = True"
| "is_prefix (c # cs) [] = False"
| "is_prefix (c # cs) (d # ds) = (c = d \<and> is_prefix cs ds)"

lemma is_prefix_iff: "is_prefix p s \<longleftrightarrow> (\<exists>r. s = p @ r)"
  by (induction p s rule: is_prefix.induct) auto

lemma is_prefix_append [simp]: "is_prefix p (p @ s)"
  by (auto simp: is_prefix_iff)

text \<open>\<open>strings.Contains\<close> and \<open>strings.Replace\<close> with count 1 (a non-empty old string).\<close>

fun str_contains :: "string \<Rightarrow> string \<Rightarrow> bool" where
  "str_contains [] p = (p = [])"
| "str_contains (c # s) p = (is_prefix p (c # s) \<or> str_contains s p)"

fun replace_first :: "string \<Rightarrow> string \<Rightarrow> string \<Rightarrow> string" where
  "replace_first old new [] = (if old = [] then new else [])"
| "replace_first old new (c # s) =
     (if is_prefix old (c # s) then new @ drop (length old) (c # s)
      else c # replace_first old new s)"

lemma str_contains_iff: "str_contains s p \<longleftrightarrow> (\<exists>u v. s = u @ p @ v)"
proof (induction s)
  case (Cons c s)
  have "(\<exists>u v. c # s = u @ p @ v) \<longleftrightarrow> (\<exists>v. c # s = p @ v) \<or> (\<exists>u v. s = u @ p @ v)"
    by (metis append_Cons append_Nil neq_Nil_conv list.inject)
  then show ?case
    by (simp add: Cons.IH is_prefix_iff)
qed auto

lemma str_contains_suffix: "\<not> str_contains s p \<Longrightarrow> s = u @ v \<Longrightarrow> \<not> str_contains v p"
  by (metis append.assoc str_contains_iff)

section \<open>Quoting\<close>

definition meta_chars :: string where
  "meta_chars = CHR 0x5C # ''.+*?()|[]{}^$''"

definition is_meta :: "char \<Rightarrow> bool" where
  "is_meta c \<longleftrightarrow> c \<in> set meta_chars"

fun QuoteMeta :: "string \<Rightarrow> string" where
  "QuoteMeta [] = []"
| "QuoteMeta (c # s) = (if is_meta c then CHR 0x5C # c # QuoteMeta s else c # QuoteMeta s)"

lemma QuoteMeta_append: "QuoteMeta (s @ t) = QuoteMeta s @ QuoteMeta t"
  by (induction s) auto

lemma QuoteMeta_no_meta: "list_all (\<lambda>c. \<not> is_meta c) s \<Longrightarrow> QuoteMeta s = s"
  by (induction s) auto

lemma is_meta_backslash [simp]: "is_meta (CHR 0x5C)"
  by (simp add: is_meta_def meta_chars_def)

section \<open>The regular expression\<close>

datatype rx = Lit char | Cap

definition regNameExpr :: string where
  "regNameExpr = ''([^'' @ [CHR 0x5C] @ ''/]+)''"

function parse_rx :: "string \<Rightarrow> rx list" where
  "parse_rx [] = []"
| "parse_rx (c # s) =
     (if is_prefix regNameExpr (c # s) then Cap # parse_rx (drop (length regNameExpr) (c # s))
      else if c = CHR 0x5C then (case s of [] \<Rightarrow> [Lit c] | d # t \<Rightarrow> Lit d # parse_rx t)
      else Lit c # parse_rx s)"
  by pat_completeness auto
termination
  by (relation "measure length") (auto simp: regNameExpr_def)

declare parse_rx.simps [simp del]

lemma parse_rx_Nil [simp]: "parse_rx [] = []"
  by (simp add: parse_rx.simps)

text \<open>Leftmost-first matching of the whole text: the capture is greedy and backtracks.\<close>

fun rx_match :: "rx list \<Rightarrow> string \<Rightarrow> string list option"
  and cap_match :: "rx list \<Rightarrow> string \<Rightarrow> nat \<Rightarrow> string list option" where
  "rx_match [] s = (if s = [] then Some [] else None)"
| "rx_match (Lit c # r) [] = None"
| "rx_match (Lit c # r) (d # s) = (if c = d then rx_match r s else None)"
| "rx_match (Cap # r) s =
     cap_match r s (length (takeWhile (\<lambda>c. c \<noteq> CHR ''/'') s))"
| "cap_match r s 0 = None"
| "cap_match r s (Suc n) =
     (case rx_match r (drop (Suc n) s) of
        Some caps \<Rightarrow> Some (take (Suc n) s # caps)
      | None \<Rightarrow> cap_match r s n)"

section \<open>The matcher\<close>

datatype matcher_error = PlaceholderNotFound | InvalidMatcher | TopicDoesNotMatch | NoSubmatchPanic

record TopicMatcher =
  tm_m :: "rx list option"

definition CreateMatcherSingleVariable :: "string \<Rightarrow> string \<Rightarrow> matcher_error + TopicMatcher" where
  "CreateMatcherSingleVariable topicTemplate variablePlaceholder =
     (if \<not> str_contains topicTemplate variablePlaceholder then Inl PlaceholderNotFound
      else Inr \<lparr>tm_m =
        Some (parse_rx (replace_first variablePlaceholder regNameExpr (QuoteMeta topicTemplate)))\<rparr>)"

definition ParseTopic :: "TopicMatcher \<Rightarrow> string \<Rightarrow> matcher_error + string" where
  "ParseTopic tm topic =
     (case tm_m tm of
        None \<Rightarrow> Inl InvalidMatcher
      | Some m \<Rightarrow> (case rx_match m topic of
          None \<Rightarrow> Inl TopicDoesNotMatch
        | Some [] \<Rightarrow> Inl NoSubmatchPanic
        | Some (v # vs) \<Rightarrow> Inr v))"

section \<open>What a matcher matches\<close>

lemma parse_quoted_lits:
  "parse_rx (QuoteMeta s @ t) = map Lit s @ parse_rx t"
proof (induction s)
  case (Cons c s)
  show ?case
  proof (cases "is_meta c")
    case True
    have "\<not> is_prefix regNameExpr (CHR 0x5C # c # QuoteMeta s @ t)"
      by (simp add: regNameExpr_def)
    with True Cons show ?thesis by (simp add: parse_rx.simps)
  next
    case False
    then have "c \<noteq> CHR 0x5C" and "c \<noteq> CHR ''(''"
      by (auto simp: is_meta_def meta_chars_def)
    then have "\<not> is_prefix regNameExpr (c # QuoteMeta s @ t)"
      by (simp add: regNameExpr_def)
    with False \<open>c \<noteq> CHR 0x5C\<close> Cons show ?thesis by (simp add: parse_rx.simps)
  qed
qed simp

lemma parse_capture: "parse_rx (regNameExpr @ t) = Cap # parse_rx t"
proof -
  have "regNameExpr @ t = CHR ''('' # tl regNameExpr @ t"
    by (simp add: regNameExpr_def)
  moreover have "is_prefix regNameExpr (regNameExpr @ t)" by simp
  ultimately show ?thesis
    by (metis append_eq_conv_conj parse_rx.simps(2))
qed

lemma parse_quoted [simp]: "parse_rx (QuoteMeta s) = map Lit s"
  using parse_quoted_lits [of s "[]"] by simp

lemma rx_match_lits: "rx_match (map Lit p @ r) s =
    (if is_prefix p s then rx_match r (drop (length p) s) else None)"
proof (induction p arbitrary: s)
  case (Cons c p)
  then show ?case by (cases s) auto
qed simp

lemma rx_match_all_lits: "rx_match (map Lit p) s = (if s = p then Some [] else None)"
  using rx_match_lits [of p "[]" s] by (auto simp: is_prefix_iff)

lemma cap_match_lits:
  "cap_match (map Lit post) s n =
     (if \<exists>k. 0 < k \<and> k \<le> n \<and> drop k s = post
      then Some [take (length s - length post) s] else None)"
proof (induction n)
  case (Suc n)
  show ?case
  proof (cases "drop (Suc n) s = post")
    case True
    then have "take (Suc n) s = take (length s - length post) s"
      by (metis append_take_drop_id append_eq_conv_conj length_drop length_take
          diff_diff_cancel min_def nat_le_linear take_all diff_is_0_eq' diff_zero)
    with True show ?thesis
      by (auto simp: rx_match_all_lits)
  next
    case False
    then have "(\<exists>k. 0 < k \<and> k \<le> Suc n \<and> drop k s = post) \<longleftrightarrow> (\<exists>k. 0 < k \<and> k \<le> n \<and> drop k s = post)"
      using le_Suc_eq by auto
    with False Suc show ?thesis
      by (simp add: rx_match_all_lits)
  qed
qed simp

text \<open>The template around the first occurrence of a placeholder.\<close>

fun split_first :: "string \<Rightarrow> string \<Rightarrow> (string \<times> string) option" where
  "split_first p [] = (if p = [] then Some ([], []) else None)"
| "split_first p (c # s) =
     (if is_prefix p (c # s) then Some ([], drop (length p) (c # s))
      else map_option (\<lambda>(u, v). (c # u, v)) (split_first p s))"

lemma is_prefix_drop: "is_prefix p s \<Longrightarrow> p @ drop (length p) s = s"
  by (auto simp: is_prefix_iff)

lemma split_first_Some: "split_first p s = Some (u, v) \<Longrightarrow> s = u @ p @ v"
proof (induction s arbitrary: u)
  case (Cons c s)
  show ?case
  proof (cases "is_prefix p (c # s)")
    case True
    with Cons.prems show ?thesis
      using is_prefix_drop [OF True] by simp
  next
    case False
    with Cons.prems obtain w where "split_first p s = Some (w, v)" and "u = c # w"
      by auto
    with Cons.IH show ?thesis by simp
  qed
qed (simp split: if_splits)

lemma split_first_contains: "split_first p s = None \<longleftrightarrow> \<not> str_contains s p"
  by (induction p s rule: split_first.induct) auto

lemma replace_first_split:
  "split_first p s = Some (u, v) \<Longrightarrow> replace_first p new s = u @ new @ v"
proof (induction s arbitrary: u)
  case (Cons c s)
  show ?case
  proof (cases "is_prefix p (c # s)")
    case True
    with Cons.prems show ?thesis by simp
  next
    case False
    with Cons.prems obtain w where "split_first p s = Some (w, v)" and "u = c # w"
      by auto
    with False Cons.IH show ?thesis by simp
  qed
qed (simp split: if_splits)

definition plain :: "string \<Rightarrow> bool" where
  "plain p \<longleftrightarrow> p \<noteq> [] \<and> list_all (\<lambda>c. \<not> is_meta c) p"

lemma is_prefix_QuoteMeta:
  "list_all (\<lambda>c. \<not> is_meta c) p \<Longrightarrow> is_prefix p (QuoteMeta s) \<longleftrightarrow> is_prefix p s"
proof (induction p arbitrary: s)
  case (Cons c p)
  from Cons.prems have c: "\<not> is_meta c" and p: "list_all (\<lambda>c. \<not> is_meta c) p"
    by simp_all
  from c have bs: "c \<noteq> CHR 0x5C" by fastforce
  show ?case
  proof (cases s)
    case (Cons d t)
    have IH: "is_prefix p (QuoteMeta t) \<longleftrightarrow> is_prefix p t"
      using p by (rule Cons.IH)
    show ?thesis
    proof (cases "is_meta d")
      case True
      with c have "c \<noteq> d" by blast
      with True bs show ?thesis by (simp add: \<open>s = d # t\<close>)
    next
      case False
      then show ?thesis by (simp add: \<open>s = d # t\<close> IH)
    qed
  qed simp
qed simp

lemma not_plain_prefix_meta: "plain p \<Longrightarrow> is_meta c \<Longrightarrow> \<not> is_prefix p (c # s)"
  by (cases p) (auto simp: plain_def)

lemma drop_QuoteMeta:
  "list_all (\<lambda>c. \<not> is_meta c) p \<Longrightarrow> is_prefix p s \<Longrightarrow>
     drop (length p) (QuoteMeta s) = QuoteMeta (drop (length p) s)"
  by (auto simp: is_prefix_iff QuoteMeta_append QuoteMeta_no_meta)

lemma replace_first_QuoteMeta:
  assumes "plain p"
  shows "split_first p s = Some (u, v) \<Longrightarrow>
    replace_first p new (QuoteMeta s) = QuoteMeta u @ new @ QuoteMeta v"
proof (induction s arbitrary: u)
  case Nil
  with assms show ?case by (simp add: plain_def)
next
  case (Cons c s)
  have p: "list_all (\<lambda>c. \<not> is_meta c) p" "p \<noteq> []"
    using assms by (auto simp: plain_def)
  show ?case
  proof (cases "is_prefix p (c # s)")
    case True
    then have "\<not> is_meta c"
      using not_plain_prefix_meta [OF assms] by blast
    moreover have "is_prefix p (QuoteMeta (c # s))"
      using True p is_prefix_QuoteMeta by blast
    moreover have "drop (length p) (QuoteMeta (c # s)) = QuoteMeta v"
      using True Cons.prems drop_QuoteMeta [OF p(1) True] by simp
    ultimately show ?thesis
      using True Cons.prems by simp
  next
    case False
    with Cons.prems obtain w where w: "split_first p s = Some (w, v)" and u: "u = c # w"
      by auto
    have not: "\<not> is_prefix p (QuoteMeta (c # s))"
      using False p is_prefix_QuoteMeta by blast
    show ?thesis
    proof (cases "is_meta c")
      case True
      with not w u Cons.IH [OF w] not_plain_prefix_meta [OF assms True] show ?thesis
        by simp
    next
      case False
      with not w u Cons.IH [OF w] show ?thesis by simp
    qed
  qed
qed

lemma le_length_takeWhile_iff:
  "k \<le> length (takeWhile P s) \<longleftrightarrow> k \<le> length s \<and> (\<forall>c \<in> set (take k s). P c)"
proof (induction s arbitrary: k)
  case (Cons c s)
  then show ?case by (cases k) auto
qed simp

lemma capture_iff:
  "(\<exists>k. 0 < k \<and> k \<le> length (takeWhile (\<lambda>c. c \<noteq> CHR ''/'') s) \<and> drop k s = post) \<longleftrightarrow>
   (\<exists>v. s = v @ post \<and> v \<noteq> [] \<and> CHR ''/'' \<notin> set v)"
proof
  assume "\<exists>k. 0 < k \<and> k \<le> length (takeWhile (\<lambda>c. c \<noteq> CHR ''/'') s) \<and> drop k s = post"
  then obtain k where k: "0 < k" "drop k s = post"
    and "k \<le> length (takeWhile (\<lambda>c. c \<noteq> CHR ''/'') s)"
    by blast
  then have le: "k \<le> length s" and no: "\<forall>c \<in> set (take k s). c \<noteq> CHR ''/''"
    unfolding le_length_takeWhile_iff by blast+
  have "s = take k s @ post" unfolding k(2) [symmetric] by simp
  moreover have "take k s \<noteq> []" using k(1) le by auto
  moreover have "CHR ''/'' \<notin> set (take k s)" using no by blast
  ultimately show "\<exists>v. s = v @ post \<and> v \<noteq> [] \<and> CHR ''/'' \<notin> set v" by blast
next
  assume "\<exists>v. s = v @ post \<and> v \<noteq> [] \<and> CHR ''/'' \<notin> set v"
  then obtain v where "s = v @ post" "v \<noteq> []" "CHR ''/'' \<notin> set v"
    by blast
  then have "length v \<le> length (takeWhile (\<lambda>c. c \<noteq> CHR ''/'') s)"
    unfolding le_length_takeWhile_iff by auto
  with \<open>s = v @ post\<close> \<open>v \<noteq> []\<close>
  show "\<exists>k. 0 < k \<and> k \<le> length (takeWhile (\<lambda>c. c \<noteq> CHR ''/'') s) \<and> drop k s = post"
    by (intro exI [of _ "length v"]) simp
qed

text \<open>
  A matcher made from a template with a placeholder free of regexp meta characters matches
  exactly the topics that carry a non-empty, slash-free text in place of the first
  occurrence of the placeholder, and returns that text.
\<close>

lemma created_matcher:
  assumes "plain p" and "split_first p template = Some (pre, post)"
  shows "CreateMatcherSingleVariable template p =
    Inr \<lparr>tm_m = Some (map Lit pre @ Cap # map Lit post)\<rparr>"
proof -
  have "str_contains template p"
    using assms(2) split_first_contains [of p template] by simp
  moreover have "parse_rx (replace_first p regNameExpr (QuoteMeta template)) =
      map Lit pre @ Cap # map Lit post"
    by (simp add: replace_first_QuoteMeta [OF assms] parse_quoted_lits parse_capture)
  ultimately show ?thesis
    by (simp add: CreateMatcherSingleVariable_def)
qed

lemma ParseTopic_created:
  "ParseTopic \<lparr>tm_m = Some (map Lit pre @ Cap # map Lit post)\<rparr> topic = Inr v \<longleftrightarrow>
     topic = pre @ v @ post \<and> v \<noteq> [] \<and> CHR ''/'' \<notin> set v"
proof -
  define s where "s = drop (length pre) topic"
  let ?ex = "\<exists>v. s = v @ post \<and> v \<noteq> [] \<and> CHR ''/'' \<notin> set v"
  have m: "rx_match (map Lit pre @ Cap # map Lit post) topic =
      (if is_prefix pre topic \<and> ?ex then Some [take (length s - length post) s] else None)"
    by (simp only: rx_match_lits rx_match.simps cap_match_lits capture_iff flip: s_def) simp
  have uniq: "take (length s - length post) s = w" if "s = w @ post" for w
    using that by simp
  have topic: "topic = pre @ s" if "is_prefix pre topic"
    using that by (auto simp: is_prefix_iff s_def)
  show ?thesis
  proof (cases "is_prefix pre topic \<and> ?ex")
    case True
    then obtain w where w: "s = w @ post" "w \<noteq> []" "CHR ''/'' \<notin> set w"
      by blast
    then have "ParseTopic \<lparr>tm_m = Some (map Lit pre @ Cap # map Lit post)\<rparr> topic = Inr w"
      using True by (simp add: ParseTopic_def m)
    with True w topic show ?thesis by auto
  next
    case False
    then have "\<not> (topic = pre @ v @ post \<and> v \<noteq> [] \<and> CHR ''/'' \<notin> set v)"
      by (auto simp: s_def)
    moreover have "rx_match (map Lit pre @ Cap # map Lit post) topic = None"
      using False by (simp only: m if_False)
    ultimately show ?thesis by (simp add: ParseTopic_def)
  qed
qed

lemma ParseTopic_created_error:
  "(\<nexists>v. ParseTopic \<lparr>tm_m = Some (map Lit pre @ Cap # map Lit post)\<rparr> topic = Inr v) \<longleftrightarrow>
   ParseTopic \<lparr>tm_m = Some (map Lit pre @ Cap # map Lit post)\<rparr> topic = Inl TopicDoesNotMatch"
proof -
  have "rx_match (map Lit pre @ Cap # map Lit post) topic \<noteq> Some []"
    by (simp add: rx_match_lits cap_match_lits)
  then show ?thesis
    by (auto simp: ParseTopic_def split: option.splits list.splits)
qed

section \<open>Properties\<close>

text \<open>
  C12: A matcher created from a template recognises exactly the topics that are the template
  with its placeholder replaced by a non-empty name without a slash, and parsing such a topic
  gives that name; any other topic is an error.
\<close>

theorem topic_matcher_round_trip:
  assumes "plain placeholder" and "split_first placeholder template = Some (pre, post)"
  shows "\<exists>tm. CreateMatcherSingleVariable template placeholder = Inr tm \<and>
    (\<forall>topic v. ParseTopic tm topic = Inr v \<longleftrightarrow>
       topic = pre @ v @ post \<and> v \<noteq> [] \<and> CHR ''/'' \<notin> set v) \<and>
    (\<forall>topic. (\<nexists>v. ParseTopic tm topic = Inr v) \<longrightarrow> ParseTopic tm topic = Inl TopicDoesNotMatch)"
  using ParseTopic_created_error [of pre post]
  by (intro exI [of _ "\<lparr>tm_m = Some (map Lit pre @ Cap # map Lit post)\<rparr>"] conjI allI impI
      created_matcher [OF assms] ParseTopic_created) simp_all

theorem topic_matcher_round_trip_witness:
  "\<exists>tm. CreateMatcherSingleVariable ''a/%N%/b'' ''%N%'' = Inr tm \<and>
    (\<forall>topic v. ParseTopic tm topic = Inr v \<longleftrightarrow>
       topic = ''a/'' @ v @ ''/b'' \<and> v \<noteq> [] \<and> CHR ''/'' \<notin> set v) \<and>
    (\<forall>topic. (\<nexists>v. ParseTopic tm topic = Inr v) \<longrightarrow> ParseTopic tm topic = Inl TopicDoesNotMatch)"
proof -
  have "plain ''%N%''"
    by (simp add: plain_def is_meta_def meta_chars_def)
  moreover have "split_first ''%N%'' ''a/%N%/b'' = Some (''a/'', ''/b'')"
    by simp
  ultimately show ?thesis
    by (rule topic_matcher_round_trip)
qed

end
