(* ===== verification/Kinds.thy ===== *)
theory Kinds
  imports Go_Prelude
begin

text \<open>
  The enumerations of src/types and src/dataflow/registerType.go with their \<open>String\<close> and
  \<open>...FromString\<close> functions. Each pair is meant to be a name codec: the locale
  \<open>kind_names\<close> states that contract, and every pair that meets it is an interpretation.
\<close>

section \<open>The contract of a name codec\<close>

locale kind_names =
  fixes show_kind :: "'k \<Rightarrow> string"
    and read_kind :: "string \<Rightarrow> 'k"
    and undef :: 'k
  assumes read_show: "k \<noteq> undef \<Longrightarrow> read_kind (show_kind k) = k"
    and show_read: "read_kind s \<noteq> undef \<Longrightarrow> show_kind (read_kind s) = s"
begin

lemma show_inj_on: "inj_on show_kind (- {undef})"
  by (rule inj_on_inverseI [of _ read_kind]) (simp add: read_show)

lemma read_defined_iff: "read_kind s \<noteq> undef \<longleftrightarrow> (\<exists>k. k \<noteq> undef \<and> show_kind k = s)"
  using read_show show_read by metis

lemma read_eq_iff: "k \<noteq> undef \<Longrightarrow> read_kind s = k \<longleftrightarrow> s = show_kind k"
  using read_show show_read by metis

end

section \<open>Device kinds\<close>

datatype VictronDeviceKind =
    VictronUndefinedKind | VictronRandomBmvKind | VictronRandomSolarKind | VictronVedirectKind

fun VictronDeviceKind_String :: "VictronDeviceKind \<Rightarrow> string" where
  "VictronDeviceKind_String VictronRandomBmvKind = ''RandomBmv''"
| "VictronDeviceKind_String VictronRandomSolarKind = ''RandomSolar''"
| "VictronDeviceKind_String VictronVedirectKind = ''Vedirect''"
| "VictronDeviceKind_String VictronUndefinedKind = ''Undefined''"

definition VictronDeviceKindFromString :: "string \<Rightarrow> VictronDeviceKind" where
  "VictronDeviceKindFromString s =
     (if s = ''RandomBmv'' then VictronRandomBmvKind
      else if s = ''RandomSolar'' then VictronRandomSolarKind
      else if s = ''Vedirect'' then VictronVedirectKind
      else VictronUndefinedKind)"

datatype ModbusDeviceKind =
    ModbusUndefinedKind | ModbusWaveshareRtuRelay8Kind | ModbusFinder7M38Kind

fun ModbusDeviceKind_String :: "ModbusDeviceKind \<Rightarrow> string" where
  "ModbusDeviceKind_String ModbusWaveshareRtuRelay8Kind = ''WaveshareRtuRelay8''"
| "ModbusDeviceKind_String ModbusFinder7M38Kind = ''Finder7M38''"
| "ModbusDeviceKind_String ModbusUndefinedKind = ''Undefined''"

definition ModbusDeviceKindFromString :: "string \<Rightarrow> ModbusDeviceKind" where
  "ModbusDeviceKindFromString s =
     (if s = ''WaveshareRtuRelay8'' then ModbusWaveshareRtuRelay8Kind
      else if s = ''Finder7M38'' then ModbusFinder7M38Kind
      else ModbusUndefinedKind)"

datatype HttpDeviceKind = HttpUndefinedKind | HttpTeracomKind | HttpShellyEm3Kind

fun HttpDeviceKind_String :: "HttpDeviceKind \<Rightarrow> string" where
  "HttpDeviceKind_String HttpTeracomKind = ''Teracom''"
| "HttpDeviceKind_String HttpShellyEm3Kind = ''Shelly3m''"
| "HttpDeviceKind_String HttpUndefinedKind = ''Undefined''"

definition HttpDeviceKindFromString :: "string \<Rightarrow> HttpDeviceKind" where
  "HttpDeviceKindFromString s =
     (if s = ''Teracom'' then HttpTeracomKind
      else if s = ''ShellyEm3'' then HttpShellyEm3Kind
      else HttpUndefinedKind)"

datatype MqttDeviceKind = MqttDeviceUndefinedKind | MqttDeviceGoIotdeviceV3Kind

fun MqttDeviceKind_String :: "MqttDeviceKind \<Rightarrow> string" where
  "MqttDeviceKind_String MqttDeviceGoIotdeviceV3Kind = ''GoIotdeviceV3''"
| "MqttDeviceKind_String MqttDeviceUndefinedKind = ''Undefined''"

definition MqttDeviceKindFromString :: "string \<Rightarrow> MqttDeviceKind" where
  "MqttDeviceKindFromString s =
     (if s = ''GoIotdeviceV3'' then MqttDeviceGoIotdeviceV3Kind else MqttDeviceUndefinedKind)"

section \<open>Register types\<close>

datatype RegisterType = UndefinedRegister | NumberRegister | TextRegister | EnumRegister

fun RegisterType_String :: "RegisterType \<Rightarrow> string" where
  "RegisterType_String NumberRegister = ''number''"
| "RegisterType_String TextRegister = ''string''"
| "RegisterType_String EnumRegister = ''enum''"
| "RegisterType_String UndefinedRegister = ''''"

definition RegisterTypeFromString :: "string \<Rightarrow> RegisterType" where
  "RegisterTypeFromString s =
     (if s = ''number'' then NumberRegister
      else if s = ''string'' then TextRegister
      else if s = ''enum'' then EnumRegister
      else UndefinedRegister)"

section \<open>The pairs that are name codecs\<close>

lemmas kind_from_string_defs =
  VictronDeviceKindFromString_def ModbusDeviceKindFromString_def HttpDeviceKindFromString_def
  MqttDeviceKindFromString_def RegisterTypeFromString_def

interpretation victron: kind_names VictronDeviceKind_String VictronDeviceKindFromString VictronUndefinedKind
proof unfold_locales
  fix k
  assume "k \<noteq> VictronUndefinedKind"
  then show "VictronDeviceKindFromString (VictronDeviceKind_String k) = k"
    by (cases k) (simp_all add: kind_from_string_defs)
qed (simp add: kind_from_string_defs split: if_splits)

interpretation modbus: kind_names ModbusDeviceKind_String ModbusDeviceKindFromString ModbusUndefinedKind
proof unfold_locales
  fix k
  assume "k \<noteq> ModbusUndefinedKind"
  then show "ModbusDeviceKindFromString (ModbusDeviceKind_String k) = k"
    by (cases k) (simp_all add: kind_from_string_defs)
qed (simp add: kind_from_string_defs split: if_splits)

interpretation mqtt: kind_names MqttDeviceKind_String MqttDeviceKindFromString MqttDeviceUndefinedKind
proof unfold_locales
  fix k
  assume "k \<noteq> MqttDeviceUndefinedKind"
  then show "MqttDeviceKindFromString (MqttDeviceKind_String k) = k"
    by (cases k) (simp_all add: kind_from_string_defs)
qed (simp add: kind_from_string_defs split: if_splits)

interpretation regtype: kind_names RegisterType_String RegisterTypeFromString UndefinedRegister
proof unfold_locales
  fix k
  assume "k \<noteq> UndefinedRegister"
  then show "RegisterTypeFromString (RegisterType_String k) = k"
    by (cases k) (simp_all add: kind_from_string_defs)
qed (simp add: kind_from_string_defs split: if_splits)

text \<open>
  The HTTP kinds are not: \<open>String\<close> prints the Shelly kind as \<open>Shelly3m\<close>, which
  \<open>HttpDeviceKindFromString\<close> does not accept. It is the only such kind.
\<close>

lemma http_kind_read_show:
  "HttpDeviceKindFromString (HttpDeviceKind_String k) = k \<longleftrightarrow> k \<noteq> HttpShellyEm3Kind"
  by (cases k) (simp_all add: kind_from_string_defs)

lemma register_type_read_show [simp]: "RegisterTypeFromString (RegisterType_String t) = t"
  by (cases t) (simp_all add: kind_from_string_defs)

end
