(* ===== verification/Registers.thy ===== *)
theory Registers
  imports Kinds
begin

text \<open>
  src/dataflow/register.go and src/dataflow/registerFilter.go: the description of a register
  of a device, its comparison and ordering, and the include / skip filters of the
  configuration. A \<open>Register\<close> interface value is modelled by the struct of its getters'
  results, which is what \<open>NewRegisterStructByInterface\<close> copies.
\<close>

section \<open>Registers\<close>

text \<open>An enum map may be nil (\<open>None\<close>); the runtime reads a nil map as an empty one.\<close>

type_synonym enum_map = "(int, string) gomap option"

record register =
  reg_category :: string
  reg_name :: string
  reg_description :: string
  reg_type :: RegisterType
  reg_enum :: enum_map
  reg_unit :: string
  reg_sort :: int
  reg_writable :: bool

definition enum_entries :: "enum_map \<Rightarrow> (int, string) gomap" where
  "enum_entries e = (case e of None \<Rightarrow> [] | Some m \<Rightarrow> m)"

definition enum_lookup :: "enum_map \<Rightarrow> int \<Rightarrow> string option" where
  "enum_lookup e i = map_of (enum_entries e) i"

definition NewRegisterStruct ::
  "string \<Rightarrow> string \<Rightarrow> string \<Rightarrow> RegisterType \<Rightarrow> enum_map \<Rightarrow> string \<Rightarrow> int \<Rightarrow> bool \<Rightarrow> register" where
  "NewRegisterStruct category name description registerType enum unit srt writable =
     \<lparr>reg_category = category, reg_name = name, reg_description = description,
      reg_type = registerType, reg_enum = enum, reg_unit = unit, reg_sort = srt,
      reg_writable = writable\<rparr>"

definition NewRegisterStructByInterface :: "register \<Rightarrow> register" where
  "NewRegisterStructByInterface r =
     \<lparr>reg_category = reg_category r, reg_name = reg_name r, reg_description = reg_description r,
      reg_type = reg_type r, reg_enum = reg_enum r, reg_unit = reg_unit r, reg_sort = reg_sort r,
      reg_writable = reg_writable r\<rparr>"

lemma NewRegisterStruct_sel [simp]:
  "reg_category (NewRegisterStruct c n d t e u s w) = c"
  "reg_name (NewRegisterStruct c n d t e u s w) = n"
  "reg_description (NewRegisterStruct c n d t e u s w) = d"
  "reg_type (NewRegisterStruct c n d t e u s w) = t"
  "reg_enum (NewRegisterStruct c n d t e u s w) = e"
  "reg_unit (NewRegisterStruct c n d t e u s w) = u"
  "reg_sort (NewRegisterStruct c n d t e u s w) = s"
  "reg_writable (NewRegisterStruct c n d t e u s w) = w"
  by (simp_all add: NewRegisterStruct_def)

lemma NewRegisterStructByInterface_id [simp]: "NewRegisterStructByInterface r = r"
  by (simp add: NewRegisterStructByInterface_def)

section \<open>Comparison\<close>

text \<open>A missing key of the second map reads as the empty string, as in the code.\<close>

definition mapEquals :: "enum_map \<Rightarrow> enum_map \<Rightarrow> bool" where
  "mapEquals a b =
     (if a = None \<and> b = None then True
      else if length (enum_entries a) \<noteq> length (enum_entries b) then False
      else list_all (\<lambda>(k, v). (case enum_lookup b k of Some w \<Rightarrow> w | None \<Rightarrow> '''') = v)
             (enum_entries a))"

definition Register_Equals :: "register \<Rightarrow> register \<Rightarrow> bool" where
  "Register_Equals r b \<longleftrightarrow>
     reg_category r = reg_category b \<and>
     reg_name r = reg_name b \<and>
     reg_description r = reg_description b \<and>
     reg_type r = reg_type b \<and>
     reg_unit r = reg_unit b \<and>
     reg_sort r = reg_sort b \<and>
     reg_writable r = reg_writable b \<and>
     mapEquals (reg_enum r) (reg_enum b)"

definition wf_enum :: "enum_map \<Rightarrow> bool" where
  "wf_enum e \<longleftrightarrow> wf_gomap (enum_entries e)"

lemma mapEquals_refl: "wf_enum e \<Longrightarrow> mapEquals e e"
  by (auto simp: mapEquals_def wf_enum_def wf_gomap_def enum_lookup_def list_all_iff
      split: option.splits dest: map_of_is_SomeI)

lemma Register_Equals_refl: "wf_enum (reg_enum r) \<Longrightarrow> Register_Equals r r"
  by (simp add: Register_Equals_def mapEquals_refl)

text \<open>Without empty labels in the first map, the comparison is equality of the two maps.\<close>

lemma mapEquals_sub:
  assumes "mapEquals a b" and "\<forall>v \<in> ran (enum_lookup a). v \<noteq> ''''"
  shows "enum_lookup a \<subseteq>\<^sub>m enum_lookup b"
proof (cases "a = None \<and> b = None")
  case False
  show ?thesis
    unfolding map_le_def
  proof (intro ballI)
    fix k
    assume "k \<in> dom (enum_lookup a)"
    then obtain v where k: "enum_lookup a k = Some v"
      by auto
    then have "(k, v) \<in> set (enum_entries a)"
      by (simp add: enum_lookup_def map_of_SomeD)
    moreover have "list_all (\<lambda>(k, v). (case enum_lookup b k of Some w \<Rightarrow> w | None \<Rightarrow> '''') = v)
        (enum_entries a)"
      using assms(1) False by (simp add: mapEquals_def split: if_splits)
    ultimately have "(case enum_lookup b k of Some w \<Rightarrow> w | None \<Rightarrow> '''') = v"
      by (auto simp: list_all_iff)
    moreover have "v \<noteq> ''''"
      using assms(2) k by (auto simp: ran_def)
    ultimately show "enum_lookup a k = enum_lookup b k"
      using k by (simp split: option.splits)
  qed
qed (simp add: enum_lookup_def enum_entries_def)

lemma enum_lookup_map_of: "enum_lookup e = map_of (enum_entries e)"
  by (rule ext) (simp add: enum_lookup_def)

lemma card_dom_enum: "wf_enum e \<Longrightarrow> card (dom (enum_lookup e)) = length (enum_entries e)"
  unfolding wf_enum_def wf_gomap_def enum_lookup_map_of
  by (metis dom_map_of_conv_image_fst distinct_card length_map list.set_map)

lemma mapEquals_iff:
  assumes "wf_enum a" and "wf_enum b" and "\<forall>v \<in> ran (enum_lookup a). v \<noteq> ''''"
  shows "mapEquals a b \<longleftrightarrow> enum_lookup a = enum_lookup b"
proof
  assume eq: "mapEquals a b"
  then have sub: "enum_lookup a \<subseteq>\<^sub>m enum_lookup b"
    using assms(3) by (rule mapEquals_sub)
  have "length (enum_entries a) = length (enum_entries b)"
    using eq by (auto simp: mapEquals_def split: if_splits)
  then have "card (dom (enum_lookup a)) = card (dom (enum_lookup b))"
    using assms(1,2) by (simp add: card_dom_enum)
  then have dom: "dom (enum_lookup a) = dom (enum_lookup b)"
    by (intro card_subset_eq map_le_implies_dom_le [OF sub])
      (simp add: enum_lookup_map_of finite_dom_map_of)
  have "enum_lookup b \<subseteq>\<^sub>m enum_lookup a"
    using sub dom by (auto simp: map_le_def)
  with sub show "enum_lookup a = enum_lookup b"
    by (rule map_le_antisym)
next
  assume eq: "enum_lookup a = enum_lookup b"
  then have "length (enum_entries a) = length (enum_entries b)"
    using card_dom_enum [OF assms(1)] card_dom_enum [OF assms(2)] by simp
  moreover have "enum_lookup b k = Some v" if "(k, v) \<in> set (enum_entries a)" for k v
    using assms(1) that unfolding eq [symmetric]
    by (simp add: enum_lookup_def wf_enum_def wf_gomap_def)
  ultimately show "mapEquals a b"
    by (auto simp: mapEquals_def list_all_iff)
qed

section \<open>Sorting\<close>

text \<open>
  \<open>slices.SortFunc\<close> orders by the sort key and leaves the order of equal keys open: a stable
  sort after an arbitrary permutation \<open>tie\<close> gives every result it may give.
\<close>

definition SortRegisterStructs :: "(register list \<Rightarrow> register list) \<Rightarrow> register list \<Rightarrow> register list" where
  "SortRegisterStructs tie input = sort_key reg_sort (tie input)"

lemma SortRegisterStructs_sorted: "sorted (map reg_sort (SortRegisterStructs tie input))"
  by (simp add: SortRegisterStructs_def)

lemma SortRegisterStructs_perm:
  "iter_order tie \<Longrightarrow> mset (SortRegisterStructs tie input) = mset input"
  by (simp add: SortRegisterStructs_def iter_order_mset)

section \<open>Register filters\<close>

record filter_conf =
  IncludeRegisters :: "string list"
  SkipRegisters :: "string list"
  IncludeCategories :: "string list"
  SkipCategories :: "string list"
  DefaultInclude :: bool

definition sliceToMap :: "string list \<Rightarrow> (string, unit) gomap" where
  "sliceToMap inp = foldl (\<lambda>m v. AList.update v () m) [] inp"

definition in_map :: "('k, 'v) gomap \<Rightarrow> 'k \<Rightarrow> bool" where
  "in_map m k \<longleftrightarrow> map_of m k \<noteq> None"

definition RegisterFilter :: "filter_conf \<Rightarrow> register \<Rightarrow> bool" where
  "RegisterFilter conf =
     (let includeRegistersMap = sliceToMap (IncludeRegisters conf);
          skipRegistersMap = sliceToMap (SkipRegisters conf);
          includeCategoriesMap = sliceToMap (IncludeCategories conf);
          skipCategoriesMap = sliceToMap (SkipCategories conf);
          defaultInclude = DefaultInclude conf
      in (\<lambda>reg.
        if in_map includeRegistersMap (reg_name reg) then True
        else if in_map skipRegistersMap (reg_name reg) then False
        else if in_map includeCategoriesMap (reg_category reg) then True
        else if in_map skipCategoriesMap (reg_category reg) then False
        else defaultInclude))"

definition AllRegisterFilter :: "register \<Rightarrow> bool" where
  "AllRegisterFilter r = True"

fun FilterRegisters :: "register list \<Rightarrow> filter_conf \<Rightarrow> register list" where
  "FilterRegisters [] conf = []"
| "FilterRegisters (r # rs) conf =
     (if RegisterFilter conf r then r # FilterRegisters rs conf else FilterRegisters rs conf)"

lemma in_map_update: "in_map (AList.update k v m) k' \<longleftrightarrow> k' = k \<or> in_map m k'"
  by (simp add: in_map_def update_conv')

lemma in_map_sliceToMap [simp]: "in_map (sliceToMap xs) x \<longleftrightarrow> x \<in> set xs"
proof (induction xs rule: rev_induct)
  case Nil
  show ?case by (simp add: sliceToMap_def in_map_def)
next
  case (snoc y ys)
  then show ?case by (auto simp: sliceToMap_def in_map_update)
qed

text \<open>The precedence of the four lists: names before categories, include before skip.\<close>

lemma RegisterFilter_iff:
  "RegisterFilter conf r \<longleftrightarrow>
     reg_name r \<in> set (IncludeRegisters conf) \<or>
     (reg_name r \<notin> set (SkipRegisters conf) \<and>
       (reg_category r \<in> set (IncludeCategories conf) \<or>
        (reg_category r \<notin> set (SkipCategories conf) \<and> DefaultInclude conf)))"
  by (simp add: RegisterFilter_def Let_def)

lemma RegisterFilter_cong:
  "reg_name r = reg_name r' \<Longrightarrow> reg_category r = reg_category r' \<Longrightarrow>
     RegisterFilter conf r = RegisterFilter conf r'"
  by (simp add: RegisterFilter_iff)

lemma FilterRegisters_eq: "FilterRegisters rs conf = filter (RegisterFilter conf) rs"
  by (induction rs) auto

end
