(* ===== verification/Change_Feed.thy ===== *)
theory Change_Feed
  imports Go_Prelude
begin

text \<open>
  The interface of a keyed store that tells its subscribers what changed. The register
  database and the value storage of src/dataflow are both such stores: a put either finds an
  equal entry and does nothing, or changes the entry of its key and is forwarded. A subscriber
  holds the view its filter gave it when it subscribed, and applies what it is sent.
\<close>

section \<open>The subscriber's side\<close>

definition apply_change :: "('v \<Rightarrow> 'k) \<Rightarrow> ('v \<Rightarrow> bool) \<Rightarrow> ('k \<rightharpoonup> 'v) \<Rightarrow> 'v \<Rightarrow> ('k \<rightharpoonup> 'v)" where
  "apply_change key erases m v = m(key v := (if erases v then None else Some v))"

definition replay :: "('v \<Rightarrow> 'k) \<Rightarrow> ('v \<Rightarrow> bool) \<Rightarrow> ('k \<rightharpoonup> 'v) \<Rightarrow> 'v list \<Rightarrow> ('k \<rightharpoonup> 'v)" where
  "replay key erases m chg = foldl (apply_change key erases) m chg"

definition view :: "('v \<Rightarrow> bool) \<Rightarrow> ('k \<rightharpoonup> 'v) \<Rightarrow> ('k \<rightharpoonup> 'v)" where
  "view f m k = (case m k of None \<Rightarrow> None | Some v \<Rightarrow> if f v then Some v else None)"

definition key_filter :: "('v \<Rightarrow> 'k) \<Rightarrow> ('v \<Rightarrow> bool) \<Rightarrow> bool" where
  \<comment> \<open>a filter that only looks at the key: it never changes its mind about an entry\<close>
  "key_filter key f \<longleftrightarrow> (\<forall>v w. key v = key w \<longrightarrow> f v = f w)"

lemma replay_Nil [simp]: "replay key erases m [] = m"
  by (simp add: replay_def)

lemma replay_Cons [simp]:
  "replay key erases m (v # chg) = replay key erases (apply_change key erases m v) chg"
  by (simp add: replay_def)

lemma replay_append [simp]:
  "replay key erases m (xs @ ys) = replay key erases (replay key erases m xs) ys"
  by (simp add: replay_def)

lemma view_True [simp]: "view (\<lambda>_. True) m = m"
  by (rule ext) (simp add: view_def split: option.splits)

section \<open>The interface\<close>

locale change_feed =
  fixes key :: "'v \<Rightarrow> 'k"
    and erases :: "'v \<Rightarrow> bool"
    and lookup :: "'s \<Rightarrow> 'k \<rightharpoonup> 'v"
    and put :: "'s \<Rightarrow> 'v \<Rightarrow> 's \<times> bool"
    and inv :: "'s \<Rightarrow> bool"
  assumes put_skip: "\<not> snd (put s v) \<Longrightarrow> fst (put s v) = s"
    and put_change: "inv s \<Longrightarrow> snd (put s v) \<Longrightarrow>
      lookup (fst (put s v)) = apply_change key erases (lookup s) v"
    and keyed: "inv s \<Longrightarrow> lookup s k = Some v \<Longrightarrow> key v = k"
    and inv_put: "inv s \<Longrightarrow> inv (fst (put s v))"
begin

fun feed :: "'s \<Rightarrow> 'v list \<Rightarrow> 's \<times> 'v list" where
  "feed s [] = (s, [])"
| "feed s (v # vs) =
     (let (s1, changed) = put s v; (s2, chg) = feed s1 vs
      in (s2, if changed then v # chg else chg))"

lemma inv_feed: "inv s \<Longrightarrow> inv (fst (feed s vs))"
proof (induction vs arbitrary: s)
  case (Cons v vs)
  from Cons.IH [OF inv_put [OF Cons.prems, of v]] show ?case
    by (simp add: case_prod_beta Let_def)
qed simp

lemma view_apply:
  assumes "inv s" and "key_filter key f"
  shows "view f (apply_change key erases (lookup s) v) =
     (if f v then apply_change key erases (view f (lookup s)) v else view f (lookup s))"
proof (rule ext)
  fix k
  have "f w = f v" if "lookup s (key v) = Some w" for w
    using keyed [OF assms(1) that] assms(2) unfolding key_filter_def by blast
  then show "view f (apply_change key erases (lookup s) v) k =
     (if f v then apply_change key erases (view f (lookup s)) v else view f (lookup s)) k"
    by (simp add: view_def apply_change_def split: option.splits)
qed

text \<open>A subscriber that applies the changes its filter lets through stays in step.\<close>

lemma feed_view:
  assumes "inv s" and "key_filter key f"
  shows "view f (lookup (fst (feed s vs))) =
     replay key erases (view f (lookup s)) (filter f (snd (feed s vs)))"
  using assms(1)
proof (induction vs arbitrary: s)
  case (Cons v vs)
  let ?s = "fst (put s v)"
  note IH = Cons.IH [OF inv_put [OF Cons.prems, of v]]
  show ?case
  proof (cases "snd (put s v)")
    case True
    have "view f (lookup ?s) =
        (if f v then apply_change key erases (view f (lookup s)) v else view f (lookup s))"
      by (simp only: put_change [OF Cons.prems True] view_apply [OF Cons.prems assms(2)])
    with IH True show ?thesis by (simp add: case_prod_beta Let_def)
  next
    case False
    with IH put_skip [OF False] show ?thesis by (simp add: case_prod_beta Let_def)
  qed
qed simp

text \<open>Without a filter the log of the changes determines the store's content.\<close>

lemma feed_lookup:
  "inv s \<Longrightarrow> lookup (fst (feed s vs)) = replay key erases (lookup s) (snd (feed s vs))"
  using feed_view [of s "\<lambda>_. True" vs] by (simp add: key_filter_def)

lemma feed_append:
  "feed s (xs @ ys) =
     (let (s1, l1) = feed s xs; (s2, l2) = feed s1 ys in (s2, l1 @ l2))"
  by (induction xs arbitrary: s) (auto simp: case_prod_beta Let_def)

lemma feed_log_sub: "set (snd (feed s vs)) \<subseteq> set vs"
  by (induction vs arbitrary: s) (auto simp: case_prod_beta Let_def)

end

end
