(* ===== verification/Register_Db.thy ===== *)
theory Register_Db
  imports Registers Change_Feed
begin

text \<open>
  src/dataflow/registerDb.go: the registers a device has announced, by name, and the
  subscriptions to their changes. \<open>AddStruct\<close>, \<open>GetAll\<close>, \<open>GetFiltered\<close> and \<open>GetByName\<close> run under
  the lock and are one atomic step each. What \<open>AddStruct\<close> sends is returned as the list of
  sends, in order, each with the element of the subscription list it goes to; the goroutine a
  \<open>Subscribe\<close> starts is its list of initial registers and, once its context is done, a removal.
\<close>

section \<open>Operations\<close>

record register_subscription =
  rs_elem :: nat
  rs_filter :: "register \<Rightarrow> bool"

record register_db =
  rdb_registers :: "(string, register) gomap"
  rdb_subscriptions :: "register_subscription list"
  rdb_next_elem :: nat

type_synonym register_send = "nat \<times> register"

definition NewRegisterDb :: register_db where
  "NewRegisterDb = \<lparr>rdb_registers = [], rdb_subscriptions = [], rdb_next_elem = 0\<rparr>"

definition rdb_forward :: "register_subscription list \<Rightarrow> register \<Rightarrow> register_send list" where
  "rdb_forward subs reg = map (\<lambda>s. (rs_elem s, reg)) (filter (\<lambda>s. rs_filter s reg) subs)"

fun AddStruct :: "register_db \<Rightarrow> register list \<Rightarrow> register_db \<times> register_send list" where
  "AddStruct rdb [] = (rdb, [])"
| "AddStruct rdb (reg # regs) =
     (case map_of (rdb_registers rdb) (reg_name reg) of
        Some oldReg \<Rightarrow>
          if Register_Equals reg oldReg then AddStruct rdb regs
          else (let rdb1 = rdb\<lparr>rdb_registers := AList.update (reg_name reg) reg (rdb_registers rdb)\<rparr>;
                    (rdb2, sends) = AddStruct rdb1 regs
                in (rdb2, rdb_forward (rdb_subscriptions rdb) reg @ sends))
      | None \<Rightarrow>
          (let rdb1 = rdb\<lparr>rdb_registers := AList.update (reg_name reg) reg (rdb_registers rdb)\<rparr>;
               (rdb2, sends) = AddStruct rdb1 regs
           in (rdb2, rdb_forward (rdb_subscriptions rdb) reg @ sends)))"

definition RegisterDb_Add :: "register_db \<Rightarrow> register list \<Rightarrow> register_db \<times> register_send list" where
  "RegisterDb_Add rdb registers = AddStruct rdb (map NewRegisterStructByInterface registers)"

definition rdb_GetAll ::
  "((string \<times> register) list \<Rightarrow> (string \<times> register) list) \<Rightarrow> register_db \<Rightarrow> register list" where
  "rdb_GetAll it rdb = map snd (it (rdb_registers rdb))"

definition rdb_GetFiltered ::
  "((string \<times> register) list \<Rightarrow> (string \<times> register) list) \<Rightarrow> register_db \<Rightarrow>
     (register \<Rightarrow> bool) \<Rightarrow> register list" where
  "rdb_GetFiltered it rdb f = filter f (map snd (it (rdb_registers rdb)))"

definition rdb_GetByName :: "register_db \<Rightarrow> string \<Rightarrow> register option" where
  "rdb_GetByName rdb n = map_of (rdb_registers rdb) n"

definition rdb_Subscribe ::
  "((string \<times> register) list \<Rightarrow> (string \<times> register) list) \<Rightarrow> register_db \<Rightarrow>
     (register \<Rightarrow> bool) \<Rightarrow> register_db \<times> nat \<times> register list" where
  \<comment> \<open>the new subscription's element and the initial registers its goroutine sends\<close>
  "rdb_Subscribe it rdb f =
     (let e = rdb_next_elem rdb
      in (rdb\<lparr>rdb_subscriptions := rdb_subscriptions rdb @ [\<lparr>rs_elem = e, rs_filter = f\<rparr>],
               rdb_next_elem := Suc e\<rparr>,
          e, rdb_GetFiltered it rdb f))"

definition rdb_cancelled :: "register_db \<Rightarrow> nat \<Rightarrow> register_db" where
  \<comment> \<open>what the goroutine does once its context is done\<close>
  "rdb_cancelled rdb e =
     rdb\<lparr>rdb_subscriptions := filter (\<lambda>s. rs_elem s \<noteq> e) (rdb_subscriptions rdb)\<rparr>"

section \<open>Invariant\<close>

definition wf_rdb :: "register_db \<Rightarrow> bool" where
  "wf_rdb rdb \<longleftrightarrow>
     wf_gomap (rdb_registers rdb) \<and>
     (\<forall>(k, r) \<in> set (rdb_registers rdb). reg_name r = k) \<and>
     distinct (map rs_elem (rdb_subscriptions rdb)) \<and>
     (\<forall>s \<in> set (rdb_subscriptions rdb). rs_elem s < rdb_next_elem rdb)"

lemma wf_NewRegisterDb [wf_intros, simp]: "wf_rdb NewRegisterDb"
  by (simp add: wf_rdb_def NewRegisterDb_def)

lemma set_AList_update_sub: "set (AList.update k v m) \<subseteq> insert (k, v) (set m)"
  by (induction m) (auto split: if_splits)

lemma wf_rdb_store:
  assumes "wf_rdb rdb"
  shows "wf_rdb (rdb\<lparr>rdb_registers := AList.update (reg_name reg) reg (rdb_registers rdb)\<rparr>)"
  using assms set_AList_update_sub [of "reg_name reg" reg "rdb_registers rdb"]
  by (auto simp: wf_rdb_def intro: wf_intros)

lemma wf_AddStruct [wf_intros]: "wf_rdb rdb \<Longrightarrow> wf_rdb (fst (AddStruct rdb regs))"
proof (induction rdb regs rule: AddStruct.induct)
  case (2 rdb reg regs)
  then show ?case
    using wf_rdb_store [OF 2(4), of reg]
    by (simp add: Let_def case_prod_beta split: option.splits)
qed simp

lemma AddStruct_subscriptions [step_frames]:
  "rdb_subscriptions (fst (AddStruct rdb regs)) = rdb_subscriptions rdb"
  by (induction rdb regs rule: AddStruct.induct)
    (simp_all add: Let_def case_prod_beta split: option.splits)

lemma wf_rdb_Subscribe [wf_intros]: "wf_rdb rdb \<Longrightarrow> wf_rdb (fst (rdb_Subscribe it rdb f))"
  by (auto simp: wf_rdb_def rdb_Subscribe_def Let_def less_Suc_eq)

lemma wf_rdb_cancelled [wf_intros]: "wf_rdb rdb \<Longrightarrow> wf_rdb (rdb_cancelled rdb e)"
  by (auto simp: wf_rdb_def rdb_cancelled_def distinct_map_filter)

lemma rdb_keyed: "wf_rdb rdb \<Longrightarrow> rdb_GetByName rdb n = Some r \<Longrightarrow> reg_name r = n"
  unfolding wf_rdb_def rdb_GetByName_def by (blast dest: map_of_SomeD)

lemma rdb_GetFiltered_set:
  assumes "wf_rdb rdb" and "iter_order it"
  shows "set (rdb_GetFiltered it rdb f) = {r \<in> ran (rdb_GetByName rdb). f r}"
proof -
  have "set (map snd (it (rdb_registers rdb))) = ran (map_of (rdb_registers rdb))"
    using assms set_gomap [of "rdb_registers rdb"] iter_order_set [OF assms(2)]
    by (simp add: wf_rdb_def)
  moreover have "rdb_GetByName rdb = map_of (rdb_registers rdb)"
    by (rule ext) (simp add: rdb_GetByName_def)
  ultimately show ?thesis by (auto simp: rdb_GetFiltered_def)
qed

section \<open>The database is a change feed\<close>

definition rdb_put :: "register_db \<Rightarrow> register \<Rightarrow> register_db \<times> bool" where
  "rdb_put rdb reg =
     (fst (AddStruct rdb [reg]),
      \<not> (case map_of (rdb_registers rdb) (reg_name reg) of
            Some oldReg \<Rightarrow> Register_Equals reg oldReg | None \<Rightarrow> False))"

interpretation rdb_feed: change_feed reg_name "\<lambda>_. False" rdb_GetByName rdb_put wf_rdb
proof unfold_locales
  fix s v k r
  show "\<not> snd (rdb_put s v) \<Longrightarrow> fst (rdb_put s v) = s"
    by (auto simp: rdb_put_def split: option.splits)
  assume wf: "wf_rdb s"
  show "snd (rdb_put s v) \<Longrightarrow>
      rdb_GetByName (fst (rdb_put s v)) = apply_change reg_name (\<lambda>_. False) (rdb_GetByName s) v"
    by (rule ext) (auto simp: rdb_put_def rdb_GetByName_def apply_change_def update_conv'
        split: option.splits)
  show "rdb_GetByName s k = Some r \<Longrightarrow> reg_name r = k"
    using wf by (rule rdb_keyed)
  show "wf_rdb (fst (rdb_put s v))"
    using wf by (simp only: rdb_put_def fst_conv wf_AddStruct)
qed

text \<open>\<open>AddStruct\<close> is the feed of its arguments, and sends each change to each subscription.\<close>

lemma AddStruct_Cons:
  "AddStruct rdb (reg # regs) =
     (let (rdb1, changed) = rdb_put rdb reg; (rdb2, sends) = AddStruct rdb1 regs
      in (rdb2, if changed then rdb_forward (rdb_subscriptions rdb) reg @ sends else sends))"
  by (auto simp: rdb_put_def Let_def split: option.splits prod.splits)

lemma rdb_put_subscriptions [step_frames]:
  "rdb_subscriptions (fst (rdb_put rdb reg)) = rdb_subscriptions rdb"
  by (simp only: rdb_put_def fst_conv AddStruct_subscriptions)

lemma AddStruct_feed:
  "AddStruct rdb regs =
     (fst (rdb_feed.feed rdb regs),
      concat (map (rdb_forward (rdb_subscriptions rdb)) (snd (rdb_feed.feed rdb regs))))"
proof (induction regs arbitrary: rdb)
  case (Cons reg regs)
  show ?case
    unfolding AddStruct_Cons Cons.IH
    by (simp add: Let_def case_prod_beta rdb_put_subscriptions)
qed simp

definition sent_to :: "nat \<Rightarrow> register_send list \<Rightarrow> register list" where
  "sent_to e sends = map snd (filter (\<lambda>(e', r). e' = e) sends)"

lemma sent_to_forward:
  assumes "distinct (map rs_elem subs)" and "s \<in> set subs"
  shows "sent_to (rs_elem s) (rdb_forward subs reg) = (if rs_filter s reg then [reg] else [])"
  using assms
proof (induction subs)
  case (Cons a subs)
  have none: "sent_to (rs_elem a) (rdb_forward subs reg) = []"
  proof -
    have "rs_elem t \<noteq> rs_elem a" if "t \<in> set subs" for t
      using Cons.prems(1) that by (force simp: image_iff)
    then show ?thesis by (auto simp: sent_to_def rdb_forward_def filter_empty_conv)
  qed
  show ?case
  proof (cases "s = a")
    case True
    with none show ?thesis by (auto simp: sent_to_def rdb_forward_def)
  next
    case False
    with Cons.prems have "s \<in> set subs" and "rs_elem a \<noteq> rs_elem s"
      by (auto simp: image_iff)
    with Cons show ?thesis by (auto simp: sent_to_def rdb_forward_def)
  qed
qed simp

lemma sent_to_append [simp]: "sent_to e (xs @ ys) = sent_to e xs @ sent_to e ys"
  by (simp add: sent_to_def)

lemma sent_to_concat:
  assumes "distinct (map rs_elem subs)" and "s \<in> set subs"
  shows "sent_to (rs_elem s) (concat (map (rdb_forward subs) chg)) = filter (rs_filter s) chg"
proof (induction chg)
  case Nil
  show ?case by (simp add: sent_to_def)
next
  case (Cons r chg)
  then show ?case using sent_to_forward [OF assms, of r] by simp
qed

text \<open>Each subscription gets the changed registers its filter accepts, in order.\<close>

lemma AddStruct_sent:
  assumes "wf_rdb rdb" and "s \<in> set (rdb_subscriptions rdb)"
  shows "sent_to (rs_elem s) (snd (AddStruct rdb regs)) =
     filter (rs_filter s) (snd (rdb_feed.feed rdb regs))"
proof -
  have "distinct (map rs_elem (rdb_subscriptions rdb))"
    using assms(1) by (simp add: wf_rdb_def)
  from sent_to_concat [OF this assms(2)] show ?thesis
    by (simp only: AddStruct_feed [of rdb regs] snd_conv)
qed

lemma AddStruct_view:
  assumes "wf_rdb rdb" and "s \<in> set (rdb_subscriptions rdb)" and "key_filter reg_name (rs_filter s)"
  shows "view (rs_filter s) (rdb_GetByName (fst (AddStruct rdb regs))) =
     replay reg_name (\<lambda>_. False) (view (rs_filter s) (rdb_GetByName rdb))
       (sent_to (rs_elem s) (snd (AddStruct rdb regs)))"
  using rdb_feed.feed_view [OF assms(1,3), of regs] AddStruct_sent [OF assms(1,2), of regs]
  by (simp only: AddStruct_feed [of rdb regs] fst_conv snd_conv)

section \<open>What a lookup finds\<close>

lemma AddStruct_other:
  "n \<notin> reg_name ` set regs \<Longrightarrow> rdb_GetByName (fst (AddStruct rdb regs)) n = rdb_GetByName rdb n"
proof (induction rdb regs rule: AddStruct.induct)
  case (2 rdb reg regs)
  then show ?case
    by (simp add: rdb_GetByName_def Let_def case_prod_beta update_conv' split: option.splits)
qed simp

lemma AddStruct_append:
  "fst (AddStruct rdb (xs @ ys)) = fst (AddStruct (fst (AddStruct rdb xs)) ys)"
  by (induction rdb xs rule: AddStruct.induct)
    (simp_all add: Let_def case_prod_beta split: option.splits)

lemma AddStruct_single:
  "\<exists>r. rdb_GetByName (fst (AddStruct rdb [reg])) (reg_name reg) = Some r \<and>
     (r = reg \<or> Register_Equals reg r)"
  by (auto simp: rdb_GetByName_def Let_def update_conv' split: option.splits)

text \<open>The last register added under a name is the one found, or an equal older one.\<close>

lemma AddStruct_last:
  assumes "reg_name reg \<notin> reg_name ` set post"
  shows "\<exists>r. rdb_GetByName (fst (AddStruct rdb (pre @ reg # post))) (reg_name reg) = Some r \<and>
     (r = reg \<or> Register_Equals reg r)"
proof -
  have "fst (AddStruct rdb (pre @ reg # post)) =
      fst (AddStruct (fst (AddStruct (fst (AddStruct rdb pre)) [reg])) post)"
    by (metis AddStruct_append append_Cons append_Nil)
  then show ?thesis
    using AddStruct_other [OF assms] AddStruct_single [of "fst (AddStruct rdb pre)" reg]
    by metis
qed

text \<open>Adding registers a second time changes nothing and sends nothing.\<close>

lemma AddStruct_unchanged:
  assumes "\<forall>reg \<in> set regs. \<exists>r. rdb_GetByName rdb (reg_name reg) = Some r \<and> Register_Equals reg r"
  shows "AddStruct rdb regs = (rdb, [])"
  using assms by (induction regs) (auto simp: rdb_GetByName_def)

lemma AddStruct_twice:
  assumes "distinct (map reg_name regs)" and "\<forall>reg \<in> set regs. wf_enum (reg_enum reg)"
  shows "AddStruct (fst (AddStruct rdb regs)) regs = (fst (AddStruct rdb regs), [])"
proof (rule AddStruct_unchanged, intro ballI)
  fix reg
  assume reg: "reg \<in> set regs"
  then obtain pre post where regs: "regs = pre @ reg # post"
    by (meson split_list)
  with assms(1) have "reg_name reg \<notin> reg_name ` set post"
    by auto
  from AddStruct_last [OF this, of rdb pre]
  show "\<exists>r. rdb_GetByName (fst (AddStruct rdb regs)) (reg_name reg) = Some r \<and> Register_Equals reg r"
    using Register_Equals_refl assms(2) reg unfolding regs by metis
qed

section \<open>Properties\<close>



text \<open>
  The register found under a name is the one added last under it, or an older one the code
  takes for equal; adding the same registers again changes nothing and sends nothing.
\<close>

theorem AddStruct_idempotent:
  assumes "distinct (map reg_name regs)" and "\<forall>reg \<in> set regs. wf_enum (reg_enum reg)"
  shows "(\<forall>reg \<in> set regs. \<exists>r. rdb_GetByName (fst (AddStruct rdb regs)) (reg_name reg) = Some r \<and>
      (r = reg \<or> Register_Equals reg r)) \<and>
    AddStruct (fst (AddStruct rdb regs)) regs = (fst (AddStruct rdb regs), [])"
proof (intro conjI ballI)
  fix reg
  assume "reg \<in> set regs"
  then obtain pre post where regs: "regs = pre @ reg # post"
    by (meson split_list)
  with assms(1) have "reg_name reg \<notin> reg_name ` set post"
    by auto
  from AddStruct_last [OF this, of rdb pre]
  show "\<exists>r. rdb_GetByName (fst (AddStruct rdb regs)) (reg_name reg) = Some r \<and>
      (r = reg \<or> Register_Equals reg r)"
    by (simp only: regs)
qed (rule AddStruct_twice [OF assms])

theorem AddStruct_idempotent_witness:
  "let regs = [NewRegisterStruct '''' ''a'' '''' EnumRegister (Some [(0, ''x''), (1, '''')]) '''' 0 False]
   in AddStruct (fst (AddStruct NewRegisterDb regs)) regs = (fst (AddStruct NewRegisterDb regs), [])"
  using AddStruct_idempotent
    [of "[NewRegisterStruct '''' ''a'' '''' EnumRegister (Some [(0, ''x''), (1, '''')]) '''' 0 False]"
      NewRegisterDb]
  by (simp add: wf_enum_def wf_gomap_def enum_entries_def Let_def del: AddStruct.simps)

end
