(* ===== verification/Vals.thy ===== *)
theory Vals
  imports Registers
begin

text \<open>
  src/dataflow/value.go and src/dataflow/valueFilter.go: the values the devices report. The four
  implementations of the \<open>Value\<close> interface are the four constructors of one datatype, each with
  the embedded \<open>RegisterValue\<close> (device name and register) and, except for the null value, its
  payload.
\<close>

section \<open>Values\<close>

datatype val =
    NumericRegisterValue (DeviceName: string) (val_reg: register) (num_value: f64)
  | TextRegisterValue (DeviceName: string) (val_reg: register) (text_value: string)
  | EnumRegisterValue (DeviceName: string) (val_reg: register) (enum_value: int)
  | NullRegisterValue (DeviceName: string) (val_reg: register)

definition val_name :: "val \<Rightarrow> string" where
  "val_name v = reg_name (val_reg v)"

definition is_null :: "val \<Rightarrow> bool" where
  "is_null v = (case v of NullRegisterValue _ _ \<Rightarrow> True | _ \<Rightarrow> False)"

text \<open>\<open>EnumRegisterValue.Value\<close>: the label of the index, or the empty string.\<close>

definition enum_text :: "register \<Rightarrow> int \<Rightarrow> string" where
  "enum_text r i = (case enum_lookup (reg_enum r) i of Some t \<Rightarrow> t | None \<Rightarrow> '''')"

datatype generic = GFloat f64 | GString string | GInt int | GNil

fun GenericValue :: "val \<Rightarrow> generic" where
  "GenericValue (NumericRegisterValue _ _ x) = GFloat x"
| "GenericValue (TextRegisterValue _ _ s) = GString s"
| "GenericValue (EnumRegisterValue _ _ i) = GInt i"
| "GenericValue (NullRegisterValue _ _) = GNil"

text \<open>
  \<open>Equals\<close> compares the register's name and the payload, not the device: the storage only asks
  it for values of one key. Two null values are always equal.
\<close>

fun Value_Equals :: "val \<Rightarrow> val \<Rightarrow> bool" where
  "Value_Equals (NumericRegisterValue d r x) c =
     (case c of NumericRegisterValue _ r' y \<Rightarrow> reg_name r = reg_name r' \<and> f64_eq x y | _ \<Rightarrow> False)"
| "Value_Equals (TextRegisterValue d r x) c =
     (case c of TextRegisterValue _ r' y \<Rightarrow> reg_name r = reg_name r' \<and> x = y | _ \<Rightarrow> False)"
| "Value_Equals (EnumRegisterValue d r x) c =
     (case c of EnumRegisterValue _ r' y \<Rightarrow> reg_name r = reg_name r' \<and> x = y | _ \<Rightarrow> False)"
| "Value_Equals (NullRegisterValue d r) c = is_null c"

lemma Value_Equals_sym: "Value_Equals v w \<longleftrightarrow> Value_Equals w v"
  by (cases v; cases w) (auto simp: is_null_def f64_eq_sym)

lemma Value_Equals_null: "Value_Equals v w \<Longrightarrow> is_null v \<longleftrightarrow> is_null w"
  by (cases v; cases w) (auto simp: is_null_def)

lemma Value_Equals_trans: "Value_Equals u v \<Longrightarrow> Value_Equals v w \<Longrightarrow> Value_Equals u w"
  by (cases u; cases v; cases w) (auto simp: is_null_def intro: f64_eq_trans)

text \<open>A value is equal to itself unless it is NaN, so a NaN is always news.\<close>

lemma Value_Equals_refl_iff:
  "Value_Equals v v \<longleftrightarrow> (\<forall>d r. v \<noteq> NumericRegisterValue d r F_NaN)"
  by (cases v) (auto simp: is_null_def f64_eq_refl_iff)

text \<open>A value has the type its register declares.\<close>

fun well_typed :: "val \<Rightarrow> bool" where
  "well_typed (NumericRegisterValue _ r _) = (reg_type r = NumberRegister)"
| "well_typed (TextRegisterValue _ r _) = (reg_type r = TextRegister)"
| "well_typed (EnumRegisterValue _ r _) = (reg_type r = EnumRegister)"
| "well_typed (NullRegisterValue _ _) = False"

section \<open>Rendering\<close>

text \<open>
  The verb \<open>%f\<close>: six decimals of the exact value, a half rounded to even, and the sign of a
  negative zero kept.
\<close>

definition pad_zeros :: "nat \<Rightarrow> string \<Rightarrow> string" where
  "pad_zeros n s = replicate (n - length s) (CHR ''0'') @ s"

definition fixed6 :: "nat \<Rightarrow> string" where
  "fixed6 n = nat_dec (n div 1000000) @ ''.'' @ pad_zeros 6 (nat_dec (n mod 1000000))"

fun fmt_f :: "f64 \<Rightarrow> string" where
  "fmt_f F_NaN = ''NaN''"
| "fmt_f F_PInf = ''+Inf''"
| "fmt_f F_NInf = ''-Inf''"
| "fmt_f F_NegZero = ''-0.000000''"
| "fmt_f (F_Fin q) = (if q < 0 then ''-'' else '''') @ fixed6 (nat (round_half_even (\<bar>q\<bar> * 1000000)))"

fun Value_String :: "val \<Rightarrow> string" where
  "Value_String (NumericRegisterValue d r x) = reg_name r @ ''='' @ fmt_f x @ reg_unit r"
| "Value_String (TextRegisterValue d r x) = reg_name r @ ''='' @ x"
| "Value_String (EnumRegisterValue d r i) =
     (case enum_lookup (reg_enum r) i of
        Some textVal \<Rightarrow> reg_name r @ ''='' @ itoa i @ '':'' @ textVal
      | None \<Rightarrow> reg_name r @ ''='' @ itoa i)"
| "Value_String (NullRegisterValue d r) = ''NULL''"

section \<open>Filters\<close>

type_synonym value_filter = "val \<Rightarrow> bool"

definition DeviceNameValueFilter :: "string \<Rightarrow> value_filter" where
  "DeviceNameValueFilter n v \<longleftrightarrow> DeviceName v = n"

definition RegisterValueFilter :: "filter_conf \<Rightarrow> value_filter" where
  "RegisterValueFilter conf = (let f = RegisterFilter conf in (\<lambda>v. f (val_reg v)))"

definition AllValueFilter :: value_filter where
  "AllValueFilter v = True"

definition NonNullValueFilter :: value_filter where
  "NonNullValueFilter v \<longleftrightarrow> \<not> is_null v"

definition DeviceNonNullValueFilter :: "string \<Rightarrow> value_filter" where
  "DeviceNonNullValueFilter n =
     (let deviceFilter = DeviceNameValueFilter n
      in (\<lambda>v. NonNullValueFilter v \<and> deviceFilter v))"

end
