(* ===== verification/Value_Storage.thy ===== *)
theory Value_Storage
  imports Vals Change_Feed
begin

text \<open>
  src/dataflow/valueStorage.go, the sequential core: the state by device and register name, the
  update a new value makes, and what is forwarded. Theory Storage_Steps composes these into the
  concurrent behaviour of the storage's goroutines.
\<close>

section \<open>State\<close>

record state_key =
  sk_deviceName :: string
  sk_registerName :: string

definition val_key :: "val \<Rightarrow> state_key" where
  "val_key v = \<lparr>sk_deviceName = DeviceName v, sk_registerName = val_name v\<rparr>"

type_synonym storage_state = "(state_key, val) gomap"

type_synonym state_iter = "(state_key \<times> val) list \<Rightarrow> (state_key \<times> val) list"

definition updateState :: "storage_state \<Rightarrow> val \<Rightarrow> storage_state \<times> bool" where
  "updateState st newValue =
     (let k = val_key newValue
      in if (case map_of st k of Some currentValue \<Rightarrow> Value_Equals currentValue newValue | None \<Rightarrow> False)
         then (st, False)
         else if is_null newValue then (AList.delete k st, True)
         else (AList.update k newValue st, True))"

definition GetState :: "state_iter \<Rightarrow> storage_state \<Rightarrow> val list" where
  "GetState it st = map snd (it st)"

definition GetStateFiltered :: "state_iter \<Rightarrow> storage_state \<Rightarrow> value_filter \<Rightarrow> val list" where
  "GetStateFiltered it st f = filter f (map snd (it st))"

section \<open>Invariant\<close>

definition wf_state :: "storage_state \<Rightarrow> bool" where
  "wf_state st \<longleftrightarrow>
     wf_gomap st \<and> (\<forall>(k, v) \<in> set st. val_key v = k \<and> \<not> is_null v)"

lemma wf_state_empty [wf_intros, simp]: "wf_state []"
  by (simp add: wf_state_def)

lemma update_entry: "x \<in> set (AList.update k v m) \<Longrightarrow> x = (k, v) \<or> x \<in> set m"
  by (induction m) (auto split: if_splits)

lemma delete_entry: "x \<in> set (AList.delete k m) \<Longrightarrow> x \<in> set m"
  by (simp add: AList.delete_eq)

lemma wf_updateState [wf_intros]:
  assumes "wf_state st"
  shows "wf_state (fst (updateState st v))"
  using assms
  by (auto simp: wf_state_def updateState_def Let_def intro: wf_intros dest!: update_entry delete_entry)

lemma wf_state_lookup:
  assumes "wf_state st" and "map_of st k = Some v"
  shows "val_key v = k" and "\<not> is_null v"
  using assms unfolding wf_state_def by (blast dest: map_of_SomeD)+

interpretation vs_feed: change_feed val_key is_null map_of updateState wf_state
proof unfold_locales
  fix s v k w
  show "\<not> snd (updateState s v) \<Longrightarrow> fst (updateState s v) = s"
    by (auto simp: updateState_def Let_def split: if_splits option.splits)
  assume wf: "wf_state s"
  show "snd (updateState s v) \<Longrightarrow>
      map_of (fst (updateState s v)) = apply_change val_key is_null (map_of s) v"
    by (auto simp: updateState_def Let_def apply_change_def update_conv' delete_conv'
        split: if_splits option.splits)
  show "map_of s k = Some w \<Longrightarrow> val_key w = k"
    using wf by (rule wf_state_lookup(1))
  show "wf_state (fst (updateState s v))"
    using wf by (rule wf_updateState)
qed

text \<open>\<open>updateState\<close> reports a change exactly when the entry of the key is not equal already.\<close>

lemma updateState_changed:
  "snd (updateState st v) \<longleftrightarrow>
     \<not> (\<exists>w. map_of st (val_key v) = Some w \<and> Value_Equals w v)"
  by (simp add: updateState_def Let_def split: option.splits)

lemma updateState_lookup:
  assumes "wf_state st"
  shows "map_of (fst (updateState st v)) (val_key v) =
     (if is_null v then None
      else if snd (updateState st v) then Some v else map_of st (val_key v))"
proof -
  have "False" if "is_null v" and "map_of st (val_key v) = Some w" and "Value_Equals w v" for w
    using that wf_state_lookup(2) [OF assms] Value_Equals_null by blast
  then show ?thesis
    by (auto simp: updateState_def Let_def update_conv' delete_conv' split: option.splits)
qed

text \<open>After a value that is not null, its key holds it or an equal older one.\<close>

lemma updateState_holds:
  assumes "\<not> is_null v"
  shows "\<exists>w. map_of (fst (updateState st v)) (val_key v) = Some w \<and> (w = v \<or> Value_Equals w v)"
  using assms by (auto simp: updateState_def Let_def update_conv' split: option.splits)

lemma updateState_other:
  "k \<noteq> val_key v \<Longrightarrow> map_of (fst (updateState st v)) k = map_of st k"
  by (auto simp: updateState_def Let_def update_conv' delete_conv' split: option.splits)

text \<open>A second identical fill is silent, unless the value is null or NaN.\<close>

lemma updateState_again:
  assumes "wf_state st" and "Value_Equals v v" and "\<not> is_null v"
  shows "snd (updateState (fst (updateState st v)) v) = False"
  using updateState_holds [OF assms(3), of st] assms(2) by (auto simp: updateState_changed)

section \<open>Reading\<close>

lemma GetStateFiltered_set:
  assumes "wf_state st" and "iter_order it"
  shows "set (GetStateFiltered it st f) = {v. map_of st (val_key v) = Some v \<and> f v}"
proof -
  have "set (map snd (it st)) = ran (map_of st)"
    using assms set_gomap [of st] iter_order_set [OF assms(2)] by (simp add: wf_state_def)
  moreover have "v \<in> ran (map_of st) \<longleftrightarrow> map_of st (val_key v) = Some v" for v
    using wf_state_lookup(1) [OF assms(1)] by (auto simp: ran_def)
  ultimately show ?thesis by (auto simp: GetStateFiltered_def)
qed

lemma GetStateFiltered_distinct:
  assumes "wf_state st" and "iter_order it"
  shows "distinct (map val_key (GetStateFiltered it st f))"
proof -
  have keys: "map val_key (map snd (it st)) = map fst (it st)"
    using assms iter_order_set [OF assms(2), of st] by (auto simp: wf_state_def)
  have "mset (map fst (it st)) = mset (map fst st)"
    using iter_order_mset [OF assms(2)] by simp
  then have "distinct (map fst (it st)) \<longleftrightarrow> distinct (map fst st)"
    by (rule mset_eq_imp_distinct_iff)
  then have "distinct (map fst (it st))"
    using assms(1) by (simp add: wf_state_def wf_gomap_def)
  then have "distinct (map val_key (map snd (it st)))"
    by (simp only: keys)
  then show ?thesis
    unfolding GetStateFiltered_def by (rule distinct_map_filter)
qed

lemma replay_initial:
  assumes "distinct (map key vs)" and "\<forall>v \<in> set vs. \<not> erases v"
  shows "replay key erases m vs k =
     (case find (\<lambda>v. key v = k) vs of Some v \<Rightarrow> Some v | None \<Rightarrow> m k)"
  using assms
proof (induction vs arbitrary: m)
  case (Cons v vs)
  have "find (\<lambda>v. key v = k) vs = None" if "key v = k"
    using Cons.prems(1) that by (auto simp: find_None_iff image_iff)
  with Cons show ?case
    by (auto simp: apply_change_def split: option.splits)
qed simp

text \<open>The initial values are a snapshot: replayed on nothing, they give the filtered state.\<close>

lemma snapshot_view:
  assumes "wf_state st" and "iter_order it"
  shows "replay val_key is_null (\<lambda>_. None) (GetStateFiltered it st f) = view f (map_of st)"
proof (rule ext)
  fix k
  let ?vs = "GetStateFiltered it st f"
  note set = GetStateFiltered_set [OF assms, of f]
  have "\<forall>v \<in> set ?vs. \<not> is_null v"
    using wf_state_lookup(2) [OF assms(1)] unfolding set by blast
  then have eq: "replay val_key is_null (\<lambda>_. None) ?vs k =
      (case find (\<lambda>v. val_key v = k) ?vs of Some v \<Rightarrow> Some v | None \<Rightarrow> None)"
    by (rule replay_initial [OF GetStateFiltered_distinct [OF assms]])
  show "replay val_key is_null (\<lambda>_. None) ?vs k = view f (map_of st) k"
  proof (cases "find (\<lambda>v. val_key v = k) ?vs")
    case None
    then have "\<And>v. val_key v = k \<Longrightarrow> \<not> (map_of st k = Some v \<and> f v)"
      using set by (auto simp: find_None_iff)
    then have "view f (map_of st) k = None"
      using wf_state_lookup(1) [OF assms(1)] by (auto simp: view_def split: option.splits)
    with None eq show ?thesis by simp
  next
    case (Some v)
    then have "v \<in> set ?vs" and "val_key v = k"
      by (auto simp: find_Some_iff)
    with set have "map_of st k = Some v" and "f v"
      by auto
    with Some eq show ?thesis by (simp add: view_def)
  qed
qed

text \<open>The values the main routine forwards when it processes a list of values.\<close>

fun forwarded :: "storage_state \<Rightarrow> val list \<Rightarrow> val list" where
  "forwarded st [] = []"
| "forwarded st (v # vs) =
     (let (st1, updated) = updateState st v
      in (if updated then [v] else []) @ forwarded st1 vs)"

lemma forwarded_feed: "forwarded st vs = snd (vs_feed.feed st vs)"
  by (induction vs arbitrary: st) (simp_all add: case_prod_beta Let_def)

end
