(* ===== verification/Storage_Steps.thy ===== *)
theory Storage_Steps
  imports Value_Storage
begin

text \<open>
  src/dataflow/valueStorage.go, the concurrent behaviour: callers of \<open>Fill\<close>, the main routine,
  the goroutine and the client of each subscription. Each action below is one atomic step of one
  of them; an action that is not enabled (a receive from an empty channel, a send to a full one,
  a lock that is taken) gives \<open>None\<close>. The lock is held across steps only while the main routine
  forwards a value; every other critical section of the file is a single action that needs the
  lock to be free. The fields \<open>vs_filled\<close>, \<open>vs_taken\<close>, \<open>sb_initial\<close>, \<open>sb_returned\<close> and
  \<open>sb_received\<close> record the history for the theorems and are never read by a step.
\<close>

section \<open>State\<close>

datatype sub_pc =
    Sending "val list"  \<comment> \<open>initial values still to send; none: waiting for the cancellation\<close>
  | Removing            \<comment> \<open>in the deferred cleanup, before the lock\<close>
  | Closing             \<comment> \<open>removed from the list, before the close\<close>
  | Gone

record value_sub =
  sb_filter :: value_filter
  sb_chan :: "val list"
  sb_cancelled :: bool
  sb_listed :: bool
  sb_closed :: bool
  sb_pc :: sub_pc
  sb_returned :: bool
  sb_initial :: "val list"
  sb_received :: "val list"

datatype main_pc =
    MainIdle
  | Forwarding val "nat list"  \<comment> \<open>the lock is held; the subscriptions still to visit\<close>
  | Finishing                  \<comment> \<open>unlocked, before \<open>inputWaitGroup.Done\<close>\<close>
  | MainStopped

record storage =
  vs_state :: storage_state
  vs_input :: "val list"
  vs_wg :: int
  vs_fillers :: "val list"
  vs_subs :: "value_sub list"
  vs_main :: main_pc
  vs_ctx_done :: bool
  vs_panic :: bool
  vs_filled :: "val list"
  vs_taken :: "val list"

definition inputCap :: nat where "inputCap = 32"
definition subscriptionDefaultCap :: nat where "subscriptionDefaultCap = 128"

definition NewValueStorage :: storage where
  "NewValueStorage =
     \<lparr>vs_state = [], vs_input = [], vs_wg = 0, vs_fillers = [], vs_subs = [],
      vs_main = MainIdle, vs_ctx_done = False, vs_panic = False, vs_filled = [], vs_taken = []\<rparr>"

definition vs_locked :: "storage \<Rightarrow> bool" where
  "vs_locked s \<longleftrightarrow> (case vs_main s of Forwarding _ _ \<Rightarrow> True | _ \<Rightarrow> False)"

definition chan_room :: "storage \<Rightarrow> nat \<Rightarrow> bool" where
  \<comment> \<open>a send does not block: there is room, or the channel is closed and the send panics\<close>
  "chan_room s i \<longleftrightarrow>
     sb_closed (vs_subs s ! i) \<or> length (sb_chan (vs_subs s ! i)) < subscriptionDefaultCap"

definition chan_send :: "nat \<Rightarrow> val \<Rightarrow> storage \<Rightarrow> storage" where
  "chan_send i v s =
     (let b = vs_subs s ! i
      in if sb_closed b then s\<lparr>vs_panic := True\<rparr>
         else s\<lparr>vs_subs := (vs_subs s)[i := b\<lparr>sb_chan := sb_chan b @ [v]\<rparr>]\<rparr>)"

definition set_sub_pc :: "nat \<Rightarrow> sub_pc \<Rightarrow> storage \<Rightarrow> storage" where
  "set_sub_pc i p s = s\<lparr>vs_subs := (vs_subs s)[i := (vs_subs s ! i)\<lparr>sb_pc := p\<rparr>]\<rparr>"

section \<open>Steps\<close>

text \<open>\<open>Fill\<close>: count the value, then send it to the input channel.\<close>

definition Fill_add :: "val \<Rightarrow> storage \<Rightarrow> storage option" where
  "Fill_add v s = Some (s\<lparr>vs_wg := vs_wg s + 1, vs_fillers := vs_fillers s @ [v],
                          vs_filled := vs_filled s @ [v]\<rparr>)"

definition Fill_send :: "nat \<Rightarrow> storage \<Rightarrow> storage option" where
  "Fill_send i s =
     (if i < length (vs_fillers s) \<and> length (vs_input s) < inputCap
      then Some (s\<lparr>vs_input := vs_input s @ [vs_fillers s ! i],
                   vs_fillers := take i (vs_fillers s) @ drop (Suc i) (vs_fillers s)\<rparr>)
      else None)"

text \<open>\<open>mainStorageRoutine\<close> and \<open>forwardToSubscriptions\<close>.\<close>

definition listed_ids :: "storage \<Rightarrow> nat list" where
  "listed_ids s = filter (\<lambda>i. sb_listed (vs_subs s ! i)) [0..<length (vs_subs s)]"

definition main_take :: "storage \<Rightarrow> storage option" where
  "main_take s =
     (case (vs_main s, vs_input s) of
        (MainIdle, v # vs) \<Rightarrow>
          (let (st, updated) = updateState (vs_state s) v
           in Some (s\<lparr>vs_input := vs, vs_state := st, vs_taken := vs_taken s @ [v],
                      vs_main := (if updated then Forwarding v (listed_ids s) else Finishing)\<rparr>))
      | _ \<Rightarrow> None)"

definition main_forward :: "storage \<Rightarrow> storage option" where
  "main_forward s =
     (case vs_main s of
        Forwarding v [] \<Rightarrow> Some (s\<lparr>vs_main := Finishing\<rparr>)
      | Forwarding v (i # is) \<Rightarrow>
          if \<not> sb_filter (vs_subs s ! i) v then Some (s\<lparr>vs_main := Forwarding v is\<rparr>)
          else if chan_room s i then Some ((chan_send i v s)\<lparr>vs_main := Forwarding v is\<rparr>)
          else None
      | _ \<Rightarrow> None)"

definition main_done :: "storage \<Rightarrow> storage option" where
  "main_done s =
     (if vs_main s = Finishing
      then Some (s\<lparr>vs_main := MainIdle, vs_wg := vs_wg s - 1,
                   vs_panic := (vs_panic s \<or> vs_wg s < 1)\<rparr>)
      else None)"

definition main_stop :: "storage \<Rightarrow> storage option" where
  "main_stop s =
     (if vs_main s = MainIdle \<and> vs_ctx_done s then Some (s\<lparr>vs_main := MainStopped\<rparr>) else None)"

definition VS_Shutdown :: "storage \<Rightarrow> storage option" where
  "VS_Shutdown s = Some (s\<lparr>vs_ctx_done := True\<rparr>)"

text \<open>\<open>newSubscription\<close>, and the two ways to hand out the initial values.\<close>

definition new_sub :: "value_filter \<Rightarrow> bool \<Rightarrow> val list \<Rightarrow> value_sub" where
  "new_sub f returned initial =
     \<lparr>sb_filter = f, sb_chan = [], sb_cancelled = False, sb_listed = True, sb_closed = False,
      sb_pc = Sending (if returned then [] else initial), sb_returned = returned,
      sb_initial = initial, sb_received = []\<rparr>"

definition newSubscription :: "state_iter \<Rightarrow> value_filter \<Rightarrow> bool \<Rightarrow> storage \<Rightarrow> storage option" where
  "newSubscription it f returned s =
     (if vs_locked s then None
      else Some (s\<lparr>vs_subs := vs_subs s @ [new_sub f returned (GetStateFiltered it (vs_state s) f)]\<rparr>))"

definition SubscribeReturnInitial :: "state_iter \<Rightarrow> value_filter \<Rightarrow> storage \<Rightarrow> storage option" where
  "SubscribeReturnInitial it f s = newSubscription it f True s"

definition SubscribeSendInitial :: "state_iter \<Rightarrow> value_filter \<Rightarrow> storage \<Rightarrow> storage option" where
  "SubscribeSendInitial it f s = newSubscription it f False s"

text \<open>\<open>sendInitialAndCleanupValueSubscription\<close>, and the client of the subscription.\<close>

definition sub_send :: "nat \<Rightarrow> storage \<Rightarrow> storage option" where
  "sub_send i s =
     (if i < length (vs_subs s) then
        (case sb_pc (vs_subs s ! i) of
           Sending (v # vs) \<Rightarrow>
             if chan_room s i then Some (set_sub_pc i (Sending vs) (chan_send i v s)) else None
         | _ \<Rightarrow> None)
      else None)"

definition sub_quit :: "nat \<Rightarrow> storage \<Rightarrow> storage option" where
  "sub_quit i s =
     (if i < length (vs_subs s) \<and> sb_cancelled (vs_subs s ! i) then
        (case sb_pc (vs_subs s ! i) of
           Sending _ \<Rightarrow> Some (set_sub_pc i Removing s)
         | _ \<Rightarrow> None)
      else None)"

definition sub_remove :: "nat \<Rightarrow> storage \<Rightarrow> storage option" where
  "sub_remove i s =
     (if i < length (vs_subs s) \<and> sb_pc (vs_subs s ! i) = Removing \<and> \<not> vs_locked s
      then Some (s\<lparr>vs_subs :=
             (vs_subs s)[i := (vs_subs s ! i)\<lparr>sb_listed := False, sb_pc := Closing\<rparr>]\<rparr>)
      else None)"

definition sub_close :: "nat \<Rightarrow> storage \<Rightarrow> storage option" where
  "sub_close i s =
     (if i < length (vs_subs s) \<and> sb_pc (vs_subs s ! i) = Closing
      then Some (s\<lparr>vs_subs := (vs_subs s)[i := (vs_subs s ! i)\<lparr>sb_closed := True, sb_pc := Gone\<rparr>],
                   vs_panic := (vs_panic s \<or> sb_closed (vs_subs s ! i))\<rparr>)
      else None)"

definition client_cancel :: "nat \<Rightarrow> storage \<Rightarrow> storage option" where
  "client_cancel i s =
     (if i < length (vs_subs s)
      then Some (s\<lparr>vs_subs := (vs_subs s)[i := (vs_subs s ! i)\<lparr>sb_cancelled := True\<rparr>]\<rparr>)
      else None)"

definition client_recv :: "nat \<Rightarrow> storage \<Rightarrow> storage option" where
  \<comment> \<open>a receive from the channel \<open>Drain\<close> returns\<close>
  "client_recv i s =
     (if i < length (vs_subs s) then
        (case sb_chan (vs_subs s ! i) of
           v # vs \<Rightarrow> Some (s\<lparr>vs_subs := (vs_subs s)[i := (vs_subs s ! i)
               \<lparr>sb_chan := vs, sb_received := sb_received (vs_subs s ! i) @ [v]\<rparr>]\<rparr>)
         | [] \<Rightarrow> None)
      else None)"

datatype storage_action =
    AFillAdd val | AFillSend nat
  | ATake | AForward | ADone | AStop | AShutdown
  | ASubscribe state_iter value_filter bool
  | ASend nat | AQuit nat | ARemove nat | AClose nat
  | ACancel nat | ARecv nat

fun vs_exec :: "storage_action \<Rightarrow> storage \<Rightarrow> storage option" where
  "vs_exec (AFillAdd v) s = Fill_add v s"
| "vs_exec (AFillSend i) s = Fill_send i s"
| "vs_exec ATake s = main_take s"
| "vs_exec AForward s = main_forward s"
| "vs_exec ADone s = main_done s"
| "vs_exec AStop s = main_stop s"
| "vs_exec AShutdown s = VS_Shutdown s"
| "vs_exec (ASubscribe it f returned) s =
     (if returned then SubscribeReturnInitial it f s else SubscribeSendInitial it f s)"
| "vs_exec (ASend i) s = sub_send i s"
| "vs_exec (AQuit i) s = sub_quit i s"
| "vs_exec (ARemove i) s = sub_remove i s"
| "vs_exec (AClose i) s = sub_close i s"
| "vs_exec (ACancel i) s = client_cancel i s"
| "vs_exec (ARecv i) s = client_recv i s"

fun vs_run :: "storage_action list \<Rightarrow> storage \<Rightarrow> storage option" where
  "vs_run [] s = Some s"
| "vs_run (a # acts) s = (case vs_exec a s of Some s' \<Rightarrow> vs_run acts s' | None \<Rightarrow> None)"

text \<open>A range over the state map visits it in some order, a permutation of its entries.\<close>

definition fair_action :: "storage_action \<Rightarrow> bool" where
  "fair_action a = (case a of ASubscribe it _ _ \<Rightarrow> iter_order it | _ \<Rightarrow> True)"

inductive vs_step :: "storage \<Rightarrow> storage \<Rightarrow> bool" where
  step: "fair_action a \<Longrightarrow> vs_exec a s = Some s' \<Longrightarrow> vs_step s s'"

inductive reachable :: "storage \<Rightarrow> bool" where
  reach_init: "reachable NewValueStorage"
| reach_next: "reachable s \<Longrightarrow> vs_step s s' \<Longrightarrow> reachable s'"

inductive_simps vs_step_iff: "vs_step s s'"

lemma reachable_run:
  "reachable s \<Longrightarrow> list_all fair_action acts \<Longrightarrow> vs_run acts s = Some s' \<Longrightarrow> reachable s'"
proof (induction acts arbitrary: s)
  case (Cons a acts)
  then obtain s1 where "vs_exec a s = Some s1" and "vs_run acts s1 = Some s'"
    by (auto split: option.splits)
  moreover from this Cons.prems have "vs_step s s1"
    by (auto intro: vs_step.step)
  ultimately show ?case
    using Cons by (auto intro: reachable.reach_next)
qed simp

end
