(* ===== verification/Storage_Invariants.thy ===== *)
theory Storage_Invariants
  imports Storage_Steps
begin

text \<open>
  The invariants of the storage's step relation: the channels' bounds, the wait group's count,
  the structure of the subscriptions (no send to a closed channel, no double close), and that
  the stream of a subscription with returned initial values never loses or reorders a change.
\<close>

lemmas vs_ops = Fill_add_def Fill_send_def main_take_def main_forward_def main_done_def
  main_stop_def VS_Shutdown_def SubscribeReturnInitial_def SubscribeSendInitial_def
  newSubscription_def sub_send_def sub_quit_def sub_remove_def sub_close_def client_cancel_def
  client_recv_def

lemmas vs_splits = option.splits list.splits main_pc.splits sub_pc.splits if_splits prod.splits

section \<open>Structure\<close>

definition sub_ok :: "value_sub \<Rightarrow> bool" where
  "sub_ok b \<longleftrightarrow>
     (sb_listed b \<longleftrightarrow> sb_pc b \<notin> {Closing, Gone}) \<and>
     (sb_closed b \<longleftrightarrow> sb_pc b = Gone) \<and>
     (sb_pc b \<in> {Removing, Closing, Gone} \<longrightarrow> sb_cancelled b) \<and>
     (sb_returned b \<longrightarrow> (\<forall>v vs. sb_pc b \<noteq> Sending (v # vs))) \<and>
     length (sb_chan b) \<le> subscriptionDefaultCap"

definition main_ok :: "storage \<Rightarrow> bool" where
  "main_ok s \<longleftrightarrow>
     (case vs_main s of
        Forwarding v ids \<Rightarrow>
          distinct ids \<and> (\<forall>i \<in> set ids. i < length (vs_subs s) \<and> sb_listed (vs_subs s ! i))
      | _ \<Rightarrow> True)"

definition vs_struct :: "storage \<Rightarrow> bool" where
  "vs_struct s \<longleftrightarrow>
     wf_state (vs_state s) \<and> length (vs_input s) \<le> inputCap \<and>
     (\<forall>b \<in> set (vs_subs s). sub_ok b) \<and> main_ok s"

lemma sub_ok_nth: "\<forall>b \<in> set bs. sub_ok b \<Longrightarrow> i < length bs \<Longrightarrow> sub_ok (bs ! i)"
  by simp

lemma all_update:
  "\<forall>b \<in> set bs. P b \<Longrightarrow> P x \<Longrightarrow> \<forall>b \<in> set (bs[i := x]). P b"
  using set_update_subset_insert [of bs i x] by blast

text \<open>
  A step that changes one subscription and keeps it listed, or is not taken while the lock is
  held, keeps the structure.
\<close>

lemma main_ok_update:
  assumes "main_ok s" and "sb_listed (vs_subs s ! i) \<longrightarrow> sb_listed b"
    and "vs_main s' = vs_main s" and "vs_subs s' = (vs_subs s)[i := b]"
  shows "main_ok s'"
proof -
  have "sb_listed ((vs_subs s)[i := b] ! j)" if "j < length (vs_subs s)" "sb_listed (vs_subs s ! j)" for j
    using that assms(2) by (cases "j = i") auto
  with assms show ?thesis by (auto simp: main_ok_def split: main_pc.splits)
qed

lemma main_ok_cong: "vs_main s' = vs_main s \<Longrightarrow> vs_subs s' = vs_subs s \<Longrightarrow> main_ok s' = main_ok s"
  by (simp add: main_ok_def split: main_pc.splits)

lemma vs_struct_cong:
  "vs_struct s \<Longrightarrow> vs_state s' = vs_state s \<Longrightarrow> length (vs_input s') \<le> inputCap \<Longrightarrow>
     vs_main s' = vs_main s \<Longrightarrow> vs_subs s' = vs_subs s \<Longrightarrow> vs_struct s'"
  using main_ok_cong [of s' s] by (simp add: vs_struct_def)

lemma main_ok_unlocked: "\<not> vs_locked s \<Longrightarrow> main_ok s"
  by (auto simp: vs_locked_def main_ok_def split: main_pc.splits)

lemma vs_struct_Fill:
  "vs_struct s \<Longrightarrow> Fill_add v s = Some s' \<Longrightarrow> vs_struct s'"
  "vs_struct s \<Longrightarrow> Fill_send i s = Some s' \<Longrightarrow> vs_struct s'"
proof -
  assume s: "vs_struct s" and "Fill_add v s = Some s'"
  then show "vs_struct s'"
    by (intro vs_struct_cong [OF s]) (auto simp: Fill_add_def vs_struct_def)
next
  assume s: "vs_struct s" and "Fill_send i s = Some s'"
  then show "vs_struct s'"
    by (intro vs_struct_cong [OF s]) (auto simp: Fill_send_def split: if_splits)
qed

lemma vs_struct_main_take:
  assumes "vs_struct s" and "main_take s = Some s'"
  shows "vs_struct s'"
proof -
  from assms(2) obtain v vs where "vs_main s = MainIdle" and "vs_input s = v # vs"
    by (auto simp: main_take_def split: main_pc.splits list.splits)
  with assms show ?thesis
    using wf_updateState [of "vs_state s" v]
    by (auto simp: main_take_def vs_struct_def main_ok_def listed_ids_def case_prod_beta Let_def
        split: if_splits)
qed

lemma vs_struct_main_forward:
  assumes "vs_struct s" and "main_forward s = Some s'"
  shows "vs_struct s'"
proof -
  obtain v ids where main: "vs_main s = Forwarding v ids"
    using assms(2) by (auto simp: main_forward_def split: main_pc.splits)
  show ?thesis
  proof (cases ids)
    case Nil
    with assms main show ?thesis
      by (auto simp: main_forward_def vs_struct_def main_ok_def)
  next
    case (Cons i rest)
    let ?b = "vs_subs s ! i"
    have i: "i < length (vs_subs s)" "sb_listed ?b" "sub_ok ?b"
      using assms(1) main Cons by (auto simp: vs_struct_def main_ok_def)
    then have open_: "\<not> sb_closed ?b"
      by (auto simp: sub_ok_def)
    show ?thesis
    proof (cases "sb_filter ?b v")
      case False
      with assms main Cons show ?thesis
        by (auto simp: main_forward_def vs_struct_def main_ok_def)
    next
      case True
      with assms(2) main Cons open_ have room: "length (sb_chan ?b) < subscriptionDefaultCap"
        and s': "s' = s\<lparr>vs_subs := (vs_subs s)[i := ?b\<lparr>sb_chan := sb_chan ?b @ [v]\<rparr>],
                       vs_main := Forwarding v rest\<rparr>"
        by (auto simp: main_forward_def chan_room_def chan_send_def Let_def split: if_splits)
      have "sub_ok (?b\<lparr>sb_chan := sb_chan ?b @ [v]\<rparr>)"
        using i room by (auto simp: sub_ok_def)
      then have "\<forall>b \<in> set (vs_subs s'). sub_ok b"
        using assms(1) all_update [of "vs_subs s" sub_ok] unfolding s' vs_struct_def by simp
      then show ?thesis
        using assms(1) main Cons i unfolding s' vs_struct_def main_ok_def
        by (auto simp: nth_list_update)
    qed
  qed
qed

lemma vs_struct_main_rest:
  "vs_struct s \<Longrightarrow> main_done s = Some s' \<Longrightarrow> vs_struct s'"
  "vs_struct s \<Longrightarrow> main_stop s = Some s' \<Longrightarrow> vs_struct s'"
  "vs_struct s \<Longrightarrow> VS_Shutdown s = Some s' \<Longrightarrow> vs_struct s'"
  by (auto simp: vs_ops vs_struct_def main_ok_def split: if_splits main_pc.splits)

lemma vs_struct_newSubscription:
  assumes "vs_struct s" and "newSubscription it f r s = Some s'"
  shows "vs_struct s'"
proof -
  let ?b = "new_sub f r (GetStateFiltered it (vs_state s) f)"
  from assms(2) have "\<not> vs_locked s" and s': "s' = s\<lparr>vs_subs := vs_subs s @ [?b]\<rparr>"
    by (auto simp: newSubscription_def split: if_splits)
  then have "main_ok s'"
    by (intro main_ok_unlocked) (simp add: vs_locked_def)
  moreover have "sub_ok ?b"
    by (simp add: new_sub_def sub_ok_def)
  ultimately show ?thesis
    using assms(1) unfolding s' by (simp add: vs_struct_def)
qed

lemma vs_struct_sub:
  assumes "vs_struct s" and "i < length (vs_subs s)"
    and "sub_ok (vs_subs s ! i) \<Longrightarrow> sub_ok b"
    and "(sb_listed (vs_subs s ! i) \<longrightarrow> sb_listed b) \<or> \<not> vs_locked s"
    and "vs_subs s' = (vs_subs s)[i := b]"
    and "vs_main s' = vs_main s" "vs_state s' = vs_state s" "vs_input s' = vs_input s"
  shows "vs_struct s'"
proof -
  have "\<forall>b \<in> set (vs_subs s'). sub_ok b"
    unfolding assms(5)
  proof (rule all_update)
    show subs: "\<forall>b \<in> set (vs_subs s). sub_ok b"
      using assms(1) by (simp add: vs_struct_def)
    show "sub_ok b"
      using assms(3) sub_ok_nth [OF subs assms(2)] .
  qed
  moreover have "main_ok s'"
  proof (cases "vs_locked s")
    case True
    with assms show ?thesis by (intro main_ok_update [of s i b s']) (auto simp: vs_struct_def)
  next
    case False
    with assms(6) show ?thesis by (intro main_ok_unlocked) (simp add: vs_locked_def)
  qed
  ultimately show ?thesis
    using assms by (simp add: vs_struct_def)
qed

lemma vs_struct_sub_send:
  assumes "vs_struct s" and "sub_send i s = Some s'"
  shows "vs_struct s'"
proof -
  obtain v vs where i: "i < length (vs_subs s)" and pc: "sb_pc (vs_subs s ! i) = Sending (v # vs)"
    using assms(2) by (auto simp: sub_send_def split: if_splits sub_pc.splits list.splits)
  moreover have "\<not> sb_closed (vs_subs s ! i)"
    using assms(1) i pc by (auto simp: vs_struct_def sub_ok_def dest!: nth_mem)
  ultimately show ?thesis
    using assms
    by (intro vs_struct_sub [OF assms(1) i,
          where b = "(vs_subs s ! i)\<lparr>sb_chan := sb_chan (vs_subs s ! i) @ [v], sb_pc := Sending vs\<rparr>"])
      (auto simp: sub_send_def chan_room_def chan_send_def set_sub_pc_def Let_def sub_ok_def
        split: if_splits)
qed

lemma vs_struct_sub_quit:
  assumes "vs_struct s" and "sub_quit i s = Some s'"
  shows "vs_struct s'"
  using assms(2)
  by (intro vs_struct_sub [OF assms(1), of i "(vs_subs s ! i)\<lparr>sb_pc := Removing\<rparr>"])
    (auto simp: sub_quit_def set_sub_pc_def sub_ok_def split: if_splits sub_pc.splits)

lemma vs_struct_sub_remove:
  assumes "vs_struct s" and "sub_remove i s = Some s'"
  shows "vs_struct s'"
  using assms(2)
  by (intro vs_struct_sub [OF assms(1), of i "(vs_subs s ! i)\<lparr>sb_listed := False, sb_pc := Closing\<rparr>"])
    (auto simp: sub_remove_def set_sub_pc_def sub_ok_def split: if_splits sub_pc.splits)

lemma vs_struct_sub_close:
  assumes "vs_struct s" and "sub_close i s = Some s'"
  shows "vs_struct s'"
  using assms(2)
  by (intro vs_struct_sub [OF assms(1), of i "(vs_subs s ! i)\<lparr>sb_closed := True, sb_pc := Gone\<rparr>"])
    (auto simp: sub_close_def set_sub_pc_def sub_ok_def split: if_splits sub_pc.splits)

lemma vs_struct_client_cancel:
  assumes "vs_struct s" and "client_cancel i s = Some s'"
  shows "vs_struct s'"
  using assms(2)
  by (intro vs_struct_sub [OF assms(1), of i "(vs_subs s ! i)\<lparr>sb_cancelled := True\<rparr>"])
    (auto simp: client_cancel_def set_sub_pc_def sub_ok_def split: if_splits sub_pc.splits)

lemma vs_struct_client_recv:
  assumes "vs_struct s" and "client_recv i s = Some s'"
  shows "vs_struct s'"
  using assms(2)
  by (intro vs_struct_sub [OF assms(1), of i "(vs_subs s ! i)\<lparr>sb_chan := tl (sb_chan (vs_subs s ! i)),
        sb_received := sb_received (vs_subs s ! i) @ [hd (sb_chan (vs_subs s ! i))]\<rparr>"])
    (auto simp: client_recv_def sub_ok_def split: if_splits list.splits)

lemma vs_struct_exec: "vs_struct s \<Longrightarrow> vs_exec a s = Some s' \<Longrightarrow> vs_struct s'"
  by (cases a)
    (auto simp: SubscribeReturnInitial_def SubscribeSendInitial_def split: if_splits
      intro: vs_struct_Fill vs_struct_main_take vs_struct_main_forward vs_struct_main_rest
        vs_struct_newSubscription vs_struct_sub_send vs_struct_sub_quit vs_struct_sub_remove
        vs_struct_sub_close vs_struct_client_cancel vs_struct_client_recv)

lemma vs_struct_init: "vs_struct NewValueStorage"
  by (simp add: vs_struct_def NewValueStorage_def main_ok_def)

lemma reachable_struct: "reachable s \<Longrightarrow> vs_struct s"
  by (induction rule: reachable.induct) (auto simp: vs_step_iff intro: vs_struct_init vs_struct_exec)

section \<open>Counting\<close>

definition main_busy :: "storage \<Rightarrow> int" where
  "main_busy s = (case vs_main s of Forwarding _ _ \<Rightarrow> 1 | Finishing \<Rightarrow> 1 | _ \<Rightarrow> 0)"

definition vs_count :: "storage \<Rightarrow> bool" where
  "vs_count s \<longleftrightarrow>
     vs_wg s = int (length (vs_fillers s)) + int (length (vs_input s)) + main_busy s \<and>
     mset (vs_filled s) = mset (vs_fillers s) + mset (vs_input s) + mset (vs_taken s) \<and>
     vs_state s = fst (vs_feed.feed [] (vs_taken s)) \<and>
     \<not> vs_panic s"

lemma feed_snoc: "fst (vs_feed.feed st (vs @ [v])) = fst (updateState (fst (vs_feed.feed st vs)) v)"
  by (simp add: vs_feed.feed_append case_prod_beta Let_def)

lemma mset_take_drop: "i < length xs \<Longrightarrow> mset xs = mset (take i xs @ drop (Suc i) xs) + {#xs ! i#}"
  by (subst id_take_nth_drop [of i xs]) auto

lemma vs_count_cong:
  "vs_count s \<Longrightarrow> vs_wg s' = vs_wg s \<Longrightarrow> vs_fillers s' = vs_fillers s \<Longrightarrow>
     vs_input s' = vs_input s \<Longrightarrow> main_busy s' = main_busy s \<Longrightarrow> vs_filled s' = vs_filled s \<Longrightarrow>
     vs_taken s' = vs_taken s \<Longrightarrow> vs_state s' = vs_state s \<Longrightarrow> vs_panic s' = vs_panic s \<Longrightarrow>
     vs_count s'"
  by (simp add: vs_count_def)

lemma vs_count_Fill_add: "vs_count s \<Longrightarrow> Fill_add v s = Some s' \<Longrightarrow> vs_count s'"
  by (auto simp: Fill_add_def vs_count_def main_busy_def)

lemma vs_count_Fill_send:
  assumes "vs_count s" and "Fill_send i s = Some s'"
  shows "vs_count s'"
proof -
  from assms(2) have i: "i < length (vs_fillers s)"
    and s': "s' = s\<lparr>vs_input := vs_input s @ [vs_fillers s ! i],
                   vs_fillers := take i (vs_fillers s) @ drop (Suc i) (vs_fillers s)\<rparr>"
    by (auto simp: Fill_send_def split: if_splits)
  have "mset (vs_fillers s) = mset (vs_fillers s') + {#vs_fillers s ! i#}"
    using mset_take_drop [OF i] by (simp add: s')
  moreover have "length (vs_fillers s) = Suc (length (vs_fillers s'))"
    using i by (simp add: s')
  moreover have "main_busy s' = main_busy s" and "vs_taken s' = vs_taken s"
    and "vs_wg s' = vs_wg s" and "vs_filled s' = vs_filled s" and "vs_state s' = vs_state s"
    and "vs_panic s' = vs_panic s" and "vs_input s' = vs_input s @ [vs_fillers s ! i]"
    by (simp_all add: s' main_busy_def)
  ultimately show ?thesis
    using assms(1) by (simp add: vs_count_def)
qed

lemma vs_count_main_take:
  assumes "vs_count s" and "main_take s = Some s'"
  shows "vs_count s'"
proof -
  from assms(2) obtain v vs where "vs_main s = MainIdle" and "vs_input s = v # vs"
    by (auto simp: main_take_def split: main_pc.splits list.splits)
  with assms show ?thesis
    by (auto simp: main_take_def vs_count_def main_busy_def feed_snoc case_prod_beta Let_def
        split: if_splits)
qed

lemma chan_send_open:
  assumes "vs_struct s" and "i < length (vs_subs s)" and "sb_pc (vs_subs s ! i) \<noteq> Gone"
  shows "chan_send i v s =
     s\<lparr>vs_subs := (vs_subs s)[i := (vs_subs s ! i)\<lparr>sb_chan := sb_chan (vs_subs s ! i) @ [v]\<rparr>]\<rparr>"
proof -
  have "sub_ok (vs_subs s ! i)"
    using assms by (simp add: vs_struct_def)
  with assms(3) show ?thesis
    by (auto simp: chan_send_def Let_def sub_ok_def)
qed

text \<open>What a forwarding step does, by cases.\<close>

lemma main_forward_cases:
  assumes "vs_struct s" and "main_forward s = Some s'"
  obtains (unlock) v where "vs_main s = Forwarding v []" and "s' = s\<lparr>vs_main := Finishing\<rparr>"
  | (skip) v i ids where "vs_main s = Forwarding v (i # ids)" and "\<not> sb_filter (vs_subs s ! i) v"
      and "s' = s\<lparr>vs_main := Forwarding v ids\<rparr>"
  | (send) v i ids where "vs_main s = Forwarding v (i # ids)" and "sb_filter (vs_subs s ! i) v"
      and "i < length (vs_subs s)" and "sb_listed (vs_subs s ! i)" and "i \<notin> set ids"
      and "s' = s\<lparr>vs_subs := (vs_subs s)[i := (vs_subs s ! i)
                    \<lparr>sb_chan := sb_chan (vs_subs s ! i) @ [v]\<rparr>], vs_main := Forwarding v ids\<rparr>"
proof -
  obtain v ids where main: "vs_main s = Forwarding v ids"
    using assms(2) by (auto simp: main_forward_def split: main_pc.splits)
  show thesis
  proof (cases ids)
    case Nil
    with main assms(2) show thesis by (intro unlock) (auto simp: main_forward_def)
  next
    case (Cons i rest)
    show thesis
    proof (cases "sb_filter (vs_subs s ! i) v")
      case False
      with main Cons assms(2) show thesis by (intro skip) (auto simp: main_forward_def)
    next
      case True
      have i: "i < length (vs_subs s)" "sb_listed (vs_subs s ! i)" "i \<notin> set rest"
        using assms(1) main Cons by (auto simp: vs_struct_def main_ok_def)
      then have "sub_ok (vs_subs s ! i)"
        using assms(1) by (simp add: vs_struct_def)
      with i have "sb_pc (vs_subs s ! i) \<noteq> Gone"
        by (auto simp: sub_ok_def)
      from chan_send_open [OF assms(1) i(1) this] show thesis
        using True main Cons assms(2) i
        by (intro send) (auto simp: main_forward_def split: if_splits)
    qed
  qed
qed

lemma vs_count_main_forward:
  assumes "vs_struct s" and "vs_count s" and "main_forward s = Some s'"
  shows "vs_count s'"
  using assms(1,3)
  by (cases rule: main_forward_cases)
    (use assms(2) in \<open>simp_all add: vs_count_def main_busy_def\<close>)

lemma vs_count_main_rest:
  "vs_count s \<Longrightarrow> main_done s = Some s' \<Longrightarrow> vs_count s'"
  "vs_count s \<Longrightarrow> main_stop s = Some s' \<Longrightarrow> vs_count s'"
  "vs_count s \<Longrightarrow> VS_Shutdown s = Some s' \<Longrightarrow> vs_count s'"
  by (auto simp: vs_ops vs_count_def main_busy_def split: if_splits main_pc.splits)

text \<open>Each remaining step changes at most one subscription and panics in no reachable state.\<close>

definition only_subs :: "storage \<Rightarrow> storage \<Rightarrow> bool" where
  "only_subs s s' \<longleftrightarrow> s' = s\<lparr>vs_subs := vs_subs s'\<rparr>"

lemma only_subs_main_busy [step_frames]: "only_subs s s' \<Longrightarrow> main_busy s' = main_busy s"
  unfolding only_subs_def by (erule ssubst) (simp add: main_busy_def)

lemma only_subs_fields [step_frames]:
  assumes "only_subs s s'"
  shows "vs_main s' = vs_main s" "vs_state s' = vs_state s" "vs_wg s' = vs_wg s"
    "vs_input s' = vs_input s" "vs_fillers s' = vs_fillers s" "vs_filled s' = vs_filled s"
    "vs_taken s' = vs_taken s" "vs_panic s' = vs_panic s" "vs_ctx_done s' = vs_ctx_done s"
  using assms unfolding only_subs_def by (cases s, cases s', simp)+

lemma only_subs_newSubscription [step_frames]: "newSubscription it f r s = Some s' \<Longrightarrow> only_subs s s'"
  by (auto simp: newSubscription_def only_subs_def split: if_splits)

lemma only_subs_sub_send [step_frames]:
  assumes "vs_struct s" and "sub_send i s = Some s'"
  shows "only_subs s s'"
proof -
  obtain v vs where "i < length (vs_subs s)" and "sb_pc (vs_subs s ! i) = Sending (v # vs)"
    using assms(2) by (auto simp: sub_send_def split: if_splits sub_pc.splits list.splits)
  with assms chan_send_open [OF assms(1), of i v] show ?thesis
    by (auto simp: sub_send_def set_sub_pc_def only_subs_def split: if_splits)
qed

lemma only_subs_sub_close [step_frames]:
  assumes "vs_struct s" and "sub_close i s = Some s'"
  shows "only_subs s s'"
proof -
  have i: "i < length (vs_subs s)" and pc: "sb_pc (vs_subs s ! i) = Closing"
    using assms(2) by (auto simp: sub_close_def split: if_splits)
  have "sub_ok (vs_subs s ! i)"
    using assms(1) i by (simp add: vs_struct_def)
  with pc have "\<not> sb_closed (vs_subs s ! i)"
    by (simp add: sub_ok_def)
  with assms(2) show ?thesis
    by (auto simp: sub_close_def only_subs_def split: if_splits)
qed

lemma only_subs_rest [step_frames]:
  "sub_quit i s = Some s' \<Longrightarrow> only_subs s s'"
  "sub_remove i s = Some s' \<Longrightarrow> only_subs s s'"
  "client_cancel i s = Some s' \<Longrightarrow> only_subs s s'"
  "client_recv i s = Some s' \<Longrightarrow> only_subs s s'"
  by (auto simp: vs_ops set_sub_pc_def only_subs_def split: if_splits sub_pc.splits list.splits)

lemma vs_count_only_subs: "vs_count s \<Longrightarrow> only_subs s s' \<Longrightarrow> vs_count s'"
  by (erule vs_count_cong) (simp_all add: step_frames)

lemma vs_count_exec:
  assumes "vs_struct s" and "vs_count s" and "vs_exec a s = Some s'"
  shows "vs_count s'"
  using assms
  by (cases a)
    (auto simp: SubscribeReturnInitial_def SubscribeSendInitial_def split: if_splits
      intro: vs_count_Fill_add vs_count_Fill_send vs_count_main_take vs_count_main_forward
        vs_count_main_rest vs_count_only_subs step_frames)

lemma vs_count_init: "vs_count NewValueStorage"
  by (simp add: vs_count_def NewValueStorage_def main_busy_def)

lemma reachable_count: "reachable s \<Longrightarrow> vs_count s"
  by (induction rule: reachable.induct)
    (auto simp: vs_step_iff intro: vs_count_init vs_count_exec reachable_struct)

end
