(* ===== verification/Storage_Streams.thy ===== *)
theory Storage_Streams
  imports Storage_Invariants
begin

text \<open>
  What a subscriber of the value storage may rely on. A subscription with returned initial
  values and a filter on keys is never ahead of or behind the state by more than what is in
  its channel; a forwarded value blocks the whole storage while one subscriber's channel is
  full; with room in the channels, one value of the input is processed by a bounded number of
  steps of the main routine, with the effect of the sequential update.
\<close>

section \<open>Streams\<close>

definition due :: "storage \<Rightarrow> nat \<Rightarrow> val list" where
  \<comment> \<open>the value being forwarded, when subscription \<open>i\<close> is still to get it\<close>
  "due s i = (case vs_main s of
       Forwarding v ids \<Rightarrow> if i \<in> set ids \<and> sb_filter (vs_subs s ! i) v then [v] else []
     | _ \<Rightarrow> [])"

definition sub_view :: "storage \<Rightarrow> nat \<Rightarrow> state_key \<rightharpoonup> val" where
  \<comment> \<open>the initial values and the changes received, in the channel or due\<close>
  "sub_view s i = (let b = vs_subs s ! i in
     replay val_key is_null (replay val_key is_null (\<lambda>_. None) (sb_initial b))
       (sb_received b @ sb_chan b @ due s i))"

definition tracked :: "storage \<Rightarrow> nat \<Rightarrow> bool" where
  "tracked s i \<longleftrightarrow>
     i < length (vs_subs s) \<and> sb_listed (vs_subs s ! i) \<and> sb_returned (vs_subs s ! i) \<and>
     key_filter val_key (sb_filter (vs_subs s ! i))"

definition in_step :: "storage \<Rightarrow> bool" where
  "in_step s \<longleftrightarrow>
     (\<forall>i. tracked s i \<longrightarrow> sub_view s i = view (sb_filter (vs_subs s ! i)) (map_of (vs_state s)))"

lemma in_step_cong:
  assumes "in_step s" and "vs_subs s' = vs_subs s" and "vs_state s' = vs_state s"
    and "\<And>i. due s' i = due s i"
  shows "in_step s'"
  using assms by (simp add: in_step_def tracked_def sub_view_def Let_def)

text \<open>
  A change of one subscription that keeps its filter, its initial values and the sequence of
  values received, in the channel and due.
\<close>

lemma in_step_sub:
  assumes "in_step s" and "i < length (vs_subs s)"
    and subs: "vs_subs s' = (vs_subs s)[i := b]" and st: "vs_state s' = vs_state s"
    and "sb_listed b \<Longrightarrow> sb_listed (vs_subs s ! i)"
    and "sb_returned b = sb_returned (vs_subs s ! i)"
    and filt: "sb_filter b = sb_filter (vs_subs s ! i)"
    and "sb_initial b = sb_initial (vs_subs s ! i)"
    and "sb_returned b \<Longrightarrow> sb_received b @ sb_chan b @ due s' i =
      sb_received (vs_subs s ! i) @ sb_chan (vs_subs s ! i) @ due s i"
    and "\<And>j. j \<noteq> i \<Longrightarrow> due s' j = due s j"
  shows "in_step s'"
  unfolding in_step_def
proof (intro allI impI)
  fix j
  assume tr: "tracked s' j"
  show "sub_view s' j = view (sb_filter (vs_subs s' ! j)) (map_of (vs_state s'))"
  proof (cases "j = i")
    case True
    with tr assms have tri: "tracked s i" and "sb_returned b"
      by (auto simp: tracked_def)
    with assms have "sub_view s' i = sub_view s i"
      by (simp add: sub_view_def Let_def del: replay_append)
    with tri True assms(1,2) subs st filt show ?thesis
      by (simp add: in_step_def)
  next
    case False
    with tr subs have "tracked s j"
      by (simp add: tracked_def)
    moreover have "sub_view s' j = sub_view s j"
      using False assms(10) subs by (simp add: sub_view_def Let_def)
    ultimately show ?thesis
      using assms(1) subs st False by (simp add: in_step_def)
  qed
qed

lemma due_unlocked: "\<not> vs_locked s \<Longrightarrow> due s i = []"
  by (simp add: vs_locked_def due_def split: main_pc.splits)

lemma due_cong:
  "vs_main s' = vs_main s \<Longrightarrow> sb_filter (vs_subs s' ! i) = sb_filter (vs_subs s ! i) \<Longrightarrow>
     due s' i = due s i"
  by (simp add: due_def split: main_pc.splits)

lemma due_update:
  assumes "vs_main s' = vs_main s" and "vs_subs s' = (vs_subs s)[i := b]"
    and "sb_filter b = sb_filter (vs_subs s ! i)"
  shows "due s' j = due s j"
proof (rule due_cong [OF assms(1)])
  show "sb_filter (vs_subs s' ! j) = sb_filter (vs_subs s ! j)"
  proof (cases "j = i \<and> i < length (vs_subs s)")
    case False
    then have "(vs_subs s)[i := b] ! j = vs_subs s ! j"
      by (metis list_update_beyond not_le nth_list_update_neq)
    then show ?thesis by (simp add: assms(2))
  qed (simp add: assms)
qed

lemma in_step_main_take:
  assumes "vs_struct s" and "in_step s" and "main_take s = Some s'"
  shows "in_step s'"
  unfolding in_step_def
proof (intro allI impI)
  fix i
  assume tr: "tracked s' i"
  obtain v vs where main: "vs_main s = MainIdle" and input: "vs_input s = v # vs"
    using assms(3) by (auto simp: main_take_def split: main_pc.splits list.splits)
  let ?up = "updateState (vs_state s) v" and ?f = "sb_filter (vs_subs s ! i)"
  have s': "s' = s\<lparr>vs_input := vs, vs_state := fst ?up, vs_taken := vs_taken s @ [v],
      vs_main := (if snd ?up then Forwarding v (listed_ids s) else Finishing)\<rparr>"
    using assms(3) main input by (simp add: main_take_def case_prod_beta Let_def)
  have wf: "wf_state (vs_state s)"
    using assms(1) by (simp add: vs_struct_def)
  have tr0: "tracked s i"
    using tr unfolding s' by (simp add: tracked_def)
  then have kf: "key_filter val_key ?f" and id: "i \<in> set (listed_ids s)"
    by (auto simp: tracked_def listed_ids_def)
  have old: "sub_view s i = view ?f (map_of (vs_state s))" and "due s i = []"
    using assms(2) tr0 main by (auto simp: in_step_def due_def)
  then have view: "sub_view s' i = replay val_key is_null (view ?f (map_of (vs_state s))) (due s' i)"
    by (simp add: sub_view_def Let_def s')
  show "sub_view s' i = view (sb_filter (vs_subs s' ! i)) (map_of (vs_state s'))"
  proof (cases "snd ?up")
    case True
    then have "due s' i = (if ?f v then [v] else [])"
      using id by (simp add: due_def s')
    moreover have "map_of (vs_state s') = apply_change val_key is_null (map_of (vs_state s)) v"
      using vs_feed.put_change [OF wf True] by (simp add: s')
    ultimately show ?thesis
      using vs_feed.view_apply [OF wf kf, of v] view by (simp add: s')
  next
    case False
    then have "due s' i = []" and "vs_state s' = vs_state s"
      using vs_feed.put_skip [OF False] by (simp_all add: due_def s')
    with view show ?thesis by (simp add: s')
  qed
qed

lemma in_step_main_forward:
  assumes "vs_struct s" and "in_step s" and "main_forward s = Some s'"
  shows "in_step s'"
  using assms(1,3)
proof (cases rule: main_forward_cases)
  case (unlock v)
  then show ?thesis
    by (intro in_step_cong [OF assms(2)]) (auto simp: due_def)
next
  case (skip v i ids)
  then show ?thesis
    by (intro in_step_cong [OF assms(2)]) (auto simp: due_def)
next
  case (send v i ids)
  then show ?thesis
    by (intro in_step_sub [OF assms(2), of i s'
          "(vs_subs s ! i)\<lparr>sb_chan := sb_chan (vs_subs s ! i) @ [v]\<rparr>"])
      (auto simp: due_def)
qed

lemma in_step_main_rest:
  assumes "in_step s"
  shows "main_done s = Some s' \<Longrightarrow> in_step s'"
    and "main_stop s = Some s' \<Longrightarrow> in_step s'"
    and "VS_Shutdown s = Some s' \<Longrightarrow> in_step s'"
    and "Fill_add v s = Some s' \<Longrightarrow> in_step s'"
    and "Fill_send i s = Some s' \<Longrightarrow> in_step s'"
proof -
  show "in_step s'" if step: "main_done s = Some s'"
    using step by (intro in_step_cong [OF assms]) (auto simp: main_done_def due_def split: if_splits main_pc.splits)
  show "in_step s'" if step: "main_stop s = Some s'"
    using step by (intro in_step_cong [OF assms]) (auto simp: main_stop_def due_def split: if_splits main_pc.splits)
  show "in_step s'" if step: "VS_Shutdown s = Some s'"
    using step by (intro in_step_cong [OF assms]) (auto simp: VS_Shutdown_def due_def split: if_splits main_pc.splits)
  show "in_step s'" if step: "Fill_add v s = Some s'"
    using step by (intro in_step_cong [OF assms]) (auto simp: Fill_add_def due_def split: if_splits main_pc.splits)
  show "in_step s'" if step: "Fill_send i s = Some s'"
    using step by (intro in_step_cong [OF assms]) (auto simp: Fill_send_def due_def split: if_splits main_pc.splits)
qed

lemma in_step_newSubscription:
  assumes "vs_struct s" and "in_step s" and "iter_order it" and "newSubscription it f r s = Some s'"
  shows "in_step s'"
  unfolding in_step_def
proof (intro allI impI)
  fix i
  assume tr: "tracked s' i"
  let ?b = "new_sub f r (GetStateFiltered it (vs_state s) f)"
  have lock: "\<not> vs_locked s" and s': "s' = s\<lparr>vs_subs := vs_subs s @ [?b]\<rparr>"
    using assms(4) by (auto simp: newSubscription_def split: if_splits)
  then have due: "due s' i = []" and due0: "due s i = []"
    by (auto intro!: due_unlocked simp: vs_locked_def)
  have wf: "wf_state (vs_state s)"
    using assms(1) by (simp add: vs_struct_def)
  show "sub_view s' i = view (sb_filter (vs_subs s' ! i)) (map_of (vs_state s'))"
  proof (cases "i < length (vs_subs s)")
    case True
    then have nth: "vs_subs s' ! i = vs_subs s ! i"
      by (simp add: s' nth_append)
    with tr True have "tracked s i"
      by (simp add: tracked_def)
    with assms(2) have "sub_view s i = view (sb_filter (vs_subs s ! i)) (map_of (vs_state s))"
      by (simp add: in_step_def)
    moreover have "sub_view s' i = sub_view s i"
      by (simp add: sub_view_def Let_def nth due due0)
    ultimately show ?thesis
      by (simp add: nth) (simp add: s')
  next
    case False
    with tr have "i = length (vs_subs s)"
      by (auto simp: tracked_def s')
    then have "vs_subs s' ! i = ?b"
      by (simp add: s')
    with due snapshot_view [OF wf assms(3), of f] show ?thesis
      by (simp add: sub_view_def Let_def new_sub_def s')
  qed
qed

lemma in_step_sub_send:
  assumes "vs_struct s" and "in_step s" and "sub_send i s = Some s'"
  shows "in_step s'"
proof -
  obtain v vs where i: "i < length (vs_subs s)" and pc: "sb_pc (vs_subs s ! i) = Sending (v # vs)"
    using assms(3) by (auto simp: sub_send_def split: if_splits sub_pc.splits list.splits)
  let ?b = "(vs_subs s ! i)\<lparr>sb_chan := sb_chan (vs_subs s ! i) @ [v], sb_pc := Sending vs\<rparr>"
  have s': "s' = s\<lparr>vs_subs := (vs_subs s)[i := ?b]\<rparr>"
    using assms(3) chan_send_open [OF assms(1) i, of v] pc i
    by (auto simp: sub_send_def set_sub_pc_def split: if_splits)
  have "sub_ok (vs_subs s ! i)"
    using assms(1) i by (simp add: vs_struct_def)
  with pc have "\<not> sb_returned (vs_subs s ! i)"
    by (auto simp: sub_ok_def)
  moreover have "due s' j = due s j" for j
    by (rule due_update [of s' s i ?b]) (simp_all add: s')
  ultimately show ?thesis
    using i by (intro in_step_sub [OF assms(2), of i s' ?b]) (auto simp: s')
qed

lemma in_step_only:
  assumes "in_step s" and "i < length (vs_subs s)" and "s' = t\<lparr>vs_subs := (vs_subs s)[i := b]\<rparr>"
    and "vs_main t = vs_main s" and "vs_state t = vs_state s"
    and "sb_listed b \<Longrightarrow> sb_listed (vs_subs s ! i)"
    and "sb_returned b = sb_returned (vs_subs s ! i)"
    and "sb_filter b = sb_filter (vs_subs s ! i)"
    and "sb_initial b = sb_initial (vs_subs s ! i)"
    and "sb_received b @ sb_chan b = sb_received (vs_subs s ! i) @ sb_chan (vs_subs s ! i)"
  shows "in_step s'"
proof -
  have due: "due s' j = due s j" for j
    using assms(3,4,8) by (intro due_update [of s' s i b]) simp_all
  moreover have "sb_received b @ sb_chan b @ due s' i =
      sb_received (vs_subs s ! i) @ sb_chan (vs_subs s ! i) @ due s i"
    using assms(10) due by (metis append.assoc)
  ultimately show ?thesis
    using assms by (intro in_step_sub [OF assms(1,2), of s' b]) simp_all
qed

lemma in_step_sub_rest:
  assumes "in_step s"
  shows "sub_quit i s = Some s' \<Longrightarrow> in_step s'"
    and "sub_remove i s = Some s' \<Longrightarrow> in_step s'"
    and "sub_close i s = Some s' \<Longrightarrow> in_step s'"
    and "client_cancel i s = Some s' \<Longrightarrow> in_step s'"
    and "client_recv i s = Some s' \<Longrightarrow> in_step s'"
proof -
  show "in_step s'" if step: "sub_quit i s = Some s'"
    using step by (intro in_step_only [OF assms, where i = i and s' = s' and t = s and
          b = "(vs_subs s ! i)\<lparr>sb_pc := Removing\<rparr>"])
      (auto simp: sub_quit_def set_sub_pc_def split: if_splits sub_pc.splits)
  show "in_step s'" if step: "sub_remove i s = Some s'"
    using step
    by (intro in_step_only [OF assms, where i = i and s' = s' and t = s and
          b = "(vs_subs s ! i)\<lparr>sb_listed := False, sb_pc := Closing\<rparr>"])
      (auto simp: sub_remove_def split: if_splits)
  show "in_step s'" if step: "sub_close i s = Some s'"
    using step
    by (intro in_step_only [OF assms, where i = i and s' = s' and
          t = "s\<lparr>vs_panic := (vs_panic s \<or> sb_closed (vs_subs s ! i))\<rparr>" and
          b = "(vs_subs s ! i)\<lparr>sb_closed := True, sb_pc := Gone\<rparr>"])
      (auto simp: sub_close_def split: if_splits)
  show "in_step s'" if step: "client_cancel i s = Some s'"
    using step
    by (intro in_step_only [OF assms, where i = i and s' = s' and t = s and
          b = "(vs_subs s ! i)\<lparr>sb_cancelled := True\<rparr>"])
      (auto simp: client_cancel_def split: if_splits)
  show "in_step s'" if step: "client_recv i s = Some s'"
    using step
    by (intro in_step_only [OF assms, where i = i and s' = s' and t = s and
          b = "(vs_subs s ! i)\<lparr>sb_chan := tl (sb_chan (vs_subs s ! i)),
        sb_received := sb_received (vs_subs s ! i) @ [hd (sb_chan (vs_subs s ! i))]\<rparr>"])
      (auto simp: client_recv_def split: if_splits list.splits)
qed

lemma in_step_exec:
  assumes "vs_struct s" and "in_step s" and "fair_action a" and "vs_exec a s = Some s'"
  shows "in_step s'"
  using assms
  by (cases a)
    (auto simp: SubscribeReturnInitial_def SubscribeSendInitial_def fair_action_def split: if_splits
      intro: in_step_main_take in_step_main_forward in_step_main_rest in_step_newSubscription
        in_step_sub_send in_step_sub_rest)

lemma reachable_in_step: "reachable s \<Longrightarrow> in_step s"
proof (induction rule: reachable.induct)
  case reach_init
  show ?case by (simp add: in_step_def tracked_def NewValueStorage_def)
next
  case (reach_next s s')
  then show ?case
    by (auto simp: vs_step_iff intro: in_step_exec reachable_struct)
qed

section \<open>One value through the storage\<close>

text \<open>The effect of forwarding a value to the listed subscriptions, in one go.\<close>

definition deliver :: "val \<Rightarrow> value_sub \<Rightarrow> value_sub" where
  "deliver v b = (if sb_filter b v then b\<lparr>sb_chan := sb_chan b @ [v]\<rparr> else b)"

fun deliver_to :: "val \<Rightarrow> nat list \<Rightarrow> value_sub list \<Rightarrow> value_sub list" where
  "deliver_to v [] bs = bs"
| "deliver_to v (i # ids) bs = deliver_to v ids (bs[i := deliver v (bs ! i)])"

lemma length_deliver_to [simp]: "length (deliver_to v ids bs) = length bs"
  by (induction v ids bs rule: deliver_to.induct) simp_all

lemma nth_deliver_to:
  assumes "distinct ids" and "j < length bs"
  shows "deliver_to v ids bs ! j = (if j \<in> set ids then deliver v (bs ! j) else bs ! j)"
  using assms
proof (induction v ids bs rule: deliver_to.induct)
  case (2 v i ids bs)
  then show ?case by (cases "j = i") auto
qed simp

definition room_for :: "val \<Rightarrow> value_sub \<Rightarrow> bool" where
  "room_for v b \<longleftrightarrow> (sb_listed b \<and> sb_filter b v \<longrightarrow> length (sb_chan b) < subscriptionDefaultCap)"

lemma vs_run_append:
  "vs_run (as1 @ as2) s = (case vs_run as1 s of Some s' \<Rightarrow> vs_run as2 s' | None \<Rightarrow> None)"
  by (induction as1 arbitrary: s) (simp_all split: option.splits)

lemma forward_all:
  assumes "vs_main s = Forwarding v ids" and "distinct ids"
    and "\<forall>i \<in> set ids. i < length (vs_subs s) \<and> \<not> sb_closed (vs_subs s ! i) \<and>
      sb_listed (vs_subs s ! i) \<and> room_for v (vs_subs s ! i)"
  shows "vs_run (replicate (length ids) AForward) s =
     Some (s\<lparr>vs_subs := deliver_to v ids (vs_subs s), vs_main := Forwarding v []\<rparr>)"
  using assms
proof (induction ids arbitrary: s)
  case (Cons i ids)
  let ?b = "vs_subs s ! i"
  let ?s = "s\<lparr>vs_subs := (vs_subs s)[i := deliver v ?b], vs_main := Forwarding v ids\<rparr>"
  have "main_forward s = Some ?s"
    using Cons.prems
    by (auto simp: main_forward_def chan_room_def chan_send_def deliver_def room_for_def Let_def)
  moreover have "vs_run (replicate (length ids) AForward) ?s =
      Some (?s\<lparr>vs_subs := deliver_to v ids (vs_subs ?s), vs_main := Forwarding v []\<rparr>)"
  proof (rule Cons.IH)
    have "vs_subs ?s ! j = vs_subs s ! j" if "j \<in> set ids" for j
      using that Cons.prems(2) by (cases "j = i") auto
    with Cons.prems show "\<forall>j \<in> set ids. j < length (vs_subs ?s) \<and> \<not> sb_closed (vs_subs ?s ! j) \<and>
        sb_listed (vs_subs ?s ! j) \<and> room_for v (vs_subs ?s ! j)"
      by simp
  qed (use Cons.prems in simp_all)
  ultimately show ?case by simp
qed simp

definition process_actions :: "storage \<Rightarrow> val \<Rightarrow> storage_action list" where
  "process_actions s v =
     ATake # (if snd (updateState (vs_state s) v)
              then replicate (length (listed_ids s)) AForward @ [AForward, ADone] else [ADone])"

lemma process_run:
  assumes "vs_struct s" and "vs_main s = MainIdle" and "vs_input s = v # vs"
    and "\<forall>b \<in> set (vs_subs s). room_for v b" and "1 \<le> vs_wg s"
  shows "vs_run (process_actions s v) s =
     Some (s\<lparr>vs_input := vs, vs_state := fst (updateState (vs_state s) v),
              vs_taken := vs_taken s @ [v], vs_wg := vs_wg s - 1,
              vs_subs := (if snd (updateState (vs_state s) v)
                          then deliver_to v (listed_ids s) (vs_subs s) else vs_subs s)\<rparr>)"
proof -
  let ?up = "updateState (vs_state s) v"
  let ?t = "s\<lparr>vs_input := vs, vs_state := fst ?up, vs_taken := vs_taken s @ [v],
      vs_main := Forwarding v (listed_ids s)\<rparr>"
  have "vs_run (replicate (length (listed_ids s)) AForward) ?t =
      Some (?t\<lparr>vs_subs := deliver_to v (listed_ids s) (vs_subs ?t), vs_main := Forwarding v []\<rparr>)"
  proof (rule forward_all)
    show "\<forall>i \<in> set (listed_ids s). i < length (vs_subs ?t) \<and> \<not> sb_closed (vs_subs ?t ! i) \<and>
        sb_listed (vs_subs ?t ! i) \<and> room_for v (vs_subs ?t ! i)"
      using assms(1,4) by (auto simp: listed_ids_def vs_struct_def sub_ok_def)
  qed (simp_all add: listed_ids_def)
  then show ?thesis
    using assms(2,3,5)
    by (simp add: process_actions_def vs_run_append main_take_def main_forward_def main_done_def
        case_prod_beta Let_def)
qed

section \<open>A full channel stops the storage\<close>

definition stuck_on :: "nat \<Rightarrow> val \<Rightarrow> storage \<Rightarrow> bool" where
  "stuck_on i v s \<longleftrightarrow>
     i < length (vs_subs s) \<and> sb_filter (vs_subs s ! i) v \<and> \<not> sb_closed (vs_subs s ! i) \<and>
     sb_pc (vs_subs s ! i) \<notin> {Closing, Gone} \<and>
     length (sb_chan (vs_subs s ! i)) = subscriptionDefaultCap \<and>
     (case vs_main s of Forwarding w (j # _) \<Rightarrow> w = v \<and> j = i | _ \<Rightarrow> False)"

lemma stuck_on_locked: "stuck_on i v s \<Longrightarrow> vs_locked s"
  by (auto simp: stuck_on_def vs_locked_def split: main_pc.splits)

lemma stuck_frame:
  assumes "stuck_on i v s" and "vs_main s' = vs_main s" and "i < length (vs_subs s')"
    and "sb_filter (vs_subs s' ! i) = sb_filter (vs_subs s ! i)"
    and "sb_closed (vs_subs s' ! i) = sb_closed (vs_subs s ! i)"
    and "sb_pc (vs_subs s' ! i) \<notin> {Closing, Gone}"
    and "sb_chan (vs_subs s' ! i) = sb_chan (vs_subs s ! i)"
  shows "stuck_on i v s'"
  using assms by (simp add: stuck_on_def)

lemma stuck_update:
  assumes "stuck_on i v s" and "vs_main s' = vs_main s" and "vs_subs s' = (vs_subs s)[j := b]"
    and "sb_filter b = sb_filter (vs_subs s ! j)"
    and "j = i \<Longrightarrow> sb_closed b = sb_closed (vs_subs s ! j)"
    and "j = i \<Longrightarrow> sb_pc b \<notin> {Closing, Gone}"
    and "j = i \<Longrightarrow> sb_chan b = sb_chan (vs_subs s ! j)"
  shows "stuck_on i v s'"
  using assms(1) assms by (intro stuck_frame [OF assms(1)]; cases "j = i") (auto simp: stuck_on_def)

lemma stuck_exec:
  assumes "stuck_on i v s" and "vs_exec a s = Some s'" and "a \<noteq> ARecv i"
  shows "stuck_on i v s'"
proof -
  note locked = stuck_on_locked [OF assms(1)]
  obtain ids where main: "vs_main s = Forwarding v (i # ids)" and full: "\<not> chan_room s i"
    and filt: "sb_filter (vs_subs s ! i) v" and i: "i < length (vs_subs s)"
    using assms(1) by (auto simp: stuck_on_def chan_room_def split: main_pc.splits list.splits)
  show ?thesis
  proof (cases a)
    case (ASend j)
    with assms(2) obtain w ws where j: "j < length (vs_subs s)"
      and pc: "sb_pc (vs_subs s ! j) = Sending (w # ws)" and room: "chan_room s j"
      by (auto simp: sub_send_def split: if_splits sub_pc.splits list.splits)
    with full have "j \<noteq> i" by auto
    moreover have "s' = set_sub_pc j (Sending ws) (chan_send j w s)"
      using ASend assms(2) pc j room by (simp add: sub_send_def)
    moreover have "vs_subs (chan_send j w s) ! i = vs_subs s ! i"
      and "vs_main (chan_send j w s) = vs_main s"
      and "length (vs_subs (chan_send j w s)) = length (vs_subs s)"
      using \<open>j \<noteq> i\<close> by (simp_all add: chan_send_def Let_def)
    ultimately have "vs_subs s' ! i = vs_subs s ! i" and "vs_main s' = vs_main s"
      and "length (vs_subs s') = length (vs_subs s)"
      by (simp_all add: set_sub_pc_def)
    then show ?thesis
      using assms(1) by (simp add: stuck_on_def)
  next
    case (AQuit j)
    with assms(2) show ?thesis
      by (intro stuck_update [OF assms(1), of s' j "(vs_subs s ! j)\<lparr>sb_pc := Removing\<rparr>"])
        (auto simp: sub_quit_def set_sub_pc_def split: if_splits sub_pc.splits)
  next
    case (AClose j)
    with assms have "j \<noteq> i"
      by (auto simp: sub_close_def stuck_on_def split: if_splits)
    with AClose assms(2) show ?thesis
      by (intro stuck_update [OF assms(1), of s' j "(vs_subs s ! j)\<lparr>sb_closed := True, sb_pc := Gone\<rparr>"])
        (auto simp: sub_close_def split: if_splits)
  next
    case (ACancel j)
    with assms show ?thesis
      by (intro stuck_update [OF assms(1), of s' j "(vs_subs s ! j)\<lparr>sb_cancelled := True\<rparr>"])
        (auto simp: client_cancel_def stuck_on_def split: if_splits)
  next
    case (ARecv j)
    with assms show ?thesis
      by (intro stuck_update [OF assms(1), of s' j "(vs_subs s ! j)\<lparr>sb_chan := tl (sb_chan (vs_subs s ! j)),
          sb_received := sb_received (vs_subs s ! j) @ [hd (sb_chan (vs_subs s ! j))]\<rparr>"])
        (auto simp: client_recv_def split: if_splits list.splits)
  qed (use assms main full filt locked in
      \<open>auto simp: vs_ops stuck_on_def split: if_splits\<close>)
qed

lemma stuck_run:
  "stuck_on i v s \<Longrightarrow> ARecv i \<notin> set acts \<Longrightarrow> vs_run acts s = Some s' \<Longrightarrow> stuck_on i v s'"
proof (induction acts arbitrary: s)
  case (Cons a acts)
  then obtain s1 where "vs_exec a s = Some s1" and "vs_run acts s1 = Some s'"
    by (auto split: option.splits)
  with Cons show ?case
    using stuck_exec [of i v s a s1] by auto
qed simp

text \<open>
  The state after \<open>n\<close> values for one register, alternating between two, with a subscription to
  everything whose channel nobody reads.
\<close>

definition alt_val :: "nat \<Rightarrow> val" where
  "alt_val n = EnumRegisterValue ''d'' (NewRegisterStruct '''' ''r'' '''' EnumRegister None '''' 0 False)
     (if even n then 0 else 1)"

definition unread :: "nat \<Rightarrow> storage" where
  "unread n = NewValueStorage\<lparr>
     vs_state := (if n = 0 then [] else [(val_key (alt_val 0), alt_val (n - 1))]),
     vs_filled := map alt_val [0..<n], vs_taken := map alt_val [0..<n],
     vs_subs := [(new_sub AllValueFilter True [])\<lparr>sb_chan := map alt_val [0..<n]\<rparr>]\<rparr>"

lemma alt_val_key: "val_key (alt_val n) = val_key (alt_val 0)"
  by (simp add: val_key_def alt_val_def val_name_def)

lemma alt_val_null: "\<not> is_null (alt_val n)"
  by (simp add: is_null_def alt_val_def)

lemma alt_val_news: "\<not> Value_Equals (alt_val n) (alt_val (Suc n))"
  by (simp add: alt_val_def)

lemma unread_update:
  "updateState (vs_state (unread n)) (alt_val n) = ([(val_key (alt_val 0), alt_val n)], True)"
proof (cases n)
  case 0
  then show ?thesis by (simp add: updateState_def unread_def Let_def alt_val_null)
next
  case (Suc m)
  then show ?thesis
    using alt_val_news [of m] alt_val_key [of "Suc m"]
    by (simp add: updateState_def unread_def Let_def alt_val_null)
qed

lemma unread_take:
  "vs_run [AFillAdd (alt_val n), AFillSend 0, ATake] (unread n) =
     Some ((unread (Suc n))\<lparr>vs_subs := vs_subs (unread n), vs_wg := 1,
        vs_main := Forwarding (alt_val n) [0]\<rparr>)"
  using unread_update [of n]
  by (simp add: Fill_add_def Fill_send_def main_take_def inputCap_def listed_ids_def
      unread_def NewValueStorage_def new_sub_def)

lemma unread_step:
  assumes "n < subscriptionDefaultCap"
  shows "vs_run [AFillAdd (alt_val n), AFillSend 0, ATake, AForward, AForward, ADone] (unread n) =
     Some (unread (Suc n))"
proof -
  have "vs_run [AForward, AForward, ADone] ((unread (Suc n))\<lparr>vs_subs := vs_subs (unread n), vs_wg := 1,
        vs_main := Forwarding (alt_val n) [0]\<rparr>) = Some (unread (Suc n))"
    using assms
    by (simp add: main_forward_def main_done_def chan_room_def chan_send_def unread_def
        NewValueStorage_def new_sub_def AllValueFilter_def)
  then show ?thesis
    using unread_take [of n] vs_run_append [of "[AFillAdd (alt_val n), AFillSend 0, ATake]"
        "[AForward, AForward, ADone]" "unread n"] by simp
qed

lemma reachable_unread: "n \<le> subscriptionDefaultCap \<Longrightarrow> reachable (unread n)"
proof (induction n)
  case 0
  have "vs_run [ASubscribe (\<lambda>xs. xs) AllValueFilter True] NewValueStorage = Some (unread 0)"
    by (simp add: SubscribeReturnInitial_def newSubscription_def unread_def NewValueStorage_def
        vs_locked_def GetStateFiltered_def new_sub_def)
  then show ?case
    by (rule reachable_run [OF reach_init, rotated]) (simp add: fair_action_def)
next
  case (Suc n)
  then have run: "vs_run [AFillAdd (alt_val n), AFillSend 0, ATake, AForward, AForward, ADone] (unread n) =
      Some (unread (Suc n))"
    by (intro unread_step) simp
  show ?case
    by (rule reachable_run [OF _ _ run]) (use Suc in \<open>simp_all add: fair_action_def\<close>)
qed

lemma reachable_stuck:
  "\<exists>s. reachable s \<and> stuck_on 0 (alt_val subscriptionDefaultCap) s \<and> sb_cancelled (vs_subs s ! 0)"
proof -
  let ?n = subscriptionDefaultCap
  let ?acts = "[AFillAdd (alt_val ?n), AFillSend 0, ATake]"
  let ?s = "(unread (Suc ?n))\<lparr>vs_subs := vs_subs (unread ?n), vs_wg := 1,
        vs_main := Forwarding (alt_val ?n) [0]\<rparr>"
  let ?t = "?s\<lparr>vs_subs := [(vs_subs ?s ! 0)\<lparr>sb_cancelled := True\<rparr>]\<rparr>"
  have "reachable ?s"
    by (rule reachable_run [OF reachable_unread [OF order_refl] _ unread_take])
      (simp add: fair_action_def)
  moreover have run: "vs_run [ACancel 0] ?s = Some ?t"
    by (simp add: client_cancel_def unread_def)
  ultimately have "reachable ?t"
    by (intro reachable_run [OF _ _ run]) (simp_all add: fair_action_def)
  moreover have "stuck_on 0 (alt_val ?n) ?t"
    by (simp add: stuck_on_def unread_def new_sub_def AllValueFilter_def)
  ultimately show ?thesis by (intro exI [of _ ?t]) (simp add: unread_def)
qed

section \<open>A stale initial value\<close>

definition stale_run :: "storage_action list" where
  "stale_run =
     [AFillAdd (alt_val 0), AFillSend 0, ATake, AForward, ADone,
      ASubscribe (\<lambda>xs. xs) AllValueFilter False,
      AFillAdd (alt_val 1), AFillSend 0, ATake, AForward, AForward, ADone,
      ASend 0, ARecv 0, ARecv 0]"

lemma stale_run_result:
  "\<exists>s. vs_run stale_run NewValueStorage = Some s \<and> vs_wg s = 0 \<and> sb_pc (vs_subs s ! 0) = Sending [] \<and>
     sb_chan (vs_subs s ! 0) = [] \<and> sb_received (vs_subs s ! 0) = [alt_val 1, alt_val 0] \<and>
     map_of (vs_state s) (val_key (alt_val 0)) = Some (alt_val 1)"
  by (simp add: stale_run_def vs_ops NewValueStorage_def updateState_def alt_val_def val_key_def
      val_name_def is_null_def inputCap_def listed_ids_def chan_room_def chan_send_def
      set_sub_pc_def subscriptionDefaultCap_def AllValueFilter_def vs_locked_def new_sub_def
      GetStateFiltered_def Let_def)

section \<open>Properties\<close>

lemma feed_fold: "fst (vs_feed.feed st vs) = foldl (\<lambda>st v. fst (updateState st v)) st vs"
  by (induction vs arbitrary: st) (simp_all add: case_prod_beta Let_def)

lemma exec_locked:
  assumes "vs_locked s" and "vs_exec a s = Some s'"
  shows "vs_state s' = vs_state s \<and> vs_taken s' = vs_taken s"
proof -
  have send: "vs_state (chan_send i v s) = vs_state s" "vs_taken (chan_send i v s) = vs_taken s" for i v
    by (simp_all add: chan_send_def Let_def)
  show ?thesis
    using assms
    by (cases a)
      (auto simp: vs_ops send set_sub_pc_def vs_locked_def
        split: if_splits main_pc.splits sub_pc.splits list.splits)
qed

text \<open>
  C6: In every reachable state of the value storage nothing has panicked (no send to a closed
  channel, no channel closed twice, no negative wait group), every channel is within its
  capacity, and the wait group counts the values filled and not yet processed.
\<close>

theorem storage_safe:
  assumes "reachable s"
  shows "\<not> vs_panic s \<and> length (vs_input s) \<le> 32 \<and> (\<forall>b \<in> set (vs_subs s). length (sb_chan b) \<le> 128) \<and>
    vs_wg s = int (length (vs_fillers s)) + int (length (vs_input s)) + main_busy s \<and>
    wf_state (vs_state s)"
  using reachable_struct [OF assms] reachable_count [OF assms]
  by (auto simp: vs_struct_def vs_count_def sub_ok_def inputCap_def subscriptionDefaultCap_def)

theorem storage_safe_witness:
  "\<not> vs_panic (unread 1) \<and> length (vs_input (unread 1)) \<le> 32 \<and> length (sb_chan (vs_subs (unread 1) ! 0)) = 1"
proof -
  have "reachable (unread 1)"
    by (rule reachable_unread) (simp add: subscriptionDefaultCap_def)
  from storage_safe [OF this] show ?thesis
    by (simp add: unread_def)
qed

text \<open>
  When \<open>Wait\<close> may return (the wait group is zero) no value is on its way: the values the
  main routine has processed are, up to the order in which concurrent callers got through, the
  values filled, and the state is the result of updating with them one after the other.
\<close>

theorem storage_wait:
  assumes "reachable s" and "vs_wg s = 0"
  shows "vs_fillers s = [] \<and> vs_input s = [] \<and> mset (vs_taken s) = mset (vs_filled s) \<and>
    vs_state s = foldl (\<lambda>st v. fst (updateState st v)) [] (vs_taken s)"
proof -
  have count: "vs_count s"
    using assms(1) by (rule reachable_count)
  have "0 \<le> main_busy s"
    by (simp add: main_busy_def split: main_pc.splits)
  moreover have "int (length (vs_fillers s)) + int (length (vs_input s)) + main_busy s = 0"
    using count assms(2) by (simp add: vs_count_def)
  ultimately have "int (length (vs_fillers s)) = 0" and "int (length (vs_input s)) = 0"
    by linarith+
  then have "vs_fillers s = []" and "vs_input s = []"
    by simp_all
  with count show ?thesis
    by (simp add: vs_count_def feed_fold)
qed

theorem storage_wait_witness:
  "mset (vs_taken (unread 2)) = mset (vs_filled (unread 2)) \<and>
   vs_state (unread 2) = foldl (\<lambda>st v. fst (updateState st v)) [] (vs_taken (unread 2)) \<and>
   vs_taken (unread 2) = [alt_val 0, alt_val 1]"
proof -
  have "reachable (unread 2)"
    by (rule reachable_unread) (simp add: subscriptionDefaultCap_def)
  moreover have "vs_wg (unread 2) = 0"
    by (simp add: unread_def NewValueStorage_def)
  ultimately show ?thesis
    using storage_wait [of "unread 2"] by (simp add: unread_def upt_rec)
qed

text \<open>
  C5: A subscription that returned its initial values, has a filter on keys and is not cleaned
  up yet never misses a change: the initial values, the values received so far and those in its
  channel replay to the filtered state, whenever no value is being forwarded.
\<close>

theorem subscription_complete:
  assumes "reachable s" and "i < length (vs_subs s)" and "sb_listed (vs_subs s ! i)"
    and "sb_returned (vs_subs s ! i)" and "key_filter val_key (sb_filter (vs_subs s ! i))"
    and "\<not> vs_locked s"
  shows "replay val_key is_null (\<lambda>_. None)
      (sb_initial (vs_subs s ! i) @ sb_received (vs_subs s ! i) @ sb_chan (vs_subs s ! i)) =
    view (sb_filter (vs_subs s ! i)) (map_of (vs_state s))"
proof -
  have "tracked s i"
    using assms by (simp add: tracked_def)
  then have "sub_view s i = view (sb_filter (vs_subs s ! i)) (map_of (vs_state s))"
    using reachable_in_step [OF assms(1)] by (simp add: in_step_def)
  then show ?thesis
    by (simp add: sub_view_def Let_def due_unlocked [OF assms(6)])
qed

theorem subscription_complete_witness:
  "replay val_key is_null (\<lambda>_. None) ([] @ [] @ [alt_val 0, alt_val 1]) =
     view AllValueFilter (map_of (vs_state (unread 2)))"
proof -
  have "reachable (unread 2)"
    by (rule reachable_unread) (simp add: subscriptionDefaultCap_def)
  moreover have "vs_subs (unread 2) ! 0 = (new_sub AllValueFilter True [])\<lparr>sb_chan := [alt_val 0, alt_val 1]\<rparr>"
    by (simp add: unread_def upt_rec)
  moreover have "0 < length (vs_subs (unread 2))" and "\<not> vs_locked (unread 2)"
    by (simp_all add: unread_def vs_locked_def NewValueStorage_def)
  moreover have "key_filter val_key AllValueFilter"
    by (simp add: key_filter_def AllValueFilter_def)
  ultimately show ?thesis
    using subscription_complete [of "unread 2" 0] by (simp add: new_sub_def)
qed

text \<open>
  With room in the channels it goes to, the value at the head of the input is processed by a
  run of the main routine alone: the state is the updated one, and exactly the listed
  subscriptions whose filter accepts the value get it, once, if it was news.
\<close>

theorem storage_processes:
  assumes "reachable s" and "vs_main s = MainIdle" and "vs_input s = v # vs"
    and "\<forall>b \<in> set (vs_subs s). room_for v b"
  shows "\<exists>s'. vs_run (process_actions s v) s = Some s' \<and> vs_main s' = MainIdle \<and> vs_input s' = vs \<and>
    vs_wg s' = vs_wg s - 1 \<and> vs_state s' = fst (updateState (vs_state s) v) \<and>
    length (vs_subs s') = length (vs_subs s) \<and>
    (\<forall>i < length (vs_subs s). vs_subs s' ! i =
       (if snd (updateState (vs_state s) v) \<and> sb_listed (vs_subs s ! i) then deliver v (vs_subs s ! i)
        else vs_subs s ! i))"
proof -
  have "1 \<le> vs_wg s"
    using reachable_count [OF assms(1)] assms(2,3) by (simp add: vs_count_def main_busy_def)
  note run = process_run [OF reachable_struct [OF assms(1)] assms(2-4) this]
  have nth: "deliver_to v (listed_ids s) (vs_subs s) ! i =
      (if sb_listed (vs_subs s ! i) then deliver v (vs_subs s ! i) else vs_subs s ! i)"
    if "i < length (vs_subs s)" for i
    using that by (subst nth_deliver_to) (auto simp: listed_ids_def)
  show ?thesis
    unfolding run using nth by (simp add: assms(2))
qed

theorem storage_processes_witness:
  "\<exists>s s'. vs_run [AFillAdd (alt_val 0), AFillSend 0] (unread 0) = Some s \<and>
     vs_run (process_actions s (alt_val 0)) s = Some s' \<and> vs_input s' = [] \<and>
     vs_subs s' ! 0 = deliver (alt_val 0) (vs_subs (unread 0) ! 0)"
proof -
  let ?s = "(unread 0)\<lparr>vs_wg := 1, vs_filled := [alt_val 0], vs_input := [alt_val 0]\<rparr>"
  have run: "vs_run [AFillAdd (alt_val 0), AFillSend 0] (unread 0) = Some ?s"
    by (simp add: Fill_add_def Fill_send_def unread_def NewValueStorage_def inputCap_def)
  have "reachable ?s"
    by (rule reachable_run [OF reachable_unread _ run]) (simp_all add: fair_action_def)
  moreover have "vs_main ?s = MainIdle" and "vs_input ?s = alt_val 0 # []"
    and "\<forall>b \<in> set (vs_subs ?s). room_for (alt_val 0) b"
    by (simp_all add: unread_def NewValueStorage_def room_for_def new_sub_def subscriptionDefaultCap_def)
  ultimately obtain s' where "vs_run (process_actions ?s (alt_val 0)) ?s = Some s'" and "vs_input s' = []"
    and subs: "\<forall>i < length (vs_subs ?s). vs_subs s' ! i =
       (if snd (updateState (vs_state ?s) (alt_val 0)) \<and> sb_listed (vs_subs ?s ! i)
        then deliver (alt_val 0) (vs_subs ?s ! i) else vs_subs ?s ! i)"
    using storage_processes [of ?s "alt_val 0" "[]"] by blast
  moreover have "vs_subs s' ! 0 = deliver (alt_val 0) (vs_subs (unread 0) ! 0)"
    using subs unread_update [of 0] by (simp add: unread_def new_sub_def)
  ultimately show ?thesis
    using run by blast
qed

text \<open>
  C7: While the main routine forwards to a full channel the whole storage is blocked: unless the
  subscriber receives, no run of the other goroutines processes a value, changes the state or
  releases the lock, so neither \<open>GetState\<close>, a new subscription nor the subscription's own
  cleanup can proceed, even after its context is cancelled.
\<close>

theorem storage_blocks:
  assumes "stuck_on i v s" and "ARecv i \<notin> set acts" and "vs_run acts s = Some s'"
  shows "stuck_on i v s' \<and> vs_locked s' \<and> vs_state s' = vs_state s \<and> vs_taken s' = vs_taken s"
  using assms
proof (induction acts arbitrary: s)
  case Nil
  then show ?case by (simp add: stuck_on_locked)
next
  case (Cons a acts)
  then obtain s1 where a: "vs_exec a s = Some s1" and run: "vs_run acts s1 = Some s'"
    by (auto split: option.splits)
  have "stuck_on i v s1"
    using Cons.prems a by (intro stuck_exec [OF _ a]) auto
  with Cons.IH [OF _ _ run] Cons.prems(2) exec_locked [OF stuck_on_locked [OF Cons.prems(1)] a]
  show ?case by simp
qed

theorem storage_blocks_witness:
  "\<exists>s s'. reachable s \<and> sb_cancelled (vs_subs s ! 0) \<and>
     vs_run [AFillAdd (alt_val 0)] s = Some s' \<and> vs_locked s' \<and> vs_taken s' = vs_taken s"
proof -
  obtain s where "reachable s" and stuck: "stuck_on 0 (alt_val subscriptionDefaultCap) s"
    and "sb_cancelled (vs_subs s ! 0)"
    using reachable_stuck by blast
  moreover obtain s' where run: "vs_run [AFillAdd (alt_val 0)] s = Some s'"
    by (simp add: Fill_add_def)
  moreover have "ARecv 0 \<notin> set [AFillAdd (alt_val 0)]"
    by simp
  ultimately show ?thesis
    using storage_blocks [OF stuck _ run] by blast
qed

text \<open>
  \<open>SubscribeSendInitial\<close> may deliver a value and afterwards the older value of the same
  register as its initial one, which then is the subscriber's last word although the storage
  holds the newer value.
\<close>

theorem send_initial_stale:
  "\<exists>s. reachable s \<and> vs_wg s = 0 \<and> sb_pc (vs_subs s ! 0) = Sending [] \<and> sb_chan (vs_subs s ! 0) = [] \<and>
     sb_received (vs_subs s ! 0) = [alt_val 1, alt_val 0] \<and>
     replay val_key is_null (\<lambda>_. None) (sb_received (vs_subs s ! 0)) (val_key (alt_val 0)) = Some (alt_val 0) \<and>
     map_of (vs_state s) (val_key (alt_val 0)) = Some (alt_val 1)"
proof -
  obtain s where run: "vs_run stale_run NewValueStorage = Some s" and "vs_wg s = 0"
    and "sb_pc (vs_subs s ! 0) = Sending []" and "sb_chan (vs_subs s ! 0) = []"
    and recv: "sb_received (vs_subs s ! 0) = [alt_val 1, alt_val 0]"
    and "map_of (vs_state s) (val_key (alt_val 0)) = Some (alt_val 1)"
    using stale_run_result by blast
  moreover have "reachable s"
    by (rule reachable_run [OF reach_init _ run]) (simp add: stale_run_def fair_action_def)
  moreover have "replay val_key is_null (\<lambda>_. None) (sb_received (vs_subs s ! 0)) (val_key (alt_val 0)) =
      Some (alt_val 0)"
    using alt_val_key [of 1] by (simp add: recv apply_change_def alt_val_null)
  ultimately show ?thesis by blast
qed

end
