(* ===== verification/Go_Duration.thy ===== *)
theory Go_Duration
  imports Go_Prelude
begin

text \<open>
  Two functions of the Go standard library the configuration reads its values with:
  \<open>time.ParseDuration\<close>, with its unsigned 64-bit accumulator and the float64 arithmetic of
  its fractions, and \<open>fmt.Sscanf\<close> of a byte with the formats \<open>%d\<close> and \<open>0x%x\<close>.
\<close>

section \<open>time.ParseDuration\<close>

text \<open>The digits before the point; a value above \<open>1 << 63\<close> is an error (\<open>None\<close>).\<close>

fun leadingInt :: "int \<Rightarrow> string \<Rightarrow> (int \<times> string) option" where
  "leadingInt x [] = Some (x, [])"
| "leadingInt x (c # s) =
     (if \<not> is_digit c then Some (x, c # s)
      else if x > 2 ^ 63 div 10 then None
      else let y = x * 10 + int (digit_val c)
           in if y > 2 ^ 63 then None else leadingInt y s)"

text \<open>
  The digits after the point: as many as fit, with the power of ten that divides them, a
  float64; the rest is skipped.
\<close>

definition times_ten :: "f64 \<Rightarrow> f64" where
  "times_ten scale = (case scale of F_Fin q \<Rightarrow> round_f64 (q * 10) | _ \<Rightarrow> scale)"

fun leadingFraction :: "int \<Rightarrow> f64 \<Rightarrow> bool \<Rightarrow> string \<Rightarrow> int \<times> f64 \<times> string" where
  "leadingFraction x scale overflow [] = (x, scale, [])"
| "leadingFraction x scale overflow (c # s) =
     (if \<not> is_digit c then (x, scale, c # s)
      else if overflow then leadingFraction x scale True s
      else if x > (2 ^ 63 - 1) div 10 then leadingFraction x scale True s
      else let y = x * 10 + int (digit_val c)
           in if y > 2 ^ 63 then leadingFraction x scale True s
              else leadingFraction y (times_ten scale) False s)"

text \<open>\<open>uint64(float64(f) * (float64(unit) / scale))\<close>: the scale is at least one, so the
  product is finite and not negative.\<close>

definition fraction_value :: "int \<Rightarrow> int \<Rightarrow> f64 \<Rightarrow> int" where
  "fraction_value f unit scale =
     (let per = (case scale of F_Fin q \<Rightarrow> f64_num (round_f64 (of_int unit / q)) | _ \<Rightarrow> 0)
      in \<lfloor>f64_num (round_f64 (f64_num (round_f64 (of_int f)) * per))\<rfloor>)"

text \<open>The units; the two spellings of the micro sign are given by their UTF-8 bytes.\<close>

definition unitMap :: "(string, int) gomap" where
  "unitMap =
     [(''ns'', 1), (''us'', 1000),
      ([CHR 0xC2, CHR 0xB5, CHR ''s''], 1000), ([CHR 0xCE, CHR 0xBC, CHR ''s''], 1000),
      (''ms'', 1000000), (''s'', 1000000000), (''m'', 60000000000), (''h'', 3600000000000)]"

definition number_char :: "char \<Rightarrow> bool" where
  "number_char c \<longleftrightarrow> c = CHR ''.'' \<or> is_digit c"

lemma leadingInt_length: "leadingInt x s = Some (v, t) \<Longrightarrow> length t \<le> length s"
  by (induction x s arbitrary: v t rule: leadingInt.induct)
    (fastforce simp: Let_def split: if_splits)+

lemma leadingFraction_length: "length (snd (snd (leadingFraction x q b s))) \<le> length s"
  by (induction s arbitrary: x q b) (simp_all add: Let_def le_SucI)

lemma length_dropWhile_less: "takeWhile P u \<noteq> [] \<Longrightarrow> length (dropWhile P u) < length u"
  by (cases u) (auto split: if_splits intro: le_imp_less_Suc length_dropWhile_le)

definition fraction_part :: "string \<Rightarrow> int \<times> f64 \<times> string" where
  "fraction_part s1 =
     (case s1 of
        [] \<Rightarrow> (0, F_Fin 1, s1)
      | p # t \<Rightarrow> if p = CHR ''.'' then leadingFraction 0 (F_Fin 1) False t
                 else (0, F_Fin 1, s1))"

lemma fraction_part_length: "length (snd (snd (fraction_part s))) \<le> length s"
  using leadingFraction_length [of 0 "F_Fin 1" False "tl s"]
  by (auto simp: fraction_part_def split: list.splits intro: le_SucI)

text \<open>One number with its unit: its value in nanoseconds and what follows.\<close>

definition duration_term :: "string \<Rightarrow> (int \<times> string) option" where
  "duration_term s =
     (case s of
        [] \<Rightarrow> None
      | c # _ \<Rightarrow>
          if \<not> number_char c then None
          else (case leadingInt 0 s of
                  None \<Rightarrow> None
                | Some (v, s1) \<Rightarrow>
                    (let pre = length s \<noteq> length s1;
                         (f, scale, s2) = fraction_part s1;
                         post = s1 \<noteq> [] \<and> hd s1 = CHR ''.'' \<and> length (tl s1) \<noteq> length s2;
                         u = takeWhile (\<lambda>d. \<not> number_char d) s2;
                         s3 = dropWhile (\<lambda>d. \<not> number_char d) s2
                     in if \<not> pre \<and> \<not> post then None
                        else if u = [] then None
                        else (case map_of unitMap u of
                                None \<Rightarrow> None
                              | Some unit \<Rightarrow>
                                  if v > 2 ^ 63 div unit then None
                                  else let w = v * unit + (if f > 0 then fraction_value f unit scale else 0)
                                       in if f > 0 \<and> w > 2 ^ 63 then None else Some (w, s3)))))"

lemma duration_term_shorter:
  assumes "duration_term s = Some (w, t)"
  shows "length t < length s"
proof -
  obtain v s1 where i: "leadingInt 0 s = Some (v, s1)"
    using assms by (auto simp: duration_term_def split: list.splits option.splits if_splits)
  have "t = dropWhile (\<lambda>d. \<not> number_char d) (snd (snd (fraction_part s1)))
      \<and> takeWhile (\<lambda>d. \<not> number_char d) (snd (snd (fraction_part s1))) \<noteq> []"
    using assms i unfolding duration_term_def
    by (auto simp: Let_def case_prod_beta split: list.splits option.splits if_splits)
  then show ?thesis
    using leadingInt_length [OF i] fraction_part_length [of s1] length_dropWhile_less
    by (metis le_trans less_le_trans)
qed

function duration_terms :: "int \<Rightarrow> string \<Rightarrow> int option" where
  "duration_terms d s =
     (if s = [] then Some d
      else case duration_term s of
             None \<Rightarrow> None
           | Some (v, t) \<Rightarrow>
               (let d' = (d + v) mod 2 ^ 64 in if d' > 2 ^ 63 then None else duration_terms d' t))"
  by pat_completeness auto
termination
  by (relation "measure (\<lambda>(_, s). length s)") (auto dest: duration_term_shorter)

declare duration_terms.simps [simp del]

lemma is_digit_val_less: "is_digit c \<Longrightarrow> digit_val c < 10"
  by (auto simp: is_digit_def digit_val_def)

lemma duration_terms_range:
  "duration_terms d s = Some r \<Longrightarrow> 0 \<le> d \<and> d \<le> 2 ^ 63 \<Longrightarrow> 0 \<le> r \<and> r \<le> 2 ^ 63"
proof (induction d s arbitrary: r rule: duration_terms.induct)
  case (1 d s)
  show ?case
  proof (cases "duration_term s")
    case None
    with 1(2-) show ?thesis by (simp add: duration_terms.simps [of d s] split: if_splits)
  next
    case (Some p)
    obtain v t where p: "p = (v, t)" by (cases p)
    define d' where "d' = (d + v) mod 2 ^ 64"
    have d': "0 \<le> d'" by (simp add: d'_def)
    show ?thesis
    proof (cases "s = []")
      case False
      have "duration_terms d s = (if d' > 2 ^ 63 then None else duration_terms d' t)"
        using False unfolding duration_terms.simps [of d s] Some p
        by (simp only: option.case prod.case Let_def d'_def [symmetric] if_False)
      then have r: "\<not> d' > 2 ^ 63" "duration_terms d' t = Some r"
        using 1(2) by (simp_all split: if_splits)
      show ?thesis
        using 1(1) [OF False Some p [symmetric] d'_def r(1) r(2)] d' r(1) by (simp only: not_less)
    qed (use 1(2,3) in \<open>simp add: duration_terms.simps [of d "[]"]\<close>)
  qed
qed

definition signed_duration :: "bool \<Rightarrow> int \<Rightarrow> duration option" where
  "signed_duration neg d =
     (if neg then Some (wrap_i64 (- wrap_i64 d)) else if d > 2 ^ 63 - 1 then None else Some d)"

definition ParseDuration :: "string \<Rightarrow> duration option" where
  "ParseDuration orig =
     (let neg = orig \<noteq> [] \<and> hd orig = CHR ''-'';
          s = (if orig \<noteq> [] \<and> hd orig \<in> {CHR ''-'', CHR ''+''} then tl orig else orig)
      in if s = ''0'' then Some 0
         else if s = [] then None
         else case duration_terms 0 s of
                None \<Rightarrow> None
              | Some d \<Rightarrow> signed_duration neg d)"

lemma signed_duration_range: "0 \<le> d \<Longrightarrow> signed_duration neg d = Some r \<Longrightarrow> in_i64 r"
proof (cases neg)
  case False
  then show "0 \<le> d \<Longrightarrow> signed_duration neg d = Some r \<Longrightarrow> in_i64 r"
    by (simp add: signed_duration_def in_i64_def max_i64_def min_i64_def split: if_splits)
qed (auto simp: signed_duration_def)

lemma ParseDuration_range:
  assumes "ParseDuration s = Some d"
  shows "in_i64 d"
proof -
  consider "d = 0" | neg t r where "duration_terms 0 t = Some r" "signed_duration neg r = Some d"
    using assms by (auto simp: ParseDuration_def Let_def split: if_splits option.splits)
  then show ?thesis
  proof cases
    case 1
    then show ?thesis by (simp add: in_i64_def max_i64_def min_i64_def)
  next
    case 2
    then show ?thesis
      using duration_terms_range [of 0 t r] by (auto intro: signed_duration_range)
  qed
qed

section \<open>fmt.Sscanf of a byte\<close>

definition hex_digits :: string where
  "hex_digits = ''0123456789aAbBcCdDeEfF''"

definition hex_val :: "char \<Rightarrow> nat" where
  "hex_val c = (if is_digit c then digit_val c
                else 10 + length (takeWhile (\<lambda>d. d \<noteq> c) (drop 10 hex_digits)) div 2)"

definition is_blank :: "char \<Rightarrow> bool" where
  \<comment> \<open>the one-byte space characters other than the newline, which is an error\<close>
  "is_blank c \<longleftrightarrow> c \<in> {CHR '' '', CHR 0x09, CHR 0x0B, CHR 0x0C, CHR 0x0D}"

definition scan_byte :: "nat \<Rightarrow> string \<Rightarrow> nat option" where
  "scan_byte base s =
     (let t = dropWhile is_blank s;
          tok = takeWhile (\<lambda>c. if base = 16 then c \<in> set hex_digits else is_digit c) t;
          i = foldl (\<lambda>n c. base * n + hex_val c) 0 tok
      in if tok = [] then None else if i \<ge> 256 then None else Some i)"

definition Sscanf_dec :: "string \<Rightarrow> nat option" where
  "Sscanf_dec s = scan_byte 10 s"

definition Sscanf_0x :: "string \<Rightarrow> nat option" where
  "Sscanf_0x s = (if take 2 s = ''0x'' then scan_byte 16 (drop 2 s) else None)"

lemma scan_byte_less: "scan_byte base s = Some n \<Longrightarrow> n < 256"
  by (auto simp: scan_byte_def Let_def split: if_splits)

end
