(* ===== verification/Modbus_Frame.thy ===== *)
theory Modbus_Frame
  imports Go_Prelude
begin

unbundle bit_operations_syntax

text \<open>
  src/modbusDevice/modbus.go: one request and response on a modbus. The bus is a parameter: it
  has a state of its own type, takes the request and the zeroed response buffer and gives an
  error or nothing, and what it has written to the buffer. The checksum of the library crc16 is
  a parameter too.
\<close>

type_synonym byte = "8 word"

section \<open>Byte orders (package encoding/binary)\<close>

definition be16 :: "16 word \<Rightarrow> byte list" where
  "be16 w = [ucast (drop_bit 8 w), ucast w]"

definition le16 :: "16 word \<Rightarrow> byte list" where
  "le16 w = [ucast w, ucast (drop_bit 8 w)]"

definition get_be16 :: "byte list \<Rightarrow> 16 word" where
  "get_be16 bs = push_bit 8 (ucast (bs ! 0)) OR ucast (bs ! 1)"

definition get_le16 :: "byte list \<Rightarrow> 16 word" where
  "get_le16 bs = push_bit 8 (ucast (bs ! 1)) OR ucast (bs ! 0)"

definition get_be32 :: "byte list \<Rightarrow> 32 word" where
  "get_be32 bs =
     push_bit 24 (ucast (bs ! 0)) OR push_bit 16 (ucast (bs ! 1)) OR
     push_bit 8 (ucast (bs ! 2)) OR ucast (bs ! 3)"

lemma length_16 [simp]: "length (be16 w) = 2" "length (le16 w) = 2"
  by (simp_all add: be16_def le16_def)

lemma split_word16: "push_bit 8 (ucast (ucast (drop_bit 8 w) :: byte)) OR ucast (ucast w :: byte) = (w :: 16 word)"
  by (rule bit_word_eqI) (auto simp: bit_simps)

lemma get_be16_be16 [simp]: "get_be16 (be16 w) = w"
  by (simp add: get_be16_def be16_def split_word16)

lemma get_le16_le16 [simp]: "get_le16 (le16 w) = w"
  by (simp add: get_le16_def le16_def split_word16)

section \<open>The call\<close>

datatype modbus_error =
    BusError string
  | ChecksumMismatch "16 word" "16 word"
  | AddressMismatch byte byte
  | FunctionMismatch byte byte
  | InvalidRelayNr "16 word"
  | ByteCountMismatch nat byte
  | InvalidEnumIdx int
  | NotImplemented

text \<open>
  A bus may write fewer bytes than the buffer has, but never changes its length: what it
  returns is written over the buffer.
\<close>

type_synonym 'b write_read = "byte list \<Rightarrow> byte list \<Rightarrow> 'b \<Rightarrow> string option \<times> byte list \<times> 'b"

definition overlay :: "byte list \<Rightarrow> byte list \<Rightarrow> byte list" where
  "overlay written buf = take (length buf) (written @ drop (length written) buf)"

lemma length_overlay [simp]: "length (overlay written buf) = length buf"
  by (simp add: overlay_def)

lemma overlay_full [simp]: "length written = length buf \<Longrightarrow> overlay written buf = written"
  by (simp add: overlay_def)

definition callFunction ::
  "(byte list \<Rightarrow> 16 word) \<Rightarrow> 'b write_read \<Rightarrow> byte \<Rightarrow> byte \<Rightarrow> byte list \<Rightarrow> nat \<Rightarrow> 'b \<Rightarrow>
     (modbus_error + byte list) \<times> 'b" where
  "callFunction computeChecksum writeRead deviceAddress functionCode payload responsePayloadLength bus =
     (let request = [deviceAddress] @ [functionCode] @ payload;
          checksum = computeChecksum request;
          request = request @ le16 checksum;
          responseLength = 1 + 1 + responsePayloadLength + 2;
          buf = replicate responseLength 0;
          (err, written, bus') = writeRead request buf bus;
          response = overlay written buf
      in case err of
           Some e \<Rightarrow> (Inl (BusError e), bus')
         | None \<Rightarrow>
             (let received = get_le16 (drop (length response - 2) response);
                  computed = computeChecksum (take (length response - 2) response)
              in if received \<noteq> computed then (Inl (ChecksumMismatch received computed), bus')
                 else if response ! 0 \<noteq> deviceAddress
                 then (Inl (AddressMismatch (response ! 0) deviceAddress), bus')
                 else if response ! 1 \<noteq> functionCode
                 then (Inl (FunctionMismatch (response ! 1) functionCode), bus')
                 else (Inr (drop 2 (take (length response - 2) response)), bus')))"

section \<open>Frames\<close>

text \<open>The frame of a request or response: address, function code, payload and checksum.\<close>

definition frame :: "(byte list \<Rightarrow> 16 word) \<Rightarrow> byte \<Rightarrow> byte \<Rightarrow> byte list \<Rightarrow> byte list" where
  "frame crc a f payload = (a # f # payload) @ le16 (crc (a # f # payload))"

lemma length_frame [simp]: "length (frame crc a f payload) = length payload + 4"
  by (simp add: frame_def)

lemma list_16: "length bs = 2 \<Longrightarrow> le16 (get_le16 bs) = bs"
proof -
  assume "length bs = 2"
  then obtain x y where bs: "bs = [x, y]"
    by (metis (no_types) Suc_length_conv length_0_conv numeral_2_eq_2)
  have "ucast (push_bit 8 (ucast y) OR ucast x :: 16 word) = x"
    by (rule bit_word_eqI) (auto simp: bit_simps)
  moreover have "ucast (drop_bit 8 (push_bit 8 (ucast y) OR ucast x :: 16 word)) = y"
    by (rule bit_word_eqI) (auto simp: bit_simps dest: bit_imp_le_length)
  ultimately show ?thesis by (simp add: bs le16_def get_le16_def)
qed

text \<open>A response passes the checks exactly when it is the frame of its payload.\<close>

lemma frame_iff:
  assumes "length response = n + 4"
  shows "get_le16 (drop (length response - 2) response) = crc (take (length response - 2) response) \<and>
      response ! 0 = a \<and> response ! 1 = f \<longleftrightarrow>
    response = frame crc a f (drop 2 (take (length response - 2) response))"
    (is "?L \<longleftrightarrow> ?R")
proof
  let ?body = "take (length response - 2) response" and ?tail = "drop (length response - 2) response"
  have tail: "le16 (get_le16 ?tail) = ?tail"
    by (rule list_16) (simp add: assms)
  have body: "?body = response ! 0 # response ! 1 # drop 2 ?body"
  proof -
    obtain x y rest where "response = x # y # rest"
      using assms by (cases response; cases "tl response") auto
    with assms show ?thesis by simp
  qed
  {
    assume ?L
    then have "response = ?body @ le16 (crc ?body)"
      using tail by (metis append_take_drop_id)
    with \<open>?L\<close> body show ?R
      by (simp add: frame_def)
  next
    assume R: ?R
    then have "length (drop 2 ?body) = n"
      by (simp add: assms)
    obtain p where p: "response = (a # f # p) @ le16 (crc (a # f # p))"
      using R unfolding frame_def by blast
    then show ?L by (simp add: le16_def get_le16_def split_word16)
  }
qed

lemma callFunction_ok_iff:
  assumes "writeRead (frame crc a f payload) (replicate (n + 4) 0) bus = (None, written, bus')"
  shows "callFunction crc writeRead a f payload n bus = (Inr r, bus'') \<longleftrightarrow>
    overlay written (replicate (n + 4) 0) = frame crc a f r \<and> bus'' = bus'"
proof -
  let ?resp = "overlay written (replicate (n + 4) 0)"
  have len: "length ?resp = n + 4" by simp
  have frame: "drop 2 (take (length x - 2) x) = r" if "x = frame crc a f r" for x
    by (simp add: that frame_def)
  define ok where "ok \<longleftrightarrow> get_le16 (drop (length ?resp - 2) ?resp) = crc (take (length ?resp - 2) ?resp) \<and>
      ?resp ! 0 = a \<and> ?resp ! 1 = f"
  define p where "p = drop 2 (take (length ?resp - 2) ?resp)"
  have call: "callFunction crc writeRead a f payload n bus =
      (let received = get_le16 (drop (length ?resp - 2) ?resp);
           computed = crc (take (length ?resp - 2) ?resp)
       in if received \<noteq> computed then (Inl (ChecksumMismatch received computed), bus')
          else if ?resp ! 0 \<noteq> a then (Inl (AddressMismatch (?resp ! 0) a), bus')
          else if ?resp ! 1 \<noteq> f then (Inl (FunctionMismatch (?resp ! 1) f), bus')
          else (Inr (drop 2 (take (length ?resp - 2) ?resp)), bus'))"
    using assms by (simp add: callFunction_def frame_def Let_def eval_nat_numeral)
  show ?thesis
  proof (cases ok)
    case True
    then have "callFunction crc writeRead a f payload n bus = (Inr p, bus')"
      unfolding call by (simp only: ok_def p_def Let_def) simp
    moreover have "?resp = frame crc a f p"
      using frame_iff [OF len, of crc a f] True unfolding ok_def p_def by blast
    moreover have "r = p" if "?resp = frame crc a f r"
      using frame [OF that] by (simp only: p_def)
    ultimately show ?thesis by auto
  next
    case False
    then have "\<exists>e. callFunction crc writeRead a f payload n bus = (Inl e, bus')"
      unfolding call by (auto simp: ok_def Let_def)
    moreover have "?resp \<noteq> frame crc a f r"
      using frame_iff [OF len, of crc a f] False frame [of ?resp] unfolding ok_def by metis
    ultimately show ?thesis by auto
  qed
qed

lemma callFunction_bus_error:
  assumes "writeRead (frame crc a f payload) (replicate (n + 4) 0) bus = (Some e, written, bus')"
  shows "callFunction crc writeRead a f payload n bus = (Inl (BusError e), bus')"
  using assms by (simp add: callFunction_def frame_def Let_def eval_nat_numeral)

lemma callFunction_length:
  assumes "callFunction crc writeRead a f payload n bus = (Inr r, bus')"
  shows "length r = n"
  using assms
  by (auto simp: callFunction_def Let_def case_prod_beta split: option.splits if_splits)

end
