(* ===== verification/Device_State.thy ===== *)
theory Device_State
  imports Value_Storage Register_Db
begin

text \<open>
  src/device: what every device has, its name and configuration, its register database and the
  availability it publishes as a value of the register \<open>Available\<close>.
\<close>

section \<open>State\<close>

definition AvailabilityRegisterName :: string where "AvailabilityRegisterName = ''Available''"
definition AvailabilityOfflineValue :: string where "AvailabilityOfflineValue = ''offline''"
definition AvailabilityOnlineValue :: string where "AvailabilityOnlineValue = ''online''"

definition availabilityRegister :: register where
  "availabilityRegister =
     NewRegisterStruct AvailabilityRegisterName AvailabilityRegisterName AvailabilityRegisterName
       EnumRegister (Some [(0, AvailabilityOfflineValue), (1, AvailabilityOnlineValue)]) '''' 1000 False"

record device_config =
  dc_Name :: string
  dc_Filter :: filter_conf
  dc_LogDebug :: bool
  dc_LogComDebug :: bool

record device_state =
  ds_config :: device_config
  ds_registerDb :: register_db
  ds_unavailableValue :: val
  ds_availableValue :: val

definition NewState :: "device_config \<Rightarrow> device_state" where
  "NewState cfg =
     \<lparr>ds_config = cfg,
      ds_registerDb = fst (RegisterDb_Add NewRegisterDb [availabilityRegister]),
      ds_unavailableValue = EnumRegisterValue (dc_Name cfg) availabilityRegister 0,
      ds_availableValue = EnumRegisterValue (dc_Name cfg) availabilityRegister 1\<rparr>"

definition ds_Name :: "device_state \<Rightarrow> string" where
  "ds_Name c = dc_Name (ds_config c)"

text \<open>What a device does to its register database and to the two storages.\<close>

datatype device_action =
    AddRegisters "register list"
  | FillState val
  | FillCommand val

section \<open>Availability\<close>

definition SetAvailable :: "device_state \<Rightarrow> bool \<Rightarrow> val" where
  \<comment> \<open>the value filled into the state storage\<close>
  "SetAvailable c v = (if v then ds_availableValue c else ds_unavailableValue c)"

definition available_filter :: "device_state \<Rightarrow> value_filter" where
  "available_filter c v =
     (if DeviceName v \<noteq> ds_Name c then False
      else reg_type (val_reg v) = EnumRegister \<and> reg_name (val_reg v) = AvailabilityRegisterName)"

fun GetAvailableByState :: "device_state \<Rightarrow> val list \<Rightarrow> bool \<times> bool" where
  "GetAvailableByState c [] = (False, False)"
| "GetAvailableByState c (v # vs) =
     (if DeviceName v \<noteq> ds_Name c then GetAvailableByState c vs
      else if Value_Equals v (ds_availableValue c) then (True, True)
      else if Value_Equals v (ds_unavailableValue c) then (False, True)
      else GetAvailableByState c vs)"

definition UpdateAvailable :: "device_state \<Rightarrow> bool \<Rightarrow> val \<Rightarrow> bool \<times> bool" where
  "UpdateAvailable c oldAvail newValue =
     (if DeviceName newValue = ds_Name c then
        if Value_Equals newValue (ds_availableValue c) then (True, True)
        else if Value_Equals newValue (ds_unavailableValue c) then (False, True)
        else (oldAvail, False)
      else (oldAvail, False))"

text \<open>
  The goroutine of \<open>SubscribeAvailableSendInitial\<close>: what it sends for the values it drains. The
  variable the loop assigns is a new one in each iteration, so \<open>avail\<close> stays the initial one.
\<close>

fun available_updates :: "device_state \<Rightarrow> bool \<Rightarrow> val list \<Rightarrow> bool list" where
  "available_updates c avail [] = []"
| "available_updates c avail (v # vs) =
     (let (a, updated) = UpdateAvailable c avail v
      in if updated then a # available_updates c avail vs else available_updates c avail vs)"

definition SubscribeAvailable :: "device_state \<Rightarrow> val list \<Rightarrow> val list \<Rightarrow> bool list" where
  "SubscribeAvailable c initialState drained =
     (let (avail, initialOk) = GetAvailableByState c initialState
      in (if initialOk then [avail] else []) @ available_updates c avail drained)"

section \<open>Facts\<close>

lemma NewState_sel [simp]:
  "ds_Name (NewState cfg) = dc_Name cfg"
  "ds_config (NewState cfg) = cfg"
  "ds_availableValue (NewState cfg) = EnumRegisterValue (dc_Name cfg) availabilityRegister 1"
  "ds_unavailableValue (NewState cfg) = EnumRegisterValue (dc_Name cfg) availabilityRegister 0"
  by (simp_all add: NewState_def ds_Name_def)

lemma NewState_db:
  "rdb_GetByName (ds_registerDb (NewState cfg)) n =
     (if n = AvailabilityRegisterName then Some availabilityRegister else None)"
  by (simp add: NewState_def RegisterDb_Add_def NewRegisterDb_def rdb_GetByName_def Let_def
      availabilityRegister_def)

lemma wf_NewState: "wf_rdb (ds_registerDb (NewState cfg))"
  by (simp add: NewState_def RegisterDb_Add_def wf_intros del: AddStruct.simps)

lemma SetAvailable_NewState:
  "SetAvailable (NewState cfg) b = EnumRegisterValue (dc_Name cfg) availabilityRegister (if b then 1 else 0)"
  by (simp add: SetAvailable_def)

lemma Value_Equals_SetAvailable:
  "Value_Equals (SetAvailable (NewState cfg) a) (SetAvailable (NewState cfg) b) \<longleftrightarrow> a = b"
  by (auto simp: SetAvailable_NewState)

lemma available_filter_SetAvailable: "available_filter (NewState cfg) (SetAvailable (NewState cfg) b)"
  by (simp add: available_filter_def SetAvailable_NewState availabilityRegister_def)

lemma available_updates_SetAvailable:
  "available_updates (NewState cfg) a (map (SetAvailable (NewState cfg)) bs) = bs"
  by (induction bs) (auto simp: UpdateAvailable_def SetAvailable_NewState)

definition avail_key :: "device_config \<Rightarrow> state_key" where
  "avail_key cfg = \<lparr>sk_deviceName = dc_Name cfg, sk_registerName = AvailabilityRegisterName\<rparr>"

lemma val_key_SetAvailable: "val_key (SetAvailable (NewState cfg) b) = avail_key cfg"
  by (simp add: val_key_def val_name_def avail_key_def SetAvailable_NewState availabilityRegister_def)

lemma updateState_SetAvailable:
  assumes "map_of st (avail_key cfg) = Some (SetAvailable (NewState cfg) a)"
  shows "snd (updateState st (SetAvailable (NewState cfg) b)) \<longleftrightarrow> a \<noteq> b"
    and "map_of (fst (updateState st (SetAvailable (NewState cfg) b))) (avail_key cfg) =
      Some (SetAvailable (NewState cfg) b)"
proof -
  have null: "\<not> is_null (SetAvailable (NewState cfg) b)"
    by (simp add: SetAvailable_NewState is_null_def)
  show "snd (updateState st (SetAvailable (NewState cfg) b)) \<longleftrightarrow> a \<noteq> b"
    using assms by (simp add: updateState_changed val_key_SetAvailable Value_Equals_SetAvailable)
  show "map_of (fst (updateState st (SetAvailable (NewState cfg) b))) (avail_key cfg) =
      Some (SetAvailable (NewState cfg) b)"
    using assms null
    by (auto simp: updateState_def Let_def val_key_SetAvailable Value_Equals_SetAvailable update_conv')
qed

text \<open>The changes of a flag that was \<open>a\<close>.\<close>

fun flag_changes :: "bool \<Rightarrow> bool list \<Rightarrow> bool list" where
  "flag_changes a [] = []"
| "flag_changes a (b # bs) = (if a = b then flag_changes b bs else b # flag_changes b bs)"

lemma remdups_adj_changes: "remdups_adj (a # bs) = a # flag_changes a bs"
  by (induction bs arbitrary: a) auto

lemma feed_SetAvailable:
  assumes "map_of st (avail_key cfg) = Some (SetAvailable (NewState cfg) a)"
  shows "snd (vs_feed.feed st (map (SetAvailable (NewState cfg)) bs)) =
    map (SetAvailable (NewState cfg)) (flag_changes a bs)"
  using assms
proof (induction bs arbitrary: st a)
  case (Cons b bs)
  note up = updateState_SetAvailable [OF Cons.prems, of b]
  from Cons.IH [OF up(2)] up(1) show ?case
    by (simp add: case_prod_beta Let_def)
qed simp

lemma feed_SetAvailable_first:
  "snd (vs_feed.feed [] (map (SetAvailable (NewState cfg)) bs)) =
    map (SetAvailable (NewState cfg)) (remdups_adj bs)"
proof (cases bs)
  case (Cons b bs')
  let ?v = "SetAvailable (NewState cfg) b"
  have "\<not> is_null ?v"
    by (simp add: SetAvailable_NewState is_null_def)
  then have "updateState [] ?v = ([(avail_key cfg, ?v)], True)"
    by (simp add: updateState_def Let_def val_key_SetAvailable)
  moreover have "snd (vs_feed.feed [(avail_key cfg, ?v)] (map (SetAvailable (NewState cfg)) bs')) =
      map (SetAvailable (NewState cfg)) (flag_changes b bs')"
    by (rule feed_SetAvailable) simp
  ultimately show ?thesis
    by (simp only: Cons remdups_adj_changes list.map vs_feed.feed.simps case_prod_beta Let_def
        fst_conv snd_conv if_True)
qed simp

section \<open>Properties\<close>

text \<open>
  A subscriber to the availability of a device that was never seen before gets each change
  of it exactly once: whatever \<open>SetAvailable\<close> calls reach the storage, it is sent their
  arguments without the repetitions.
\<close>

theorem availability_changes:
  "SubscribeAvailable (NewState cfg) [] (filter (available_filter (NewState cfg))
      (forwarded [] (map (SetAvailable (NewState cfg)) bs))) = remdups_adj bs"
proof -
  have "filter (available_filter (NewState cfg)) (map (SetAvailable (NewState cfg)) cs) =
      map (SetAvailable (NewState cfg)) cs" for cs
    by (simp add: filter_map comp_def available_filter_SetAvailable)
  then show ?thesis
    by (simp add: SubscribeAvailable_def available_updates_SetAvailable feed_SetAvailable_first
        forwarded_feed)
qed

end
