(* ===== verification/Waveshare.thy ===== *)
theory Waveshare
  imports Modbus_Frame Device_State Kinds
begin

text \<open>
  src/modbusDevice/waveshareV2.go and waveshareDevice.go: a board of eight relays on a modbus,
  its protocol, and the device that polls the relays and executes commands. What the device does
  to the rest of the program is a list of actions: registers added, values filled into the state
  and the command storage.
\<close>

section \<open>Protocol\<close>

definition WaveshareFunctionReadRelay :: byte where "WaveshareFunctionReadRelay = 0x01"
definition WaveshareFunctionReadAddressAndVersion :: byte where
  "WaveshareFunctionReadAddressAndVersion = 0x03"
definition WaveshareFunctionWriteRelay :: byte where "WaveshareFunctionWriteRelay = 0x05"

definition RelayOpen :: "16 word" where "RelayOpen = 0x0000"
definition RelayClose :: "16 word" where "RelayClose = 0xFF00"

definition WaveshareWriteRelay ::
  "(byte list \<Rightarrow> 16 word) \<Rightarrow> 'b write_read \<Rightarrow> byte \<Rightarrow> 16 word \<Rightarrow> 16 word \<Rightarrow> 'b \<Rightarrow> modbus_error option \<times> 'b" where
  "WaveshareWriteRelay crc writeRead deviceAddress relayNr command bus =
     (if relayNr > 7 then (Some (InvalidRelayNr relayNr), bus)
      else let payload = be16 relayNr @ be16 command;
               (res, bus') = callFunction crc writeRead deviceAddress WaveshareFunctionWriteRelay
                   payload 4 bus
           in (case res of Inl e \<Rightarrow> (Some e, bus') | Inr _ \<Rightarrow> (None, bus')))"

definition two_digits :: "nat \<Rightarrow> string" where
  \<comment> \<open>the verb \<open>%02d\<close>\<close>
  "two_digits n = (if n < 10 then ''0'' @ nat_dec n else nat_dec n)"

definition WaveshareReadSoftwareRevision ::
  "(byte list \<Rightarrow> 16 word) \<Rightarrow> 'b write_read \<Rightarrow> byte \<Rightarrow> 'b \<Rightarrow> (modbus_error + string) \<times> 'b" where
  "WaveshareReadSoftwareRevision crc writeRead deviceAddress bus =
     (let (res, bus') = callFunction crc writeRead deviceAddress WaveshareFunctionReadAddressAndVersion
            [0x20, 0x00, 0x00, 0x01] 2 bus
      in case res of
           Inl e \<Rightarrow> (Inl e, bus')
         | Inr response \<Rightarrow>
             (Inr (''V'' @ nat_dec (unat (response ! 1 div 100)) @ ''.'' @
                   two_digits (unat (response ! 1 mod 100))), bus'))"

definition WaveshareReadRelays ::
  "(byte list \<Rightarrow> 16 word) \<Rightarrow> 'b write_read \<Rightarrow> byte \<Rightarrow> 'b \<Rightarrow> (modbus_error + bool list) \<times> 'b" where
  "WaveshareReadRelays crc writeRead deviceAddress bus =
     (let (res, bus') = callFunction crc writeRead deviceAddress WaveshareFunctionReadRelay
            [0x00, 0xFF, 0x00, 0x01] 2 bus
      in case res of
           Inl e \<Rightarrow> (Inl e, bus')
         | Inr response \<Rightarrow> (Inr (map (\<lambda>i. (response ! 1) AND push_bit i 1 \<noteq> 0) [0..<8]), bus'))"

section \<open>Registers\<close>

record relay_config =
  rc_description :: string
  rc_openLabel :: string
  rc_closedLabel :: string

record modbus_device_config =
  mc_Bus :: string
  mc_Kind :: ModbusDeviceKind
  mc_Address :: byte
  mc_relays :: "(string, relay_config) gomap"
  mc_PollInterval :: duration

definition RelayDescription :: "modbus_device_config \<Rightarrow> string \<Rightarrow> string" where
  "RelayDescription c n = (case map_of (mc_relays c) n of Some v \<Rightarrow> rc_description v | None \<Rightarrow> n)"

definition RelayOpenLabel :: "modbus_device_config \<Rightarrow> string \<Rightarrow> string" where
  "RelayOpenLabel c n = (case map_of (mc_relays c) n of Some v \<Rightarrow> rc_openLabel v | None \<Rightarrow> ''open'')"

definition RelayClosedLabel :: "modbus_device_config \<Rightarrow> string \<Rightarrow> string" where
  "RelayClosedLabel c n = (case map_of (mc_relays c) n of Some v \<Rightarrow> rc_closedLabel v | None \<Rightarrow> ''closed'')"

record modbus_device =
  md_State :: device_state
  md_Config :: modbus_device_config

definition md_Name :: "modbus_device \<Rightarrow> string" where
  "md_Name c = ds_Name (md_State c)"

definition md_LogDebug :: "modbus_device \<Rightarrow> bool" where
  "md_LogDebug c = dc_LogDebug (ds_config (md_State c))"

definition getWaveshareRtuRelay8Registers :: "modbus_device_config \<Rightarrow> register list" where
  "getWaveshareRtuRelay8Registers cfg =
     map (\<lambda>i. let nm = ''CH'' @ nat_dec (i + 1)
              in NewRegisterStruct ''Relays'' nm (RelayDescription cfg nm) EnumRegister
                   (Some [(0, RelayOpenLabel cfg nm), (1, RelayClosedLabel cfg nm)]) ''''
                   (int i) True) [0..<8]"

text \<open>The pattern \<open>^CH([0-9])$\<close>; the result is \<open>None\<close> for an invalid name.\<close>

definition waveshareRtuRelay8RegisterAddress :: "register \<Rightarrow> int option" where
  "waveshareRtuRelay8RegisterAddress r =
     (case reg_name r of
        [a, b, d] \<Rightarrow> if a = CHR ''C'' \<and> b = CHR ''H'' \<and> is_digit d then Some (int (digit_val d) - 1) else None
      | _ \<Rightarrow> None)"

section \<open>The device\<close>

text \<open>The value of a register after a poll: an index out of the state's range panics (\<open>None\<close>).\<close>

definition relay_value :: "bool list \<Rightarrow> register \<Rightarrow> int option" where
  "relay_value state r =
     (case waveshareRtuRelay8RegisterAddress r of
        Some address \<Rightarrow>
          if 0 \<le> address \<and> address < int (length state)
          then Some (if state ! nat address then 1 else 0) else None
      | None \<Rightarrow> Some 0)"

fun poll_fills :: "string \<Rightarrow> bool list \<Rightarrow> register list \<Rightarrow> device_action list \<times> bool" where
  \<comment> \<open>the flag tells whether the loop panicked\<close>
  "poll_fills nm state [] = ([], False)"
| "poll_fills nm state (r # rs) =
     (case relay_value state r of
        None \<Rightarrow> ([], True)
      | Some v \<Rightarrow> (let (fills, panic) = poll_fills nm state rs
                   in (FillState (EnumRegisterValue nm r v) # fills, panic)))"

datatype poll_result = PollOk | PollErr modbus_error | PollPanic

definition wave_execPoll ::
  "(byte list \<Rightarrow> 16 word) \<Rightarrow> 'b write_read \<Rightarrow> modbus_device \<Rightarrow> register list \<Rightarrow> 'b \<Rightarrow>
     poll_result \<times> device_action list \<times> 'b" where
  "wave_execPoll crc writeRead c registers bus =
     (let (res, bus') = WaveshareReadRelays crc writeRead (mc_Address (md_Config c)) bus
      in case res of
           Inl e \<Rightarrow> (PollErr e, [], bus')
         | Inr state \<Rightarrow>
             (let (fills, panic) = poll_fills (md_Name c) state registers
              in (if panic then PollPanic else PollOk, fills, bus')))"

definition wave_execCommand ::
  "(byte list \<Rightarrow> 16 word) \<Rightarrow> 'b write_read \<Rightarrow> modbus_device \<Rightarrow> val \<Rightarrow> 'b \<Rightarrow> device_action list \<times> 'b" where
  "wave_execCommand crc writeRead c v bus =
     (case v of
        EnumRegisterValue _ reg idx \<Rightarrow>
          (case (if idx = 0 then Some RelayOpen else if idx = 1 then Some RelayClose else None) of
             None \<Rightarrow> ([], bus)
           | Some command \<Rightarrow>
               (case waveshareRtuRelay8RegisterAddress reg of
                  None \<Rightarrow> ([], bus)
                | Some address \<Rightarrow>
                    (let relayNr = word_of_int address;
                         (err, bus') = WaveshareWriteRelay crc writeRead (mc_Address (md_Config c))
                             relayNr command bus
                     in ((case err of
                            Some _ \<Rightarrow> []
                          | None \<Rightarrow> [FillState (EnumRegisterValue (md_Name c) reg idx)]) @
                         [FillCommand (NullRegisterValue (md_Name c) reg)], bus'))))
      | _ \<Rightarrow> ([], bus))"

text \<open>
  The device's loop selects among the cancelled context, the ticker and the command
  subscription; the latter gives no value (a nil interface) once its channel is closed, which
  the debug output dereferences.
\<close>

datatype device_event = EvCtxDone | EvTick | EvCommand "val option"
datatype run_status = RunReturned "modbus_error option" bool | RunPanic | RunContinues

fun wave_loop ::
  "(byte list \<Rightarrow> 16 word) \<Rightarrow> 'b write_read \<Rightarrow> modbus_device \<Rightarrow> register list \<Rightarrow> device_event list \<Rightarrow> 'b \<Rightarrow>
     run_status \<times> device_action list \<times> 'b" where
  "wave_loop crc writeRead c registers [] bus = (RunContinues, [], bus)"
| "wave_loop crc writeRead c registers (EvCtxDone # evs) bus = (RunReturned None False, [], bus)"
| "wave_loop crc writeRead c registers (EvTick # evs) bus =
     (let (res, fills, bus1) = wave_execPoll crc writeRead c registers bus
      in case res of
           PollErr e \<Rightarrow> (RunReturned (Some e) False, fills, bus1)
         | PollPanic \<Rightarrow> (RunPanic, fills, bus1)
         | PollOk \<Rightarrow> (let (st, acts, bus2) = wave_loop crc writeRead c registers evs bus1
                     in (st, fills @ acts, bus2)))"
| "wave_loop crc writeRead c registers (EvCommand None # evs) bus =
     (if md_LogDebug c then (RunPanic, [], bus) else wave_loop crc writeRead c registers evs bus)"
| "wave_loop crc writeRead c registers (EvCommand (Some v) # evs) bus =
     (let (acts1, bus1) = wave_execCommand crc writeRead c v bus;
          (st, acts, bus2) = wave_loop crc writeRead c registers evs bus1
      in (st, acts1 @ acts, bus2))"

definition runWaveshareRtuRelay8 ::
  "(byte list \<Rightarrow> 16 word) \<Rightarrow> 'b write_read \<Rightarrow> modbus_device \<Rightarrow> device_event list \<Rightarrow> 'b \<Rightarrow>
     run_status \<times> device_action list \<times> 'b" where
  "runWaveshareRtuRelay8 crc writeRead c evs bus =
     (let (version, bus1) = WaveshareReadSoftwareRevision crc writeRead (mc_Address (md_Config c)) bus
      in case version of
           Inl e \<Rightarrow> (RunReturned (Some e) True, [], bus1)
         | Inr _ \<Rightarrow>
             (let registers = FilterRegisters (getWaveshareRtuRelay8Registers (md_Config c))
                    (dc_Filter (ds_config (md_State c)));
                  (res, fills, bus2) = wave_execPoll crc writeRead c registers bus1
              in case res of
                   PollErr e \<Rightarrow> (RunReturned (Some e) True, AddRegisters registers # fills, bus2)
                 | PollPanic \<Rightarrow> (RunPanic, AddRegisters registers # fills, bus2)
                 | PollOk \<Rightarrow>
                     (let (st, acts, bus3) = wave_loop crc writeRead c registers evs bus2
                      in (st,
                          AddRegisters registers # fills @ [FillState (SetAvailable (md_State c) True)] @
                          acts @
                          (if st = RunContinues then []
                           else [FillState (SetAvailable (md_State c) False)]), bus3))))"

section \<open>Registers and addresses\<close>

definition relay_register :: "modbus_device_config \<Rightarrow> nat \<Rightarrow> register" where
  "relay_register cfg i =
     (let nm = ''CH'' @ nat_dec (i + 1)
      in NewRegisterStruct ''Relays'' nm (RelayDescription cfg nm) EnumRegister
           (Some [(0, RelayOpenLabel cfg nm), (1, RelayClosedLabel cfg nm)]) '''' (int i) True)"

lemma relay_registers: "getWaveshareRtuRelay8Registers cfg = map (relay_register cfg) [0..<8]"
  by (simp add: getWaveshareRtuRelay8Registers_def relay_register_def [abs_def])

lemma nat_dec_digit: "n < 10 \<Longrightarrow> nat_dec n = [digit_char n]"
  by (simp add: nat_dec.simps)

lemma relay_register_address:
  assumes "i < 8"
  shows "waveshareRtuRelay8RegisterAddress (relay_register cfg i) = Some (int i)"
proof -
  have "nat_dec (i + 1) = [digit_char (i + 1)]"
    using assms by (intro nat_dec_digit) simp
  then show ?thesis
    using assms by (simp add: waveshareRtuRelay8RegisterAddress_def relay_register_def Let_def)
qed

lemma relay_register_sort [simp]: "reg_sort (relay_register cfg i) = int i"
  by (simp add: relay_register_def Let_def)

definition relay_index :: "register \<Rightarrow> nat" where
  "relay_index r = nat (reg_sort r)"

lemma wave_registers_index:
  assumes "r \<in> set (FilterRegisters (getWaveshareRtuRelay8Registers cfg) f)"
  shows "relay_index r < 8 \<and> r = relay_register cfg (relay_index r) \<and>
    waveshareRtuRelay8RegisterAddress r = Some (int (relay_index r))"
proof -
  have "r \<in> set (getWaveshareRtuRelay8Registers cfg)"
    using assms by (simp add: FilterRegisters_eq)
  then obtain i where "i < 8" and r: "r = relay_register cfg i"
    by (auto simp: relay_registers)
  then show ?thesis
    by (simp add: relay_index_def relay_register_address)
qed

lemma poll_fills_ok:
  assumes "length state = 8"
    and "\<forall>r \<in> set rs. relay_index r < 8 \<and> waveshareRtuRelay8RegisterAddress r = Some (int (relay_index r))"
  shows "poll_fills nm state rs =
    (map (\<lambda>r. FillState (EnumRegisterValue nm r (if state ! relay_index r then 1 else 0))) rs, False)"
  using assms(2)
proof (induction rs)
  case (Cons r rs)
  then have "relay_value state r = Some (if state ! relay_index r then 1 else 0)"
    using assms(1) by (simp add: relay_value_def)
  with Cons show ?case by simp
qed simp

section \<open>Reading and writing relays\<close>

definition bits_of_byte :: "byte \<Rightarrow> bool list" where
  "bits_of_byte b = map (bit b) [0..<8]"

lemma and_power: "b AND 2 ^ i \<noteq> 0 \<longleftrightarrow> bit b i" if "i < 8" for b :: byte
proof
  assume "bit b i"
  then have "bit (b AND 2 ^ i) i"
    using that by (simp add: bit_simps)
  then show "b AND 2 ^ i \<noteq> 0"
    by (metis bit_0_eq bot_apply bot_bool_def)
next
  assume "b AND 2 ^ i \<noteq> 0"
  then obtain j where "bit (b AND 2 ^ i) j"
    using bit_word_eqI [of "b AND 2 ^ i" 0] by auto
  then show "bit b i"
    by (auto simp: bit_simps)
qed

lemma ReadRelays_ok:
  assumes "writeRead (frame crc a WaveshareFunctionReadRelay [0x00, 0xFF, 0x00, 0x01]) (replicate 6 0) bus =
      (None, frame crc a WaveshareFunctionReadRelay [n, b], bus')"
  shows "WaveshareReadRelays crc writeRead a bus = (Inr (bits_of_byte b), bus')"
proof -
  have "callFunction crc writeRead a WaveshareFunctionReadRelay [0x00, 0xFF, 0x00, 0x01] 2 bus =
      (Inr [n, b], bus')"
    using assms callFunction_ok_iff [of writeRead crc a WaveshareFunctionReadRelay "[0x00, 0xFF, 0x00, 0x01]" 2
        bus "frame crc a WaveshareFunctionReadRelay [n, b]" bus' "[n, b]" bus']
    by simp
  then show ?thesis
    by (auto simp: WaveshareReadRelays_def bits_of_byte_def and_power)
qed

lemma ReadRelays_length:
  "WaveshareReadRelays crc writeRead a bus = (Inr state, bus') \<Longrightarrow> length state = 8"
  by (auto simp: WaveshareReadRelays_def Let_def case_prod_beta split: sum.splits)

lemma WriteRelay_ok:
  assumes "nr < 8"
    and "writeRead (frame crc a WaveshareFunctionWriteRelay (be16 (word_of_nat nr) @ be16 cmd)) (replicate 8 0) bus =
      (None, frame crc a WaveshareFunctionWriteRelay (be16 (word_of_nat nr) @ be16 cmd), bus')"
  shows "WaveshareWriteRelay crc writeRead a (word_of_nat nr) cmd bus = (None, bus')"
proof -
  let ?p = "be16 (word_of_nat nr) @ be16 cmd"
  have "callFunction crc writeRead a WaveshareFunctionWriteRelay ?p 4 bus = (Inr ?p, bus')"
    using assms(2) callFunction_ok_iff [of writeRead crc a WaveshareFunctionWriteRelay ?p 4
        bus "frame crc a WaveshareFunctionWriteRelay ?p" bus' ?p bus']
    by simp
  moreover have "\<not> (word_of_nat nr > (7 :: 16 word))"
    using assms(1) by (simp add: word_less_nat_alt unat_of_nat take_bit_eq_mod)
  ultimately show ?thesis
    by (simp add: WaveshareWriteRelay_def)
qed

lemma WriteRelay_invalid:
  "nr > 7 \<Longrightarrow> WaveshareWriteRelay crc writeRead a nr cmd bus = (Some (InvalidRelayNr nr), bus)"
  by (simp add: WaveshareWriteRelay_def)

section \<open>The device's run\<close>

definition wave_registers :: "modbus_device \<Rightarrow> register list" where
  "wave_registers c = FilterRegisters (getWaveshareRtuRelay8Registers (md_Config c))
     (dc_Filter (ds_config (md_State c)))"

lemma wave_execPoll_cases:
  "\<exists>bus'. (\<exists>e. wave_execPoll crc writeRead c (wave_registers c) bus = (PollErr e, [], bus')) \<or>
     (\<exists>state. WaveshareReadRelays crc writeRead (mc_Address (md_Config c)) bus = (Inr state, bus') \<and>
       length state = 8 \<and> wave_execPoll crc writeRead c (wave_registers c) bus =
       (PollOk, map (\<lambda>r. FillState (EnumRegisterValue (md_Name c) r
          (if state ! relay_index r then 1 else 0))) (wave_registers c), bus'))"
proof -
  obtain res bus' where read: "WaveshareReadRelays crc writeRead (mc_Address (md_Config c)) bus = (res, bus')"
    by fastforce
  show ?thesis
  proof (cases res)
    case (Inl e)
    then have "wave_execPoll crc writeRead c (wave_registers c) bus = (PollErr e, [], bus')"
      by (simp add: wave_execPoll_def read)
    then show ?thesis by blast
  next
    case (Inr state)
    then have len: "length state = 8"
      using ReadRelays_length [OF read [unfolded Inr]] by simp
    have "\<forall>r \<in> set (wave_registers c). relay_index r < 8 \<and>
        waveshareRtuRelay8RegisterAddress r = Some (int (relay_index r))"
      using wave_registers_index unfolding wave_registers_def by blast
    from poll_fills_ok [OF len this, of "md_Name c"] show ?thesis
      using len read Inr
      by (intro exI [of _ bus'] disjI2 exI [of _ state]) (simp add: wave_execPoll_def)
  qed
qed

lemma wave_execPoll_no_panic:
  "fst (wave_execPoll crc writeRead c (wave_registers c) bus) \<noteq> PollPanic"
  using wave_execPoll_cases [of crc writeRead c bus] by auto

lemma wave_loop_no_panic:
  assumes "md_LogDebug c \<Longrightarrow> EvCommand None \<notin> set evs"
  shows "fst (wave_loop crc writeRead c (wave_registers c) evs bus) \<noteq> RunPanic"
  using assms
proof (induction evs arbitrary: bus)
  case (Cons ev evs)
  then have IH: "fst (wave_loop crc writeRead c (wave_registers c) evs b) \<noteq> RunPanic" for b
    by simp
  show ?case
  proof (cases ev)
    case EvTick
    then show ?thesis
      using IH wave_execPoll_no_panic [of crc writeRead c bus]
      by (auto simp: Let_def case_prod_beta split: poll_result.splits)
  next
    case (EvCommand ov)
    then show ?thesis
      using IH Cons.prems by (cases ov) (auto simp: Let_def case_prod_beta)
  qed simp
qed simp

text \<open>The availability a device announces, in order.\<close>

definition avail_of :: "device_action \<Rightarrow> bool option" where
  "avail_of a = (case a of
       FillState (EnumRegisterValue d r i) \<Rightarrow>
         if reg_name r = AvailabilityRegisterName then Some (i = 1) else None
     | _ \<Rightarrow> None)"

definition avail_trace :: "device_action list \<Rightarrow> bool list" where
  "avail_trace acts = List.map_filter avail_of acts"

lemma avail_trace_simps [simp]:
  "avail_trace [] = []"
  "avail_trace (a # acts) = (case avail_of a of Some b \<Rightarrow> [b] | None \<Rightarrow> []) @ avail_trace acts"
  "avail_trace (acts1 @ acts2) = avail_trace acts1 @ avail_trace acts2"
  by (simp_all add: avail_trace_def map_filter_simps map_filter_def split: option.splits)

lemma avail_of_simps [simp]:
  "avail_of (AddRegisters rs) = None"
  "avail_of (FillCommand v) = None"
  "avail_of (FillState (EnumRegisterValue d r i)) =
     (if reg_name r = AvailabilityRegisterName then Some (i = 1) else None)"
  by (simp_all add: avail_of_def)

lemma avail_of_SetAvailable [simp]:
  "avail_of (FillState (SetAvailable (NewState cfg) b)) = Some b"
  by (simp add: SetAvailable_NewState availabilityRegister_def)

lemma relay_name_not_avail:
  "waveshareRtuRelay8RegisterAddress r = Some a \<Longrightarrow> reg_name r \<noteq> AvailabilityRegisterName"
  by (auto simp: waveshareRtuRelay8RegisterAddress_def AvailabilityRegisterName_def
      split: list.splits if_splits)

lemma avail_trace_fills:
  "\<forall>r \<in> set rs. reg_name r \<noteq> AvailabilityRegisterName \<Longrightarrow>
     avail_trace (map (\<lambda>r. FillState (EnumRegisterValue nm r (g r))) rs) = []"
  by (induction rs) auto

lemma wave_registers_names:
  "r \<in> set (wave_registers c) \<Longrightarrow> reg_name r \<noteq> AvailabilityRegisterName"
  using wave_registers_index relay_name_not_avail unfolding wave_registers_def by blast

lemma wave_execPoll_avail:
  "avail_trace (fst (snd (wave_execPoll crc writeRead c (wave_registers c) bus))) = []"
proof -
  have "avail_trace (map (\<lambda>r. FillState (EnumRegisterValue nm r (g r))) (wave_registers c)) = []" for nm g
    by (rule avail_trace_fills) (blast dest: wave_registers_names)
  then show ?thesis
    using wave_execPoll_cases [of crc writeRead c bus] by auto
qed

lemma wave_execCommand_avail: "avail_trace (fst (wave_execCommand crc writeRead c v bus)) = []"
  by (auto simp: wave_execCommand_def Let_def case_prod_beta dest: relay_name_not_avail
      split: val.splits option.splits)

lemma wave_loop_avail: "avail_trace (fst (snd (wave_loop crc writeRead c (wave_registers c) evs bus))) = []"
proof (induction evs arbitrary: bus)
  case (Cons ev evs)
  show ?case
  proof (cases ev)
    case EvTick
    then show ?thesis
      using Cons.IH wave_execPoll_avail [of crc writeRead c bus]
      by (auto simp: Let_def case_prod_beta split: poll_result.splits)
  next
    case (EvCommand ov)
    then show ?thesis
      using Cons.IH wave_execCommand_avail
      by (cases ov) (auto simp: Let_def case_prod_beta)
  qed simp
qed simp

lemma wave_loop_not_immediate:
  "fst (wave_loop crc writeRead c rs evs bus) \<noteq> RunReturned e True"
proof (induction evs arbitrary: bus)
  case (Cons ev evs)
  show ?case
  proof (cases ev)
    case EvTick
    then show ?thesis
      using Cons.IH by (auto simp: Let_def case_prod_beta split: poll_result.splits)
  next
    case (EvCommand ov)
    then show ?thesis
      using Cons.IH by (cases ov) (auto simp: Let_def case_prod_beta)
  qed simp
qed simp

section \<open>Properties\<close>

text \<open>
  C15: A call on the modbus that the bus answers without an error returns a payload exactly when
  the response buffer holds the frame of that payload: address and function code of the request,
  the payload, and the checksum of all of it; any other response is an error.
\<close>

theorem modbus_call_sound:
  assumes "writeRead (frame crc a f payload) (replicate (n + 4) 0) bus = (None, written, bus')"
  shows "(callFunction crc writeRead a f payload n bus = (Inr r, bus') \<longleftrightarrow>
      overlay written (replicate (n + 4) 0) = frame crc a f r) \<and>
    (callFunction crc writeRead a f payload n bus = (Inr r, bus') \<longrightarrow> length r = n) \<and>
    snd (callFunction crc writeRead a f payload n bus) = bus'"
proof -
  have "snd (callFunction crc writeRead a f payload n bus) = bus'"
    using assms by (simp add: callFunction_def frame_def Let_def eval_nat_numeral)
  then show ?thesis
    using callFunction_ok_iff [of writeRead crc a f payload n bus written bus' r bus', OF assms]
    by (auto dest: callFunction_length)
qed

theorem modbus_call_sound_witness:
  "callFunction (\<lambda>_. 0) (\<lambda>req buf bus. (None, [1, 4, 7, 0, 0], Suc bus)) 1 4 [9] 1 0 = (Inr [7], Suc (0 :: nat))"
proof -
  let ?wr = "\<lambda>req buf bus. (None, [1, 4, 7, 0, 0], Suc bus)"
  have "overlay [1, 4, 7, 0, 0] (replicate (1 + 4) 0) = frame (\<lambda>_. 0) 1 4 [7]"
    by (simp add: frame_def le16_def)
  with modbus_call_sound [of ?wr "\<lambda>_. 0" 1 4 "[9]" 1 0 "[1, 4, 7, 0, 0]" "Suc 0" "[7]"]
  show ?thesis by simp
qed

text \<open>
  On a board that follows its protocol (it echoes a write request and switches the relay, and
  answers a read request with the relays packed in a byte), reading the relays after a write of
  any relay gives their previous state with that relay open or closed as commanded.
\<close>

theorem relay_write_then_read:
  assumes "\<And>nr on bus. nr < 8 \<Longrightarrow>
      writeRead (frame crc a WaveshareFunctionWriteRelay
        (be16 (word_of_nat nr) @ be16 (if on then RelayClose else RelayOpen))) (replicate 8 0) bus =
      (None, frame crc a WaveshareFunctionWriteRelay
        (be16 (word_of_nat nr) @ be16 (if on then RelayClose else RelayOpen)), switch bus nr on)"
    and "\<And>bus. writeRead (frame crc a WaveshareFunctionReadRelay [0x00, 0xFF, 0x00, 0x01]) (replicate 6 0) bus =
      (None, frame crc a WaveshareFunctionReadRelay [1, relays bus], bus)"
    and "\<And>nr on bus. nr < 8 \<Longrightarrow> bits_of_byte (relays (switch bus nr on)) = (bits_of_byte (relays bus))[nr := on]"
    and "nr < 8"
  shows "\<exists>bus'. WaveshareWriteRelay crc writeRead a (word_of_nat nr) (if on then RelayClose else RelayOpen) bus =
      (None, bus') \<and>
    fst (WaveshareReadRelays crc writeRead a bus') = Inr ((bits_of_byte (relays bus))[nr := on])"
proof -
  have "WaveshareWriteRelay crc writeRead a (word_of_nat nr) (if on then RelayClose else RelayOpen) bus =
      (None, switch bus nr on)"
    by (rule WriteRelay_ok [OF assms(4)]) (rule assms(1) [OF assms(4)])
  moreover have "fst (WaveshareReadRelays crc writeRead a (switch bus nr on)) =
      Inr ((bits_of_byte (relays bus))[nr := on])"
    using ReadRelays_ok [of writeRead crc a "switch bus nr on" 1 "relays (switch bus nr on)"
        "switch bus nr on"] assms(2) assms(3) [OF assms(4)] by simp
  ultimately show ?thesis by blast
qed

text \<open>A board for the witness.\<close>

definition set_relay :: "byte \<Rightarrow> nat \<Rightarrow> bool \<Rightarrow> byte" where
  "set_relay b nr on = (if on then set_bit nr b else unset_bit nr b)"

definition demo_board :: "byte write_read" where
  "demo_board request buf relays =
     (if request ! 1 = WaveshareFunctionReadRelay
      then (None, frame (\<lambda>_. 0) (request ! 0) WaveshareFunctionReadRelay [1, relays], relays)
      else (None, request, set_relay relays (unat (request ! 3)) (request ! 4 \<noteq> 0)))"

lemma bits_set_relay: "nr < 8 \<Longrightarrow> bits_of_byte (set_relay b nr on) = (bits_of_byte b)[nr := on]"
  by (rule nth_equalityI)
    (auto simp: bits_of_byte_def set_relay_def bit_simps nth_list_update)

lemma demo_board_write:
  assumes "nr < 8"
  shows "demo_board (frame (\<lambda>_. 0) a WaveshareFunctionWriteRelay
      (be16 (word_of_nat nr) @ be16 (if on then RelayClose else RelayOpen))) buf bus =
    (None, frame (\<lambda>_. 0) a WaveshareFunctionWriteRelay
      (be16 (word_of_nat nr) @ be16 (if on then RelayClose else RelayOpen)), set_relay bus nr on)"
proof -
  have "unat (ucast (word_of_nat nr :: 16 word) :: byte) = nr"
    using assms by (simp add: unsigned_ucast_eq unat_of_nat take_bit_eq_mod)
  then show ?thesis
    by (simp add: demo_board_def frame_def be16_def WaveshareFunctionWriteRelay_def
        WaveshareFunctionReadRelay_def RelayClose_def RelayOpen_def)
qed

theorem relay_write_then_read_witness:
  "\<exists>bus'. WaveshareWriteRelay (\<lambda>_. 0) demo_board 1 (word_of_nat 2) (if True then RelayClose else RelayOpen) 1 =
      (None, bus') \<and>
    fst (WaveshareReadRelays (\<lambda>_. 0) demo_board 1 bus') = Inr ((bits_of_byte 1)[2 := True])"
proof (rule relay_write_then_read [where relays = "\<lambda>b. b" and switch = set_relay])
  show "demo_board (frame (\<lambda>_. 0) 1 WaveshareFunctionReadRelay [0x00, 0xFF, 0x00, 0x01]) (replicate 6 0) bus =
      (None, frame (\<lambda>_. 0) 1 WaveshareFunctionReadRelay [1, bus], bus)" for bus
    by (simp add: demo_board_def frame_def)
qed (simp_all add: demo_board_write bits_set_relay)

text \<open>
  A poll of the relay board fills exactly one value per configured register, which is the
  bit of that relay in the board's answer, or ends with the modbus error; it never reads outside
  the board's eight relays, whatever the register filter.
\<close>

theorem wave_poll_values:
  "\<exists>bus'. (\<exists>e. wave_execPoll crc writeRead c (wave_registers c) bus = (PollErr e, [], bus')) \<or>
     (\<exists>state. WaveshareReadRelays crc writeRead (mc_Address (md_Config c)) bus = (Inr state, bus') \<and>
       length state = 8 \<and> wave_execPoll crc writeRead c (wave_registers c) bus =
       (PollOk, map (\<lambda>r. FillState (EnumRegisterValue (md_Name c) r
          (if state ! relay_index r then 1 else 0))) (wave_registers c), bus'))"
  by (rule wave_execPoll_cases)

text \<open>
  A run of the relay board device announces its availability consistently: a run that ends
  with an immediate error (which the restarter delays) never announces the device, a running one
  has announced it as available once, and one that ended after that has announced it as
  unavailable last. It panics only if the command channel is closed while debug output is on.
\<close>

theorem wave_run_availability:
  assumes "md_State c = NewState cfg"
    and "runWaveshareRtuRelay8 crc writeRead c evs bus = (st, acts, bus')"
  shows "avail_trace acts = (case st of
      RunContinues \<Rightarrow> [True]
    | RunReturned e immediate \<Rightarrow> if immediate then [] else [True, False]
    | RunPanic \<Rightarrow> [True, False]) \<and>
    (st = RunPanic \<longrightarrow> md_LogDebug c \<and> EvCommand None \<in> set evs)"
proof -
  obtain version bus1 where rev: "WaveshareReadSoftwareRevision crc writeRead (mc_Address (md_Config c)) bus =
      (version, bus1)"
    by fastforce
  obtain res fills bus2 where poll: "wave_execPoll crc writeRead c (wave_registers c) bus1 = (res, fills, bus2)"
    using prod_cases3 by blast
  obtain lst lacts bus3 where loop: "wave_loop crc writeRead c (wave_registers c) evs bus2 = (lst, lacts, bus3)"
    using prod_cases3 by blast
  have "avail_trace fills = []" and "res \<noteq> PollPanic" and "avail_trace lacts = []"
    using wave_execPoll_avail [of crc writeRead c bus1] wave_execPoll_no_panic [of crc writeRead c bus1]
      wave_loop_avail [of crc writeRead c evs bus2] poll loop by simp_all
  moreover have "lst \<noteq> RunReturned e True" for e
    using wave_loop_not_immediate [of crc writeRead c "wave_registers c" evs bus2 e] loop by simp
  moreover have "lst = RunPanic \<longrightarrow> md_LogDebug c \<and> EvCommand None \<in> set evs"
    using wave_loop_no_panic [of c evs crc writeRead bus2] loop by auto
  ultimately show ?thesis
    using assms(2) unfolding runWaveshareRtuRelay8_def rev wave_registers_def [symmetric] Let_def
    by (auto simp: poll loop assms(1) split: sum.splits poll_result.splits run_status.splits)
qed

definition demo_device :: modbus_device where
  "demo_device =
     \<lparr>md_State = NewState \<lparr>dc_Name = ''board'', dc_Filter = \<lparr>IncludeRegisters = [], SkipRegisters = [''CH2''],
          IncludeCategories = [], SkipCategories = [], DefaultInclude = True\<rparr>,
        dc_LogDebug = False, dc_LogComDebug = False\<rparr>,
      md_Config = \<lparr>mc_Bus = ''bus'', mc_Kind = ModbusWaveshareRtuRelay8Kind, mc_Address = 1,
        mc_relays = [], mc_PollInterval = second\<rparr>\<rparr>"

theorem wave_run_availability_witness:
  "avail_trace (fst (snd (runWaveshareRtuRelay8 (\<lambda>_. 0) (\<lambda>req buf bus. (Some ''timeout'', [], bus))
     demo_device [EvTick, EvCtxDone] ()))) = []"
proof -
  let ?wr = "\<lambda>req buf bus. (Some ''timeout'', [], bus)"
  have "md_State demo_device = NewState (ds_config (md_State demo_device))"
    by (simp add: demo_device_def)
  moreover have "runWaveshareRtuRelay8 (\<lambda>_. 0) ?wr demo_device [EvTick, EvCtxDone] () =
      (RunReturned (Some (BusError ''timeout'')) True, [], ())"
    by (simp add: runWaveshareRtuRelay8_def WaveshareReadSoftwareRevision_def callFunction_def)
  ultimately show ?thesis
    using wave_run_availability [of demo_device _ "\<lambda>_. 0" ?wr "[EvTick, EvCtxDone]" "()"] by simp
qed

end
