(* ===== verification/Config_Base.thy ===== *)
theory Config_Base
  imports Go_Duration Registers Waveshare "HOL-Library.Char_ord" "HOL-Library.List_Lexorder"
    "HOL-Library.Product_Lexorder"
begin

text \<open>
  src/config/config.go: what its \<open>TransformAndValidate\<close> functions share. Each returns the
  transformed section and the list of errors found, and goes on after an error: the field is
  left at its zero value then. An error is the path of the field and what is wrong with it.
  The library calls that depend on the environment (URLs, random numbers, files) are fields of
  \<open>config_env\<close>.
\<close>

section \<open>Errors\<close>

datatype problem =
    NameDoesNotMatch string | MustNotBeEmpty | MustNotBeSet | NotSupported
  | InvalidUrl string | InvalidKind string | InvalidAddress string | InvalidOption string
  | TooManyOptions | NotDefined string | DuplicateName string
  | DurationParseError string | DurationTooSmall string | DurationNotMultiple string
  | DurationNegative string | DurationAbove string string | FloatNegative f64
  | NotPositive int | UnsupportedVersion int | UnsupportedProtocol int | UnsupportedQos byte
  | VersionMissing | SecretTooShort | RandomFailed | FileCannotOpen string | FileIsDirectory string

type_synonym error = "string list \<times> problem"
type_synonym 'a checked = "'a \<times> error list"

definition under :: "string list \<Rightarrow> error list \<Rightarrow> error list" where
  \<comment> \<open>errors reported with a prefix\<close>
  "under prefix es = map (\<lambda>(path, p). (prefix @ path, p)) es"

definition check :: "bool \<Rightarrow> error \<Rightarrow> error list" where
  "check bad e = (if bad then [e] else [])"

lemma under_empty [simp]: "under p es = [] \<longleftrightarrow> es = []"
  by (simp add: under_def)

lemma check_empty [simp]: "check bad e = [] \<longleftrightarrow> \<not> bad"
  by (simp add: check_def)

section \<open>The environment\<close>

record 'u config_env =
  url_Parse :: "string \<Rightarrow> 'u option"
  url_ParseRequestURI :: "string \<Rightarrow> 'u option"
  uuid_New :: "string \<Rightarrow> string"        \<comment> \<open>the identifier drawn for the client of that name\<close>
  rand_Int :: "nat \<Rightarrow> nat \<Rightarrow> nat option" \<comment> \<open>the \<open>i\<close>-th draw below a bound\<close>
  os_Stat :: "string \<Rightarrow> bool option"     \<comment> \<open>whether the file is a directory\<close>

text \<open>\<open>rand.Int\<close> gives a number below its bound.\<close>

definition rand_ok :: "'u config_env \<Rightarrow> bool" where
  "rand_ok env \<longleftrightarrow> (\<forall>i n k. rand_Int env i n = Some k \<longrightarrow> k < n)"

definition random_letters :: string where
  "random_letters = ''0123456789ABCDEFGHIJKLMNOPQRSTUVWXYZabcdefghijklmnopqrstuvwxyz-''"

definition randomString :: "'u config_env \<Rightarrow> nat \<Rightarrow> string option" where
  "randomString env n =
     those (map (\<lambda>i. map_option ((!) random_letters) (rand_Int env i (length random_letters))) [0..<n])"

lemma randomString_length: "randomString env n = Some s \<Longrightarrow> length s = n"
proof -
  have "length ys = length xs" if "those xs = Some ys" for xs and ys :: "char list"
    using that by (induction xs arbitrary: ys) (auto split: option.splits)
  then show "randomString env n = Some s \<Longrightarrow> length s = n"
    by (fastforce simp: randomString_def)
qed

section \<open>Names\<close>

text \<open>\<open>NameRegexp\<close>, \<open>^[a-zA-Z0-9\-]{1,32}$\<close>.\<close>

definition name_char :: "char \<Rightarrow> bool" where
  "name_char c \<longleftrightarrow>
     c \<in> set ''abcdefghijklmnopqrstuvwxyzABCDEFGHIJKLMNOPQRSTUVWXYZ0123456789-''"

definition nameMatcher :: "string \<Rightarrow> bool" where
  "nameMatcher s \<longleftrightarrow> 1 \<le> length s \<and> length s \<le> 32 \<and> list_all name_char s"

section \<open>Fields\<close>

text \<open>A duration with a default and a lower bound, and one without a bound.\<close>

definition duration_field :: "string list \<Rightarrow> string \<Rightarrow> duration \<Rightarrow> duration \<Rightarrow> duration checked" where
  "duration_field path s dflt lower =
     (if length s < 1 then (dflt, [])
      else case ParseDuration s of
             None \<Rightarrow> (0, [(path, DurationParseError s)])
           | Some d \<Rightarrow> if d < lower then (0, [(path, DurationTooSmall s)]) else (d, []))"

definition any_duration_field :: "string list \<Rightarrow> string \<Rightarrow> duration \<Rightarrow> duration checked" where
  "any_duration_field path s dflt =
     (if length s < 1 then (dflt, [])
      else case ParseDuration s of
             None \<Rightarrow> (0, [(path, DurationParseError s)])
           | Some d \<Rightarrow> (d, []))"

definition or_default :: "'a option \<Rightarrow> 'a \<Rightarrow> 'a" where
  \<comment> \<open>the value of a pointer that may be nil\<close>
  "or_default p dflt = (case p of None \<Rightarrow> dflt | Some x \<Rightarrow> x)"

definition nonneg_field :: "string list \<Rightarrow> f64 option \<Rightarrow> f64 \<Rightarrow> f64 checked" where
  "nonneg_field path p dflt =
     (case p of
        None \<Rightarrow> (dflt, [])
      | Some x \<Rightarrow> if f64_lt x (F_Fin 0) then (F_Fin 0, [(path, FloatNegative x)]) else (x, []))"

lemma duration_field_bound:
  "snd (duration_field path s dflt lower) = [] \<Longrightarrow> lower \<le> dflt \<Longrightarrow>
     lower \<le> fst (duration_field path s dflt lower)"
  by (auto simp: duration_field_def split: option.splits if_splits)

lemma duration_field_range:
  "in_i64 dflt \<Longrightarrow> in_i64 (fst (duration_field path s dflt lower))"
  by (auto simp: duration_field_def in_i64_def [of 0] max_i64_def min_i64_def
      dest: ParseDuration_range split: option.splits)

lemma nonneg_field_bound:
  "snd (nonneg_field path p dflt) = [] \<Longrightarrow> \<not> f64_lt dflt (F_Fin 0) \<Longrightarrow>
     \<not> f64_lt (fst (nonneg_field path p dflt)) (F_Fin 0)"
  by (auto simp: nonneg_field_def split: option.splits if_splits)

section \<open>Lists, maps and names\<close>

definition existsByName :: "('n \<Rightarrow> string) \<Rightarrow> string \<Rightarrow> 'n list \<Rightarrow> bool" where
  "existsByName nm needle haystack = list_ex (\<lambda>t. needle = nm t) haystack"

definition getNames :: "('n \<Rightarrow> string) \<Rightarrow> 'n list \<Rightarrow> string list" where
  "getNames nm list = map nm list"

lemma existsByName_iff: "existsByName nm needle hs \<longleftrightarrow> needle \<in> set (getNames nm hs)"
  by (auto simp: existsByName_def list_ex_iff getNames_def)

text \<open>The keys of a map are visited in ascending order.\<close>

definition gomap_get :: "('k, 'v) gomap \<Rightarrow> 'k \<Rightarrow> 'v" where
  "gomap_get m k = the (map_of m k)"

definition TransformAndValidateMapToList ::
  "(string, 'i) gomap \<Rightarrow> ('i \<Rightarrow> string \<Rightarrow> 'o checked) \<Rightarrow> 'o list checked" where
  "TransformAndValidateMapToList inp transformer =
     (let keys = sort (map fst inp);
          rs = map (\<lambda>nm. transformer (gomap_get inp nm) nm) keys
      in (map fst rs, concat (map snd rs)))"

text \<open>The same with a transformer that may panic.\<close>

definition TransformAndValidateMapToListP ::
  "(string, 'i) gomap \<Rightarrow> ('i \<Rightarrow> string \<Rightarrow> 'o checked option) \<Rightarrow> 'o list checked option" where
  "TransformAndValidateMapToListP inp transformer =
     (let keys = sort (map fst inp)
      in case those (map (\<lambda>nm. transformer (gomap_get inp nm) nm) keys) of
           None \<Rightarrow> None
         | Some rs \<Rightarrow> Some (map fst rs, concat (map snd rs)))"

definition TransformAndValidateMap ::
  "((string \<times> 'i) list \<Rightarrow> (string \<times> 'i) list) \<Rightarrow> (string, 'i) gomap \<Rightarrow>
     ('i \<Rightarrow> string \<Rightarrow> 'o checked) \<Rightarrow> (string, 'o) gomap checked" where
  "TransformAndValidateMap it inp transformer =
     foldl (\<lambda>(ret, err) (k, v). let (o1, e) = transformer v k
              in (AList.update k o1 ret, err @ e)) ([], []) (it inp)"

definition TransformAndValidateListUnique ::
  "'i list \<Rightarrow> ('i \<Rightarrow> 'o checked) \<Rightarrow> ('o \<Rightarrow> 'o list \<Rightarrow> error list) \<Rightarrow> 'o list checked" where
  "TransformAndValidateListUnique inp transformer uniqueErr =
     foldl (\<lambda>(ret, err) cr. let (r, e) = transformer cr
              in (ret @ [r], err @ uniqueErr r ret @ e)) ([], []) inp"

lemma MapToList_names:
  assumes "\<And>x k. nm (fst (tr x k)) = k"
  shows "map nm (fst (TransformAndValidateMapToList inp tr)) = sort (map fst inp)"
  by (simp add: TransformAndValidateMapToList_def Let_def assms comp_def)

lemma MapToList_length [simp]: "length (fst (TransformAndValidateMapToList inp tr)) = length inp"
  by (simp add: TransformAndValidateMapToList_def Let_def)

lemma MapToList_no_errors:
  "snd (TransformAndValidateMapToList inp tr) = [] \<longleftrightarrow>
     (\<forall>k \<in> fst ` set inp. snd (tr (gomap_get inp k) k) = [])"
  by (auto simp: TransformAndValidateMapToList_def Let_def)

lemma MapToList_set:
  "set (fst (TransformAndValidateMapToList inp tr)) = (\<lambda>k. fst (tr (gomap_get inp k) k)) ` fst ` set inp"
  by (simp add: TransformAndValidateMapToList_def Let_def image_image)

lemma MapToList_all:
  assumes "snd (TransformAndValidateMapToList inp tr) = []"
    and "\<And>x k. snd (tr x k) = [] \<Longrightarrow> P (fst (tr x k))"
  shows "list_all P (fst (TransformAndValidateMapToList inp tr))"
  using assms by (auto simp: list_all_iff MapToList_no_errors MapToList_set)

lemma those_map_Some: "(\<And>x. x \<in> set xs \<Longrightarrow> f x = Some (g x)) \<Longrightarrow> those (map f xs) = Some (map g xs)"
  by (induction xs) auto

lemma those_map_None: "those (map f xs) = None \<longleftrightarrow> (\<exists>x \<in> set xs. f x = None)"
  by (induction xs) (auto split: option.splits)

lemma MapToListP_no_panic:
  assumes "\<And>k. k \<in> fst ` set inp \<Longrightarrow> tr (gomap_get inp k) k = Some (tr' (gomap_get inp k) k)"
  shows "TransformAndValidateMapToListP inp tr = Some (TransformAndValidateMapToList inp tr')"
proof -
  have "those (map (\<lambda>k. tr (gomap_get inp k) k) (sort (map fst inp))) =
      Some (map (\<lambda>k. tr' (gomap_get inp k) k) (sort (map fst inp)))"
    by (rule those_map_Some) (simp add: assms)
  then show ?thesis
    by (simp add: TransformAndValidateMapToListP_def TransformAndValidateMapToList_def Let_def)
qed

lemma MapToListP_panics_iff:
  "TransformAndValidateMapToListP inp tr = None \<longleftrightarrow> (\<exists>k \<in> fst ` set inp. tr (gomap_get inp k) k = None)"
proof -
  have "TransformAndValidateMapToListP inp tr = None \<longleftrightarrow>
      those (map (\<lambda>k. tr (gomap_get inp k) k) (sort (map fst inp))) = None"
    by (simp add: TransformAndValidateMapToListP_def Let_def option.case_eq_if)
  then show ?thesis by (simp only: those_map_None set_sort set_map)
qed

lemma ListUnique_snoc:
  "TransformAndValidateListUnique (xs @ [x]) tr un =
     (let (ret, err) = TransformAndValidateListUnique xs tr un
      in (ret @ [fst (tr x)], err @ un (fst (tr x)) ret @ snd (tr x)))"
  by (simp add: TransformAndValidateListUnique_def case_prod_beta)

lemma ListUnique_fst: "fst (TransformAndValidateListUnique xs tr un) = map (fst \<circ> tr) xs"
  by (induction xs rule: rev_induct)
    (simp_all add: ListUnique_snoc case_prod_beta, simp add: TransformAndValidateListUnique_def)

text \<open>With the check for duplicates both lists of views use.\<close>

definition duplicateName :: "('o \<Rightarrow> string) \<Rightarrow> 'o \<Rightarrow> 'o list \<Rightarrow> error list" where
  "duplicateName nm needle haystack =
     check (existsByName nm (nm needle) haystack) ([], DuplicateName (nm needle))"

lemma ListUnique_no_errors:
  "snd (TransformAndValidateListUnique xs tr (duplicateName nm)) = [] \<longleftrightarrow>
     (\<forall>x \<in> set xs. snd (tr x) = []) \<and>
     distinct (getNames nm (fst (TransformAndValidateListUnique xs tr (duplicateName nm))))"
proof (induction xs rule: rev_induct)
  case Nil
  show ?case by (simp add: TransformAndValidateListUnique_def getNames_def)
next
  case (snoc x xs)
  then show ?case
    by (auto simp: ListUnique_snoc case_prod_beta duplicateName_def existsByName_iff getNames_def
        ListUnique_fst)
qed

end
