(* ===== verification/Config_Devices.thy ===== *)
theory Config_Devices
  imports Config_Base
begin

text \<open>
  src/config/config.go, the sections of the devices and of the modbuses: the records of
  yamlReadTypes.go (\<open>...Read\<close>), those of types.go, and the \<open>TransformAndValidate\<close> that leads
  from the one to the other. A pointer of a read record is an \<open>option\<close>; an embedded
  \<open>DeviceConfig\<close> is a field.
\<close>

section \<open>Filters\<close>

record filterConfigRead =
  fr_IncludeRegisters :: "string list"
  fr_SkipRegisters :: "string list"
  fr_IncludeCategories :: "string list"
  fr_SkipCategories :: "string list"
  fr_DefaultInclude :: "bool option"

definition filter_transform :: "filterConfigRead \<Rightarrow> filter_conf checked" where
  "filter_transform c =
     (\<lparr>IncludeRegisters = fr_IncludeRegisters c, SkipRegisters = fr_SkipRegisters c,
       IncludeCategories = fr_IncludeCategories c, SkipCategories = fr_SkipCategories c,
       DefaultInclude = (case fr_DefaultInclude c of None \<Rightarrow> True | Some b \<Rightarrow> b)\<rparr>, [])"

definition no_filter :: filterConfigRead where
  \<comment> \<open>the zero value\<close>
  "no_filter = \<lparr>fr_IncludeRegisters = [], fr_SkipRegisters = [], fr_IncludeCategories = [],
     fr_SkipCategories = [], fr_DefaultInclude = None\<rparr>"

lemma filter_transform_errors [simp]: "snd (filter_transform c) = []"
  by (simp add: filter_transform_def)

text \<open>A filter that is not configured lets every register pass.\<close>

lemma no_filter_all: "RegisterFilter (fst (filter_transform no_filter)) r"
  by (simp add: filter_transform_def no_filter_def RegisterFilter_iff)

section \<open>Modbuses\<close>

record modbusConfigRead =
  mbr_Device :: string
  mbr_BaudRate :: int
  mbr_ReadTimeout :: string
  mbr_LogDebug :: "bool option"

record ModbusConfig =
  mb_name :: string
  mb_device :: string
  mb_baudRate :: int
  mb_readTimeout :: duration
  mb_logDebug :: bool

definition modbus_transform :: "modbusConfigRead \<Rightarrow> string \<Rightarrow> ModbusConfig checked" where
  "modbus_transform c nm =
     (let (readTimeout, e) = duration_field [''ModbusDevices'', nm, ''ReadTimeout''] (mbr_ReadTimeout c)
            (100 * millisecond) millisecond
      in (\<lparr>mb_name = nm, mb_device = mbr_Device c, mb_baudRate = mbr_BaudRate c,
           mb_readTimeout = readTimeout, mb_logDebug = (mbr_LogDebug c = Some True)\<rparr>,
          check (\<not> nameMatcher nm) ([''Modbus'', ''Name''], NameDoesNotMatch nm) @
          check (length (mbr_Device c) < 1) ([''ModbusDevices'', nm, ''Device''], MustNotBeEmpty) @
          check (mbr_BaudRate c < 1)
            ([''ModbusDevices'', nm, ''BaudRate''], NotPositive (mbr_BaudRate c)) @
          e))"

section \<open>What every device has\<close>

record deviceConfigRead =
  dr_Filter :: filterConfigRead
  dr_RestartInterval :: string
  dr_RestartIntervalMaxBackoff :: string
  dr_LogDebug :: "bool option"
  dr_LogComDebug :: "bool option"

record DeviceConfig =
  cd_name :: string
  cd_filter :: filter_conf
  cd_restartInterval :: duration
  cd_restartIntervalMaxBackoff :: duration
  cd_logDebug :: bool
  cd_logComDebug :: bool

definition device_transform :: "deviceConfigRead \<Rightarrow> string \<Rightarrow> DeviceConfig checked" where
  "device_transform c nm =
     (let (filt, e1) = filter_transform (dr_Filter c);
          (restartInterval, e2) = duration_field [''Devices'', nm, ''RestartInterval'']
            (dr_RestartInterval c) (200 * millisecond) (10 * millisecond);
          (maxBackoff, e3) = duration_field [''Devices'', nm, ''RestartIntervalMaxBackoff'']
            (dr_RestartIntervalMaxBackoff c) minute (10 * millisecond)
      in (\<lparr>cd_name = nm, cd_filter = filt, cd_restartInterval = restartInterval,
           cd_restartIntervalMaxBackoff = maxBackoff, cd_logDebug = (dr_LogDebug c = Some True),
           cd_logComDebug = (dr_LogComDebug c = Some True)\<rparr>,
          check (\<not> nameMatcher nm) ([''Devices'', ''Name''], NameDoesNotMatch nm) @ e1 @ e2 @ e3))"

section \<open>Victron devices\<close>

record victronDeviceConfigRead =
  vr_device :: deviceConfigRead
  vr_Device :: string
  vr_Kind :: string
  vr_PollInterval :: string
  vr_IoLog :: "string option"

record VictronDeviceConfig =
  vd_DeviceConfig :: DeviceConfig
  vd_device :: string
  vd_kind :: VictronDeviceKind
  vd_pollInterval :: duration
  vd_ioLog :: string

definition victron_transform :: "victronDeviceConfigRead \<Rightarrow> string \<Rightarrow> VictronDeviceConfig checked" where
  "victron_transform c nm =
     (let kind = VictronDeviceKindFromString (vr_Kind c);
          (dev, e1) = device_transform (vr_device c) nm;
          (pollInterval, e2) = duration_field [''VictronDevices'', nm, ''PollInterval'']
            (vr_PollInterval c) (500 * millisecond) millisecond
      in (\<lparr>vd_DeviceConfig = dev, vd_device = vr_Device c, vd_kind = kind,
           vd_pollInterval = pollInterval, vd_ioLog = or_default (vr_IoLog c) ''''\<rparr>,
          e1 @
          check (kind = VictronUndefinedKind)
            ([''VictronDevices'', nm, ''Kind''], InvalidKind (vr_Kind c)) @
          check (kind = VictronVedirectKind \<and> length (vr_Device c) < 1)
            ([''VictronDevices'', nm, ''Device''], MustNotBeEmpty) @
          e2))"

section \<open>Modbus devices\<close>

record relayConfigRead =
  rr_Description :: "string option"
  rr_OpenLabel :: "string option"
  rr_ClosedLabel :: "string option"

definition relay_transform :: "relayConfigRead \<Rightarrow> relay_config checked" where
  "relay_transform c =
     (\<lparr>rc_description = or_default (rr_Description c) '''',
       rc_openLabel = or_default (rr_OpenLabel c) '''',
       rc_closedLabel = or_default (rr_ClosedLabel c) ''''\<rparr>, [])"

record modbusDeviceConfigRead =
  mr_device :: deviceConfigRead
  mr_Bus :: string
  mr_Kind :: string
  mr_Address :: string
  mr_Relays :: "(string, relayConfigRead) gomap"
  mr_PollInterval :: string

text \<open>The fields of the device are those of \<open>modbus_device_config\<close>, which the device reads.\<close>

record ModbusDeviceConfig =
  md_DeviceConfig :: DeviceConfig
  md_ModbusConfig :: modbus_device_config

definition str_contains_0x :: "string \<Rightarrow> bool" where
  "str_contains_0x s = list_ex (\<lambda>i. take 2 (drop i s) = ''0x'') [0..<length s]"

definition address_field :: "string list \<Rightarrow> string \<Rightarrow> byte checked" where
  "address_field path s =
     (case (if str_contains_0x s then Sscanf_0x s else Sscanf_dec s) of
        None \<Rightarrow> (0, [(path, InvalidAddress s)])
      | Some n \<Rightarrow> (of_nat n, []))"

definition modbusDevice_transform ::
  "((string \<times> relayConfigRead) list \<Rightarrow> (string \<times> relayConfigRead) list) \<Rightarrow>
     modbusDeviceConfigRead \<Rightarrow> string \<Rightarrow> ModbusConfig list \<Rightarrow> ModbusDeviceConfig checked" where
  "modbusDevice_transform it c nm modbus =
     (let kind = ModbusDeviceKindFromString (mr_Kind c);
          (dev, e1) = device_transform (mr_device c) nm;
          (address, e2) = address_field [''ModbusDevices'', nm] (mr_Address c);
          (relays, e3) = TransformAndValidateMap it (mr_Relays c) (\<lambda>inp _. relay_transform inp);
          (pollInterval, e4) = duration_field [''HttpDevices'', nm, ''PollInterval'']
            (mr_PollInterval c) second millisecond
      in (\<lparr>md_DeviceConfig = dev,
           md_ModbusConfig = \<lparr>mc_Bus = mr_Bus c, mc_Kind = kind, mc_Address = address,
             mc_relays = relays, mc_PollInterval = pollInterval\<rparr>\<rparr>,
          e1 @
          check (kind = ModbusUndefinedKind)
            ([''ModbusDevices'', nm, ''Kind''], InvalidKind (mr_Kind c)) @
          check (\<not> existsByName mb_name (mr_Bus c) modbus)
            ([''ModbusDevices'', nm, ''Bus''], NotDefined (mr_Bus c)) @
          e2 @ e3 @ e4))"

section \<open>GPIO devices\<close>

record pinConfigRead =
  pr_Pin :: string
  pr_Description :: "string option"
  pr_LowLabel :: "string option"
  pr_HighLabel :: "string option"

record PinConfig =
  pin_pin :: string
  pin_name :: string
  pin_description :: string
  pin_lowLabel :: string
  pin_highLabel :: string

definition pin_transform :: "string list \<Rightarrow> pinConfigRead \<Rightarrow> string \<Rightarrow> PinConfig checked" where
  "pin_transform prefix c nm =
     (\<lparr>pin_pin = pr_Pin c, pin_name = nm, pin_description = or_default (pr_Description c) nm,
       pin_lowLabel = or_default (pr_LowLabel c) ''low'',
       pin_highLabel = or_default (pr_HighLabel c) ''high''\<rparr>,
      check (length (pr_Pin c) < 1) (prefix @ [''Pin''], MustNotBeEmpty) @
      check (\<not> nameMatcher nm) (prefix, NameDoesNotMatch nm))"

record gpioDeviceConfigRead =
  gr_device :: deviceConfigRead
  gr_Chip :: "string option"
  gr_InputDebounce :: string
  gr_InputOptions :: "string list"
  gr_OutputOptions :: "string list"
  gr_Inputs :: "(string, pinConfigRead) gomap"
  gr_Outputs :: "(string, pinConfigRead) gomap"

record GpioDeviceConfig =
  gd_DeviceConfig :: DeviceConfig
  gd_chip :: string
  gd_inputDebounce :: duration
  gd_inputOptions :: "string list"
  gd_outputOptions :: "string list"
  gd_inputs :: "PinConfig list"
  gd_outputs :: "PinConfig list"

definition option_list :: "string list \<Rightarrow> string list \<Rightarrow> string list \<Rightarrow> string list checked" where
  \<comment> \<open>the loop over the options of the inputs or of the outputs, and the check of their number\<close>
  "option_list path allowed opts =
     (let good = filter (\<lambda>opt. opt \<in> set allowed) opts;
          bad = filter (\<lambda>opt. opt \<notin> set allowed) opts
      in (good, map (\<lambda>opt. (path, InvalidOption opt)) bad @
                check (length good > 1) (path, TooManyOptions)))"

definition gpio_transform :: "gpioDeviceConfigRead \<Rightarrow> string \<Rightarrow> GpioDeviceConfig checked" where
  "gpio_transform c deviceName =
     (let p = [''GpioDevices'', deviceName];
          (dev, e1) = device_transform (gr_device c) deviceName;
          (chip, e2) =
            (case gr_Chip c of
               None \<Rightarrow> (''gpiochip0'', [])
             | Some ch \<Rightarrow> if length ch < 1 then ('''', [(p @ [''Chip''], MustNotBeEmpty)])
                          else (ch, []));
          (inputDebounce, e3) = any_duration_field (p @ [''InputDebounce'']) (gr_InputDebounce c)
            (100 * millisecond);
          (inputOptions, e4) = option_list (p @ [''InputOptions''])
            [''WithBiasDisabled'', ''WithPullDown'', ''WithPullUp''] (gr_InputOptions c);
          (outputOptions, e5) = option_list (p @ [''OutputOptions''])
            [''AsOpenDrain'', ''AsOpenSource'', ''AsPushPull''] (gr_OutputOptions c);
          (inputs, e6) = TransformAndValidateMapToList (gr_Inputs c)
            (\<lambda>inp nm. pin_transform (p @ [''Inputs'', nm]) inp nm);
          (outputs, e7) = TransformAndValidateMapToList (gr_Outputs c)
            (\<lambda>inp nm. pin_transform (p @ [''Outputs'', nm]) inp nm)
      in (\<lparr>gd_DeviceConfig = dev, gd_chip = chip, gd_inputDebounce = inputDebounce,
           gd_inputOptions = inputOptions, gd_outputOptions = outputOptions,
           gd_inputs = inputs, gd_outputs = outputs\<rparr>,
          e1 @ e2 @ e3 @ e4 @ e5 @ e6 @ e7))"

section \<open>HTTP and MQTT devices\<close>

record httpDeviceConfigRead =
  hr_device :: deviceConfigRead
  hr_Url :: string
  hr_Kind :: string
  hr_Username :: string
  hr_Password :: string
  hr_PollInterval :: string

record 'u HttpDeviceConfig =
  hd_DeviceConfig :: DeviceConfig
  hd_url :: "'u option"
  hd_kind :: HttpDeviceKind
  hd_username :: string
  hd_password :: string
  hd_pollInterval :: duration

definition url_field :: "string list \<Rightarrow> (string \<Rightarrow> 'u option) \<Rightarrow> string \<Rightarrow> 'u option checked" where
  \<comment> \<open>a mandatory URL\<close>
  "url_field path parse s =
     (if length s < 1 then (None, [(path, MustNotBeEmpty)])
      else case parse s of
             None \<Rightarrow> (None, [(path, InvalidUrl s)])
           | Some u \<Rightarrow> (Some u, []))"

definition http_transform ::
  "'u config_env \<Rightarrow> httpDeviceConfigRead \<Rightarrow> string \<Rightarrow> 'u HttpDeviceConfig checked" where
  "http_transform env c nm =
     (let kind = HttpDeviceKindFromString (hr_Kind c);
          (dev, e1) = device_transform (hr_device c) nm;
          (u, e2) = url_field [''HttpDevices'', nm, ''Url''] (url_ParseRequestURI env) (hr_Url c);
          (pollInterval, e3) = duration_field [''HttpDevices'', nm, ''PollInterval'']
            (hr_PollInterval c) second (100 * millisecond)
      in (\<lparr>hd_DeviceConfig = dev, hd_url = u, hd_kind = kind, hd_username = hr_Username c,
           hd_password = hr_Password c, hd_pollInterval = pollInterval\<rparr>,
          e1 @ e2 @
          check (kind = HttpUndefinedKind) ([''HttpDevices'', nm, ''Kind''], InvalidKind (hr_Kind c)) @
          e3))"

record mqttDeviceConfigRead =
  qr_device :: deviceConfigRead
  qr_Kind :: string

record MqttDeviceConfig =
  qd_DeviceConfig :: DeviceConfig
  qd_kind :: MqttDeviceKind

definition mqttDevice_transform :: "mqttDeviceConfigRead \<Rightarrow> string \<Rightarrow> MqttDeviceConfig checked" where
  "mqttDevice_transform c nm =
     (let kind = MqttDeviceKindFromString (qr_Kind c);
          (dev, e) = device_transform (qr_device c) nm
      in (\<lparr>qd_DeviceConfig = dev, qd_kind = kind\<rparr>,
          check (kind = MqttDeviceUndefinedKind)
            ([''MqttDevices'', nm, ''Kind''], InvalidKind (qr_Kind c)) @ e))"

section \<open>Names\<close>

lemma device_names [simp]:
  "cd_name (fst (device_transform c nm)) = nm"
  "mb_name (fst (modbus_transform mc nm)) = nm"
  "cd_name (vd_DeviceConfig (fst (victron_transform vc nm))) = nm"
  "cd_name (md_DeviceConfig (fst (modbusDevice_transform it rc nm ms))) = nm"
  "cd_name (gd_DeviceConfig (fst (gpio_transform gc nm))) = nm"
  "cd_name (hd_DeviceConfig (fst (http_transform env hc nm))) = nm"
  "cd_name (qd_DeviceConfig (fst (mqttDevice_transform qc nm))) = nm"
  "pin_name (fst (pin_transform p pc nm)) = nm"
  by (simp_all add: device_transform_def modbus_transform_def victron_transform_def
      modbusDevice_transform_def gpio_transform_def http_transform_def mqttDevice_transform_def
      pin_transform_def Let_def case_prod_beta)

section \<open>What a section without errors satisfies\<close>

definition device_ok :: "DeviceConfig \<Rightarrow> bool" where
  "device_ok d \<longleftrightarrow> nameMatcher (cd_name d) \<and> 10 * millisecond \<le> cd_restartInterval d \<and>
     10 * millisecond \<le> cd_restartIntervalMaxBackoff d"

definition modbus_ok :: "ModbusConfig \<Rightarrow> bool" where
  "modbus_ok m \<longleftrightarrow> nameMatcher (mb_name m) \<and> mb_device m \<noteq> '''' \<and> 1 \<le> mb_baudRate m \<and>
     millisecond \<le> mb_readTimeout m"

definition victron_ok :: "VictronDeviceConfig \<Rightarrow> bool" where
  "victron_ok d \<longleftrightarrow> device_ok (vd_DeviceConfig d) \<and> vd_kind d \<noteq> VictronUndefinedKind \<and>
     (vd_kind d = VictronVedirectKind \<longrightarrow> vd_device d \<noteq> '''') \<and> millisecond \<le> vd_pollInterval d"

definition modbusDevice_ok :: "ModbusConfig list \<Rightarrow> ModbusDeviceConfig \<Rightarrow> bool" where
  "modbusDevice_ok modbus d \<longleftrightarrow> device_ok (md_DeviceConfig d) \<and>
     mc_Kind (md_ModbusConfig d) \<noteq> ModbusUndefinedKind \<and>
     existsByName mb_name (mc_Bus (md_ModbusConfig d)) modbus \<and>
     millisecond \<le> mc_PollInterval (md_ModbusConfig d)"

definition pin_ok :: "PinConfig \<Rightarrow> bool" where
  "pin_ok p \<longleftrightarrow> pin_pin p \<noteq> '''' \<and> nameMatcher (pin_name p)"

definition gpio_ok :: "GpioDeviceConfig \<Rightarrow> bool" where
  "gpio_ok d \<longleftrightarrow> device_ok (gd_DeviceConfig d) \<and> gd_chip d \<noteq> '''' \<and>
     length (gd_inputOptions d) \<le> 1 \<and> length (gd_outputOptions d) \<le> 1 \<and>
     list_all pin_ok (gd_inputs d) \<and> list_all pin_ok (gd_outputs d)"

definition http_ok :: "'u HttpDeviceConfig \<Rightarrow> bool" where
  "http_ok d \<longleftrightarrow> device_ok (hd_DeviceConfig d) \<and> hd_url d \<noteq> None \<and>
     hd_kind d \<noteq> HttpUndefinedKind \<and> 100 * millisecond \<le> hd_pollInterval d"

definition mqttDevice_ok :: "MqttDeviceConfig \<Rightarrow> bool" where
  "mqttDevice_ok d \<longleftrightarrow> device_ok (qd_DeviceConfig d) \<and> qd_kind d \<noteq> MqttDeviceUndefinedKind"

lemma device_transform_ok: "snd (device_transform c nm) = [] \<Longrightarrow> device_ok (fst (device_transform c nm))"
  by (simp add: device_transform_def device_ok_def Let_def case_prod_beta duration_field_bound)

lemma modbus_transform_ok: "snd (modbus_transform c nm) = [] \<Longrightarrow> modbus_ok (fst (modbus_transform c nm))"
  by (simp add: modbus_transform_def modbus_ok_def Let_def case_prod_beta duration_field_bound)

lemma victron_transform_ok:
  "snd (victron_transform c nm) = [] \<Longrightarrow> victron_ok (fst (victron_transform c nm))"
  by (simp add: victron_transform_def victron_ok_def Let_def case_prod_beta duration_field_bound
      device_transform_ok)

lemma modbusDevice_transform_ok:
  "snd (modbusDevice_transform it c nm ms) = [] \<Longrightarrow>
     modbusDevice_ok ms (fst (modbusDevice_transform it c nm ms))"
  by (simp add: modbusDevice_transform_def modbusDevice_ok_def Let_def case_prod_beta
      duration_field_bound device_transform_ok)

lemma pin_transform_ok: "snd (pin_transform p c nm) = [] \<Longrightarrow> pin_ok (fst (pin_transform p c nm))"
  by (simp add: pin_transform_def pin_ok_def)

lemma option_list_ok: "snd (option_list path al opts) = [] \<Longrightarrow> length (fst (option_list path al opts)) \<le> Suc 0"
  by (simp add: option_list_def Let_def)

lemma gpio_transform_ok:
  assumes "snd (gpio_transform c nm) = []"
  shows "gpio_ok (fst (gpio_transform c nm))"
proof -
  have "list_all pin_ok (fst (TransformAndValidateMapToList ps (\<lambda>inp k. pin_transform (p k) inp k)))"
    if "snd (TransformAndValidateMapToList ps (\<lambda>inp k. pin_transform (p k) inp k)) = []" for ps p
    using that by (rule MapToList_all) (rule pin_transform_ok)
  then show ?thesis
    using assms by (simp add: gpio_transform_def gpio_ok_def Let_def case_prod_beta
        device_transform_ok option_list_ok split: option.splits if_splits)
qed

lemma http_transform_ok:
  "snd (http_transform env c nm) = [] \<Longrightarrow> http_ok (fst (http_transform env c nm))"
  by (simp add: http_transform_def http_ok_def Let_def case_prod_beta duration_field_bound
      device_transform_ok url_field_def split: option.splits if_splits)

lemma mqttDevice_transform_ok:
  "snd (mqttDevice_transform c nm) = [] \<Longrightarrow> mqttDevice_ok (fst (mqttDevice_transform c nm))"
  by (simp add: mqttDevice_transform_def mqttDevice_ok_def Let_def case_prod_beta
      device_transform_ok)

lemmas section_ok_intros =
  modbus_transform_ok victron_transform_ok modbusDevice_transform_ok gpio_transform_ok
  http_transform_ok mqttDevice_transform_ok

end
