(* ===== verification/Genset.thy ===== *)
theory Genset
  imports Go_Prelude
begin

text \<open>
  src/genset: the controller of a generator set, a state machine over measured inputs with
  time-dependent transitions. A step computes the next state from the parameters, the inputs and
  the previous state; \<open>compute\<close> iterates it up to eight times and then the outputs; the callbacks'
  invocations are the events \<open>compute\<close> returns. \<open>StateNode\<close> is an int in the code; every value
  the repository makes is one of its ten constants.
\<close>

section \<open>Data\<close>

datatype StateNode =
  Error | Reset | Off | Ready | Priming | Cranking | WarmUp | Producing | EngineCoolDown
  | EnclosureCoolDown

fun node_int :: "StateNode \<Rightarrow> int" where
  "node_int Error = 0"
| "node_int Reset = 1"
| "node_int Off = 2"
| "node_int Ready = 3"
| "node_int Priming = 4"
| "node_int Cranking = 5"
| "node_int WarmUp = 6"
| "node_int Producing = 7"
| "node_int EngineCoolDown = 8"
| "node_int EnclosureCoolDown = 9"

lemma node_int_inj: "node_int a = node_int b \<longleftrightarrow> a = b"
  by (cases a; cases b) simp_all

text \<open>The nodes are ordered as the code's constants are.\<close>

instantiation StateNode :: linorder
begin

definition less_eq_StateNode :: "StateNode \<Rightarrow> StateNode \<Rightarrow> bool" where
  "less_eq_StateNode a b \<longleftrightarrow> node_int a \<le> node_int b"

definition less_StateNode :: "StateNode \<Rightarrow> StateNode \<Rightarrow> bool" where
  "less_StateNode a b \<longleftrightarrow> node_int a < node_int b"

instance
  by standard (auto simp: less_eq_StateNode_def less_StateNode_def node_int_inj)

end

definition StateNodeMap :: "(int \<times> string) list" where
  "StateNodeMap =
     [(node_int Error, ''Error''), (node_int Reset, ''Reset''), (node_int Off, ''Off''),
      (node_int Ready, ''Ready''), (node_int Priming, ''Priming''), (node_int Cranking, ''Cranking''),
      (node_int WarmUp, ''WarmUp''), (node_int Producing, ''Producing''),
      (node_int EngineCoolDown, ''EngineCoolDown''),
      (node_int EnclosureCoolDown, ''EnclosureCoolDown'')]"

definition StateNode_String :: "int \<Rightarrow> string" where
  "StateNode_String s = (case map_of StateNodeMap s of Some v \<Rightarrow> v | None \<Rightarrow> ''Unknown'')"

record Params =
  PrimingTimeout :: duration
  CrankingTimeout :: duration
  WarmUpTimeout :: duration
  WarmUpMinTime :: duration
  WarmUpTemp :: f64
  EngineCoolDownTimeout :: duration
  EngineCoolDownMinTime :: duration
  EngineCoolDownTemp :: f64
  EnclosureCoolDownTimeout :: duration
  EnclosureCoolDownMinTime :: duration
  EnclosureCoolDownTemp :: f64
  EngineTempMin :: f64
  EngineTempMax :: f64
  AuxTemp0Min :: f64
  AuxTemp0Max :: f64
  AuxTemp1Min :: f64
  AuxTemp1Max :: f64
  SinglePhase :: bool
  UMin :: f64
  UMax :: f64
  FMin :: f64
  FMax :: f64
  PMax :: f64
  PTotMax :: f64

record Inputs =
  Time :: go_time
  ArmSwitch :: bool
  CommandSwitch :: bool
  ResetSwitch :: bool
  IOAvailable :: bool
  FireDetected :: bool
  EngineTemp :: f64
  AuxTemp0 :: f64
  AuxTemp1 :: f64
  OutputAvailable :: bool
  U1 :: f64
  U2 :: f64
  U3 :: f64
  P1 :: f64
  P2 :: f64
  P3 :: f64
  inp_F :: f64

record State =
  Node :: StateNode
  Changed :: go_time

record Outputs =
  Ignition :: bool
  Starter :: bool
  Fan :: bool
  Pump :: bool
  Load :: bool
  TimeInState :: duration
  IoCheck :: bool
  OutputCheck :: bool

section \<open>One step\<close>

definition f64_ge :: "f64 \<Rightarrow> f64 \<Rightarrow> bool" where "f64_ge a b = f64_le b a"
definition f64_gt :: "f64 \<Rightarrow> f64 \<Rightarrow> bool" where "f64_gt a b = f64_lt b a"

definition ioCheck :: "Params \<Rightarrow> Inputs \<Rightarrow> bool" where
  "ioCheck p i \<longleftrightarrow>
     \<not> FireDetected i \<and> IOAvailable i \<and>
     f64_ge (EngineTemp i) (EngineTempMin p) \<and> f64_le (EngineTemp i) (EngineTempMax p) \<and>
     f64_ge (AuxTemp0 i) (AuxTemp0Min p) \<and> f64_le (AuxTemp0 i) (AuxTemp0Max p) \<and>
     f64_ge (AuxTemp1 i) (AuxTemp1Min p) \<and> f64_le (AuxTemp1 i) (AuxTemp1Max p)"

definition outputCheck :: "Params \<Rightarrow> Inputs \<Rightarrow> bool" where
  "outputCheck p i =
     (if \<not> OutputAvailable i then False
      else if f64_lt (inp_F i) (FMin p) \<or> f64_gt (inp_F i) (FMax p) then False
      else if SinglePhase p then
        f64_ge (U1 i) (UMin p) \<and> f64_le (U1 i) (UMax p) \<and>
        f64_le (P1 i) (PMax p) \<and>
        f64_le (P1 i) (PTotMax p)
      else
        f64_ge (inp_F i) (FMin p) \<and> f64_le (inp_F i) (FMax p) \<and>
        f64_ge (U1 i) (UMin p) \<and> f64_le (U1 i) (UMax p) \<and>
        f64_ge (U2 i) (UMin p) \<and> f64_le (U2 i) (UMax p) \<and>
        f64_ge (U3 i) (UMin p) \<and> f64_le (U3 i) (UMax p) \<and>
        f64_le (P1 i) (PMax p) \<and>
        f64_le (P2 i) (PMax p) \<and>
        f64_le (P3 i) (PMax p) \<and>
        f64_le (f64_add (f64_add (P1 i) (P2 i)) (P3 i)) (PTotMax p))"

definition computeStateNode :: "Params \<Rightarrow> Inputs \<Rightarrow> State \<Rightarrow> StateNode" where
  "computeStateNode p i prev =
     (if ResetSwitch i then Reset
      else if \<not> (Node prev = Reset \<or> Node prev = Off \<or> Node prev = Error) \<and> \<not> ioCheck p i then Error
      else
        let outCheck = outputCheck p i
        in if (Node prev = WarmUp \<or> Node prev = Producing \<or> Node prev = EngineCoolDown) \<and> \<not> outCheck
           then Error
           else
             let masterSwitch = (ArmSwitch i \<and> CommandSwitch i);
                 timeInState = time_sub (Time i) (Changed prev)
             in (case Node prev of
                   Error \<Rightarrow> Error
                 | Reset \<Rightarrow> if \<not> ResetSwitch i \<and> \<not> masterSwitch then Off else Reset
                 | Off \<Rightarrow> if IOAvailable i then Ready else Off
                 | Ready \<Rightarrow> if masterSwitch then Priming else Ready
                 | Priming \<Rightarrow>
                     if \<not> masterSwitch then Ready
                     else if timeInState \<ge> PrimingTimeout p then Cranking
                     else Priming
                 | Cranking \<Rightarrow>
                     if \<not> masterSwitch then Ready
                     else if timeInState \<ge> CrankingTimeout p then Error
                     else if outCheck then WarmUp
                     else Cranking
                 | WarmUp \<Rightarrow>
                     if \<not> masterSwitch then EnclosureCoolDown
                     else if timeInState \<ge> WarmUpMinTime p \<and>
                       (timeInState \<ge> WarmUpTimeout p \<or> f64_ge (EngineTemp i) (WarmUpTemp p))
                     then Producing
                     else WarmUp
                 | Producing \<Rightarrow> if \<not> masterSwitch then EngineCoolDown else Producing
                 | EngineCoolDown \<Rightarrow>
                     if masterSwitch then Producing
                     else if timeInState \<ge> EngineCoolDownMinTime p \<and>
                       (timeInState \<ge> EngineCoolDownTimeout p \<or>
                        f64_le (EngineTemp i) (EngineCoolDownTemp p))
                     then EnclosureCoolDown
                     else EngineCoolDown
                 | EnclosureCoolDown \<Rightarrow>
                     if masterSwitch then Priming
                     else if timeInState \<ge> EnclosureCoolDownMinTime p \<and>
                       (timeInState \<ge> EnclosureCoolDownTimeout p \<or>
                        f64_le (EngineTemp i) (EnclosureCoolDownTemp p))
                     then Ready
                     else EnclosureCoolDown))"

definition computeState :: "Params \<Rightarrow> Inputs \<Rightarrow> State \<Rightarrow> State" where
  "computeState p i prev =
     (let nextNode = computeStateNode p i prev;
          nextChanged = (if nextNode \<noteq> Node prev then Time i else Changed prev)
      in \<lparr>Node = nextNode, Changed = nextChanged\<rparr>)"

definition computeOutputs :: "Params \<Rightarrow> Inputs \<Rightarrow> State \<Rightarrow> Outputs" where
  "computeOutputs p i s =
     (let sN = Node s
      in \<lparr>Ignition = (sN = Cranking \<or> sN = WarmUp \<or> sN = Producing \<or> sN = EngineCoolDown),
          Starter = (sN = Cranking),
          Fan = (sN = Priming \<or> sN = Cranking \<or> sN = WarmUp \<or> sN = Producing \<or>
                 sN = EngineCoolDown \<or> sN = EnclosureCoolDown),
          Pump = (sN = Priming \<or> sN = Cranking \<or> sN = WarmUp \<or> sN = Producing \<or>
                  sN = EngineCoolDown),
          Load = (sN = Producing),
          TimeInState = time_sub (Time i) (Changed s),
          IoCheck = ioCheck p i,
          OutputCheck = outputCheck p i\<rparr>)"

section \<open>The controller\<close>

datatype ctl_event = OnStateUpdate State | OnOutputUpdate Outputs | ChangeDone

text \<open>\<open>onState\<close> and \<open>onOutput\<close> tell whether the callbacks are set.\<close>

record Controller =
  ctl_params :: Params
  ctl_inputs :: Inputs
  ctl_state :: State
  ctl_outputs :: Outputs
  onState :: bool
  onOutput :: bool

definition NewController :: "Params \<Rightarrow> StateNode \<Rightarrow> Inputs \<Rightarrow> Controller" where
  "NewController params initialNode initialInputs =
     (let initialState = \<lparr>Node = initialNode, Changed = Time initialInputs\<rparr>
      in \<lparr>ctl_params = params, ctl_inputs = initialInputs, ctl_state = initialState,
          ctl_outputs = computeOutputs params initialInputs initialState,
          onState = False, onOutput = False\<rparr>)"

text \<open>The states the loop of \<open>compute\<close> runs through, the last one being the final state.\<close>

fun compute_loop :: "nat \<Rightarrow> Params \<Rightarrow> Inputs \<Rightarrow> State \<Rightarrow> State \<times> State list" where
  "compute_loop 0 p i s = (s, [])"
| "compute_loop (Suc n) p i s =
     (let nextState = computeState p i s
      in if nextState = s then (s, [])
         else (let (s', trace) = compute_loop n p i nextState in (s', nextState # trace)))"

definition max_iterations :: nat where "max_iterations = 8"

definition ctl_compute :: "Controller \<Rightarrow> Controller \<times> ctl_event list" where
  "ctl_compute c =
     (let (s, trace) = compute_loop max_iterations (ctl_params c) (ctl_inputs c) (ctl_state c);
          stateEvents = (if onState c then map OnStateUpdate trace else []);
          c1 = c\<lparr>ctl_state := s\<rparr>;
          nextOutput = computeOutputs (ctl_params c1) (ctl_inputs c1) (ctl_state c1)
      in if nextOutput = ctl_outputs c1 then (c1, stateEvents)
         else (c1\<lparr>ctl_outputs := nextOutput\<rparr>,
               stateEvents @ (if onOutput c1 then [OnOutputUpdate nextOutput] else [])))"

text \<open>
  \<open>nextI != c.inputs\<close> compares the structs field by field, floats by the float comparison: an
  input that is NaN differs from itself.
\<close>

definition Inputs_eq :: "Inputs \<Rightarrow> Inputs \<Rightarrow> bool" where
  "Inputs_eq a b \<longleftrightarrow>
     Time a = Time b \<and> ArmSwitch a = ArmSwitch b \<and> CommandSwitch a = CommandSwitch b \<and>
     ResetSwitch a = ResetSwitch b \<and> IOAvailable a = IOAvailable b \<and>
     FireDetected a = FireDetected b \<and> f64_eq (EngineTemp a) (EngineTemp b) \<and>
     f64_eq (AuxTemp0 a) (AuxTemp0 b) \<and> f64_eq (AuxTemp1 a) (AuxTemp1 b) \<and>
     OutputAvailable a = OutputAvailable b \<and> f64_eq (U1 a) (U1 b) \<and> f64_eq (U2 a) (U2 b) \<and>
     f64_eq (U3 a) (U3 b) \<and> f64_eq (P1 a) (P1 b) \<and> f64_eq (P2 a) (P2 b) \<and>
     f64_eq (P3 a) (P3 b) \<and> f64_eq (inp_F a) (inp_F b)"

record Change =
  chg_f :: "Inputs \<Rightarrow> Inputs"
  chg_sync :: bool

definition handle_change :: "Change \<Rightarrow> Controller \<Rightarrow> Controller \<times> ctl_event list" where
  "handle_change change c =
     (let nextI = chg_f change (ctl_inputs c);
          (c1, events) = (if \<not> Inputs_eq nextI (ctl_inputs c)
                          then ctl_compute (c\<lparr>ctl_inputs := nextI\<rparr>) else (c, []))
      in (c1, events @ (if chg_sync change then [ChangeDone] else [])))"

definition ctl_start :: "Controller \<Rightarrow> Controller \<times> ctl_event list" where
  "ctl_start c =
     (let initial = (if onState c then [OnStateUpdate (ctl_state c)] else []) @
                    (if onOutput c then [OnOutputUpdate (ctl_outputs c)] else []);
          (c1, events) = ctl_compute c
      in (c1, initial @ events))"

fun handle_changes :: "Change list \<Rightarrow> Controller \<Rightarrow> Controller \<times> ctl_event list" where
  "handle_changes [] c = (c, [])"
| "handle_changes (ch # chs) c =
     (let (c1, ev1) = handle_change ch c; (c2, ev2) = handle_changes chs c1 in (c2, ev1 @ ev2))"

definition ctl_Run :: "Change list \<Rightarrow> Controller \<Rightarrow> Controller \<times> ctl_event list" where
  \<comment> \<open>the changes are those received until the channel is closed by \<open>End\<close>\<close>
  "ctl_Run changes c =
     (let (c1, ev1) = ctl_start c; (c2, ev2) = handle_changes changes c1 in (c2, ev1 @ ev2))"

end
