(* ===== verification/Config_Genset.thy ===== *)
theory Config_Genset
  imports Config_Devices Genset
begin

text \<open>
  src/config/config.go, the section of the genset devices: bindings of the registers of other
  devices to inputs and outputs, timeouts, and limits. The transformed section holds the
  parameters in the record \<open>Params\<close> of the controller, whose fields gensetDevice/device.go
  fills from the getters of the configuration one by one.
\<close>

section \<open>Bindings\<close>

type_synonym gensetDeviceBindingConfigRead = "(string, (string, string) gomap) gomap"

record GensetDeviceBindingConfig =
  bi_name :: string
  bi_deviceName :: string
  bi_registerName :: string

definition binding_key :: "GensetDeviceBindingConfig \<Rightarrow> string \<times> string \<times> string" where
  "binding_key b = (bi_deviceName b, bi_registerName b, bi_name b)"

definition bindings_of ::
  "((string \<times> string) list \<Rightarrow> (string \<times> string) list) \<Rightarrow> string \<times> (string, string) gomap \<Rightarrow>
     GensetDeviceBindingConfig list" where
  "bindings_of it2 = (\<lambda>(deviceName, m).
     map (\<lambda>(registerName, nm). \<lparr>bi_name = nm, bi_deviceName = deviceName,
       bi_registerName = registerName\<rparr>) (it2 m))"

text \<open>Both loops run over a map; the comparison tells any two bindings apart, so the sort has
  one result.\<close>

definition bindings_transform ::
  "((string \<times> (string, string) gomap) list \<Rightarrow> (string \<times> (string, string) gomap) list) \<Rightarrow>
     ((string \<times> string) list \<Rightarrow> (string \<times> string) list) \<Rightarrow>
     gensetDeviceBindingConfigRead \<Rightarrow> DeviceConfig list \<Rightarrow> GensetDeviceBindingConfig list checked" where
  "bindings_transform it it2 c devices =
     (sort_key binding_key (concat (map (bindings_of it2) (it c))),
      concat (map (\<lambda>(deviceName, _). check (\<not> existsByName cd_name deviceName devices)
        ([], NotDefined deviceName)) (it c)))"

lemma inj_binding_key: "inj binding_key"
proof (rule injI)
  fix a b :: GensetDeviceBindingConfig
  assume "binding_key a = binding_key b"
  then show "a = b" by (cases a; cases b) (simp add: binding_key_def)
qed

lemma sort_key_inj_cong:
  assumes "mset xs = mset ys"
  shows "sort_key binding_key xs = sort_key binding_key ys"
proof -
  have "sort (map binding_key xs) = map binding_key (sort_key binding_key zs)"
    if "mset zs = mset xs" for zs
    by (rule properties_for_sort) (simp_all add: that mset_map)
  from this [of xs] this [of ys] show ?thesis
    using assms inj_binding_key by (simp add: inj_map_eq_map)
qed

lemma mset_bindings_of: "iter_order it2 \<Longrightarrow> mset (bindings_of it2 p) = mset (bindings_of id p)"
  by (simp add: bindings_of_def case_prod_beta iter_order_mset)

lemma mset_concat_map_cong:
  "mset xs = mset ys \<Longrightarrow> (\<And>x. mset (f x) = mset (g x)) \<Longrightarrow>
     mset (concat (map f xs)) = mset (concat (map g ys))"
  by (simp add: mset_concat comp_def sum_mset_sum_list [symmetric])

lemma bindings_transform_order:
  assumes "iter_order it" "iter_order it2"
  shows "fst (bindings_transform it it2 c devices) = fst (bindings_transform id id c devices)"
    and "set (snd (bindings_transform it it2 c devices)) = set (snd (bindings_transform id id c devices))"
proof -
  let ?xs = "concat (map (bindings_of it2) (it c))" and ?ys = "concat (map (bindings_of id) c)"
  have "mset ?xs = mset ?ys"
    by (rule mset_concat_map_cong) (simp_all add: assms iter_order_mset mset_bindings_of)
  moreover from this have "sort_key binding_key ?xs = sort_key binding_key ?ys"
    by (rule sort_key_inj_cong)
  ultimately show "fst (bindings_transform it it2 c devices) = fst (bindings_transform id id c devices)"
    by (simp add: bindings_transform_def)
  show "set (snd (bindings_transform it it2 c devices)) = set (snd (bindings_transform id id c devices))"
    by (simp add: bindings_transform_def iter_order_set [OF assms(1)])
qed

section \<open>The section\<close>

record gensetDeviceConfigRead =
  er_device :: deviceConfigRead
  er_InputBindings :: gensetDeviceBindingConfigRead
  er_OutputBindings :: gensetDeviceBindingConfigRead
  er_PrimingTimeout :: string
  er_CrankingTimeout :: string
  er_WarmUpTimeout :: string
  er_WarmUpMinTime :: string
  er_WarmUpTemp :: "f64 option"
  er_EngineCoolDownTimeout :: string
  er_EngineCoolDownMinTime :: string
  er_EngineCoolDownTemp :: "f64 option"
  er_EnclosureCoolDownTimeout :: string
  er_EnclosureCoolDownMinTime :: string
  er_EnclosureCoolDownTemp :: "f64 option"
  er_EngineTempMin :: "f64 option"
  er_EngineTempMax :: "f64 option"
  er_AuxTemp0Min :: "f64 option"
  er_AuxTemp0Max :: "f64 option"
  er_AuxTemp1Min :: "f64 option"
  er_AuxTemp1Max :: "f64 option"
  er_SinglePhase :: "bool option"
  er_UMin :: "f64 option"
  er_UMax :: "f64 option"
  er_FMin :: "f64 option"
  er_FMax :: "f64 option"
  er_PMax :: "f64 option"
  er_PTotMax :: "f64 option"

record GensetDeviceConfig =
  ed_DeviceConfig :: DeviceConfig
  ed_inputBindings :: "GensetDeviceBindingConfig list"
  ed_outputBindings :: "GensetDeviceBindingConfig list"
  ed_params :: Params

text \<open>The zero value of the parameters; the three functions below fill them in the order of
  the code.\<close>

definition zero_Params :: Params where
  "zero_Params = \<lparr>PrimingTimeout = 0, CrankingTimeout = 0, WarmUpTimeout = 0, WarmUpMinTime = 0,
     WarmUpTemp = F_Fin 0, EngineCoolDownTimeout = 0, EngineCoolDownMinTime = 0,
     EngineCoolDownTemp = F_Fin 0, EnclosureCoolDownTimeout = 0, EnclosureCoolDownMinTime = 0,
     EnclosureCoolDownTemp = F_Fin 0, EngineTempMin = F_Fin 0, EngineTempMax = F_Fin 0,
     AuxTemp0Min = F_Fin 0, AuxTemp0Max = F_Fin 0, AuxTemp1Min = F_Fin 0, AuxTemp1Max = F_Fin 0,
     SinglePhase = False, UMin = F_Fin 0, UMax = F_Fin 0, FMin = F_Fin 0, FMax = F_Fin 0,
     PMax = F_Fin 0, PTotMax = F_Fin 0\<rparr>"

text \<open>A minimal time and its timeout: both have a default, and the first must not exceed the
  second.\<close>

definition timing_pair ::
  "string list \<Rightarrow> string \<Rightarrow> string \<Rightarrow> duration \<Rightarrow> string \<Rightarrow> string \<Rightarrow> duration \<Rightarrow> (duration \<times> duration) checked" where
  "timing_pair p fieldT timeoutStr dfltT fieldM minStr dfltM =
     (let (timeout, e1) = any_duration_field (p @ [fieldT]) timeoutStr dfltT;
          (minTime, e2) = any_duration_field (p @ [fieldM]) minStr dfltM
      in ((timeout, minTime),
          e1 @ e2 @ check (minTime > timeout) (p @ [fieldM], DurationAbove minStr timeoutStr)))"

definition genset_transitions :: "string list \<Rightarrow> gensetDeviceConfigRead \<Rightarrow> Params \<Rightarrow> Params checked" where
  "genset_transitions p c ret =
     (let (priming, e1) = any_duration_field (p @ [''PrimingTimeout'']) (er_PrimingTimeout c) (10 * second);
          (cranking, e2) = any_duration_field (p @ [''CrankingTimeout'']) (er_CrankingTimeout c) (10 * second);
          ((warmUpTimeout, warmUpMinTime), e3) = timing_pair p
            ''WarmUpTimeout'' (er_WarmUpTimeout c) (10 * minute)
            ''WarmUpMinTime'' (er_WarmUpMinTime c) (2 * minute);
          ((engineTimeout, engineMinTime), e4) = timing_pair p
            ''EngineCoolDownTimeout'' (er_EngineCoolDownTimeout c) (5 * minute)
            ''EngineCoolDownMinTime'' (er_EngineCoolDownMinTime c) (2 * minute);
          ((enclosureTimeout, enclosureMinTime), e5) = timing_pair p
            ''EnclosureCoolDownTimeout'' (er_EnclosureCoolDownTimeout c) (10 * minute)
            ''EnclosureCoolDownMinTime'' (er_EnclosureCoolDownMinTime c) (2 * minute)
      in (ret\<lparr>PrimingTimeout := priming, CrankingTimeout := cranking,
            WarmUpTimeout := warmUpTimeout, WarmUpMinTime := warmUpMinTime,
            WarmUpTemp := or_default (er_WarmUpTemp c) (F_Fin 50),
            EngineCoolDownTimeout := engineTimeout, EngineCoolDownMinTime := engineMinTime,
            EngineCoolDownTemp := or_default (er_EngineCoolDownTemp c) (F_Fin 70),
            EnclosureCoolDownTimeout := enclosureTimeout, EnclosureCoolDownMinTime := enclosureMinTime,
            EnclosureCoolDownTemp := or_default (er_EnclosureCoolDownTemp c) (F_Fin 30)\<rparr>,
          e1 @ e2 @ e3 @ e4 @ e5))"

definition genset_io_limits :: "gensetDeviceConfigRead \<Rightarrow> Params \<Rightarrow> Params" where
  "genset_io_limits c ret =
     ret\<lparr>EngineTempMin := or_default (er_EngineTempMin c) (F_Fin (- 20)),
       EngineTempMax := or_default (er_EngineTempMax c) (F_Fin 90),
       AuxTemp0Min := or_default (er_AuxTemp0Min c) (F_Fin (- 20)),
       AuxTemp0Max := or_default (er_AuxTemp0Max c) (F_Fin 120),
       AuxTemp1Min := or_default (er_AuxTemp1Min c) (F_Fin (- 20)),
       AuxTemp1Max := or_default (er_AuxTemp1Max c) (F_Fin 120)\<rparr>"

definition genset_output_limits :: "string list \<Rightarrow> gensetDeviceConfigRead \<Rightarrow> Params \<Rightarrow> Params checked" where
  "genset_output_limits p c ret =
     (let (umin, e1) = nonneg_field (p @ [''UMin'']) (er_UMin c) (F_Fin 220);
          (umax, e2) = nonneg_field (p @ [''UMax'']) (er_UMax c) (F_Fin 240);
          (fmin, e3) = nonneg_field (p @ [''FMin'']) (er_FMin c) (F_Fin 45);
          (fmax, e4) = nonneg_field (p @ [''FMax'']) (er_FMax c) (F_Fin 55);
          (pmax, e5) = nonneg_field (p @ [''PMax'']) (er_PMax c) (F_Fin 1000000);
          (ptot, e6) = nonneg_field (p @ [''PTotMax'']) (er_PTotMax c) (F_Fin 1000000)
      in (ret\<lparr>SinglePhase := or_default (er_SinglePhase c) False, UMin := umin, UMax := umax,
            FMin := fmin, FMax := fmax, PMax := pmax, PTotMax := ptot\<rparr>,
          e1 @ e2 @ e3 @ e4 @ e5 @ e6))"

definition genset_transform ::
  "((string \<times> (string, string) gomap) list \<Rightarrow> (string \<times> (string, string) gomap) list) \<Rightarrow>
     ((string \<times> string) list \<Rightarrow> (string \<times> string) list) \<Rightarrow>
     gensetDeviceConfigRead \<Rightarrow> string \<Rightarrow> DeviceConfig list \<Rightarrow> GensetDeviceConfig checked" where
  "genset_transform it it2 c nm devices =
     (let p = [''GensetDevices'', nm];
          (dev, e1) = device_transform (er_device c) nm;
          (inputBindings, e2) = bindings_transform it it2 (er_InputBindings c) devices;
          (outputBindings, e3) = bindings_transform it it2 (er_OutputBindings c) devices;
          (params, e4) = genset_transitions p c zero_Params;
          (params, e5) = genset_output_limits p c (genset_io_limits c params)
      in (\<lparr>ed_DeviceConfig = dev, ed_inputBindings = inputBindings,
           ed_outputBindings = outputBindings, ed_params = params\<rparr>,
          e1 @ e2 @ e3 @ e4 @ e5))"

section \<open>What a section without errors satisfies\<close>

definition genset_ok :: "DeviceConfig list \<Rightarrow> GensetDeviceConfig \<Rightarrow> bool" where
  "genset_ok devices d \<longleftrightarrow> device_ok (ed_DeviceConfig d) \<and>
     list_all (\<lambda>b. existsByName cd_name (bi_deviceName b) devices)
       (ed_inputBindings d @ ed_outputBindings d) \<and>
     WarmUpMinTime (ed_params d) \<le> WarmUpTimeout (ed_params d) \<and>
     EngineCoolDownMinTime (ed_params d) \<le> EngineCoolDownTimeout (ed_params d) \<and>
     EnclosureCoolDownMinTime (ed_params d) \<le> EnclosureCoolDownTimeout (ed_params d) \<and>
     list_all (\<lambda>x. \<not> f64_lt x (F_Fin 0))
       [UMin (ed_params d), UMax (ed_params d), FMin (ed_params d), FMax (ed_params d),
        PMax (ed_params d), PTotMax (ed_params d)]"

lemma genset_name [simp]: "cd_name (ed_DeviceConfig (fst (genset_transform it it2 c nm devs))) = nm"
  by (simp add: genset_transform_def Let_def case_prod_beta)

lemma timing_pair_ok:
  "snd (timing_pair p f s d f' s' d') = [] \<Longrightarrow>
     snd (fst (timing_pair p f s d f' s' d')) \<le> fst (fst (timing_pair p f s d f' s' d'))"
  by (simp add: timing_pair_def Let_def case_prod_beta not_less)

lemma bindings_transform_ok:
  assumes "iter_order it" "iter_order it2" "snd (bindings_transform it it2 c devices) = []"
  shows "list_all (\<lambda>b. existsByName cd_name (bi_deviceName b) devices)
      (fst (bindings_transform it it2 c devices))"
proof -
  have "existsByName cd_name d devices" if "(d, m) \<in> set c" for d m
    using assms(3) that by (auto simp: bindings_transform_def iter_order_set [OF assms(1)])
  then show ?thesis
    by (auto simp: bindings_transform_def list_all_iff bindings_of_def iter_order_set [OF assms(1)])
qed

lemma genset_transform_ok:
  assumes "iter_order it" "iter_order it2" "snd (genset_transform it it2 c nm devices) = []"
  shows "genset_ok devices (fst (genset_transform it it2 c nm devices))"
proof -
  have zero: "\<not> f64_lt (F_Fin q) (F_Fin 0)" if "0 \<le> q" for q
    using that by (simp add: f64_lt_def)
  show ?thesis
    using assms(3) bindings_transform_ok [OF assms(1,2)]
    by (simp add: genset_transform_def genset_ok_def genset_transitions_def genset_io_limits_def
        genset_output_limits_def zero_Params_def Let_def case_prod_beta device_transform_ok
        timing_pair_ok nonneg_field_bound zero)
qed

end
