(* ===== verification/Genset_Proofs.thy ===== *)
theory Genset_Proofs
  imports Genset
begin

text \<open>
  What the genset controller guarantees: its transitions, that eight iterations always settle,
  that a settled controller closes the load contactor only when it is safe, the time limits of
  each state and the latch of the error state.
\<close>

section \<open>Transitions\<close>

text \<open>The transition diagram, without the transitions to \<open>Reset\<close>, which every state has.\<close>

inductive genset_edge :: "StateNode \<Rightarrow> StateNode \<Rightarrow> bool" where
  "genset_edge Reset Off"
| "genset_edge Off Ready"
| "genset_edge Ready Priming"
| "genset_edge Priming Ready"
| "genset_edge Priming Cranking"
| "genset_edge Cranking Ready"
| "genset_edge Cranking WarmUp"
| "genset_edge WarmUp EnclosureCoolDown"
| "genset_edge WarmUp Producing"
| "genset_edge Producing EngineCoolDown"
| "genset_edge EngineCoolDown Producing"
| "genset_edge EngineCoolDown EnclosureCoolDown"
| "genset_edge EnclosureCoolDown Priming"
| "genset_edge EnclosureCoolDown Ready"
| "n \<notin> {Error, Reset, Off} \<Longrightarrow> genset_edge n Error"
| "n \<noteq> Reset \<Longrightarrow> genset_edge n Reset"

code_pred genset_edge .

inductive_simps genset_edge_simps [simp]:
  "genset_edge n Error" "genset_edge n Reset" "genset_edge n Off" "genset_edge n Ready"
  "genset_edge n Priming" "genset_edge n Cranking" "genset_edge n WarmUp" "genset_edge n Producing"
  "genset_edge n EngineCoolDown" "genset_edge n EnclosureCoolDown"

definition masterSwitch :: "Inputs \<Rightarrow> bool" where
  "masterSwitch i \<longleftrightarrow> ArmSwitch i \<and> CommandSwitch i"

text \<open>The step, node by node.\<close>

lemma step_at:
  "computeStateNode p i \<lparr>Node = Error, Changed = c\<rparr> = (if ResetSwitch i then Reset else Error)"
  "computeStateNode p i \<lparr>Node = Reset, Changed = c\<rparr> =
     (if ResetSwitch i \<or> masterSwitch i then Reset else Off)"
  "computeStateNode p i \<lparr>Node = Off, Changed = c\<rparr> =
     (if ResetSwitch i then Reset else if IOAvailable i then Ready else Off)"
  "computeStateNode p i \<lparr>Node = Ready, Changed = c\<rparr> =
     (if ResetSwitch i then Reset else if \<not> ioCheck p i then Error
      else if masterSwitch i then Priming else Ready)"
  "computeStateNode p i \<lparr>Node = Priming, Changed = c\<rparr> =
     (if ResetSwitch i then Reset else if \<not> ioCheck p i then Error
      else if \<not> masterSwitch i then Ready
      else if PrimingTimeout p \<le> time_sub (Time i) c then Cranking else Priming)"
  "computeStateNode p i \<lparr>Node = Cranking, Changed = c\<rparr> =
     (if ResetSwitch i then Reset else if \<not> ioCheck p i then Error
      else if \<not> masterSwitch i then Ready
      else if CrankingTimeout p \<le> time_sub (Time i) c then Error
      else if outputCheck p i then WarmUp else Cranking)"
  "computeStateNode p i \<lparr>Node = WarmUp, Changed = c\<rparr> =
     (if ResetSwitch i then Reset else if \<not> ioCheck p i \<or> \<not> outputCheck p i then Error
      else if \<not> masterSwitch i then EnclosureCoolDown
      else if WarmUpMinTime p \<le> time_sub (Time i) c \<and>
        (WarmUpTimeout p \<le> time_sub (Time i) c \<or> f64_ge (EngineTemp i) (WarmUpTemp p))
      then Producing else WarmUp)"
  "computeStateNode p i \<lparr>Node = Producing, Changed = c\<rparr> =
     (if ResetSwitch i then Reset else if \<not> ioCheck p i \<or> \<not> outputCheck p i then Error
      else if \<not> masterSwitch i then EngineCoolDown else Producing)"
  "computeStateNode p i \<lparr>Node = EngineCoolDown, Changed = c\<rparr> =
     (if ResetSwitch i then Reset else if \<not> ioCheck p i \<or> \<not> outputCheck p i then Error
      else if masterSwitch i then Producing
      else if EngineCoolDownMinTime p \<le> time_sub (Time i) c \<and>
        (EngineCoolDownTimeout p \<le> time_sub (Time i) c \<or>
         f64_le (EngineTemp i) (EngineCoolDownTemp p))
      then EnclosureCoolDown else EngineCoolDown)"
  "computeStateNode p i \<lparr>Node = EnclosureCoolDown, Changed = c\<rparr> =
     (if ResetSwitch i then Reset else if \<not> ioCheck p i then Error
      else if masterSwitch i then Priming
      else if EnclosureCoolDownMinTime p \<le> time_sub (Time i) c \<and>
        (EnclosureCoolDownTimeout p \<le> time_sub (Time i) c \<or>
         f64_le (EngineTemp i) (EnclosureCoolDownTemp p))
      then Ready else EnclosureCoolDown)"
  by (simp_all add: computeStateNode_def masterSwitch_def Let_def)

lemma State_cases:
  obtains n c where "s = \<lparr>Node = n, Changed = c\<rparr>"
  by (cases s) auto

lemma computeStateNode_edge:
  assumes "computeStateNode p i s \<noteq> Node s"
  shows "genset_edge (Node s) (computeStateNode p i s)"
proof -
  obtain n c where s: "s = \<lparr>Node = n, Changed = c\<rparr>"
    by (rule State_cases)
  show ?thesis
    using assms unfolding s by (cases n) (auto simp: step_at split: if_splits)
qed

lemma computeStateNode_reset: "ResetSwitch i \<Longrightarrow> computeStateNode p i s = Reset"
  by (simp add: computeStateNode_def)

lemma computeStateNode_io:
  "\<not> ResetSwitch i \<Longrightarrow> Node s \<notin> {Reset, Off, Error} \<Longrightarrow> \<not> ioCheck p i \<Longrightarrow> computeStateNode p i s = Error"
  by (simp add: computeStateNode_def)

text \<open>The nodes at which a step stays, by node.\<close>

lemma stays:
  assumes "computeStateNode p i s = Node s"
  shows "Node s \<notin> {Error, Reset, Off} \<Longrightarrow> \<not> ResetSwitch i \<and> ioCheck p i"
    and "Node s \<in> {WarmUp, Producing, EngineCoolDown} \<Longrightarrow> outputCheck p i"
    and "Node s \<in> {Priming, Cranking, WarmUp, Producing} \<Longrightarrow> masterSwitch i"
    and "Node s \<in> {Ready, EngineCoolDown, EnclosureCoolDown} \<Longrightarrow> \<not> masterSwitch i"
    and "Node s = Cranking \<Longrightarrow> \<not> outputCheck p i"
proof -
  obtain n c where s: "s = \<lparr>Node = n, Changed = c\<rparr>"
    by (rule State_cases)
  note eq = assms [unfolded s]
  show "Node s \<notin> {Error, Reset, Off} \<Longrightarrow> \<not> ResetSwitch i \<and> ioCheck p i"
    using eq by (cases n) (simp_all add: s step_at split: if_splits)
  show "Node s \<in> {WarmUp, Producing, EngineCoolDown} \<Longrightarrow> outputCheck p i"
    using eq by (cases n) (simp_all add: s step_at split: if_splits)
  show "Node s \<in> {Priming, Cranking, WarmUp, Producing} \<Longrightarrow> masterSwitch i"
    using eq by (cases n) (simp_all add: s step_at split: if_splits)
  show "Node s \<in> {Ready, EngineCoolDown, EnclosureCoolDown} \<Longrightarrow> \<not> masterSwitch i"
    using eq by (cases n) (simp_all add: s step_at split: if_splits)
  show "Node s = Cranking \<Longrightarrow> \<not> outputCheck p i"
    using eq by (cases n) (simp_all add: s step_at split: if_splits)
qed

lemma stays_time:
  assumes "computeStateNode p i s = Node s"
  shows "Node s = Priming \<Longrightarrow> time_sub (Time i) (Changed s) < PrimingTimeout p"
    and "Node s = Cranking \<Longrightarrow> time_sub (Time i) (Changed s) < CrankingTimeout p"
    and "Node s = WarmUp \<Longrightarrow>
      time_sub (Time i) (Changed s) < max (WarmUpMinTime p) (WarmUpTimeout p)"
    and "Node s = EngineCoolDown \<Longrightarrow>
      time_sub (Time i) (Changed s) < max (EngineCoolDownMinTime p) (EngineCoolDownTimeout p)"
    and "Node s = EnclosureCoolDown \<Longrightarrow>
      time_sub (Time i) (Changed s) < max (EnclosureCoolDownMinTime p) (EnclosureCoolDownTimeout p)"
proof -
  obtain n c where s: "s = \<lparr>Node = n, Changed = c\<rparr>"
    by (rule State_cases)
  note eq = assms [unfolded s]
  show "Node s = Priming \<Longrightarrow> time_sub (Time i) (Changed s) < PrimingTimeout p"
    using eq by (simp add: s step_at split: if_splits)
  show "Node s = Cranking \<Longrightarrow> time_sub (Time i) (Changed s) < CrankingTimeout p"
    using eq by (simp add: s step_at split: if_splits)
  show "Node s = WarmUp \<Longrightarrow>
      time_sub (Time i) (Changed s) < max (WarmUpMinTime p) (WarmUpTimeout p)"
    using eq by (auto simp: s step_at split: if_splits)
  show "Node s = EngineCoolDown \<Longrightarrow>
      time_sub (Time i) (Changed s) < max (EngineCoolDownMinTime p) (EngineCoolDownTimeout p)"
    using eq by (auto simp: s step_at split: if_splits)
  show "Node s = EnclosureCoolDown \<Longrightarrow>
      time_sub (Time i) (Changed s) < max (EnclosureCoolDownMinTime p) (EnclosureCoolDownTimeout p)"
    using eq by (auto simp: s step_at split: if_splits)
qed

section \<open>Eight iterations are enough\<close>

text \<open>
  With the inputs fixed every transition strictly lowers this rank, which is at most six: the
  longest run goes from \<open>Off\<close> to \<open>Producing\<close> and one more step finds nothing to do.
\<close>

fun rank_on :: "StateNode \<Rightarrow> nat" where
  "rank_on Error = 0"
| "rank_on Reset = 0"
| "rank_on Producing = 1"
| "rank_on WarmUp = 2"
| "rank_on EngineCoolDown = 2"
| "rank_on Cranking = 3"
| "rank_on Priming = 4"
| "rank_on Ready = 5"
| "rank_on EnclosureCoolDown = 5"
| "rank_on Off = 6"

fun rank_off :: "StateNode \<Rightarrow> nat" where
  "rank_off Error = 0"
| "rank_off Ready = 1"
| "rank_off Priming = 2"
| "rank_off Cranking = 2"
| "rank_off Off = 2"
| "rank_off EnclosureCoolDown = 2"
| "rank_off Reset = 3"
| "rank_off EngineCoolDown = 3"
| "rank_off WarmUp = 3"
| "rank_off Producing = 4"

definition rank :: "Inputs \<Rightarrow> StateNode \<Rightarrow> nat" where
  "rank i n = (if ResetSwitch i then (if n = Reset then 0 else 1)
     else if masterSwitch i then rank_on n else rank_off n)"

lemma rank_bound: "rank i n \<le> 6"
  by (cases n) (simp_all add: rank_def)

lemma rank_decreases:
  assumes "computeStateNode p i s \<noteq> Node s"
  shows "rank i (computeStateNode p i s) < rank i (Node s)"
proof -
  obtain n c where s: "s = \<lparr>Node = n, Changed = c\<rparr>"
    by (rule State_cases)
  show ?thesis
    using assms unfolding s by (cases n) (auto simp: step_at rank_def split: if_splits)
qed

lemma computeState_fix: "computeState p i s = s \<longleftrightarrow> computeStateNode p i s = Node s"
  by (cases s) (auto simp: computeState_def Let_def)

lemma Node_computeState [simp]: "Node (computeState p i s) = computeStateNode p i s"
  by (simp add: computeState_def Let_def)

lemma Changed_computeState:
  "Changed (computeState p i s) = (if computeStateNode p i s = Node s then Changed s else Time i)"
  by (simp add: computeState_def Let_def)

definition settled_state :: "Params \<Rightarrow> Inputs \<Rightarrow> State \<Rightarrow> bool" where
  "settled_state p i s \<longleftrightarrow> computeState p i s = s"

lemma compute_loop_settles:
  "rank i (Node s) \<le> n \<Longrightarrow> settled_state p i (fst (compute_loop n p i s))"
proof (induction n arbitrary: s)
  case 0
  then have "computeStateNode p i s = Node s"
    using rank_decreases [of p i s] by fastforce
  then show ?case by (simp add: settled_state_def computeState_fix)
next
  case (Suc n)
  show ?case
  proof (cases "computeState p i s = s")
    case False
    then have "rank i (Node (computeState p i s)) < rank i (Node s)"
      using rank_decreases [of p i s] by (simp add: computeState_fix)
    with Suc False show ?thesis
      by (simp add: Let_def case_prod_beta)
  qed (simp add: settled_state_def)
qed

lemma compute_loop_more:
  "rank i (Node s) \<le> n \<Longrightarrow> compute_loop (n + k) p i s = compute_loop n p i s"
proof (induction n arbitrary: s)
  case 0
  then have "computeState p i s = s"
    using rank_decreases [of p i s] by (fastforce simp: computeState_fix)
  then show ?case by (cases k) simp_all
next
  case (Suc n)
  show ?case
  proof (cases "computeState p i s = s")
    case False
    then have "rank i (Node (computeState p i s)) < rank i (Node s)"
      using rank_decreases [of p i s] by (simp add: computeState_fix)
    with Suc False show ?thesis
      by (simp add: Let_def case_prod_beta)
  qed simp
qed

lemma compute_loop_length: "length (snd (compute_loop n p i s)) \<le> rank i (Node s)"
proof (induction n arbitrary: s)
  case (Suc n)
  show ?case
  proof (cases "computeState p i s = s")
    case False
    then have "rank i (Node (computeState p i s)) < rank i (Node s)"
      using rank_decreases [of p i s] by (simp add: computeState_fix)
    with Suc.IH [of "computeState p i s"] False show ?thesis
      by (simp add: Let_def case_prod_beta)
  qed simp
qed simp

lemma compute_loop_last:
  "last (s # snd (compute_loop n p i s)) = fst (compute_loop n p i s)"
proof (induction n arbitrary: s)
  case (Suc n)
  show ?case
    using Suc.IH [of "computeState p i s"] by (simp add: Let_def case_prod_beta)
qed simp

text \<open>Consecutive states of the loop follow the diagram, and each is entered at the input's time.\<close>

fun edge_path :: "StateNode list \<Rightarrow> bool" where
  "edge_path (a # b # ns) \<longleftrightarrow> genset_edge a b \<and> edge_path (b # ns)"
| "edge_path _ \<longleftrightarrow> True"

lemma edge_path_append:
  "edge_path (xs @ [a]) \<Longrightarrow> edge_path (a # ys) \<Longrightarrow> edge_path (xs @ a # ys)"
  by (induction xs rule: edge_path.induct) auto

lemma compute_loop_path: "edge_path (map Node (s # snd (compute_loop n p i s)))"
proof (induction n arbitrary: s)
  case (Suc n)
  show ?case
    using Suc.IH [of "computeState p i s"] computeStateNode_edge [of p i s]
    by (auto simp: Let_def case_prod_beta computeState_fix)
qed simp

lemma compute_loop_times: "\<forall>t \<in> set (snd (compute_loop n p i s)). Changed t = Time i"
proof (induction n arbitrary: s)
  case (Suc n)
  show ?case
    using Suc.IH [of "computeState p i s"]
    by (auto simp: Let_def case_prod_beta computeState_fix Changed_computeState)
qed simp

section \<open>The settled controller\<close>

definition settled :: "Controller \<Rightarrow> bool" where
  "settled c \<longleftrightarrow>
     settled_state (ctl_params c) (ctl_inputs c) (ctl_state c) \<and>
     ctl_outputs c = computeOutputs (ctl_params c) (ctl_inputs c) (ctl_state c)"

lemma ctl_compute_state:
  "ctl_state (fst (ctl_compute c)) =
     fst (compute_loop max_iterations (ctl_params c) (ctl_inputs c) (ctl_state c))"
  by (simp add: ctl_compute_def Let_def case_prod_beta)

lemma ctl_compute_frame [step_frames]:
  "ctl_params (fst (ctl_compute c)) = ctl_params c"
  "ctl_inputs (fst (ctl_compute c)) = ctl_inputs c"
  "onState (fst (ctl_compute c)) = onState c"
  "onOutput (fst (ctl_compute c)) = onOutput c"
  by (simp_all add: ctl_compute_def Let_def case_prod_beta)

lemma settled_compute: "settled (fst (ctl_compute c))"
proof -
  have "settled_state (ctl_params c) (ctl_inputs c) (ctl_state (fst (ctl_compute c)))"
    using rank_bound [of "ctl_inputs c" "Node (ctl_state c)"]
    by (simp add: ctl_compute_state max_iterations_def compute_loop_settles)
  moreover have "ctl_outputs (fst (ctl_compute c)) =
      computeOutputs (ctl_params c) (ctl_inputs c) (ctl_state (fst (ctl_compute c)))"
    by (simp add: ctl_compute_def Let_def case_prod_beta)
  ultimately show ?thesis
    by (simp add: settled_def step_frames)
qed

lemma settled_handle_change: "settled c \<Longrightarrow> settled (fst (handle_change ch c))"
  by (simp add: handle_change_def Let_def case_prod_beta settled_compute)

lemma settled_handle_changes: "settled c \<Longrightarrow> settled (fst (handle_changes chs c))"
  by (induction chs arbitrary: c) (simp_all add: Let_def case_prod_beta settled_handle_change)

lemma settled_Run: "settled (fst (ctl_Run chs c))"
  by (simp add: ctl_Run_def ctl_start_def Let_def case_prod_beta settled_handle_changes settled_compute)

lemma settled_node:
  "settled c \<Longrightarrow>
     computeStateNode (ctl_params c) (ctl_inputs c) (ctl_state c) = Node (ctl_state c)"
  by (simp add: settled_def settled_state_def computeState_fix)

text \<open>The states a run tells its callback, with the initial one.\<close>

definition state_events :: "ctl_event list \<Rightarrow> State list" where
  "state_events evs = List.map_filter (\<lambda>e. case e of OnStateUpdate s \<Rightarrow> Some s | _ \<Rightarrow> None) evs"

definition output_events :: "ctl_event list \<Rightarrow> Outputs list" where
  "output_events evs = List.map_filter (\<lambda>e. case e of OnOutputUpdate o' \<Rightarrow> Some o' | _ \<Rightarrow> None) evs"

lemma state_events_simps [simp]:
  "state_events [] = []"
  "state_events (xs @ ys) = state_events xs @ state_events ys"
  "state_events (OnStateUpdate s # xs) = s # state_events xs"
  "state_events (OnOutputUpdate o' # xs) = state_events xs"
  "state_events (ChangeDone # xs) = state_events xs"
  "state_events (map OnStateUpdate ss) = ss"
  by (simp_all add: state_events_def map_filter_def comp_def)

lemma output_events_simps [simp]:
  "output_events [] = []"
  "output_events (xs @ ys) = output_events xs @ output_events ys"
  "output_events (OnStateUpdate s # xs) = output_events xs"
  "output_events (OnOutputUpdate o' # xs) = o' # output_events xs"
  "output_events (ChangeDone # xs) = output_events xs"
  "output_events (map OnStateUpdate ss) = []"
  by (simp_all add: output_events_def map_filter_def comp_def)

lemma compute_state_events:
  "onState c \<Longrightarrow> state_events (snd (ctl_compute c)) =
     snd (compute_loop max_iterations (ctl_params c) (ctl_inputs c) (ctl_state c))"
  by (simp add: ctl_compute_def Let_def case_prod_beta)

lemma compute_path:
  "onState c \<Longrightarrow>
     edge_path (map Node (ctl_state c # state_events (snd (ctl_compute c)))) \<and>
     last (ctl_state c # state_events (snd (ctl_compute c))) = ctl_state (fst (ctl_compute c))"
  using compute_loop_path compute_loop_last
  by (simp only: compute_state_events ctl_compute_state)

lemma compute_outputs:
  "onOutput c \<Longrightarrow>
     last (ctl_outputs c # output_events (snd (ctl_compute c))) = ctl_outputs (fst (ctl_compute c))"
  by (simp add: ctl_compute_def Let_def case_prod_beta)

lemma edge_path_last:
  "edge_path (map f (a # xs)) \<Longrightarrow> edge_path (map f (last (a # xs) # ys)) \<Longrightarrow>
     edge_path (map f (a # xs @ ys))"
proof (induction xs arbitrary: a)
  case (Cons x xs)
  then show ?case by (auto split: if_splits)
qed simp

lemma last_append_last: "last (a # xs @ ys) = last (last (a # xs) # ys)"
  by (induction xs arbitrary: a) auto

lemma handle_change_path:
  assumes "onState c"
  shows "edge_path (map Node (ctl_state c # state_events (snd (handle_change ch c)))) \<and>
     last (ctl_state c # state_events (snd (handle_change ch c))) = ctl_state (fst (handle_change ch c)) \<and>
     onState (fst (handle_change ch c))"
  using assms compute_path [of "c\<lparr>ctl_inputs := chg_f ch (ctl_inputs c)\<rparr>"]
  by (auto simp: handle_change_def Let_def case_prod_beta step_frames split: if_splits)

lemma handle_changes_path:
  assumes "onState c"
  shows "edge_path (map Node (ctl_state c # state_events (snd (handle_changes chs c)))) \<and>
     last (ctl_state c # state_events (snd (handle_changes chs c))) = ctl_state (fst (handle_changes chs c))"
  using assms
proof (induction chs arbitrary: c)
  case (Cons ch chs)
  let ?c = "fst (handle_change ch c)"
  let ?e1 = "state_events (snd (handle_change ch c))" and ?e2 = "state_events (snd (handle_changes chs ?c))"
  from handle_change_path [OF Cons.prems, of ch]
  have p1: "edge_path (map Node (ctl_state c # ?e1))" and l1: "last (ctl_state c # ?e1) = ctl_state ?c"
    and on: "onState ?c" by blast+
  from Cons.IH [OF on] have p2: "edge_path (map Node (ctl_state ?c # ?e2))"
    and l2: "last (ctl_state ?c # ?e2) = ctl_state (fst (handle_changes chs ?c))" by blast+
  have "edge_path (map Node (ctl_state c # ?e1 @ ?e2))"
    using p1 p2 l1 by (intro edge_path_last) simp_all
  moreover have "last (ctl_state c # ?e1 @ ?e2) = ctl_state (fst (handle_changes chs ?c))"
    unfolding last_append_last l1 l2 ..
  ultimately show ?case
    by (simp add: Let_def case_prod_beta)
qed simp

lemma ctl_Run_path:
  assumes "onState c"
  shows "\<exists>evs. state_events (snd (ctl_Run chs c)) = ctl_state c # evs \<and>
    edge_path (map Node (ctl_state c # evs)) \<and>
    last (ctl_state c # evs) = ctl_state (fst (ctl_Run chs c))"
proof -
  let ?c = "fst (ctl_compute c)"
  let ?e1 = "state_events (snd (ctl_compute c))" and ?e2 = "state_events (snd (handle_changes chs ?c))"
  have on: "onState ?c"
    using assms by (simp add: step_frames)
  have evs: "state_events (snd (ctl_Run chs c)) = ctl_state c # ?e1 @ ?e2"
    using assms by (simp add: ctl_Run_def ctl_start_def Let_def case_prod_beta)
  have final: "fst (ctl_Run chs c) = fst (handle_changes chs ?c)"
    by (simp add: ctl_Run_def ctl_start_def Let_def case_prod_beta)
  note p1 = compute_path [OF assms] and p2 = handle_changes_path [OF on, of chs]
  have "edge_path (map Node (ctl_state c # ?e1 @ ?e2))"
    using p1 p2 by (intro edge_path_last) simp_all
  moreover have "last (ctl_state c # ?e1 @ ?e2) = ctl_state (fst (handle_changes chs ?c))"
    unfolding last_append_last using p1 p2 by simp
  ultimately show ?thesis
    using evs final by metis
qed

text \<open>A change moves the time of the last state change only when the state changes.\<close>

lemma compute_loop_changed:
  "fst (compute_loop n p i s) = s \<or> Changed (fst (compute_loop n p i s)) = Time i"
proof (cases "snd (compute_loop n p i s)")
  case Nil
  then show ?thesis using compute_loop_last [of s n p i] by simp
next
  case (Cons t ts)
  then have "fst (compute_loop n p i s) \<in> set (snd (compute_loop n p i s))"
    using compute_loop_last [of s n p i] by (metis last.simps last_in_set list.distinct(1))
  then show ?thesis using compute_loop_times [of n p i s] by blast
qed

text \<open>Nodes a run of changes cannot leave.\<close>

lemma compute_loop_stays:
  "computeState p i s = s \<Longrightarrow> compute_loop n p i s = (s, [])"
  by (cases n) simp_all

lemma handle_changes_stays:
  assumes "\<And>ch i. ch \<in> set chs \<Longrightarrow> computeState (ctl_params c) (chg_f ch i) (ctl_state c) = ctl_state c"
  shows "ctl_state (fst (handle_changes chs c)) = ctl_state c"
  using assms
proof (induction chs arbitrary: c)
  case (Cons ch chs)
  let ?c = "fst (handle_change ch c)"
  have "ctl_state ?c = ctl_state c" and "ctl_params ?c = ctl_params c"
    using Cons.prems [of ch "ctl_inputs c"]
    by (simp_all add: handle_change_def Let_def case_prod_beta step_frames ctl_compute_state
        compute_loop_stays)
  with Cons show ?case
    by (simp add: Let_def case_prod_beta)
qed simp

section \<open>Checks and NaN\<close>

lemma f64_ge_NaN [simp]: "\<not> f64_ge F_NaN b" "\<not> f64_ge a F_NaN"
  by (simp_all add: f64_ge_def)

lemma outputCheck_NaN:
  "\<not> SinglePhase p \<Longrightarrow> F_NaN \<in> {inp_F i, U1 i, U2 i, U3 i, P1 i, P2 i, P3 i} \<Longrightarrow> \<not> outputCheck p i"
  by (auto simp: outputCheck_def)

lemma ioCheck_NaN:
  "F_NaN \<in> {EngineTemp i, AuxTemp0 i, AuxTemp1 i} \<Longrightarrow> \<not> ioCheck p i"
  by (auto simp: ioCheck_def)

section \<open>A concrete genset\<close>

definition demo_params :: Params where
  "demo_params =
     \<lparr>PrimingTimeout = 0, CrankingTimeout = second, WarmUpTimeout = 0, WarmUpMinTime = 0,
      WarmUpTemp = F_Fin 40, EngineCoolDownTimeout = second, EngineCoolDownMinTime = 0,
      EngineCoolDownTemp = F_Fin 60, EnclosureCoolDownTimeout = second,
      EnclosureCoolDownMinTime = 0, EnclosureCoolDownTemp = F_Fin 50,
      EngineTempMin = F_Fin (-20), EngineTempMax = F_Fin 90, AuxTemp0Min = F_Fin (-20),
      AuxTemp0Max = F_Fin 90, AuxTemp1Min = F_Fin (-20), AuxTemp1Max = F_Fin 90,
      SinglePhase = False, UMin = F_Fin 220, UMax = F_Fin 240, FMin = F_Fin 45, FMax = F_Fin 55,
      PMax = F_Fin 1000, PTotMax = F_Fin 2000\<rparr>"

definition demo_inputs :: Inputs where
  "demo_inputs =
     \<lparr>Time = \<lparr>wall = 0, mono = Some 0\<rparr>, ArmSwitch = True, CommandSwitch = True, ResetSwitch = False,
      IOAvailable = True, FireDetected = False, EngineTemp = F_Fin 55, AuxTemp0 = F_Fin 20,
      AuxTemp1 = F_Fin 20, OutputAvailable = True, U1 = F_Fin 230, U2 = F_Fin 230, U3 = F_Fin 230,
      P1 = F_Fin 0, P2 = F_Fin 0, P3 = F_Fin 0, inp_F = F_Fin 50\<rparr>"

lemmas genset_eval = demo_params_def demo_inputs_def ioCheck_def outputCheck_def f64_ge_def
  f64_gt_def f64_lt_def masterSwitch_def round_f64_def

lemma demo_checks:
  "ioCheck demo_params demo_inputs" "outputCheck demo_params demo_inputs" "masterSwitch demo_inputs"
  "\<not> ResetSwitch demo_inputs"
  by (simp_all add: genset_eval)

lemma demo_times [simp]:
  "PrimingTimeout demo_params = 0" "CrankingTimeout demo_params = second"
  "WarmUpTimeout demo_params = 0" "WarmUpMinTime demo_params = 0"
  "EngineCoolDownMinTime demo_params = 0" "EnclosureCoolDownMinTime demo_params = 0"
  by (simp_all add: demo_params_def)

definition demo_off :: Inputs where
  "demo_off = demo_inputs\<lparr>ArmSwitch := False, EngineTemp := F_Fin 45\<rparr>"

definition slow_params :: Params where
  "slow_params = demo_params\<lparr>PrimingTimeout := second, WarmUpMinTime := second,
     EngineCoolDownMinTime := second, EnclosureCoolDownMinTime := second\<rparr>"

definition demo_at :: "StateNode \<Rightarrow> State" where
  "demo_at n = \<lparr>Node = n, Changed = Time demo_inputs\<rparr>"

lemma demo_off_checks:
  "ioCheck demo_params demo_off" "outputCheck demo_params demo_off" "\<not> masterSwitch demo_off"
  "\<not> ResetSwitch demo_off" "ioCheck slow_params demo_off" "outputCheck slow_params demo_off"
  "ioCheck slow_params demo_inputs" "outputCheck slow_params demo_inputs"
  by (simp_all add: genset_eval demo_off_def slow_params_def)

lemma demo_off_more:
  "Time demo_off = Time demo_inputs" "IOAvailable demo_inputs"
  "f64_le (EngineTemp demo_off) (EngineCoolDownTemp demo_params)"
  "f64_le (EngineTemp demo_off) (EnclosureCoolDownTemp demo_params)"
  "PrimingTimeout slow_params = second" "WarmUpMinTime slow_params = second"
  "EngineCoolDownMinTime slow_params = second" "EnclosureCoolDownMinTime slow_params = second"
  by (simp_all add: demo_off_def demo_inputs_def demo_params_def slow_params_def)

lemma demo_steps:
  "computeStateNode demo_params demo_off (demo_at Reset) = Off"
  "computeStateNode demo_params demo_inputs (demo_at Off) = Ready"
  "computeStateNode demo_params demo_inputs (demo_at Ready) = Priming"
  "computeStateNode demo_params demo_off (demo_at Priming) = Ready"
  "computeStateNode demo_params demo_inputs (demo_at Priming) = Cranking"
  "computeStateNode demo_params demo_off (demo_at Cranking) = Ready"
  "computeStateNode demo_params demo_inputs (demo_at Cranking) = WarmUp"
  "computeStateNode demo_params demo_off (demo_at WarmUp) = EnclosureCoolDown"
  "computeStateNode demo_params demo_inputs (demo_at WarmUp) = Producing"
  "computeStateNode demo_params demo_off (demo_at Producing) = EngineCoolDown"
  "computeStateNode demo_params demo_inputs (demo_at EngineCoolDown) = Producing"
  "computeStateNode demo_params demo_off (demo_at EngineCoolDown) = EnclosureCoolDown"
  "computeStateNode demo_params demo_inputs (demo_at EnclosureCoolDown) = Priming"
  "computeStateNode demo_params demo_off (demo_at EnclosureCoolDown) = Ready"
  using demo_checks demo_off_checks demo_off_more
  by (simp_all add: demo_at_def step_at)

lemma demo_stays:
  "\<exists>p i. computeStateNode p i (demo_at n) = n"
proof (cases n)
  case Off
  have "computeStateNode demo_params (demo_inputs\<lparr>IOAvailable := False\<rparr>) (demo_at Off) = Off"
    by (simp add: demo_at_def step_at demo_inputs_def)
  with Off show ?thesis by blast
next
  case Cranking
  have "computeStateNode demo_params (demo_inputs\<lparr>OutputAvailable := False\<rparr>) (demo_at Cranking) = Cranking"
    by (simp add: demo_at_def step_at genset_eval)
  with Cranking show ?thesis by blast
next
  case Error
  have "computeStateNode demo_params demo_inputs (demo_at Error) = Error"
    using demo_checks by (simp add: demo_at_def step_at)
  with Error show ?thesis by blast
next
  case Reset
  have "computeStateNode demo_params demo_inputs (demo_at Reset) = Reset"
    using demo_checks by (simp add: demo_at_def step_at)
  with Reset show ?thesis by blast
next
  case Producing
  have "computeStateNode demo_params demo_inputs (demo_at Producing) = Producing"
    using demo_checks by (simp add: demo_at_def step_at)
  with Producing show ?thesis by blast
next
  case Priming
  have "computeStateNode slow_params demo_inputs (demo_at Priming) = Priming"
    using demo_checks demo_off_checks demo_off_more by (simp add: demo_at_def step_at)
  with Priming show ?thesis by blast
next
  case WarmUp
  have "computeStateNode slow_params demo_inputs (demo_at WarmUp) = WarmUp"
    using demo_checks demo_off_checks demo_off_more by (simp add: demo_at_def step_at)
  with WarmUp show ?thesis by blast
next
  case Ready
  have "computeStateNode slow_params demo_off (demo_at Ready) = Ready"
    using demo_off_checks demo_off_more by (simp add: demo_at_def step_at)
  with Ready show ?thesis by blast
next
  case EngineCoolDown
  have "computeStateNode slow_params demo_off (demo_at EngineCoolDown) = EngineCoolDown"
    using demo_off_checks demo_off_more by (simp add: demo_at_def step_at)
  with EngineCoolDown show ?thesis by blast
next
  case EnclosureCoolDown
  have "computeStateNode slow_params demo_off (demo_at EnclosureCoolDown) = EnclosureCoolDown"
    using demo_off_checks demo_off_more by (simp add: demo_at_def step_at)
  with EnclosureCoolDown show ?thesis by blast
qed

lemma demo_error: "n \<notin> {Error, Reset, Off} \<Longrightarrow>
    computeStateNode demo_params (demo_inputs\<lparr>FireDetected := True\<rparr>) (demo_at n) = Error"
  by (rule computeStateNode_io) (auto simp: demo_at_def genset_eval)

lemma edge_realised:
  "genset_edge n n' \<Longrightarrow> \<exists>p i. computeStateNode p i (demo_at n) = n'"
proof (induction rule: genset_edge.induct)
  case (16 n)
  have "computeStateNode demo_params (demo_inputs\<lparr>ResetSwitch := True\<rparr>) (demo_at n) = Reset"
    by (rule computeStateNode_reset) simp
  then show ?case by blast
qed (blast intro: demo_steps demo_error)+

definition demo_controller :: Controller where
  "demo_controller = (NewController demo_params Off demo_inputs)\<lparr>onState := True, onOutput := True\<rparr>"

lemma demo_loop:
  "compute_loop 8 demo_params demo_inputs (demo_at Off) =
     (demo_at Producing, map demo_at [Ready, Priming, Cranking, WarmUp, Producing])"
proof -
  have step: "computeState demo_params demo_inputs (demo_at n) = demo_at m"
    if "computeStateNode demo_params demo_inputs (demo_at n) = m" for n m
    using that by (simp add: computeState_def demo_at_def Let_def)
  have "computeStateNode demo_params demo_inputs (demo_at Producing) = Producing"
    using demo_checks by (simp add: demo_at_def step_at)
  note steps = step [OF demo_steps(2)] step [OF demo_steps(3)] step [OF demo_steps(5)]
    step [OF demo_steps(7)] step [OF demo_steps(9)] step [OF this]
  have neq: "demo_at n = demo_at m \<longleftrightarrow> n = m" for n m
    by (simp add: demo_at_def)
  show ?thesis
    by (simp add: eval_nat_numeral steps neq Let_def)
qed

lemma demo_started: "ctl_state (fst (ctl_Run [] demo_controller)) = demo_at Producing"
proof -
  have "ctl_params demo_controller = demo_params" "ctl_inputs demo_controller = demo_inputs"
    "ctl_state demo_controller = demo_at Off"
    by (simp_all add: demo_controller_def NewController_def demo_at_def Let_def)
  then show ?thesis
    by (simp add: ctl_Run_def ctl_start_def Let_def case_prod_beta ctl_compute_state
        max_iterations_def demo_loop)
qed

section \<open>Properties\<close>

text \<open>
  C2: The loop of \<open>compute\<close> always reaches a final state within its eight iterations: more
  iterations would not change it, another step leaves it as it is, and at most six state
  updates happen.
\<close>

theorem eight_iterations_suffice:
  "compute_loop (max_iterations + k) p i s = compute_loop max_iterations p i s \<and>
   computeState p i (fst (compute_loop max_iterations p i s)) = fst (compute_loop max_iterations p i s) \<and>
   length (snd (compute_loop max_iterations p i s)) \<le> 6"
proof -
  have rank: "rank i (Node s) \<le> max_iterations"
    using rank_bound [of i "Node s"] by (simp add: max_iterations_def)
  have "length (snd (compute_loop max_iterations p i s)) \<le> 6"
    using compute_loop_length [of max_iterations p i s] rank_bound [of i "Node s"] by linarith
  then show ?thesis
    using compute_loop_more [OF rank] compute_loop_settles [OF rank, of p]
    by (simp add: settled_state_def)
qed

text \<open>
  C1: Whatever changes the controller has handled, its outputs are the ones of its state and
  inputs, and they are safe: it closes the load contactor only if it is armed and commanded, not
  being reset, and the temperature, fire and output checks pass; it runs the ignition or the
  starter only if the reset is released and the temperature and fire checks pass; and the
  starter never runs against an engine that already delivers.
\<close>

theorem outputs_safe:
  assumes "c' = fst (ctl_Run chs c)" and "i = ctl_inputs c'" and "p = ctl_params c'"
    and "out = ctl_outputs c'"
  shows "out = computeOutputs p i (ctl_state c') \<and>
    (Load out \<longrightarrow> ArmSwitch i \<and> CommandSwitch i \<and> \<not> ResetSwitch i \<and> ioCheck p i \<and> outputCheck p i) \<and>
    (Ignition out \<or> Starter out \<longrightarrow> \<not> ResetSwitch i \<and> ioCheck p i) \<and>
    (Starter out \<longrightarrow> ArmSwitch i \<and> CommandSwitch i \<and> \<not> outputCheck p i)"
proof -
  have settled: "settled c'"
    by (simp add: assms(1) settled_Run)
  then have node: "computeStateNode p i (ctl_state c') = Node (ctl_state c')"
    using settled_node assms(2,3) by blast
  have out: "out = computeOutputs p i (ctl_state c')"
    using settled assms by (simp add: settled_def)
  note st = stays [OF node]
  have load: "Load out \<longrightarrow> ArmSwitch i \<and> CommandSwitch i \<and> \<not> ResetSwitch i \<and> ioCheck p i \<and> outputCheck p i"
    using st by (auto simp: out computeOutputs_def Let_def masterSwitch_def)
  have ign: "Ignition out \<or> Starter out \<longrightarrow> \<not> ResetSwitch i \<and> ioCheck p i"
    using st by (auto simp: out computeOutputs_def Let_def)
  have "Starter out \<longrightarrow> ArmSwitch i \<and> CommandSwitch i \<and> \<not> outputCheck p i"
    using st by (auto simp: out computeOutputs_def Let_def masterSwitch_def)
  with out load ign show ?thesis by blast
qed

theorem outputs_safe_witness:
  "Load (ctl_outputs (fst (ctl_Run [] demo_controller))) \<and>
   ArmSwitch (ctl_inputs (fst (ctl_Run [] demo_controller))) \<and>
   ioCheck (ctl_params (fst (ctl_Run [] demo_controller))) (ctl_inputs (fst (ctl_Run [] demo_controller)))"
proof -
  let ?c = "fst (ctl_Run [] demo_controller)"
  note safe = outputs_safe [OF refl refl refl refl, of "[]" demo_controller]
  from safe have "ctl_outputs ?c = computeOutputs (ctl_params ?c) (ctl_inputs ?c) (ctl_state ?c)"
    by (rule conjunct1)
  moreover have "Node (ctl_state ?c) = Producing"
    by (simp add: demo_started demo_at_def)
  moreover have "Load (computeOutputs p i s)" if "Node s = Producing" for p i s
    using that by (simp add: computeOutputs_def Let_def)
  ultimately have "Load (ctl_outputs ?c)"
    by metis
  with safe show ?thesis
    by blast
qed

text \<open>
  The transition diagram is exact: a step leads from one node to another one if and only if
  the diagram has that edge, for some parameters, inputs and time in the node.
\<close>

theorem transition_diagram:
  "(\<exists>p i c. computeStateNode p i \<lparr>Node = n, Changed = c\<rparr> = n') \<longleftrightarrow> n' = n \<or> genset_edge n n'"
proof
  assume "\<exists>p i c. computeStateNode p i \<lparr>Node = n, Changed = c\<rparr> = n'"
  then obtain p i c where "computeStateNode p i \<lparr>Node = n, Changed = c\<rparr> = n'"
    by blast
  then show "n' = n \<or> genset_edge n n'"
    using computeStateNode_edge [of p i "\<lparr>Node = n, Changed = c\<rparr>"] by auto
next
  assume "n' = n \<or> genset_edge n n'"
  then have "\<exists>p i. computeStateNode p i (demo_at n) = n'"
    using demo_stays edge_realised by blast
  then show "\<exists>p i c. computeStateNode p i \<lparr>Node = n, Changed = c\<rparr> = n'"
    unfolding demo_at_def by blast
qed

text \<open>
  C3: A run of the controller with its state callback set reports every state it enters: the
  reported states start at the initial one, follow the transition diagram and end at the state
  the controller is in.
\<close>

theorem reported_states:
  assumes "onState c"
  shows "\<exists>evs. state_events (snd (ctl_Run chs c)) = ctl_state c # evs \<and>
    edge_path (map Node (ctl_state c # evs)) \<and>
    last (ctl_state c # evs) = ctl_state (fst (ctl_Run chs c))"
  by (rule ctl_Run_path [OF assms])

theorem reported_states_witness:
  "\<exists>evs. state_events (snd (ctl_Run [] demo_controller)) = demo_at Off # evs \<and>
    edge_path (map Node (demo_at Off # evs)) \<and> last (demo_at Off # evs) = demo_at Producing"
proof -
  have "onState demo_controller" and "ctl_state demo_controller = demo_at Off"
    by (simp_all add: demo_controller_def NewController_def demo_at_def Let_def)
  then show ?thesis
    using reported_states [of demo_controller "[]"] demo_started by simp
qed

text \<open>
  The error state is a latch: while no change sets the reset switch it is kept, whatever else
  the inputs do, with every actuator off. The reset state likewise is kept until the reset is
  released and the genset is disarmed or no longer commanded.
\<close>

theorem error_is_latched:
  assumes "Node (ctl_state c) = Error" and "\<forall>ch \<in> set chs. \<forall>i. \<not> ResetSwitch (chg_f ch i)"
  shows "ctl_state (fst (handle_changes chs c)) = ctl_state c"
proof (rule handle_changes_stays)
  fix ch i
  assume "ch \<in> set chs"
  from bspec [OF assms(2) this] have "\<not> ResetSwitch (chg_f ch i)" ..
  moreover obtain n t where s: "ctl_state c = \<lparr>Node = n, Changed = t\<rparr>"
    by (rule State_cases)
  moreover have "n = Error"
    using assms(1) s by simp
  ultimately show "computeState (ctl_params c) (chg_f ch i) (ctl_state c) = ctl_state c"
    by (simp only: computeState_fix step_at) simp
qed

theorem error_is_latched_witness:
  "ctl_state (fst (handle_changes [\<lparr>chg_f = (\<lambda>i. i\<lparr>CommandSwitch := False, ResetSwitch := False\<rparr>), chg_sync = False\<rparr>]
      (demo_controller\<lparr>ctl_state := demo_at Error\<rparr>))) = demo_at Error"
  using error_is_latched [of "demo_controller\<lparr>ctl_state := demo_at Error\<rparr>"
      "[\<lparr>chg_f = (\<lambda>i. i\<lparr>CommandSwitch := False, ResetSwitch := False\<rparr>), chg_sync = False\<rparr>]"]
  by (simp add: demo_at_def del: handle_changes.simps)

text \<open>
  After a reset the genset does not start by itself: as long as every change leaves it armed
  and commanded, or resetting, it stays in the reset state.
\<close>

theorem reset_needs_release:
  assumes "Node (ctl_state c) = Reset"
    and "\<forall>ch \<in> set chs. \<forall>i. ResetSwitch (chg_f ch i) \<or> (ArmSwitch (chg_f ch i) \<and> CommandSwitch (chg_f ch i))"
  shows "ctl_state (fst (handle_changes chs c)) = ctl_state c"
proof (rule handle_changes_stays)
  fix ch i
  assume "ch \<in> set chs"
  from bspec [OF assms(2) this] have "ResetSwitch (chg_f ch i) \<or> masterSwitch (chg_f ch i)"
    unfolding masterSwitch_def ..
  moreover obtain n t where s: "ctl_state c = \<lparr>Node = n, Changed = t\<rparr>"
    by (rule State_cases)
  moreover have "n = Reset"
    using assms(1) s by simp
  ultimately show "computeState (ctl_params c) (chg_f ch i) (ctl_state c) = ctl_state c"
    by (simp only: computeState_fix step_at) simp
qed

theorem reset_needs_release_witness:
  "ctl_state (fst (handle_changes
      [\<lparr>chg_f = (\<lambda>i. i\<lparr>ArmSwitch := True, CommandSwitch := True, ResetSwitch := False\<rparr>), chg_sync = True\<rparr>]
      (demo_controller\<lparr>ctl_state := demo_at Reset\<rparr>))) = demo_at Reset"
  using reset_needs_release [of "demo_controller\<lparr>ctl_state := demo_at Reset\<rparr>"
      "[\<lparr>chg_f = (\<lambda>i. i\<lparr>ArmSwitch := True, CommandSwitch := True, ResetSwitch := False\<rparr>), chg_sync = True\<rparr>]"]
  by (simp add: demo_at_def del: handle_changes.simps)

text \<open>
  C4: No timed state outlives its limit: at every time the controller has been told, it is in
  priming or cranking for less than their timeouts, and in warm up or a cool down for less than
  the larger of the state's minimal time and timeout.
\<close>

theorem timed_states_end:
  assumes "c' = fst (ctl_Run chs c)" and "p = ctl_params c'"
    and "t = time_sub (Time (ctl_inputs c')) (Changed (ctl_state c'))"
  shows "TimeInState (ctl_outputs c') = t \<and>
    (Node (ctl_state c') = Priming \<longrightarrow> t < PrimingTimeout p) \<and>
    (Node (ctl_state c') = Cranking \<longrightarrow> t < CrankingTimeout p) \<and>
    (Node (ctl_state c') = WarmUp \<longrightarrow> t < max (WarmUpMinTime p) (WarmUpTimeout p)) \<and>
    (Node (ctl_state c') = EngineCoolDown \<longrightarrow>
      t < max (EngineCoolDownMinTime p) (EngineCoolDownTimeout p)) \<and>
    (Node (ctl_state c') = EnclosureCoolDown \<longrightarrow>
      t < max (EnclosureCoolDownMinTime p) (EnclosureCoolDownTimeout p))"
proof -
  have settled: "settled c'"
    by (simp add: assms(1) settled_Run)
  have "TimeInState (ctl_outputs c') = t"
    using settled by (simp add: settled_def computeOutputs_def Let_def assms(3))
  with stays_time [OF settled_node [OF settled]] show ?thesis
    unfolding assms(2,3) by blast
qed

lemma slow_priming:
  "compute_loop 8 slow_params demo_inputs (demo_at Priming) = (demo_at Priming, [])"
proof (rule compute_loop_stays)
  show "computeState slow_params demo_inputs (demo_at Priming) = demo_at Priming"
    using demo_checks demo_off_checks demo_off_more
    by (simp add: computeState_fix) (simp add: demo_at_def step_at)
qed

theorem timed_states_end_witness:
  "Node (ctl_state (fst (ctl_Run [] (NewController slow_params Priming demo_inputs)))) = Priming \<and>
   TimeInState (ctl_outputs (fst (ctl_Run [] (NewController slow_params Priming demo_inputs)))) < second"
proof -
  let ?c = "fst (ctl_Run [] (NewController slow_params Priming demo_inputs))"
  have state: "ctl_state ?c = demo_at Priming" and params: "ctl_params ?c = slow_params"
    using slow_priming
    by (simp_all add: ctl_Run_def ctl_start_def Let_def case_prod_beta ctl_compute_state
        max_iterations_def NewController_def step_frames flip: demo_at_def)
  then have node: "Node (ctl_state ?c) = Priming"
    by (simp add: demo_at_def)
  have "PrimingTimeout slow_params = second"
    by (simp add: slow_params_def)
  with timed_states_end [OF refl refl refl, of "[]" "NewController slow_params Priming demo_inputs"]
    node params
  show ?thesis by simp
qed

text \<open>
  A measurement that is NaN never passes the temperature check, nor the output check of a
  three-phase genset; a single-phase genset, however, takes a frequency that is NaN for good.
\<close>

theorem NaN_measurements:
  "(F_NaN \<in> {EngineTemp i, AuxTemp0 i, AuxTemp1 i} \<longrightarrow> \<not> ioCheck p i) \<and>
   (\<not> SinglePhase p \<and> F_NaN \<in> {inp_F i, U1 i, U2 i, U3 i, P1 i, P2 i, P3 i} \<longrightarrow> \<not> outputCheck p i) \<and>
   outputCheck (demo_params\<lparr>SinglePhase := True\<rparr>) (demo_inputs\<lparr>inp_F := F_NaN\<rparr>)"
proof -
  have "outputCheck (demo_params\<lparr>SinglePhase := True\<rparr>) (demo_inputs\<lparr>inp_F := F_NaN\<rparr>)"
    by (simp add: genset_eval)
  then show ?thesis
    using ioCheck_NaN outputCheck_NaN by blast
qed

theorem NaN_measurements_witness:
  "\<not> ioCheck demo_params (demo_inputs\<lparr>EngineTemp := F_NaN\<rparr>) \<and>
   \<not> outputCheck demo_params (demo_inputs\<lparr>U2 := F_NaN\<rparr>)"
  using NaN_measurements [of "demo_inputs\<lparr>EngineTemp := F_NaN\<rparr>" demo_params]
    NaN_measurements [of "demo_inputs\<lparr>U2 := F_NaN\<rparr>" demo_params]
  by (simp add: demo_params_def)

end
