(* ===== verification/Genset_Device.thy ===== *)
theory Genset_Device
  imports Config_Genset Genset_Proofs Waveshare
begin

text \<open>
  src/gensetDevice: the device around the controller. It binds registers of other devices and
  its own commands to the inputs of the controller, ticks it every second, and publishes its
  states and outputs as registers. What it does to the rest of the program is a list of
  actions, as for the other devices. The goroutines of the subscriptions and of the ticker hand
  their changes over to the controller one after the other, so a run is a function of the
  sequence of these events.
\<close>

section \<open>Registers\<close>

definition boolToOnOff :: "bool \<Rightarrow> int" where
  "boolToOnOff b = (if b then 1 else 0)"

definition OnOffEnum :: "(int, string) gomap" where
  "OnOffEnum = [(boolToOnOff False, ''Off''), (boolToOnOff True, ''On'')]"

definition NewOnOffRegister :: "string \<Rightarrow> string \<Rightarrow> string \<Rightarrow> int \<Rightarrow> bool \<Rightarrow> register" where
  "NewOnOffRegister category nm description srt writable =
     NewRegisterStruct category nm description EnumRegister (Some OnOffEnum) '''' srt writable"

definition NewNumberRegister :: "string \<Rightarrow> string \<Rightarrow> string \<Rightarrow> string \<Rightarrow> int \<Rightarrow> register" where
  "NewNumberRegister category nm description unit srt =
     NewRegisterStruct category nm description NumberRegister None unit srt False"

definition degree_C :: string where "degree_C = [CHR 0xC2, CHR 0xB0, CHR ''C'']"

definition ArmSwitchRegister :: register where
  "ArmSwitchRegister = NewOnOffRegister ''Switches'' ''ArmSwitch'' ''Arm switch'' 0 True"
definition ArmSwitchRegisterRO :: register where
  "ArmSwitchRegisterRO = NewOnOffRegister ''Switches'' ''ArmSwitchRO'' ''Arm switch'' 0 False"
definition CommandSwitchRegister :: register where
  "CommandSwitchRegister = NewOnOffRegister ''Switches'' ''CommandSwitch'' ''Command switch'' 1 True"
definition CommandSwitchRegisterRO :: register where
  "CommandSwitchRegisterRO = NewOnOffRegister ''Switches'' ''CommandSwitchRO'' ''Command switch'' 1 False"
definition ResetSwitchRegister :: register where
  "ResetSwitchRegister =
     NewOnOffRegister ''Switches'' ''ResetSwitch'' ''Emergency off and reset switch'' 2 True"
definition ResetSwitchRegisterRO :: register where
  "ResetSwitchRegisterRO =
     NewOnOffRegister ''Switches'' ''ResetSwitchRO'' ''Emergency off and reset switch'' 2 False"
definition IOAvailableRegister :: register where
  "IOAvailableRegister = NewOnOffRegister ''Inputs'' ''IOAvailable'' ''I/O controller available'' 10 False"
definition FireDetectedRegister :: register where
  "FireDetectedRegister = NewOnOffRegister ''Inputs'' ''FireDetected'' ''Fire detected'' 11 False"
definition EngineTempRegister :: register where
  "EngineTempRegister = NewNumberRegister ''Inputs'' ''EngineTemp'' ''Engine temperature'' degree_C 12"
definition AuxTemp0Register :: register where
  "AuxTemp0Register = NewNumberRegister ''Inputs'' ''AuxTemp0'' ''Auxiliary temperature 0'' degree_C 13"
definition AuxTemp1Register :: register where
  "AuxTemp1Register = NewNumberRegister ''Inputs'' ''AuxTemp1'' ''Auxiliary temperature 1'' degree_C 14"
definition OutputAvailableRegister :: register where
  "OutputAvailableRegister = NewOnOffRegister ''Inputs'' ''OutputAvailable'' ''Output available'' 20 False"
definition U0Register :: register where
  "U0Register = NewNumberRegister ''Inputs'' ''U1'' ''Voltage U1'' ''V'' 21"
definition U1Register :: register where
  "U1Register = NewNumberRegister ''Inputs'' ''U2'' ''Voltage U2'' ''V'' 22"
definition U2Register :: register where
  "U2Register = NewNumberRegister ''Inputs'' ''U3'' ''Voltage U3'' ''V'' 23"
definition L0Register :: register where
  "L0Register = NewNumberRegister ''Inputs'' ''P1'' ''Load P1'' ''W'' 24"
definition L1Register :: register where
  "L1Register = NewNumberRegister ''Inputs'' ''P2'' ''Load P2'' ''W'' 25"
definition L2Register :: register where
  "L2Register = NewNumberRegister ''Inputs'' ''P3'' ''Load P3'' ''W'' 26"
definition FRegister :: register where
  "FRegister = NewNumberRegister ''Inputs'' ''F'' ''Frequency'' ''Hz'' 27"

definition InputRegisters3P :: "register list" where
  "InputRegisters3P =
     [IOAvailableRegister, FireDetectedRegister, EngineTempRegister, AuxTemp0Register,
      AuxTemp1Register, OutputAvailableRegister, U0Register, L0Register, FRegister,
      U1Register, U2Register, L1Register, L2Register]"

definition InputRegisters1P :: "register list" where
  "InputRegisters1P = take (length InputRegisters3P - 4) InputRegisters3P"

definition StateRegister :: register where
  "StateRegister =
     NewRegisterStruct ''State'' ''State'' ''Controller State'' EnumRegister (Some StateNodeMap) '''' 30 False"
definition StateChangedRegister :: register where
  "StateChangedRegister =
     NewRegisterStruct ''State'' ''StateChanged'' ''Controller State Changed'' TextRegister None '''' 31 False"

definition StateRegisters :: "register list" where
  "StateRegisters = [StateRegister, StateChangedRegister]"

definition IgnitionRegister :: register where
  "IgnitionRegister = NewOnOffRegister ''Outputs'' ''Ignition'' ''Ignition'' 40 False"
definition StarterRegister :: register where
  "StarterRegister = NewOnOffRegister ''Outputs'' ''Starter'' ''Starter'' 41 False"
definition FanRegister :: register where
  "FanRegister = NewOnOffRegister ''Outputs'' ''Fan'' ''Fan'' 42 False"
definition PumpRegister :: register where
  "PumpRegister = NewOnOffRegister ''Outputs'' ''Pump'' ''Pump'' 43 False"
definition LoadRegister :: register where
  "LoadRegister = NewOnOffRegister ''Outputs'' ''Load'' ''Load'' 44 False"
definition TimeInStateRegister :: register where
  "TimeInStateRegister = NewNumberRegister ''Outputs'' ''TimeInState'' ''Time in state'' ''s'' 45"
definition IoCheckRegister :: register where
  "IoCheckRegister = NewOnOffRegister ''Outputs'' ''IoCheck'' ''I/O check'' 46 False"
definition OutputCheckRegister :: register where
  "OutputCheckRegister = NewOnOffRegister ''Outputs'' ''OutputCheck'' ''Output check'' 47 False"

definition OutputRegisters :: "register list" where
  "OutputRegisters = [IgnitionRegister, StarterRegister, FanRegister, PumpRegister, LoadRegister,
     TimeInStateRegister, IoCheckRegister, OutputCheckRegister]"

definition isBindedInput :: "string \<Rightarrow> GensetDeviceBindingConfig list \<Rightarrow> bool" where
  "isBindedInput nm bindings = list_ex (\<lambda>b. bi_registerName b = nm) bindings"

text \<open>The calls of \<open>AddStruct\<close>, and the registers that take commands.\<close>

definition switch_register ::
  "string \<Rightarrow> register \<Rightarrow> register \<Rightarrow> GensetDeviceBindingConfig list \<Rightarrow> device_action list \<times> register list" where
  "switch_register nm reg regRO bindings =
     (if isBindedInput nm bindings then ([AddRegisters [regRO]], []) else ([], [reg]))"

definition genset_addToRegisterDb ::
  "bool \<Rightarrow> GensetDeviceBindingConfig list \<Rightarrow> device_action list \<times> register list" where
  "genset_addToRegisterDb singlePhase bindings =
     (let (a1, c1) = switch_register ''ArmSwitch'' ArmSwitchRegister ArmSwitchRegisterRO bindings;
          (a2, c2) = switch_register ''CommandSwitch'' CommandSwitchRegister CommandSwitchRegisterRO bindings;
          (a3, c3) = switch_register ''ResetSwitch'' ResetSwitchRegister ResetSwitchRegisterRO bindings;
          commandRegisters = c1 @ c2 @ c3
      in (a1 @ a2 @ a3 @
          [AddRegisters commandRegisters,
           AddRegisters (if singlePhase then InputRegisters1P else InputRegisters3P),
           AddRegisters StateRegisters, AddRegisters OutputRegisters],
          commandRegisters))"

section \<open>Setters\<close>

datatype setter =
    EnumSetter register "bool \<Rightarrow> Inputs \<Rightarrow> Inputs"
  | NumberSetter register "f64 \<Rightarrow> Inputs \<Rightarrow> Inputs"

definition inpSetter_table :: "(string \<times> setter) list" where
  "inpSetter_table =
     [(''ArmSwitch'', EnumSetter ArmSwitchRegister (\<lambda>v i. i\<lparr>ArmSwitch := v\<rparr>)),
      (''ArmSwitchRO'', EnumSetter ArmSwitchRegisterRO (\<lambda>v i. i\<lparr>ArmSwitch := v\<rparr>)),
      (''CommandSwitch'', EnumSetter CommandSwitchRegister (\<lambda>v i. i\<lparr>CommandSwitch := v\<rparr>)),
      (''CommandSwitchRO'', EnumSetter CommandSwitchRegisterRO (\<lambda>v i. i\<lparr>CommandSwitch := v\<rparr>)),
      (''ResetSwitch'', EnumSetter ResetSwitchRegister (\<lambda>v i. i\<lparr>ResetSwitch := v\<rparr>)),
      (''ResetSwitchRO'', EnumSetter ResetSwitchRegisterRO (\<lambda>v i. i\<lparr>ResetSwitch := v\<rparr>)),
      (''IOAvailable'', EnumSetter IOAvailableRegister (\<lambda>v i. i\<lparr>IOAvailable := v\<rparr>)),
      (''FireDetected'', EnumSetter FireDetectedRegister (\<lambda>v i. i\<lparr>FireDetected := v\<rparr>)),
      (''EngineTemp'', NumberSetter EngineTempRegister (\<lambda>v i. i\<lparr>EngineTemp := v\<rparr>)),
      (''AuxTemp0'', NumberSetter AuxTemp0Register (\<lambda>v i. i\<lparr>AuxTemp0 := v\<rparr>)),
      (''AuxTemp1'', NumberSetter AuxTemp1Register (\<lambda>v i. i\<lparr>AuxTemp1 := v\<rparr>)),
      (''OutputAvailable'', EnumSetter OutputAvailableRegister (\<lambda>v i. i\<lparr>OutputAvailable := v\<rparr>)),
      (''U1'', NumberSetter U0Register (\<lambda>v i. i\<lparr>U1 := v\<rparr>)),
      (''U2'', NumberSetter U1Register (\<lambda>v i. i\<lparr>U2 := v\<rparr>)),
      (''U3'', NumberSetter U2Register (\<lambda>v i. i\<lparr>U3 := v\<rparr>)),
      (''P1'', NumberSetter L0Register (\<lambda>v i. i\<lparr>P1 := v\<rparr>)),
      (''P2'', NumberSetter L1Register (\<lambda>v i. i\<lparr>P2 := v\<rparr>)),
      (''P3'', NumberSetter L2Register (\<lambda>v i. i\<lparr>P3 := v\<rparr>)),
      (''F'', NumberSetter FRegister (\<lambda>v i. i\<lparr>inp_F := v\<rparr>))]"

definition inpSetter :: "string \<Rightarrow> setter option" where
  \<comment> \<open>\<open>None\<close> is \<open>ErrUnknownInputName\<close>\<close>
  "inpSetter nm = map_of inpSetter_table nm"

definition setter_register :: "setter \<Rightarrow> register" where
  "setter_register s = (case s of EnumSetter r _ \<Rightarrow> r | NumberSetter r _ \<Rightarrow> r)"

text \<open>
  What a setter does with a value: the change it sends to the controller and the value it then
  fills into the state storage; a value of the wrong kind is only logged.
\<close>

fun enumSetter :: "string \<Rightarrow> register \<Rightarrow> (bool \<Rightarrow> Inputs \<Rightarrow> Inputs) \<Rightarrow> val \<Rightarrow> ((Inputs \<Rightarrow> Inputs) \<times> val) option" where
  "enumSetter nm reg f (EnumRegisterValue _ _ idx) = Some (f (idx \<noteq> 0), EnumRegisterValue nm reg idx)"
| "enumSetter nm reg f _ = None"

fun numberSetter :: "string \<Rightarrow> register \<Rightarrow> (f64 \<Rightarrow> Inputs \<Rightarrow> Inputs) \<Rightarrow> val \<Rightarrow> ((Inputs \<Rightarrow> Inputs) \<times> val) option" where
  "numberSetter nm reg f (NumericRegisterValue _ _ x) = Some (f x, NumericRegisterValue nm reg x)"
| "numberSetter nm reg f _ = None"

fun run_setter :: "string \<Rightarrow> setter \<Rightarrow> val \<Rightarrow> ((Inputs \<Rightarrow> Inputs) \<times> val) option" where
  "run_setter nm (EnumSetter reg f) v = enumSetter nm reg f v"
| "run_setter nm (NumberSetter reg f) v = numberSetter nm reg f v"

section \<open>Publishing\<close>

text \<open>\<open>Duration.Seconds\<close>; the division of Go truncates toward zero.\<close>

definition duration_seconds :: "duration \<Rightarrow> f64" where
  "duration_seconds d =
     (let sec = (if d < 0 then - ((- d) div second) else d div second);
          nsec = d - sec * second
      in f64_add (F_Fin (of_int sec)) (round_f64 (of_int nsec / 1000000000)))"

text \<open>
  The callbacks. \<open>lastState\<close> is the initial state and is never assigned again, so the first
  callback compares with it each time. Rendering of the time is a parameter.
\<close>

definition on_state_update :: "(go_time \<Rightarrow> string) \<Rightarrow> string \<Rightarrow> StateNode \<Rightarrow> State \<Rightarrow> device_action list" where
  "on_state_update time_String nm lastState s =
     (if lastState \<noteq> Node s
      then [FillState (EnumRegisterValue nm StateRegister (node_int (Node s)))] else []) @
     [FillState (TextRegisterValue nm StateChangedRegister (time_String (Changed s)))]"

definition on_output_update :: "string \<Rightarrow> Outputs \<Rightarrow> device_action list" where
  "on_output_update nm out = map FillState
     [EnumRegisterValue nm IgnitionRegister (boolToOnOff (Ignition out)),
      EnumRegisterValue nm StarterRegister (boolToOnOff (Starter out)),
      EnumRegisterValue nm FanRegister (boolToOnOff (Fan out)),
      EnumRegisterValue nm PumpRegister (boolToOnOff (Pump out)),
      EnumRegisterValue nm LoadRegister (boolToOnOff (Load out)),
      NumericRegisterValue nm TimeInStateRegister (duration_seconds (TimeInState out)),
      EnumRegisterValue nm IoCheckRegister (boolToOnOff (IoCheck out)),
      EnumRegisterValue nm OutputCheckRegister (boolToOnOff (OutputCheck out))]"

fun publish_event :: "(go_time \<Rightarrow> string) \<Rightarrow> string \<Rightarrow> StateNode \<Rightarrow> ctl_event \<Rightarrow> device_action list" where
  "publish_event time_String nm lastState (OnStateUpdate s) = on_state_update time_String nm lastState s"
| "publish_event time_String nm lastState (OnOutputUpdate out) = on_output_update nm out"
| "publish_event time_String nm lastState ChangeDone = []"

definition publish_events :: "(go_time \<Rightarrow> string) \<Rightarrow> string \<Rightarrow> StateNode \<Rightarrow> ctl_event list \<Rightarrow> device_action list" where
  "publish_events time_String nm lastState evs = concat (map (publish_event time_String nm lastState) evs)"

section \<open>The device\<close>

record genset_device =
  gs_State :: device_state
  gs_Config :: GensetDeviceConfig

definition genset_NewDevice :: "device_config \<Rightarrow> GensetDeviceConfig \<Rightarrow> genset_device" where
  "genset_NewDevice deviceConfig gensetConfig =
     \<lparr>gs_State = NewState deviceConfig, gs_Config = gensetConfig\<rparr>"

definition gs_Name :: "genset_device \<Rightarrow> string" where
  "gs_Name d = ds_Name (gs_State d)"

definition zero_Inputs :: Inputs where
  "zero_Inputs = \<lparr>Time = zero_time, ArmSwitch = False, CommandSwitch = False, ResetSwitch = False,
     IOAvailable = False, FireDetected = False, EngineTemp = F_Fin 0, AuxTemp0 = F_Fin 0,
     AuxTemp1 = F_Fin 0, OutputAvailable = False, U1 = F_Fin 0, U2 = F_Fin 0, U3 = F_Fin 0,
     P1 = F_Fin 0, P2 = F_Fin 0, P3 = F_Fin 0, inp_F = F_Fin 0\<rparr>"

definition genset_controller :: "genset_device \<Rightarrow> Controller" where
  \<comment> \<open>with the two callbacks set\<close>
  "genset_controller d =
     (NewController (ed_params (gs_Config d)) Off zero_Inputs)\<lparr>onState := True, onOutput := True\<rparr>"

text \<open>
  The subscriptions: one per input binding, one per command register, each with its setter, and
  the filter of the values it is sent.
\<close>

record genset_subscription =
  gsub_device :: string
  gsub_register :: string
  gsub_setter :: setter

definition bind_input :: "GensetDeviceBindingConfig \<Rightarrow> genset_subscription option" where
  "bind_input b =
     map_option (\<lambda>s. \<lparr>gsub_device = bi_deviceName b, gsub_register = bi_registerName b, gsub_setter = s\<rparr>)
       (inpSetter (bi_name b))"

definition bind_command :: "string \<Rightarrow> register \<Rightarrow> genset_subscription option" where
  "bind_command nm r =
     map_option (\<lambda>s. \<lparr>gsub_device = nm, gsub_register = reg_name r, gsub_setter = s\<rparr>)
       (inpSetter (reg_name r))"

definition gsub_accepts :: "genset_subscription \<Rightarrow> val \<Rightarrow> bool" where
  "gsub_accepts s v \<longleftrightarrow> DeviceName v = gsub_device s \<and> val_name v = gsub_register s"

text \<open>
  A value arrives at a subscription, the ticker ticks, or the context is done. After the
  controller's channel is closed by \<open>End\<close>, a goroutine that still holds a value or a tick sends to
  it, which panics.
\<close>

datatype genset_event = GsValue nat val | GsTick go_time | GsCtxDone
datatype genset_status = GsRunning | GsReturned | GsPanic

definition genset_change :: "string \<Rightarrow> genset_subscription list \<Rightarrow> genset_event \<Rightarrow> (Change \<times> device_action list) option" where
  \<comment> \<open>the change an event sends, and what its goroutine fills after that\<close>
  "genset_change nm subs ev =
     (case ev of
        GsValue k v \<Rightarrow>
          if k < length subs \<and> gsub_accepts (subs ! k) v
          then map_option (\<lambda>(f, w). (\<lparr>chg_f = f, chg_sync = False\<rparr>, [FillState w]))
                 (run_setter nm (gsub_setter (subs ! k)) v)
          else None
      | GsTick t \<Rightarrow> Some (\<lparr>chg_f = (\<lambda>i. i\<lparr>Time := t\<rparr>), chg_sync = False\<rparr>, [])
      | GsCtxDone \<Rightarrow> None)"

definition genset_closed :: "string \<Rightarrow> genset_subscription list \<Rightarrow> genset_event list \<Rightarrow> genset_status" where
  \<comment> \<open>with the values and the tick that the goroutines still handle after the channel is closed\<close>
  "genset_closed nm subs evs =
     (if list_ex (\<lambda>ev. genset_change nm subs ev \<noteq> None) evs then GsPanic else GsReturned)"

fun genset_loop ::
  "(go_time \<Rightarrow> string) \<Rightarrow> string \<Rightarrow> genset_subscription list \<Rightarrow> genset_event list \<Rightarrow> Controller \<Rightarrow>
     genset_status \<times> Controller \<times> device_action list" where
  "genset_loop ts nm subs [] c = (GsRunning, c, [])"
| "genset_loop ts nm subs (ev # evs) c =
     (if ev = GsCtxDone then (genset_closed nm subs evs, c, [])
      else case genset_change nm subs ev of
             None \<Rightarrow> genset_loop ts nm subs evs c
           | Some (ch, fills) \<Rightarrow>
               (let (c1, ces) = handle_change ch c;
                    (st, c2, acts) = genset_loop ts nm subs evs c1
                in (st, c2, publish_events ts nm Off ces @ fills @ acts)))"

datatype genset_result = GsFailed string | GsRan genset_status Controller

definition genset_Run ::
  "(go_time \<Rightarrow> string) \<Rightarrow> genset_device \<Rightarrow> genset_event list \<Rightarrow> genset_result \<times> device_action list" where
  \<comment> \<open>\<open>GsFailed\<close> names the unknown input; it is returned as an immediate error\<close>
  "genset_Run ts d evs =
     (let nm = gs_Name d;
          bindings = ed_inputBindings (gs_Config d);
          (adds, commandRegisters) =
            genset_addToRegisterDb (SinglePhase (ed_params (gs_Config d))) bindings;
          start = adds @ [FillState (SetAvailable (gs_State d) True)];
          stop = [FillState (SetAvailable (gs_State d) False)]
      in case those (map bind_input bindings) of
           None \<Rightarrow> (GsFailed (bi_name (hd (dropWhile (\<lambda>b. bind_input b \<noteq> None) bindings))), start @ stop)
         | Some inputs \<Rightarrow>
             (case those (map (bind_command nm) commandRegisters) of
                None \<Rightarrow> (GsFailed (reg_name (hd (dropWhile (\<lambda>r. bind_command nm r \<noteq> None) commandRegisters))),
                         start @ stop)
              | Some commands \<Rightarrow>
                  (let (c0, ces) = ctl_start (genset_controller d);
                       (st, c1, acts) = genset_loop ts nm (inputs @ commands) evs c0
                   in (GsRan st c1,
                       start @ publish_events ts nm Off ces @ acts @
                       (if st = GsReturned then stop else [])))))"

end
