(* ===== verification/Genset_Device_Proofs.thy ===== *)
theory Genset_Device_Proofs
  imports Genset_Device
begin

text \<open>
  Properties of the genset device: which states it publishes, when it fails to start, which
  registers it fills, what its controller sees of the values received, and when it panics.
\<close>

section \<open>What is published\<close>

text \<open>The values filled into one register, in order.\<close>

definition fills_of :: "register \<Rightarrow> device_action list \<Rightarrow> val list" where
  "fills_of r acts =
     List.map_filter (\<lambda>a. case a of FillState v \<Rightarrow> if val_reg v = r then Some v else None | _ \<Rightarrow> None) acts"

lemma fills_of_simps [simp]:
  "fills_of r [] = []"
  "fills_of r (FillState v # acts) = (if val_reg v = r then v # fills_of r acts else fills_of r acts)"
  "fills_of r (AddRegisters rs # acts) = fills_of r acts"
  "fills_of r (FillCommand v # acts) = fills_of r acts"
  "fills_of r (xs @ ys) = fills_of r xs @ fills_of r ys"
  by (simp_all add: fills_of_def List.map_filter_def)

lemmas genset_register_defs =
  ArmSwitchRegister_def ArmSwitchRegisterRO_def CommandSwitchRegister_def CommandSwitchRegisterRO_def
  ResetSwitchRegister_def ResetSwitchRegisterRO_def IOAvailableRegister_def FireDetectedRegister_def
  EngineTempRegister_def AuxTemp0Register_def AuxTemp1Register_def OutputAvailableRegister_def
  U0Register_def U1Register_def U2Register_def L0Register_def L1Register_def L2Register_def
  FRegister_def IgnitionRegister_def StarterRegister_def FanRegister_def PumpRegister_def
  LoadRegister_def TimeInStateRegister_def IoCheckRegister_def OutputCheckRegister_def
  StateRegister_def StateChangedRegister_def

lemmas genset_register_unfold = genset_register_defs NewOnOffRegister_def NewNumberRegister_def

lemma output_register_names:
  "map reg_name OutputRegisters = [''Ignition'', ''Starter'', ''Fan'', ''Pump'', ''Load'',
     ''TimeInState'', ''IoCheck'', ''OutputCheck'']"
  by (simp add: OutputRegisters_def genset_register_unfold)

lemma register_neq: "reg_name r \<noteq> reg_name s \<Longrightarrow> r \<noteq> s"
  by auto

lemma state_not_output: "StateRegister \<notin> set OutputRegisters" "StateChangedRegister \<noteq> StateRegister"
  by (simp_all add: OutputRegisters_def genset_register_unfold NewRegisterStruct_def)

lemma fills_of_output: "fills_of StateRegister (on_output_update nm out) = []"
  using state_not_output(1) by (auto simp: on_output_update_def OutputRegisters_def)

text \<open>The nodes a list of events publishes: each but \<open>Off\<close>.\<close>

lemma fills_of_events:
  "fills_of StateRegister (publish_events ts nm Off ces) =
     map (\<lambda>n. EnumRegisterValue nm StateRegister (node_int n))
       (filter (\<lambda>n. n \<noteq> Off) (map Node (state_events ces)))"
proof (induction ces)
  case (Cons e ces)
  then show ?case
    using state_not_output(2)
    by (cases e) (auto simp: publish_events_def on_state_update_def fills_of_output)
qed (simp add: publish_events_def)

lemma setter_table_registers:
  "list_all (\<lambda>(n, s). setter_register s \<noteq> StateRegister) inpSetter_table"
  by (simp add: inpSetter_table_def setter_register_def genset_register_unfold NewRegisterStruct_def)

lemma inpSetter_not_state: "inpSetter n = Some s \<Longrightarrow> setter_register s \<noteq> StateRegister"
  using setter_table_registers by (auto simp: inpSetter_def list_all_iff dest!: map_of_SomeD)

lemma run_setter_register: "run_setter nm s v = Some (f, w) \<Longrightarrow> val_reg w = setter_register s \<and> DeviceName w = nm"
  by (cases s; cases v) (auto simp: setter_register_def)

definition subs_ok :: "genset_subscription list \<Rightarrow> bool" where
  "subs_ok subs \<longleftrightarrow> list_all (\<lambda>s. \<exists>n. inpSetter n = Some (gsub_setter s)) subs"

lemma genset_change_fills:
  assumes "subs_ok subs" and "genset_change nm subs ev = Some (ch, fills)"
  shows "fills_of StateRegister fills = []"
proof (cases ev)
  case (GsValue k v)
  with assms(2) obtain f w where k: "k < length subs"
    and w: "run_setter nm (gsub_setter (subs ! k)) v = Some (f, w)" "fills = [FillState w]"
    by (auto simp: genset_change_def split: if_splits)
  obtain n where "inpSetter n = Some (gsub_setter (subs ! k))"
    using assms(1) k by (auto simp: subs_ok_def list_all_length)
  from inpSetter_not_state [OF this] w show ?thesis
    by (auto dest: run_setter_register)
qed (use assms(2) in \<open>auto simp: genset_change_def\<close>)

text \<open>The changes a run of the loop hands over to the controller.\<close>

fun genset_changes :: "string \<Rightarrow> genset_subscription list \<Rightarrow> genset_event list \<Rightarrow> Change list" where
  "genset_changes nm subs [] = []"
| "genset_changes nm subs (ev # evs) =
     (if ev = GsCtxDone then []
      else case genset_change nm subs ev of
             None \<Rightarrow> genset_changes nm subs evs
           | Some (ch, _) \<Rightarrow> ch # genset_changes nm subs evs)"

lemma genset_loop_controller:
  "fst (snd (genset_loop ts nm subs evs c)) = fst (handle_changes (genset_changes nm subs evs) c)"
  by (induction evs arbitrary: c) (auto simp: Let_def case_prod_beta split: option.splits)

lemma publish_events_append:
  "publish_events ts nm l (xs @ ys) = publish_events ts nm l xs @ publish_events ts nm l ys"
  by (simp add: publish_events_def)

lemma publish_events_Nil [simp]: "publish_events ts nm l [] = []"
  by (simp add: publish_events_def)

lemma genset_loop_fills:
  assumes "subs_ok subs"
  shows "fills_of StateRegister (snd (snd (genset_loop ts nm subs evs c))) =
    fills_of StateRegister (publish_events ts nm Off (snd (handle_changes (genset_changes nm subs evs) c)))"
proof (induction evs arbitrary: c)
  case (Cons ev evs)
  then show ?case
    using genset_change_fills [OF assms, of nm ev]
    by (auto simp: Let_def case_prod_beta publish_events_append split: option.splits)
qed simp

section \<open>The subscriptions of a device\<close>

definition input_names :: "string list" where
  "input_names = map fst inpSetter_table"

lemma inpSetter_iff: "inpSetter n = None \<longleftrightarrow> n \<notin> set input_names"
  by (simp add: inpSetter_def input_names_def map_of_eq_None_iff)

lemma those_eq_None: "those xs = None \<longleftrightarrow> None \<in> set xs"
  by (induction xs) (auto split: option.splits)

lemma those_in_set: "those xs = Some ys \<Longrightarrow> y \<in> set ys \<Longrightarrow> Some y \<in> set xs"
  by (induction xs arbitrary: ys) (auto split: option.splits)

lemma bind_inputs_iff:
  "those (map bind_input bs) = None \<longleftrightarrow> \<not> set (map bi_name bs) \<subseteq> set input_names"
  by (auto simp: those_eq_None bind_input_def inpSetter_iff image_iff)

lemma command_register_names:
  "set (map reg_name (snd (genset_addToRegisterDb sp bs))) \<subseteq> {''ArmSwitch'', ''CommandSwitch'', ''ResetSwitch''}"
  by (auto simp: genset_addToRegisterDb_def switch_register_def Let_def genset_register_unfold)

lemma bind_commands_Some:
  "those (map (bind_command nm) (snd (genset_addToRegisterDb sp bs))) \<noteq> None"
proof -
  have "inpSetter (reg_name r) \<noteq> None" if "r \<in> set (snd (genset_addToRegisterDb sp bs))" for r
    using command_register_names [of sp bs] that
    by (auto simp: inpSetter_iff input_names_def inpSetter_table_def image_subset_iff)
  then have "bind_command nm r \<noteq> None" if "r \<in> set (snd (genset_addToRegisterDb sp bs))" for r
    using that by (simp add: bind_command_def)
  then have "None \<notin> set (map (bind_command nm) (snd (genset_addToRegisterDb sp bs)))"
    by fastforce
  then show ?thesis
    by (simp only: those_eq_None not_False_eq_True)
qed

lemma subs_ok_bound:
  assumes "those (map bind_input bs) = Some inputs" and "those (map (bind_command nm) rs) = Some commands"
  shows "subs_ok (inputs @ commands)"
proof -
  have "\<exists>n. inpSetter n = Some (gsub_setter s)" if "bind_input b = Some s \<or> bind_command nm r = Some s" for s b r
    using that by (auto simp: bind_input_def bind_command_def)
  moreover have "\<exists>b r. bind_input b = Some s \<or> bind_command nm r = Some s" if "s \<in> set inputs \<union> set commands" for s
  proof (cases "s \<in> set inputs")
    case True
    from those_in_set [OF assms(1) this] show ?thesis by (metis (no_types) imageE set_map)
  next
    case False
    with that those_in_set [OF assms(2), of s] show ?thesis by (metis (no_types) UnE imageE set_map)
  qed
  ultimately have "\<exists>n. inpSetter n = Some (gsub_setter s)" if "s \<in> set inputs \<union> set commands" for s
    using that by meson
  then show ?thesis
    by (simp add: subs_ok_def list_all_iff)
qed

definition genset_subs :: "genset_device \<Rightarrow> genset_subscription list" where
  "genset_subs d =
     (let bs = ed_inputBindings (gs_Config d);
          rs = snd (genset_addToRegisterDb (SinglePhase (ed_params (gs_Config d))) bs)
      in the (those (map bind_input bs)) @ the (those (map (bind_command (gs_Name d)) rs)))"

definition bindings_known :: "genset_device \<Rightarrow> bool" where
  "bindings_known d \<longleftrightarrow> list_all (\<lambda>b. bi_name b \<in> set input_names) (ed_inputBindings (gs_Config d))"

lemma genset_subs_ok:
  assumes "bindings_known d"
  shows "subs_ok (genset_subs d)"
proof -
  have "those (map bind_input (ed_inputBindings (gs_Config d))) \<noteq> None"
    using assms by (auto simp: bind_inputs_iff bindings_known_def list_all_iff)
  with bind_commands_Some show ?thesis
    unfolding genset_subs_def Let_def by (auto intro!: subs_ok_bound)
qed

text \<open>A run, with the parts that the properties speak about.\<close>

lemma genset_Run_eq:
  fixes d :: genset_device and evs :: "genset_event list" and ts :: "go_time \<Rightarrow> string"
  defines "r \<equiv> genset_loop ts (gs_Name d) (genset_subs d) evs (fst (ctl_start (genset_controller d)))"
    and "start \<equiv> fst (genset_addToRegisterDb (SinglePhase (ed_params (gs_Config d)))
        (ed_inputBindings (gs_Config d))) @ [FillState (SetAvailable (gs_State d) True)]"
  shows "genset_Run ts d evs =
    (if bindings_known d
     then (GsRan (fst r) (fst (snd r)),
           start @ publish_events ts (gs_Name d) Off (snd (ctl_start (genset_controller d))) @ snd (snd r) @
           (if fst r = GsReturned then [FillState (SetAvailable (gs_State d) False)] else []))
     else (GsFailed (bi_name (hd (dropWhile (\<lambda>b. bind_input b \<noteq> None) (ed_inputBindings (gs_Config d))))),
           start @ [FillState (SetAvailable (gs_State d) False)]))"
proof (cases "bindings_known d")
  case True
  then have "those (map bind_input (ed_inputBindings (gs_Config d))) \<noteq> None"
    by (auto simp: bind_inputs_iff bindings_known_def list_all_iff)
  then obtain inputs where i: "those (map bind_input (ed_inputBindings (gs_Config d))) = Some inputs"
    by blast
  obtain commands where c: "those (map (bind_command (gs_Name d)) (snd (genset_addToRegisterDb
      (SinglePhase (ed_params (gs_Config d))) (ed_inputBindings (gs_Config d))))) = Some commands"
    using bind_commands_Some by blast
  from True show ?thesis
    unfolding genset_Run_def r_def start_def genset_subs_def
    by (simp add: Let_def case_prod_beta i c)
next
  case False
  then have "those (map bind_input (ed_inputBindings (gs_Config d))) = None"
    by (auto simp: bind_inputs_iff bindings_known_def list_all_iff)
  with False show ?thesis
    unfolding genset_Run_def start_def by (simp add: Let_def case_prod_beta)
qed

section \<open>What the controller sees\<close>

text \<open>
  A change that leaves the inputs equal, in the sense of the comparison of the structs, is not
  stored; so the stored inputs are those received up to the sign of a zero.
\<close>

definition f64_sim :: "f64 \<Rightarrow> f64 \<Rightarrow> bool" where
  "f64_sim a b \<longleftrightarrow> a = b \<or> f64_eq a b"

definition Inputs_sim :: "Inputs \<Rightarrow> Inputs \<Rightarrow> bool" where
  "Inputs_sim a b \<longleftrightarrow>
     Time a = Time b \<and> ArmSwitch a = ArmSwitch b \<and> CommandSwitch a = CommandSwitch b \<and>
     ResetSwitch a = ResetSwitch b \<and> IOAvailable a = IOAvailable b \<and>
     FireDetected a = FireDetected b \<and> f64_sim (EngineTemp a) (EngineTemp b) \<and>
     f64_sim (AuxTemp0 a) (AuxTemp0 b) \<and> f64_sim (AuxTemp1 a) (AuxTemp1 b) \<and>
     OutputAvailable a = OutputAvailable b \<and> f64_sim (U1 a) (U1 b) \<and> f64_sim (U2 a) (U2 b) \<and>
     f64_sim (U3 a) (U3 b) \<and> f64_sim (P1 a) (P1 b) \<and> f64_sim (P2 a) (P2 b) \<and>
     f64_sim (P3 a) (P3 b) \<and> f64_sim (inp_F a) (inp_F b)"

lemma f64_sim_refl [simp]: "f64_sim a a"
  by (simp add: f64_sim_def)

lemma f64_sim_sym: "f64_sim a b \<Longrightarrow> f64_sim b a"
  by (auto simp: f64_sim_def f64_eq_sym)

lemma f64_sim_trans: "f64_sim a b \<Longrightarrow> f64_sim b c \<Longrightarrow> f64_sim a c"
  by (auto simp: f64_sim_def intro: f64_eq_trans)

lemma Inputs_sim_refl [simp]: "Inputs_sim i i"
  by (simp add: Inputs_sim_def)

lemma Inputs_eq_sim: "Inputs_eq a b \<Longrightarrow> Inputs_sim b a"
  by (simp add: Inputs_eq_def Inputs_sim_def f64_sim_def f64_eq_sym)

lemma Inputs_sim_trans: "Inputs_sim a b \<Longrightarrow> Inputs_sim b c \<Longrightarrow> Inputs_sim a c"
  unfolding Inputs_sim_def
  by (elim conjE) (intro conjI; (erule (1) f64_sim_trans | simp))

text \<open>An update that keeps_sim the similarity; all those of the device do.\<close>

definition keeps_sim :: "(Inputs \<Rightarrow> Inputs) \<Rightarrow> bool" where
  "keeps_sim f \<longleftrightarrow> (\<forall>i j. Inputs_sim i j \<longrightarrow> Inputs_sim (f i) (f j))"

lemma setter_table_keeps:
  "list_all (\<lambda>(n, s). case s of EnumSetter _ f \<Rightarrow> \<forall>b. keeps_sim (f b) | NumberSetter _ f \<Rightarrow> \<forall>x. keeps_sim (f x))
     inpSetter_table"
  by (simp add: inpSetter_table_def keeps_sim_def Inputs_sim_def)

lemma run_setter_keeps:
  assumes "inpSetter n = Some s" and "run_setter nm s v = Some (f, w)"
  shows "keeps_sim f"
proof -
  have "(n, s) \<in> set inpSetter_table"
    using assms(1) by (simp add: inpSetter_def map_of_SomeD)
  with setter_table_keeps
  have "case s of EnumSetter _ f \<Rightarrow> \<forall>b. keeps_sim (f b) | NumberSetter _ f \<Rightarrow> \<forall>x. keeps_sim (f x)"
    unfolding list_all_iff by fast
  then show ?thesis
    using assms(2) by (cases s; cases v) auto
qed

lemma genset_change_keeps:
  assumes "subs_ok subs" and "genset_change nm subs ev = Some (ch, fills)"
  shows "keeps_sim (chg_f ch)"
proof (cases ev)
  case (GsValue k v)
  with assms(2) obtain f w where k: "k < length subs" and f: "chg_f ch = f"
    and w: "run_setter nm (gsub_setter (subs ! k)) v = Some (f, w)"
    by (auto simp: genset_change_def split: if_splits)
  obtain n where "inpSetter n = Some (gsub_setter (subs ! k))"
    using assms(1) k by (auto simp: subs_ok_def list_all_length)
  from run_setter_keeps [OF this w] f show ?thesis by simp
next
  case (GsTick t)
  with assms(2) have "chg_f ch = (\<lambda>i. i\<lparr>Time := t\<rparr>)"
    by (auto simp: genset_change_def)
  moreover have "keeps_sim (\<lambda>i. i\<lparr>Time := t\<rparr>)"
    by (simp add: keeps_sim_def Inputs_sim_def)
  ultimately show ?thesis by simp
qed (use assms(2) in \<open>simp add: genset_change_def\<close>)

lemma ctl_inputs_change:
  "keeps_sim (chg_f ch) \<Longrightarrow> Inputs_sim (ctl_inputs c) i \<Longrightarrow>
     Inputs_sim (ctl_inputs (fst (handle_change ch c))) (chg_f ch i)"
  by (auto simp: handle_change_def Let_def case_prod_beta ctl_compute_frame keeps_sim_def
      intro: Inputs_sim_trans [OF Inputs_eq_sim])

lemma ctl_inputs_changes:
  "list_all (\<lambda>ch. keeps_sim (chg_f ch)) chs \<Longrightarrow> Inputs_sim (ctl_inputs c) i \<Longrightarrow>
     Inputs_sim (ctl_inputs (fst (handle_changes chs c))) (foldl (\<lambda>i ch. chg_f ch i) i chs)"
  by (induction chs arbitrary: c i) (simp_all add: Let_def case_prod_beta ctl_inputs_change)

lemma genset_changes_keep:
  "subs_ok subs \<Longrightarrow> list_all (\<lambda>ch. keeps_sim (chg_f ch)) (genset_changes nm subs evs)"
  by (induction evs) (auto split: option.splits dest: genset_change_keeps)

lemma genset_start_inputs: "ctl_inputs (fst (ctl_start (genset_controller d))) = zero_Inputs"
  by (simp add: ctl_start_def Let_def case_prod_beta ctl_compute_frame genset_controller_def
      NewController_def)

lemma genset_loop_panics_iff:
  "fst (genset_loop ts nm subs evs c) = GsPanic \<longleftrightarrow>
     list_ex (\<lambda>ev. genset_change nm subs ev \<noteq> None) (tl (dropWhile (\<lambda>ev. ev \<noteq> GsCtxDone) evs))"
  by (induction evs arbitrary: c)
    (simp_all add: genset_closed_def Let_def case_prod_beta split: option.splits)

section \<open>A device\<close>

definition demo_filter :: filter_conf where
  "demo_filter = fst (filter_transform no_filter)"

definition demo_gs :: "GensetDeviceBindingConfig list \<Rightarrow> genset_device" where
  "demo_gs bs = genset_NewDevice
     \<lparr>dc_Name = ''genset'', dc_Filter = demo_filter, dc_LogDebug = False, dc_LogComDebug = False\<rparr>
     \<lparr>ed_DeviceConfig = \<lparr>cd_name = ''genset'', cd_filter = demo_filter,
          cd_restartInterval = 200 * millisecond, cd_restartIntervalMaxBackoff = minute,
          cd_logDebug = False, cd_logComDebug = False\<rparr>,
       ed_inputBindings = bs, ed_outputBindings = [], ed_params = zero_Params\<rparr>"

text \<open>The reset switch, the third command register, is switched on and off again.\<close>

definition demo_reset :: "bool \<Rightarrow> genset_event" where
  "demo_reset b = GsValue 2 (EnumRegisterValue ''genset'' ResetSwitchRegister (boolToOnOff b))"

lemma demo_reset_run:
  "case genset_Run (\<lambda>t. '''') (demo_gs []) [demo_reset True, demo_reset False] of
     (GsRan st c, acts) \<Rightarrow> st = GsRunning \<and> Node (ctl_state c) = Off \<and>
       fills_of StateRegister acts = [EnumRegisterValue ''genset'' StateRegister (node_int Reset)]
   | (GsFailed n, acts) \<Rightarrow> False"
  by code_simp

lemma availability_not_state: "val_reg (SetAvailable (gs_State (genset_NewDevice cfg gc)) b) \<noteq> StateRegister"
  by (simp add: genset_NewDevice_def SetAvailable_NewState availabilityRegister_def StateRegister_def
      NewRegisterStruct_def AvailabilityRegisterName_def)

lemma fills_of_adds: "fills_of r (fst (genset_addToRegisterDb sp bs)) = []"
  by (simp add: genset_addToRegisterDb_def switch_register_def Let_def)

section \<open>Properties\<close>

text \<open>
  C34: the states published in the register \<open>State\<close> are those the controller runs through, a path
  of its transition diagram from \<open>Off\<close> to the state it is in, without the \<open>Off\<close> states: the
  callback compares with the initial state and not with the last one, so \<open>Off\<close> is never published,
  and a genset that is off again keeps its last other state in the register.
\<close>

theorem genset_states_published:
  assumes "genset_Run ts (genset_NewDevice cfg gc) evs = (GsRan st c, acts)"
  shows "\<exists>path. edge_path (Off # path) \<and> last (Off # path) = Node (ctl_state c) \<and>
    fills_of StateRegister acts = map (\<lambda>n. EnumRegisterValue (dc_Name cfg) StateRegister (node_int n))
      (filter (\<lambda>n. n \<noteq> Off) path)"
proof -
  let ?d = "genset_NewDevice cfg gc"
  let ?c0 = "genset_controller ?d" and ?chs = "genset_changes (gs_Name ?d) (genset_subs ?d) evs"
  have known: "bindings_known ?d"
    using assms by (simp add: genset_Run_eq split: if_splits)
  have nm: "gs_Name ?d = dc_Name cfg"
    by (simp add: gs_Name_def genset_NewDevice_def ds_Name_def)
  have "onState ?c0" and off: "Node (ctl_state ?c0) = Off"
    by (simp_all add: genset_controller_def NewController_def Let_def)
  then obtain ss where ss: "state_events (snd (ctl_Run ?chs ?c0)) = ctl_state ?c0 # ss"
      "edge_path (map Node (ctl_state ?c0 # ss))" "last (ctl_state ?c0 # ss) = ctl_state (fst (ctl_Run ?chs ?c0))"
    using ctl_Run_path [of ?c0 ?chs] by blast
  have "c = fst (ctl_Run ?chs ?c0)"
    using assms known by (simp add: genset_Run_eq genset_loop_controller ctl_Run_def Let_def case_prod_beta)
  then have "last (Off # map Node ss) = Node (ctl_state c)"
    using ss(3) off by (metis last_map list.map(2) list.simps(3))
  moreover have "fills_of StateRegister acts =
      fills_of StateRegister (publish_events ts (gs_Name ?d) Off (snd (ctl_Run ?chs ?c0)))"
    using assms known
    by (auto simp: genset_Run_eq fills_of_adds availability_not_state genset_loop_fills genset_subs_ok
        ctl_Run_def Let_def case_prod_beta publish_events_append)
  ultimately show ?thesis
    using ss(1,2) off by (intro exI [of _ "map Node ss"]) (simp add: fills_of_events nm)
qed

theorem genset_states_published_witness:
  "\<exists>c acts path. genset_Run (\<lambda>t. '''') (demo_gs []) [demo_reset True, demo_reset False] = (GsRan GsRunning c, acts) \<and>
     last (Off # path) = Off \<and> [node_int Reset] = map node_int (filter (\<lambda>n. n \<noteq> Off) path)"
proof -
  obtain c acts where run: "genset_Run (\<lambda>t. '''') (demo_gs []) [demo_reset True, demo_reset False] = (GsRan GsRunning c, acts)"
    and c: "Node (ctl_state c) = Off" and
    acts: "fills_of StateRegister acts = [EnumRegisterValue ''genset'' StateRegister (node_int Reset)]"
    using demo_reset_run by (auto split: prod.splits genset_result.splits)
  from genset_states_published [OF run [unfolded demo_gs_def]] c obtain path where
    "last (Off # path) = Off" and fills: "fills_of StateRegister acts =
      map (\<lambda>n. EnumRegisterValue ''genset'' StateRegister (node_int n)) (filter (\<lambda>n. n \<noteq> Off) path)"
    by auto
  from arg_cong [OF trans [OF acts [symmetric] fills], of "map enum_value"]
  have "[node_int Reset] = map node_int (filter (\<lambda>n. n \<noteq> Off) path)"
    by (simp add: comp_def)
  with run \<open>last (Off # path) = Off\<close> show ?thesis
    by (intro exI [of _ c] exI [of _ acts] exI [of _ path] conjI)
qed


text \<open>
  The inputs of the controller are those last received: they are the changes of the values
  and ticks handled, applied in order to the zero inputs, up to the sign of a zero. Nothing
  received is lost or reordered, and values of the wrong kind change nothing.
\<close>

theorem genset_inputs_received:
  assumes "genset_Run ts d evs = (GsRan st c, acts)"
  shows "Inputs_sim (ctl_inputs c)
    (foldl (\<lambda>i ch. chg_f ch i) zero_Inputs (genset_changes (gs_Name d) (genset_subs d) evs))"
proof -
  have known: "bindings_known d"
    using assms by (simp add: genset_Run_eq split: if_splits)
  have "Inputs_sim (ctl_inputs (fst (ctl_start (genset_controller d)))) zero_Inputs"
    by (simp add: genset_start_inputs)
  with genset_changes_keep [OF genset_subs_ok [OF known]] show ?thesis
    using assms known by (auto simp: genset_Run_eq genset_loop_controller intro!: ctl_inputs_changes)
qed

theorem genset_inputs_received_witness:
  "\<exists>c acts. genset_Run (\<lambda>t. '''') (demo_gs []) [demo_reset True, demo_reset False] = (GsRan GsRunning c, acts) \<and>
     \<not> ResetSwitch (ctl_inputs c)"
proof -
  obtain c acts where run: "genset_Run (\<lambda>t. '''') (demo_gs []) [demo_reset True, demo_reset False] = (GsRan GsRunning c, acts)"
    using demo_reset_run by (auto split: prod.splits genset_result.splits)
  have "\<not> ResetSwitch (foldl (\<lambda>i ch. chg_f ch i) zero_Inputs
      (genset_changes (gs_Name (demo_gs [])) (genset_subs (demo_gs [])) [demo_reset True, demo_reset False]))"
    by code_simp
  with genset_inputs_received [OF run] run show ?thesis
    by (auto simp: Inputs_sim_def)
qed

definition announced :: "device_action list \<Rightarrow> register list" where
  "announced acts = concat (map (\<lambda>a. case a of AddRegisters rs \<Rightarrow> rs | _ \<Rightarrow> []) acts)"

definition input_announced :: "bool \<Rightarrow> GensetDeviceBindingConfig list \<Rightarrow> string \<Rightarrow> bool" where
  "input_announced sp bs n \<longleftrightarrow>
     (if n \<in> {''ArmSwitch'', ''CommandSwitch'', ''ResetSwitch''} then \<not> isBindedInput n bs
      else if n = ''ArmSwitchRO'' then isBindedInput ''ArmSwitch'' bs
      else if n = ''CommandSwitchRO'' then isBindedInput ''CommandSwitch'' bs
      else if n = ''ResetSwitchRO'' then isBindedInput ''ResetSwitch'' bs
      else n \<in> {''U2'', ''U3'', ''P2'', ''P3''} \<longrightarrow> \<not> sp)"

definition genset_registers :: "register list" where
  "genset_registers =
     [ArmSwitchRegister, ArmSwitchRegisterRO, CommandSwitchRegister, CommandSwitchRegisterRO,
      ResetSwitchRegister, ResetSwitchRegisterRO] @ InputRegisters3P @ StateRegisters @ OutputRegisters"

definition announced_names :: "bool \<Rightarrow> GensetDeviceBindingConfig list \<Rightarrow> string list" where
  "announced_names sp bs = map reg_name (announced (fst (genset_addToRegisterDb sp bs)))"

lemma genset_registers_inj: "inj_on reg_name (set genset_registers)"
proof -
  have "distinct (map reg_name genset_registers)"
    by (simp add: genset_registers_def InputRegisters3P_def StateRegisters_def OutputRegisters_def
        genset_register_unfold)
  then show ?thesis by (simp add: distinct_map)
qed

lemma announced_registers:
  "set (announced (fst (genset_addToRegisterDb sp bs))) \<subseteq> set genset_registers"
  using set_take_subset [of "length InputRegisters3P - 4" InputRegisters3P]
  by (auto simp: announced_def genset_addToRegisterDb_def switch_register_def Let_def
      genset_registers_def InputRegisters1P_def split: if_splits)

lemma setter_registers:
  "list_all (\<lambda>(n, s). setter_register s \<in> set genset_registers \<and> reg_name (setter_register s) = n)
     inpSetter_table"
proof -
  have "list_all (\<lambda>(n, s). reg_name (setter_register s) = n) inpSetter_table"
    by (simp add: inpSetter_table_def setter_register_def genset_register_unfold)
  moreover have "list_all (\<lambda>(n, s). setter_register s \<in> set genset_registers) inpSetter_table"
    by (simp add: inpSetter_table_def setter_register_def genset_registers_def InputRegisters3P_def)
  ultimately show ?thesis by (auto simp: list_all_iff)
qed

lemma announced_names_inputs:
  "list_all (\<lambda>n. n \<in> set (announced_names sp bs) \<longleftrightarrow> input_announced sp bs n) input_names"
  by (cases "isBindedInput ''ArmSwitch'' bs"; cases "isBindedInput ''CommandSwitch'' bs";
      cases "isBindedInput ''ResetSwitch'' bs"; cases sp)
    (simp_all add: input_names_def inpSetter_table_def announced_names_def announced_def
      genset_addToRegisterDb_def switch_register_def Let_def input_announced_def
      InputRegisters1P_def InputRegisters3P_def StateRegisters_def OutputRegisters_def
      genset_register_unfold)

text \<open>
  Which of the nineteen inputs has its register announced: a switch its writable register
  unless some binding's register has the name of the switch, its read-only register only then,
  and the inputs of the second and third phase only in a three-phase genset. What counts is the
  name of the bound register, not the name of the input it is bound to: so a switch that is bound to
  another register stays writable by command, and one bound to a register of its own name
  fills a register that is not announced.
\<close>

theorem genset_registers_announced:
  assumes "inpSetter n = Some s"
  shows "setter_register s \<in> set (announced (fst (genset_addToRegisterDb sp bs))) \<longleftrightarrow>
    input_announced sp bs n"
proof -
  have ns: "(n, s) \<in> set inpSetter_table"
    using assms by (simp add: inpSetter_def map_of_SomeD)
  then have s: "setter_register s \<in> set genset_registers" "reg_name (setter_register s) = n"
    using setter_registers by (auto simp: list_all_iff)
  have "n \<in> set input_names"
    using ns by (force simp: input_names_def)
  then have "n \<in> set (announced_names sp bs) \<longleftrightarrow> input_announced sp bs n"
    using announced_names_inputs by (simp add: list_all_iff)
  moreover have "setter_register s \<in> set (announced (fst (genset_addToRegisterDb sp bs))) \<longleftrightarrow>
      reg_name (setter_register s) \<in> reg_name ` set (announced (fst (genset_addToRegisterDb sp bs)))"
    by (rule inj_on_image_mem_iff [OF genset_registers_inj s(1) announced_registers, symmetric])
  ultimately show ?thesis
    by (simp add: announced_names_def s(2))
qed

theorem genset_registers_announced_witness:
  "ArmSwitchRegister \<notin> set (announced (fst (genset_addToRegisterDb True
     [\<lparr>bi_name = ''ArmSwitch'', bi_deviceName = ''d'', bi_registerName = ''ArmSwitch''\<rparr>])))"
proof -
  have s: "inpSetter ''ArmSwitch'' = Some (EnumSetter ArmSwitchRegister (\<lambda>v i. i\<lparr>ArmSwitch := v\<rparr>))"
    by (simp add: inpSetter_def inpSetter_table_def)
  show ?thesis
    using genset_registers_announced [OF s, of True
        "[\<lparr>bi_name = ''ArmSwitch'', bi_deviceName = ''d'', bi_registerName = ''ArmSwitch''\<rparr>]"]
    by (simp add: setter_register_def input_announced_def isBindedInput_def)
qed

end
