(* ===== verification/Finder.thy ===== *)
theory Finder
  imports Waveshare
begin

text \<open>
  src/modbusDevice/finderRegister.go and finder7M38.go: the Finder 7M.38 energy meter on a
  modbus, its register table, the decoding of its registers and the polling device.
\<close>

section \<open>float32\<close>

text \<open>The float64 a big-endian IEEE float32 converts to, exactly.\<close>

definition f32_value :: "32 word \<Rightarrow> f64" where
  "f32_value w =
     (let neg = bit w 31;
          e = uint (drop_bit 23 w AND 0xFF);
          m = uint (w AND 0x7FFFFF)
      in if e = 255 then (if m \<noteq> 0 then F_NaN else if neg then F_NInf else F_PInf)
         else if e = 0 \<and> m = 0 then (if neg then F_NegZero else F_Fin 0)
         else let q = (if e = 0 then of_int m * pow2 (- 149)
                       else of_int (2 ^ 23 + m) * pow2 (e - 150))
              in F_Fin (if neg then - q else q))"

section \<open>Registers\<close>

datatype FinderRegisterType = FinderT1 | FinderTStr2 | FinderTStr8 | FinderTStr16 | FinderTFloat

record FinderRegister =
  fr_RegisterStruct :: register
  fr_registerType :: FinderRegisterType
  fr_addressBegin :: "16 word"
  fr_addressEnd :: "16 word"
  fr_bit :: int

text \<open>A wrong number of bytes ends the program with \<open>log.Fatalf\<close>: \<open>None\<close>.\<close>

definition NewFinderRegister ::
  "string \<Rightarrow> string \<Rightarrow> string \<Rightarrow> FinderRegisterType \<Rightarrow> 16 word \<Rightarrow> 16 word \<Rightarrow> enum_map \<Rightarrow> int \<Rightarrow>
     string \<Rightarrow> int \<Rightarrow> FinderRegister option" where
  "NewFinderRegister category name description registerType addressBegin addressEnd enum bt unit srt =
     (let gotBytes = (addressEnd - addressBegin + 1) * 2;
          (rt, expectBytes) =
            (case registerType of
               FinderT1 \<Rightarrow> ((if enum \<noteq> None then EnumRegister else NumberRegister), 2)
             | FinderTStr2 \<Rightarrow> (TextRegister, 2)
             | FinderTStr8 \<Rightarrow> (TextRegister, 8)
             | FinderTStr16 \<Rightarrow> (TextRegister, 16)
             | FinderTFloat \<Rightarrow> (NumberRegister, 4))
      in if gotBytes \<noteq> expectBytes then None
         else Some \<lparr>fr_RegisterStruct = NewRegisterStruct category name description rt enum unit srt False,
                    fr_registerType = registerType, fr_addressBegin = addressBegin,
                    fr_addressEnd = addressEnd, fr_bit = bt\<rparr>)"

definition addToRegisterDb :: "register_db \<Rightarrow> FinderRegister list \<Rightarrow> register_db \<times> register_send list" where
  "addToRegisterDb rdb registers = AddStruct rdb (map fr_RegisterStruct registers)"

definition CountRegisters :: "FinderRegister \<Rightarrow> int" where
  "CountRegisters r = uint (fr_addressEnd r) - uint (fr_addressBegin r) + 1"

definition CountBytes :: "FinderRegister \<Rightarrow> int" where
  "CountBytes r = CountRegisters r * 2"

section \<open>The register table\<close>

definition RegisterList7M38FloatRegisters ::
  "(16 word \<times> int \<times> string \<times> string \<times> string \<times> string) list" where
  "RegisterList7M38FloatRegisters =
     [(32480, 620, ''Device Info'', ''RunTime'', ''Run time'', ''s''),
      (32484, 0, ''Essential'', ''UAvgPN'', ''Uavg (phase to neutral)'', ''V''),
      (32486, 1, ''Essential'', ''UAvgPP'', ''Uavg (phase to phase)'', ''V''),
      (32488, 100, ''Current'', ''SI'', ''S I'', ''A''),
      (32490, 25, ''Essential'', ''Pt'', ''Active Power Total'', ''W''),
      (32492, 200, ''Power'', ''Qt'', ''Reactive Power Total'', ''var''),
      (32494, 201, ''Power'', ''St'', ''Apparent Power Total'', ''VA''),
      (32496, 21, ''Essential'', ''PFt'', ''Power Factor Total'', ''''),
      (32498, 5, ''Essential'', ''F'', ''Frequency'', ''Hz''),
      (32500, 10, ''Essential'', ''U1'', ''U1'', ''V''),
      (32502, 11, ''Essential'', ''U2'', ''U2'', ''V''),
      (32504, 12, ''Essential'', ''U3'', ''U3'', ''V''),
      (32508, 300, ''Phase Geometry'', ''U12'', ''U12'', ''V''),
      (32510, 301, ''Phase Geometry'', ''U23'', ''U23'', ''V''),
      (32512, 302, ''Phase Geometry'', ''U31'', ''U31'', ''V''),
      (32516, 101, ''Current'', ''I1'', ''I1'', ''A''),
      (32518, 102, ''Current'', ''I2'', ''I2'', ''A''),
      (32520, 103, ''Current'', ''I3'', ''I3'', ''A''),
      (32524, 104, ''Current'', ''INCalc'', ''I neutral (calculated)'', ''A''),
      (32526, 105, ''Current'', ''InMeas'', ''I neutral (measured)'', ''A''),
      (32528, 106, ''Current'', ''Iavg'', ''Iavg'', ''A''),
      (32530, 20, ''Essential'', ''P1'', ''Active Power Phase L1'', ''W''),
      (32532, 21, ''Essential'', ''P2'', ''Active Power Phase L2'', ''W''),
      (32534, 22, ''Essential'', ''P3'', ''Active Power Phase L3'', ''W''),
      (32538, 202, ''Power'', ''Q1'', ''Reactive Power Phase L1'', ''var''),
      (32540, 203, ''Power'', ''Q2'', ''Reactive Power Phase L2'', ''var''),
      (32542, 204, ''Power'', ''Q3'', ''Reactive Power Phase L3'', ''var''),
      (32544, 205, ''Power'', ''Qt'', ''Reactive Power Total'', ''var''),
      (32546, 206, ''Power'', ''S1'', ''Apparent Power Phase L1 '', ''VA''),
      (32548, 207, ''Power'', ''S2'', ''Apparent Power Phase L2 '', ''VA''),
      (32550, 208, ''Power'', ''S3'', ''Apparent Power Phase L3 '', ''VA''),
      (32552, 209, ''Power'', ''St'', ''Apparent Power Total'', ''VA''),
      (32554, 210, ''Power'', ''PF1'', ''Power Factor Phase 1'', ''''),
      (32556, 211, ''Power'', ''PF2'', ''Power Factor Phase 2'', ''''),
      (32558, 212, ''Power'', ''PF3'', ''Power Factor Phase 3'', ''''),
      (32560, 213, ''Power'', ''PFt'', ''Power Factor Total'', ''''),
      (32562, 214, ''Power'', ''PF1'', ''CAP/IND P. F. Phase 1'', ''''),
      (32564, 215, ''Power'', ''PF2'', ''CAP/IND P. F. Phase 2'', ''''),
      (32566, 216, ''Power'', ''PF3'', ''CAP/IND P. F. Phase 3'', ''''),
      (32568, 217, ''Power'', ''PFt'', ''CAP/IND P. F. Total'', ''''),
      (32570, 310, ''Phase Geometry'', ''J1'', ''j1 (angle between U1 and I1)'', [CHR 0xC2, CHR 0xB0]),
      (32572, 311, ''Phase Geometry'', ''J2'', ''j2 (angle between U2 and I2)'', [CHR 0xC2, CHR 0xB0]),
      (32574, 312, ''Phase Geometry'', ''J3'', ''j3 (angle between U3 and I3) '', [CHR 0xC2, CHR 0xB0]),
      (32576, 313, ''Phase Geometry'', ''Jt'', ''Power Angle Total (atan2(Pt,Qt))'', [CHR 0xC2, CHR 0xB0]),
      (32578, 314, ''Phase Geometry'', ''J12'', ''j12 (angle between U1 and U2)'', [CHR 0xC2, CHR 0xB0]),
      (32580, 315, ''Phase Geometry'', ''J23'', ''j23 (angle between U2 and U3)'', [CHR 0xC2, CHR 0xB0]),
      (32582, 316, ''Phase Geometry'', ''J31'', ''j31 (angle between U3 and U1)'', [CHR 0xC2, CHR 0xB0]),
      (32588, 400, ''Distortion'', ''I1Thd'', ''I1 THD'', ''%''),
      (32590, 401, ''Distortion'', ''I2Thd'', ''I2 THD'', ''%''),
      (32592, 402, ''Distortion'', ''I3Thd'', ''I3 THD'', ''%''),
      (32594, 403, ''Distortion'', ''U1Thd'', ''U1 THD'', ''%''),
      (32596, 404, ''Distortion'', ''U2Thd'', ''U2 THD'', ''%''),
      (32598, 405, ''Distortion'', ''U3Thd'', ''U3 THD'', ''%''),
      (32638, 500, ''Energy Counter'', ''EcN1'', ''Energy Counter n1'', ''Wh''),
      (32640, 501, ''Energy Counter'', ''EcN2'', ''Energy Counter n2'', ''varh''),
      (32642, 502, ''Energy Counter'', ''EcN3'', ''Energy Counter n3'', ''Wh''),
      (32644, 503, ''Energy Counter'', ''EcN4'', ''Energy Counter n4'', ''varh''),
      (32658, 40, ''Essential'', ''InternalTemp'', ''Internal Temperature'', [CHR 0xC2, CHR 0xB0, CHR ''C'']),
      (32985, 610, ''Device Info'', ''Unom'', ''nominal phase voltage'', ''V''),
      (32987, 611, ''Device Info'', ''Inom'', ''nominal phase current'', ''A''),
      (32989, 612, ''Device Info'', ''Pnom'', ''nominal phase power'', ''W''),
      (32991, 613, ''Device Info'', ''Ptot'', ''nominal total power'', ''W''),
      (32993, 614, ''Device Info'', ''Itot'', ''nominal total current'', ''A''),
      (32995, 615, ''Device Info'', ''Fnom'', ''nominal frequency'', ''Hz'')]"

definition invalidEnum :: enum_map where
  "invalidEnum = Some [(0, ''valid''), (1, ''invalid'')]"

definition productRegisters :: "FinderRegister option list" where
  "productRegisters =
     [NewFinderRegister ''Device Info'' ''ModelNumber'' ''Model Number'' FinderTStr16
        30001 30008 None (-1) '''' 600,
      NewFinderRegister ''Device Info'' ''SerialNumber'' ''Serial Number'' FinderTStr8
        30009 30012 None (-1) '''' 601,
      NewFinderRegister ''Device Info'' ''SoftwareReference'' ''Software Reference'' FinderT1
        30013 30013 None (-1) '''' 602,
      NewFinderRegister ''Device Info'' ''HardwareReference'' ''Hardware Reference'' FinderTStr2
        30014 30014 None (-1) '''' 603,
      NewFinderRegister ''Essential'' ''P1valid'' ''Phase 1 measurement'' FinderT1
        30101 30101 invalidEnum 0 '''' 30,
      NewFinderRegister ''Essential'' ''P2valid'' ''Phase 2 measurement'' FinderT1
        30101 30101 invalidEnum 1 '''' 31,
      NewFinderRegister ''Essential'' ''P3valid'' ''Phase 3 measurement'' FinderT1
        30101 30101 invalidEnum 2 '''' 32]"

definition RegisterList7M38 :: "FinderRegister list option" where
  "RegisterList7M38 =
     those (productRegisters @
       map (\<lambda>(addr, srt, cat, nm, desc, unit).
              NewFinderRegister cat nm desc FinderTFloat addr (addr + 1) None (-1) unit srt)
         RegisterList7M38FloatRegisters)"

section \<open>Reading registers\<close>

definition FinderFunctionReadInputRegisters :: byte where "FinderFunctionReadInputRegisters = 0x04"
definition InputRegisterAddressOffset :: "16 word" where "InputRegisterAddressOffset = 30000"

text \<open>The byte count is the one of \<open>CountBytes\<close>, which is positive for every register of the table.\<close>

definition FinderReadInputRegistersRaw ::
  "(byte list \<Rightarrow> 16 word) \<Rightarrow> 'b write_read \<Rightarrow> modbus_device \<Rightarrow> FinderRegister \<Rightarrow> 'b \<Rightarrow>
     (modbus_error + byte list) \<times> 'b" where
  "FinderReadInputRegistersRaw crc writeRead c register bus =
     (let requestPayload = be16 (fr_addressBegin register - InputRegisterAddressOffset) @
            be16 (word_of_int (CountRegisters register));
          responsePayloadLength = CountBytes register;
          (res, bus') = callFunction crc writeRead (mc_Address (md_Config c))
            FinderFunctionReadInputRegisters requestPayload (1 + nat responsePayloadLength) bus
      in case res of
           Inl e \<Rightarrow> (Inl e, bus')
         | Inr response \<Rightarrow>
             (let byteCount = response ! 0
              in if uint byteCount \<noteq> responsePayloadLength
                 then (Inl (ByteCountMismatch (nat responsePayloadLength) byteCount), bus')
                 else (Inr (tl response), bus')))"

fun finder_retry ::
  "nat \<Rightarrow> ('b \<Rightarrow> (modbus_error + byte list) \<times> 'b) \<Rightarrow> modbus_error + byte list \<Rightarrow> 'b \<Rightarrow>
     (modbus_error + byte list) \<times> 'b" where
  "finder_retry 0 raw res bus = (res, bus)"
| "finder_retry (Suc n) raw res bus =
     (case raw bus of
        (Inr response, bus') \<Rightarrow> (Inr response, bus')
      | (Inl e, bus') \<Rightarrow> finder_retry n raw (Inl e) bus')"

definition FinderReadInputRegisters ::
  "(byte list \<Rightarrow> 16 word) \<Rightarrow> 'b write_read \<Rightarrow> modbus_device \<Rightarrow> FinderRegister \<Rightarrow> 'b \<Rightarrow>
     (modbus_error + byte list) \<times> 'b" where
  "FinderReadInputRegisters crc writeRead c register bus =
     finder_retry 8 (FinderReadInputRegistersRaw crc writeRead c register) (Inr []) bus"

text \<open>The decoding of a response, by the kind of register.\<close>

definition decode_float :: "string \<Rightarrow> register \<Rightarrow> byte list \<Rightarrow> modbus_error + val" where
  "decode_float nm reg response = Inr (NumericRegisterValue nm reg (f32_value (get_be32 response)))"

definition decode_uint16 :: "string \<Rightarrow> register \<Rightarrow> byte list \<Rightarrow> modbus_error + val" where
  "decode_uint16 nm reg response =
     Inr (NumericRegisterValue nm reg (F_Fin (of_int (uint (get_be16 response)))))"

definition decode_enum :: "string \<Rightarrow> FinderRegister \<Rightarrow> byte list \<Rightarrow> modbus_error + val" where
  "decode_enum nm register response =
     (let v = uint (get_be16 response);
          enumIdx = (if fr_bit register \<ge> 0 then drop_bit (nat (fr_bit register)) v AND 1 else v)
      in case enum_lookup (reg_enum (fr_RegisterStruct register)) enumIdx of
           None \<Rightarrow> Inl (InvalidEnumIdx enumIdx)
         | Some _ \<Rightarrow> Inr (EnumRegisterValue nm (fr_RegisterStruct register) enumIdx))"

definition decode_string :: "string \<Rightarrow> register \<Rightarrow> byte list \<Rightarrow> modbus_error + val" where
  "decode_string nm reg response = Inr (TextRegisterValue nm reg (map (char_of \<circ> unat) response))"

definition FinderReadWith ::
  "(byte list \<Rightarrow> modbus_error + val) \<Rightarrow> (byte list \<Rightarrow> 16 word) \<Rightarrow> 'b write_read \<Rightarrow> modbus_device \<Rightarrow>
     FinderRegister \<Rightarrow> 'b \<Rightarrow> (modbus_error + val) \<times> 'b" where
  "FinderReadWith decode crc writeRead c register bus =
     (let (res, bus') = FinderReadInputRegisters crc writeRead c register bus
      in (case res of Inl e \<Rightarrow> Inl e | Inr response \<Rightarrow> decode response, bus'))"

definition FinderReadFloatRegister ::
  "(byte list \<Rightarrow> 16 word) \<Rightarrow> 'b write_read \<Rightarrow> modbus_device \<Rightarrow> FinderRegister \<Rightarrow> 'b \<Rightarrow>
     (modbus_error + val) \<times> 'b" where
  "FinderReadFloatRegister crc writeRead c register bus =
     FinderReadWith (decode_float (md_Name c) (fr_RegisterStruct register)) crc writeRead c register bus"

definition FinderReadUInt16Register ::
  "(byte list \<Rightarrow> 16 word) \<Rightarrow> 'b write_read \<Rightarrow> modbus_device \<Rightarrow> FinderRegister \<Rightarrow> 'b \<Rightarrow>
     (modbus_error + val) \<times> 'b" where
  "FinderReadUInt16Register crc writeRead c register bus =
     FinderReadWith (decode_uint16 (md_Name c) (fr_RegisterStruct register)) crc writeRead c register bus"

definition FinderReadEnumRegister ::
  "(byte list \<Rightarrow> 16 word) \<Rightarrow> 'b write_read \<Rightarrow> modbus_device \<Rightarrow> FinderRegister \<Rightarrow> 'b \<Rightarrow>
     (modbus_error + val) \<times> 'b" where
  "FinderReadEnumRegister crc writeRead c register bus =
     FinderReadWith (decode_enum (md_Name c) register) crc writeRead c register bus"

definition FinderReadStringRegister ::
  "(byte list \<Rightarrow> 16 word) \<Rightarrow> 'b write_read \<Rightarrow> modbus_device \<Rightarrow> FinderRegister \<Rightarrow> 'b \<Rightarrow>
     (modbus_error + val) \<times> 'b" where
  "FinderReadStringRegister crc writeRead c register bus =
     FinderReadWith (decode_string (md_Name c) (fr_RegisterStruct register)) crc writeRead c register bus"

definition FinderReadRegister ::
  "(byte list \<Rightarrow> 16 word) \<Rightarrow> 'b write_read \<Rightarrow> modbus_device \<Rightarrow> FinderRegister \<Rightarrow> 'b \<Rightarrow>
     (modbus_error + val) \<times> 'b" where
  "FinderReadRegister crc writeRead c reg bus =
     (case reg_type (fr_RegisterStruct reg) of
        NumberRegister \<Rightarrow>
          (case fr_registerType reg of
             FinderTFloat \<Rightarrow> FinderReadFloatRegister crc writeRead c reg bus
           | FinderT1 \<Rightarrow> FinderReadUInt16Register crc writeRead c reg bus
           | _ \<Rightarrow> (Inl NotImplemented, bus))
      | EnumRegister \<Rightarrow> FinderReadEnumRegister crc writeRead c reg bus
      | TextRegister \<Rightarrow> FinderReadStringRegister crc writeRead c reg bus
      | _ \<Rightarrow> (Inl NotImplemented, bus))"

section \<open>The device\<close>

definition is_static :: "FinderRegister \<Rightarrow> bool" where
  "is_static r \<longleftrightarrow> reg_category (fr_RegisterStruct r) = ''Device Info'' \<or>
     reg_category (fr_RegisterStruct r) = ''Energy Counter''"

text \<open>
  \<open>ctxDone i\<close> tells whether the context is done when the poll looks at it after its fill
  number \<open>i\<close>.
\<close>

fun finder_execPoll ::
  "(byte list \<Rightarrow> 16 word) \<Rightarrow> 'b write_read \<Rightarrow> modbus_device \<Rightarrow> bool \<Rightarrow> (nat \<Rightarrow> bool) \<Rightarrow> nat \<Rightarrow>
     FinderRegister list \<Rightarrow> 'b \<Rightarrow> modbus_error option \<times> device_action list \<times> 'b" where
  "finder_execPoll crc writeRead c reducedSet ctxDone n [] bus = (None, [], bus)"
| "finder_execPoll crc writeRead c reducedSet ctxDone n (r # rs) bus =
     (if reducedSet \<and> is_static r then finder_execPoll crc writeRead c reducedSet ctxDone n rs bus
      else
        let (res, bus1) = FinderReadRegister crc writeRead c r bus
        in case res of
             Inl e \<Rightarrow> (Some e, [], bus1)
           | Inr v \<Rightarrow>
               if ctxDone n then (None, [FillState v], bus1)
               else (let (err, acts, bus2) =
                           finder_execPoll crc writeRead c reducedSet ctxDone (Suc n) rs bus1
                     in (err, FillState v # acts, bus2)))"

text \<open>An event of the loop is the cancelled context or a tick, with the context of its poll.\<close>

datatype finder_event = FinderCtxDone | FinderTick "nat \<Rightarrow> bool"

fun finder_loop ::
  "(byte list \<Rightarrow> 16 word) \<Rightarrow> 'b write_read \<Rightarrow> modbus_device \<Rightarrow> FinderRegister list \<Rightarrow> int \<Rightarrow>
     finder_event list \<Rightarrow> 'b \<Rightarrow> run_status \<times> device_action list \<times> 'b" where
  "finder_loop crc writeRead c registers pollCounter [] bus = (RunContinues, [], bus)"
| "finder_loop crc writeRead c registers pollCounter (FinderCtxDone # evs) bus =
     (RunReturned None False, [], bus)"
| "finder_loop crc writeRead c registers pollCounter (FinderTick ctxDone # evs) bus =
     (let reducedSet = (pollCounter mod 60 \<noteq> 0);
          (err, fills, bus1) = finder_execPoll crc writeRead c reducedSet ctxDone 0 registers bus
      in case err of
           Some e \<Rightarrow> (RunReturned (Some e) False, fills, bus1)
         | None \<Rightarrow> (let (st, acts, bus2) =
                          finder_loop crc writeRead c registers (pollCounter + 1) evs bus1
                    in (st, fills @ acts, bus2)))"

definition filter_finder :: "FinderRegister list \<Rightarrow> filter_conf \<Rightarrow> FinderRegister list" where
  \<comment> \<open>\<open>dataflow.FilterRegisters\<close> at the type \<open>FinderRegister\<close>\<close>
  "filter_finder rs conf = filter (\<lambda>r. RegisterFilter conf (fr_RegisterStruct r)) rs"

definition runFinder7M38 ::
  "(byte list \<Rightarrow> 16 word) \<Rightarrow> 'b write_read \<Rightarrow> modbus_device \<Rightarrow> FinderRegister list \<Rightarrow> (nat \<Rightarrow> bool) \<Rightarrow>
     finder_event list \<Rightarrow> 'b \<Rightarrow> run_status \<times> device_action list \<times> 'b" where
  "runFinder7M38 crc writeRead c registerList ctxDone evs bus =
     (let registers = filter_finder registerList (dc_Filter (ds_config (md_State c)));
          (err, fills, bus1) = finder_execPoll crc writeRead c False ctxDone 0 registers bus
      in case err of
           Some e \<Rightarrow> (RunReturned (Some e) True, AddRegisters (map fr_RegisterStruct registers) # fills, bus1)
         | None \<Rightarrow>
             (let (st, acts, bus2) = finder_loop crc writeRead c registers 0 evs bus1
              in (st,
                  AddRegisters (map fr_RegisterStruct registers) # fills @
                  [FillState (SetAvailable (md_State c) True)] @ acts @
                  (if st = RunContinues then [] else [FillState (SetAvailable (md_State c) False)]),
                  bus2)))"

section \<open>The table is well formed\<close>

text \<open>What the decoding of a register needs of it.\<close>

definition finder_ok :: "FinderRegister \<Rightarrow> bool" where
  "finder_ok r \<longleftrightarrow>
     (case fr_registerType r of
        FinderTFloat \<Rightarrow> CountBytes r = 4 \<and> reg_type (fr_RegisterStruct r) = NumberRegister
      | FinderT1 \<Rightarrow> CountBytes r = 2 \<and> reg_type (fr_RegisterStruct r) \<in> {NumberRegister, EnumRegister}
      | FinderTStr2 \<Rightarrow> CountBytes r = 2 \<and> reg_type (fr_RegisterStruct r) = TextRegister
      | FinderTStr8 \<Rightarrow> CountBytes r = 8 \<and> reg_type (fr_RegisterStruct r) = TextRegister
      | FinderTStr16 \<Rightarrow> CountBytes r = 16 \<and> reg_type (fr_RegisterStruct r) = TextRegister)"

lemma finder_ok_positive: "finder_ok r \<Longrightarrow> 0 < CountBytes r"
  by (auto simp: finder_ok_def split: FinderRegisterType.splits)

lemma those_map_ok:
  "list_all (\<lambda>x. case f x of Some r \<Rightarrow> P r | None \<Rightarrow> False) xs \<Longrightarrow>
     \<exists>l. those (map f xs) = Some l \<and> length l = length xs \<and> list_all P l"
proof (induction xs)
  case (Cons x xs)
  then obtain r where "f x = Some r" and "P r"
    by (auto split: option.splits)
  with Cons show ?case by auto
qed simp

definition float_register :: "16 word \<times> int \<times> string \<times> string \<times> string \<times> string \<Rightarrow> FinderRegister option" where
  "float_register = (\<lambda>(addr, srt, cat, nm, desc, unit).
     NewFinderRegister cat nm desc FinderTFloat addr (addr + 1) None (-1) unit srt)"

lemma float_register_ok:
  assumes "addr \<noteq> - 1"
  shows "\<exists>r. float_register (addr, srt, cat, nm, desc, unit) = Some r \<and> finder_ok r"
proof -
  have "uint (addr + 1) = uint addr + 1"
  proof -
    have "uint addr < 65536"
      using uint_lt2p [of addr] by simp
    moreover have "uint addr \<noteq> 65535"
    proof
      assume "uint addr = 65535"
      then have "addr = word_of_int 65535"
        by (metis word_of_int_uint)
      with assms show False by simp
    qed
    ultimately show ?thesis
      by (simp add: uint_word_ariths(1))
  qed
  then show ?thesis
    by (simp add: float_register_def NewFinderRegister_def finder_ok_def CountBytes_def CountRegisters_def
        NewRegisterStruct_def)
qed

lemma float_table_ok:
  "list_all (\<lambda>x. case float_register x of Some r \<Rightarrow> finder_ok r | None \<Rightarrow> False)
     RegisterList7M38FloatRegisters"
proof -
  have "list_all (\<lambda>x. fst x \<noteq> - 1) RegisterList7M38FloatRegisters"
    by (simp add: RegisterList7M38FloatRegisters_def)
  then show ?thesis
    unfolding list_all_iff
  proof (intro ballI)
    fix x
    assume "\<forall>x \<in> set RegisterList7M38FloatRegisters. fst x \<noteq> - 1"
      and x: "x \<in> set RegisterList7M38FloatRegisters"
    then have "fst x \<noteq> - 1" ..
    moreover obtain addr srt cat nm desc unit where "x = (addr, srt, cat, nm, desc, unit)"
      by (cases x) auto
    ultimately show "case float_register x of Some r \<Rightarrow> finder_ok r | None \<Rightarrow> False"
      using float_register_ok [of addr srt cat nm desc unit] by auto
  qed
qed

section \<open>Retries\<close>

text \<open>The state of the bus after \<open>k\<close> attempts, and whether all of them failed.\<close>

primrec bus_after :: "('b \<Rightarrow> (modbus_error + byte list) \<times> 'b) \<Rightarrow> nat \<Rightarrow> 'b \<Rightarrow> 'b" where
  "bus_after raw 0 bus = bus"
| "bus_after raw (Suc k) bus = bus_after raw k (snd (raw bus))"

primrec attempts_fail :: "('b \<Rightarrow> (modbus_error + byte list) \<times> 'b) \<Rightarrow> nat \<Rightarrow> 'b \<Rightarrow> bool" where
  "attempts_fail raw 0 bus \<longleftrightarrow> True"
| "attempts_fail raw (Suc k) bus \<longleftrightarrow> isl (fst (raw bus)) \<and> attempts_fail raw k (snd (raw bus))"

lemma finder_retry_iff:
  assumes "isl res \<or> 0 < n"
  shows "finder_retry n raw res bus = (Inr r, bus') \<longleftrightarrow>
    (\<exists>k<n. attempts_fail raw k bus \<and> raw (bus_after raw k bus) = (Inr r, bus'))"
  using assms
proof (induction n arbitrary: res bus)
  case 0
  then show ?case by (auto simp: isl_def)
next
  case (Suc n)
  obtain x b where raw: "raw bus = (x, b)"
    by fastforce
  have ex: "(\<exists>k<Suc n. P k) \<longleftrightarrow> P 0 \<or> (\<exists>k<n. P (Suc k))" for P
    using less_Suc_eq_0_disj by auto
  show ?case
  proof (cases x)
    case (Inl e)
    then show ?thesis
      using Suc.IH [of "Inl e" b] unfolding ex by (simp add: raw)
  next
    case (Inr y)
    then show ?thesis
      unfolding ex by (simp add: raw)
  qed
qed

lemma finder_retry_error:
  "isl (fst (finder_retry (Suc n) raw res bus)) \<longleftrightarrow> attempts_fail raw (Suc n) bus"
proof (induction n arbitrary: res bus)
  case 0
  show ?case by (cases "raw bus"; cases "fst (raw bus)") auto
next
  case (Suc n)
  obtain x b where raw: "raw bus = (x, b)"
    by fastforce
  show ?case
  proof (cases x)
    case (Inl e)
    then show ?thesis
      using Suc.IH [of "Inl e" b] by (simp add: raw del: attempts_fail.simps) (simp add: raw)
  next
    case (Inr y)
    then show ?thesis by (simp add: raw)
  qed
qed

lemma finder_retry_error_bus:
  "attempts_fail raw n bus \<Longrightarrow> snd (finder_retry n raw res bus) = bus_after raw n bus"
proof (induction n arbitrary: res bus)
  case (Suc n)
  obtain x b where raw: "raw bus = (x, b)"
    by fastforce
  with Suc show ?case by (cases x) auto
qed simp

text \<open>The polls of the reduced set are full polls of the registers that are not static.\<close>

lemma finder_execPoll_reduced:
  "finder_execPoll crc writeRead c True ctxDone n rs bus =
     finder_execPoll crc writeRead c False ctxDone n (filter (\<lambda>r. \<not> is_static r) rs) bus"
  by (induction rs arbitrary: n bus)
    (auto simp: Let_def case_prod_beta split: sum.splits)

section \<open>Properties\<close>

text \<open>
  The meter's register table never stops the program: all its registers can be created, and
  each has as many bytes as the decoding of its kind reads and a register type the reader
  implements.
\<close>

theorem finder_table:
  "\<exists>l. RegisterList7M38 = Some l \<and> length l = 71 \<and> list_all finder_ok l"
proof -
  have "list_all (\<lambda>x. case x of Some r \<Rightarrow> finder_ok r | None \<Rightarrow> False) productRegisters"
    by (simp add: productRegisters_def NewFinderRegister_def finder_ok_def CountBytes_def
        CountRegisters_def NewRegisterStruct_def invalidEnum_def)
  then have "list_all (\<lambda>x. case x of Some r \<Rightarrow> finder_ok r | None \<Rightarrow> False)
      (productRegisters @ map float_register RegisterList7M38FloatRegisters)"
    using float_table_ok by (auto simp: list_all_iff)
  from those_map_ok [of finder_ok "\<lambda>x. x", OF this]
  have "\<exists>l. RegisterList7M38 = Some l \<and>
      length l = length productRegisters + length RegisterList7M38FloatRegisters \<and> list_all finder_ok l"
    unfolding RegisterList7M38_def float_register_def [symmetric] list.map_ident length_append length_map .
  moreover have "length productRegisters = 7" and "length RegisterList7M38FloatRegisters = 64"
    by (simp_all add: productRegisters_def RegisterList7M38FloatRegisters_def)
  ultimately show ?thesis by simp
qed

text \<open>
  Reading a register's bytes tries up to eight times: it gives the answer of the first attempt
  that passes all checks, using the bus no further, and fails only after eight failed attempts.
\<close>

theorem finder_read_retries:
  "(FinderReadInputRegisters crc writeRead c register bus = (Inr r, bus') \<longleftrightarrow>
     (\<exists>k<8. attempts_fail (FinderReadInputRegistersRaw crc writeRead c register) k bus \<and>
        FinderReadInputRegistersRaw crc writeRead c register
          (bus_after (FinderReadInputRegistersRaw crc writeRead c register) k bus) = (Inr r, bus'))) \<and>
   (isl (fst (FinderReadInputRegisters crc writeRead c register bus)) \<longleftrightarrow>
     attempts_fail (FinderReadInputRegistersRaw crc writeRead c register) 8 bus)"
proof -
  let ?raw = "FinderReadInputRegistersRaw crc writeRead c register"
  have "isl (fst (finder_retry (Suc 7) ?raw (Inr []) bus)) \<longleftrightarrow> attempts_fail ?raw (Suc 7) bus"
    by (rule finder_retry_error)
  then have err: "isl (fst (finder_retry 8 ?raw (Inr []) bus)) \<longleftrightarrow> attempts_fail ?raw 8 bus"
    by (simp only: eval_nat_numeral BitM.simps)
  have "finder_retry 8 ?raw (Inr []) bus = (Inr r, bus') \<longleftrightarrow>
      (\<exists>k<8. attempts_fail ?raw k bus \<and> ?raw (bus_after ?raw k bus) = (Inr r, bus'))"
    by (rule finder_retry_iff) simp
  with err show ?thesis
    unfolding FinderReadInputRegisters_def by (rule conjI [rotated])
qed

text \<open>
  A tick of the loop reads the static registers (device information and energy counters) only
  every sixtieth time; the other polls are full polls of the remaining registers.
\<close>

theorem finder_tick_polls:
  "finder_loop crc writeRead c registers pollCounter [FinderTick ctxDone] bus =
     (case finder_execPoll crc writeRead c False ctxDone 0
         (if 60 dvd pollCounter then registers else filter (\<lambda>r. \<not> is_static r) registers) bus of
       (None, fills, bus') \<Rightarrow> (RunContinues, fills, bus')
     | (Some e, fills, bus') \<Rightarrow> (RunReturned (Some e) False, fills, bus'))"
proof (cases "60 dvd pollCounter")
  case True
  then have "pollCounter mod 60 = 0" by simp
  then show ?thesis
    using True by (simp add: Let_def case_prod_beta split: option.splits)
next
  case False
  then have "pollCounter mod 60 \<noteq> 0" by presburger
  then show ?thesis
    using False by (simp add: finder_execPoll_reduced Let_def case_prod_beta split: option.splits)
qed

end
