(* ===== verification/Config_Mqtt.thy ===== *)
theory Config_Mqtt
  imports Config_Devices
begin

text \<open>
  src/config/config.go, the section of the MQTT clients. A client publishes about the devices
  it does not itself receive (\<open>nonLoopMqttDevices\<close>); its seven sections share one
  transformation, whose flags say what the section supports. Strings that hold a percent
  sign are topic templates.
\<close>

section \<open>Records\<close>

record mqttDeviceSectionConfigRead =
  sdr_Filter :: "filterConfigRead option"

record mqttSectionConfigRead =
  sr_Enabled :: "bool option"
  sr_TopicTemplate :: "string option"
  sr_Interval :: string
  sr_Retain :: "bool option"
  sr_Qos :: "byte option"
  sr_Devices :: "(string, mqttDeviceSectionConfigRead) gomap"

record mqttClientDeviceConfigRead =
  mdr_MqttTopics :: "string list"

record mqttClientConfigRead =
  cr_Broker :: string
  cr_ProtocolVersion :: "int option"
  cr_User :: string
  cr_Password :: string
  cr_ClientId :: "string option"
  cr_KeepAlive :: string
  cr_ConnectRetryDelay :: string
  cr_ConnectTimeout :: string
  cr_TopicPrefix :: "string option"
  cr_ReadOnly :: "bool option"
  cr_MaxBacklogSize :: "int option"
  cr_MqttDevices :: "(string, mqttClientDeviceConfigRead) gomap"
  cr_AvailabilityClient :: mqttSectionConfigRead
  cr_AvailabilityDevice :: mqttSectionConfigRead
  cr_Structure :: mqttSectionConfigRead
  cr_Telemetry :: mqttSectionConfigRead
  cr_Realtime :: mqttSectionConfigRead
  cr_HomeassistantDiscovery :: mqttSectionConfigRead
  cr_Command :: mqttSectionConfigRead
  cr_LogDebug :: "bool option"
  cr_LogMessages :: "bool option"

record MqttDeviceSectionConfig =
  sd_name :: string
  sd_filter :: filter_conf

record MqttSectionConfig =
  ms_enabled :: bool
  ms_topicTemplate :: string
  ms_interval :: duration
  ms_retain :: bool
  ms_qos :: byte
  ms_devices :: "MqttDeviceSectionConfig list"

record MqttClientDeviceConfig =
  mcd_name :: string
  mcd_mqttTopics :: "string list"

record 'u MqttClientConfig =
  cl_name :: string
  cl_broker :: "'u option"
  cl_protocolVersion :: int
  cl_user :: string
  cl_password :: string
  cl_clientId :: string
  cl_keepAlive :: duration
  cl_connectRetryDelay :: duration
  cl_connectTimeout :: duration
  cl_topicPrefix :: string
  cl_readOnly :: bool
  cl_maxBacklogSize :: int
  cl_mqttDevices :: "MqttClientDeviceConfig list"
  cl_availabilityClient :: MqttSectionConfig
  cl_availabilityDevice :: MqttSectionConfig
  cl_structure :: MqttSectionConfig
  cl_telemetry :: MqttSectionConfig
  cl_realtime :: MqttSectionConfig
  cl_homeassistantDiscovery :: MqttSectionConfig
  cl_command :: MqttSectionConfig
  cl_logDebug :: bool
  cl_logMessages :: bool

section \<open>Sections\<close>

definition mqttDeviceSection_transform ::
  "mqttDeviceSectionConfigRead \<Rightarrow> string \<Rightarrow> DeviceConfig list \<Rightarrow> string list \<Rightarrow> bool \<Rightarrow>
     MqttDeviceSectionConfig checked" where
  "mqttDeviceSection_transform c nm devices prefix allowFilter =
     (let (filt, e) = filter_transform (case sdr_Filter c of None \<Rightarrow> no_filter | Some f \<Rightarrow> f)
      in (\<lparr>sd_name = nm, sd_filter = filt\<rparr>,
          check (\<not> existsByName cd_name nm devices) (prefix @ [''Devices''], NotDefined nm) @
          check (\<not> allowFilter \<and> sdr_Filter c \<noteq> None) (prefix @ [''Filter''], MustNotBeSet) @
          e))"

definition interval_field ::
  "string list \<Rightarrow> string \<Rightarrow> duration \<Rightarrow> bool \<Rightarrow> bool \<Rightarrow> duration checked" where
  "interval_field path s defaultInterval allowInterval allowZeroInterval =
     (if \<not> allowInterval then (0, check (length s > 0) (path, NotSupported))
      else if length s < 1 then (defaultInterval, [])
      else case ParseDuration s of
             None \<Rightarrow> (0, [(path, DurationParseError s)])
           | Some interval \<Rightarrow>
               if allowZeroInterval \<and> interval < 0 then (0, [(path, DurationNegative s)])
               else if \<not> allowZeroInterval \<and> interval \<le> 0 then (0, [(path, DurationTooSmall s)])
               else (interval, []))"

definition default_devices :: "DeviceConfig list \<Rightarrow> (string, mqttDeviceSectionConfigRead) gomap" where
  \<comment> \<open>no devices given: all of them\<close>
  "default_devices devices = foldl (\<lambda>m d. AList.update (cd_name d) \<lparr>sdr_Filter = None\<rparr> m) [] devices"

definition mqttSection_transform ::
  "mqttSectionConfigRead \<Rightarrow> string list \<Rightarrow> DeviceConfig list \<Rightarrow> bool \<Rightarrow> bool \<Rightarrow> string \<Rightarrow> duration \<Rightarrow>
     bool \<Rightarrow> bool \<Rightarrow> bool \<Rightarrow> bool \<Rightarrow> bool \<Rightarrow> bool \<Rightarrow> MqttSectionConfig checked" where
  "mqttSection_transform c p devices readOnly defaultEnabled defaultTopicTemplate defaultInterval
       allowInterval allowZeroInterval allowRetain defaultRetain allowDevices allowFilter =
     (let enabled = (if readOnly then False else or_default (sr_Enabled c) defaultEnabled);
          (topicTemplate, e1) =
            (case sr_TopicTemplate c of
               None \<Rightarrow> (defaultTopicTemplate, [])
             | Some t \<Rightarrow> if length t < 1 then ('''', [(p @ [''TopicTemplate''], MustNotBeEmpty)])
                         else (t, []));
          (interval, e2) = interval_field (p @ [''Interval'']) (sr_Interval c) defaultInterval
            allowInterval allowZeroInterval;
          (retain, e3) =
            (if \<not> allowRetain then (False, check (sr_Retain c \<noteq> None) (p @ [''Retain''], NotSupported))
             else (or_default (sr_Retain c) defaultRetain, []));
          (qos, e4) =
            (case sr_Qos c of
               None \<Rightarrow> (1, [])
             | Some q \<Rightarrow> if q = 0 \<or> q = 1 \<or> q = 2 then (q, [])
                         else (0, [(p @ [''Qos''], UnsupportedQos q)]));
          (devs, e5) =
            (if \<not> allowDevices
             then ([], check (length (sr_Devices c) > 0) (p @ [''Devices''], MustNotBeSet))
             else TransformAndValidateMapToList
               (if length (sr_Devices c) = 0 then default_devices devices else sr_Devices c)
               (\<lambda>inp nm. mqttDeviceSection_transform inp nm devices (p @ [nm]) allowFilter))
      in (\<lparr>ms_enabled = enabled, ms_topicTemplate = topicTemplate, ms_interval = interval,
           ms_retain = retain, ms_qos = qos, ms_devices = devs\<rparr>,
          e1 @ e2 @ e3 @ e4 @ e5))"

section \<open>Clients\<close>

definition mqttClientDevice_transform ::
  "mqttClientDeviceConfigRead \<Rightarrow> string \<Rightarrow> string list \<Rightarrow> MqttDeviceConfig list \<Rightarrow>
     MqttClientDeviceConfig checked" where
  "mqttClientDevice_transform c nm prefix mqttDevices =
     (\<lparr>mcd_name = nm, mcd_mqttTopics = mdr_MqttTopics c\<rparr>,
      check (\<not> existsByName (cd_name \<circ> qd_DeviceConfig) nm mqttDevices) (prefix, NotDefined nm) @
      check (length (mdr_MqttTopics c) < 1) (prefix @ [nm, ''MqttTopics''], MustNotBeEmpty))"

definition keepAlive_field :: "string list \<Rightarrow> string \<Rightarrow> duration checked" where
  "keepAlive_field path s =
     (if length s < 1 then (minute, [])
      else case ParseDuration s of
             None \<Rightarrow> (0, [(path, DurationParseError s)])
           | Some d \<Rightarrow>
               if d < second then (0, [(path, DurationTooSmall s)])
               else if d mod second \<noteq> 0 then (0, [(path, DurationNotMultiple s)])
               else (d, []))"

definition nonLoopMqttDevices :: "DeviceConfig list \<Rightarrow> MqttClientDeviceConfig list \<Rightarrow> DeviceConfig list" where
  "nonLoopMqttDevices devices mqttDevices =
     filter (\<lambda>d. \<not> existsByName mcd_name (cd_name d) mqttDevices) devices"

text \<open>The seven sections of a client, in the order of the code: the section read, its name,
  and the flags it is transformed with.\<close>

definition mqtt_sections ::
  "mqttClientConfigRead \<Rightarrow> string list \<Rightarrow> DeviceConfig list \<Rightarrow> bool \<Rightarrow> MqttSectionConfig checked list" where
  "mqtt_sections c p devices readOnly =
     [mqttSection_transform (cr_AvailabilityClient c) (p @ [''AvailabilityClient'']) devices readOnly
        True ''%Prefix%avail/%ClientId%'' 0 False True True True False False,
      mqttSection_transform (cr_AvailabilityDevice c) (p @ [''AvailabilityDevice'']) devices readOnly
        True ''%Prefix%avail/%DeviceName%'' 0 False True True True True False,
      mqttSection_transform (cr_Structure c) (p @ [''Structure'']) devices readOnly
        False ''%Prefix%struct/%DeviceName%'' 0 True True True True True True,
      mqttSection_transform (cr_Telemetry c) (p @ [''Telemetry'']) devices readOnly
        False ''%Prefix%tele/%DeviceName%'' second True False True False True True,
      mqttSection_transform (cr_Realtime c) (p @ [''Realtime'']) devices readOnly
        False ''%Prefix%real/%DeviceName%/%RegisterName%'' 0 True True True False True True,
      mqttSection_transform (cr_HomeassistantDiscovery c) (p @ [''HomeassistantDiscovery'']) devices
        readOnly False ''homeassistant/%Component%/%NodeId%/%ObjectId%/config'' 0
        True True True False True True,
      mqttSection_transform (cr_Command c) (p @ [''Command'']) devices False
        False ''%Prefix%cmnd/%DeviceName%/%RegisterName%'' 0 False True False False True True]"

definition mqttClient_result ::
  \<comment> \<open>the result when nothing panics\<close>
  "'u config_env \<Rightarrow> mqttClientConfigRead \<Rightarrow> string \<Rightarrow> DeviceConfig list \<Rightarrow> MqttDeviceConfig list \<Rightarrow>
     'u MqttClientConfig checked" where
  "mqttClient_result env c nm devices mqttDevices =
     (let p = [''MqttClients'', nm];
          (broker, e1) = url_field (p @ [''Broker'']) (url_ParseRequestURI env) (cr_Broker c);
          (protocolVersion, e2) =
            (case cr_ProtocolVersion c of
               None \<Rightarrow> (5, [])
             | Some v \<Rightarrow> if v = 5 then (v, []) else (0, [(p @ [''Protocol''], UnsupportedProtocol v)]));
          (keepAlive, e3) = keepAlive_field (p @ [''KeepAlive'']) (cr_KeepAlive c);
          (retryDelay, e4) = duration_field (p @ [''ConnectRetryDelay'']) (cr_ConnectRetryDelay c)
            (10 * second) (100 * millisecond);
          (timeout, e5) = duration_field (p @ [''ConnectTimeout'']) (cr_ConnectTimeout c)
            (5 * second) (100 * millisecond);
          readOnly = or_default (cr_ReadOnly c) False;
          (mqttDevs, e6) = TransformAndValidateMapToList (cr_MqttDevices c)
            (\<lambda>inp n. mqttClientDevice_transform inp n (p @ [''MqttDevices'']) mqttDevices);
          secs = mqtt_sections c p (nonLoopMqttDevices devices mqttDevs) readOnly
      in (\<lparr>cl_name = nm, cl_broker = broker, cl_protocolVersion = protocolVersion,
           cl_user = cr_User c, cl_password = cr_Password c,
           cl_clientId = (case cr_ClientId c of None \<Rightarrow> ''go-iotdevice-'' @ uuid_New env nm | Some i \<Rightarrow> i),
           cl_keepAlive = keepAlive, cl_connectRetryDelay = retryDelay, cl_connectTimeout = timeout,
           cl_topicPrefix = or_default (cr_TopicPrefix c) ''go-iotdevice/'', cl_readOnly = readOnly,
           cl_maxBacklogSize = (if readOnly then 0 else or_default (cr_MaxBacklogSize c) 256),
           cl_mqttDevices = mqttDevs,
           cl_availabilityClient = fst (secs ! 0), cl_availabilityDevice = fst (secs ! 1),
           cl_structure = fst (secs ! 2), cl_telemetry = fst (secs ! 3), cl_realtime = fst (secs ! 4),
           cl_homeassistantDiscovery = fst (secs ! 5), cl_command = fst (secs ! 6),
           cl_logDebug = (cr_LogDebug c = Some True), cl_logMessages = (cr_LogMessages c = Some True)\<rparr>,
          check (\<not> nameMatcher nm) (p, NameDoesNotMatch nm) @ e1 @ e2 @ e3 @ e4 @ e5 @ e6 @
          concat (map snd secs)))"

text \<open>
  \<open>make([]DeviceConfig, 0, len(devices)-len(ret.mqttDevices))\<close> panics (\<open>None\<close>) when the
  capacity is negative.
\<close>

definition mqttClient_transform ::
  "'u config_env \<Rightarrow> mqttClientConfigRead \<Rightarrow> string \<Rightarrow> DeviceConfig list \<Rightarrow> MqttDeviceConfig list \<Rightarrow>
     'u MqttClientConfig checked option" where
  "mqttClient_transform env c nm devices mqttDevices =
     (let r = mqttClient_result env c nm devices mqttDevices
      in if int (length devices) - int (length (cl_mqttDevices (fst r))) < 0 then None else Some r)"

definition client_sections :: "'u MqttClientConfig \<Rightarrow> MqttSectionConfig list" where
  "client_sections d =
     [cl_availabilityClient d, cl_availabilityDevice d, cl_structure d, cl_telemetry d,
      cl_realtime d, cl_homeassistantDiscovery d, cl_command d]"

section \<open>What a section without errors satisfies\<close>

definition section_ok :: "DeviceConfig list \<Rightarrow> MqttSectionConfig \<Rightarrow> bool" where
  "section_ok devices s \<longleftrightarrow> ms_topicTemplate s \<noteq> '''' \<and> 0 \<le> ms_interval s \<and> ms_qos s \<le> 2 \<and>
     list_all (\<lambda>d. existsByName cd_name (sd_name d) devices) (ms_devices s)"

definition mqttClient_ok :: "DeviceConfig list \<Rightarrow> MqttDeviceConfig list \<Rightarrow> 'u MqttClientConfig \<Rightarrow> bool" where
  "mqttClient_ok devices mqttDevices d \<longleftrightarrow>
     nameMatcher (cl_name d) \<and> cl_broker d \<noteq> None \<and> cl_protocolVersion d = 5 \<and>
     second \<le> cl_keepAlive d \<and> cl_keepAlive d mod second = 0 \<and>
     100 * millisecond \<le> cl_connectRetryDelay d \<and> 100 * millisecond \<le> cl_connectTimeout d \<and>
     list_all (\<lambda>m. existsByName (cd_name \<circ> qd_DeviceConfig) (mcd_name m) mqttDevices \<and>
       mcd_mqttTopics m \<noteq> []) (cl_mqttDevices d) \<and>
     list_all (section_ok (nonLoopMqttDevices devices (cl_mqttDevices d))) (client_sections d) \<and>
     0 < ms_interval (cl_telemetry d)"

text \<open>A client that only reads publishes nothing and queues nothing, errors or not.\<close>

definition readOnly_ok :: "'u MqttClientConfig \<Rightarrow> bool" where
  "readOnly_ok d \<longleftrightarrow> (cl_readOnly d \<longrightarrow> cl_maxBacklogSize d = 0 \<and>
     list_all (\<lambda>s. \<not> ms_enabled s) (butlast (client_sections d)))"

lemma mqttClient_name [simp]: "cl_name (fst (mqttClient_result env c nm ds ms)) = nm"
  by (simp add: mqttClient_result_def Let_def case_prod_beta)

lemma mqttDeviceSection_name [simp]:
  "sd_name (fst (mqttDeviceSection_transform c nm ds p al)) = nm"
  "mcd_name (fst (mqttClientDevice_transform mc nm p qs)) = nm"
  by (simp_all add: mqttDeviceSection_transform_def mqttClientDevice_transform_def case_prod_beta)

lemma keepAlive_field_ok:
  "snd (keepAlive_field p s) = [] \<Longrightarrow>
     second \<le> fst (keepAlive_field p s) \<and> fst (keepAlive_field p s) mod second = 0"
  by (auto simp: keepAlive_field_def split: option.splits if_splits)

lemma interval_field_ok:
  "snd (interval_field p s d ai az) = [] \<Longrightarrow> 0 \<le> d \<Longrightarrow> 0 \<le> fst (interval_field p s d ai az)"
  by (auto simp: interval_field_def split: option.splits if_splits)

lemma interval_field_pos:
  "snd (interval_field p s d True False) = [] \<Longrightarrow> 0 < d \<Longrightarrow> 0 < fst (interval_field p s d True False)"
  by (auto simp: interval_field_def split: option.splits if_splits)

lemma mqttSection_devices_ok:
  assumes "snd (TransformAndValidateMapToList m
      (\<lambda>inp nm. mqttDeviceSection_transform inp nm devices (p nm) al)) = []"
  shows "list_all (\<lambda>d. existsByName cd_name (sd_name d) devices)
      (fst (TransformAndValidateMapToList m
        (\<lambda>inp nm. mqttDeviceSection_transform inp nm devices (p nm) al)))"
  using assms by (rule MapToList_all) (simp add: mqttDeviceSection_transform_def case_prod_beta)

lemma mqttSection_ok:
  assumes "snd (mqttSection_transform c p devices ro en t iv ai az ar dr ad af) = []"
    and "t \<noteq> ''''" and "0 \<le> iv"
  shows "section_ok devices (fst (mqttSection_transform c p devices ro en t iv ai az ar dr ad af))"
  using assms by (auto simp: mqttSection_transform_def section_ok_def Let_def case_prod_beta
      interval_field_ok mqttSection_devices_ok split: option.splits if_splits)

lemma mqttSection_interval_pos:
  assumes "snd (mqttSection_transform c p devices ro en t iv True False ar dr ad af) = []" and "0 < iv"
  shows "0 < ms_interval (fst (mqttSection_transform c p devices ro en t iv True False ar dr ad af))"
  using assms by (simp add: mqttSection_transform_def Let_def case_prod_beta interval_field_pos)

lemma mqttSection_readOnly [simp]:
  "\<not> ms_enabled (fst (mqttSection_transform c p devices True en t iv ai az ar dr ad af))"
  by (simp add: mqttSection_transform_def Let_def case_prod_beta)

lemma mqttClient_readOnly_ok: "readOnly_ok (fst (mqttClient_result env c nm devices mqttDevices))"
  by (simp add: mqttClient_result_def readOnly_ok_def client_sections_def mqtt_sections_def
      Let_def case_prod_beta)

lemma mqttClientDevices_ok:
  assumes "snd (TransformAndValidateMapToList m (\<lambda>inp n. mqttClientDevice_transform inp n p qs)) = []"
  shows "list_all (\<lambda>d. existsByName (cd_name \<circ> qd_DeviceConfig) (mcd_name d) qs \<and> mcd_mqttTopics d \<noteq> [])
      (fst (TransformAndValidateMapToList m (\<lambda>inp n. mqttClientDevice_transform inp n p qs)))"
  using assms by (rule MapToList_all) (simp add: mqttClientDevice_transform_def)

lemma mqtt_sections_ok:
  assumes "concat (map snd (mqtt_sections c p devices ro)) = []"
  shows "list_all (section_ok devices) (map fst (mqtt_sections c p devices ro)) \<and>
    0 < ms_interval (fst (mqtt_sections c p devices ro ! 3))"
  using assms by (simp add: mqtt_sections_def mqttSection_ok mqttSection_interval_pos)

lemma client_sections_transform:
  "client_sections (fst (mqttClient_result env c nm devices mqttDevices)) =
     map fst (mqtt_sections c [''MqttClients'', nm]
       (nonLoopMqttDevices devices (cl_mqttDevices (fst (mqttClient_result env c nm devices mqttDevices))))
       (or_default (cr_ReadOnly c) False))"
  by (simp add: mqttClient_result_def client_sections_def Let_def case_prod_beta)
    (simp add: mqtt_sections_def)

lemma mqttClient_result_ok:
  assumes "snd (mqttClient_result env c nm devices mqttDevices) = []"
  shows "mqttClient_ok devices mqttDevices (fst (mqttClient_result env c nm devices mqttDevices))"
proof -
  let ?r = "fst (mqttClient_result env c nm devices mqttDevices)"
  let ?secs = "mqtt_sections c [''MqttClients'', nm] (nonLoopMqttDevices devices (cl_mqttDevices ?r))
    (or_default (cr_ReadOnly c) False)"
  have errs: "concat (map snd ?secs) = []"
    using assms by (simp add: mqttClient_result_def Let_def case_prod_beta)
  have "cl_telemetry ?r = fst (?secs ! 3)"
    by (simp add: mqttClient_result_def Let_def case_prod_beta)
  moreover have "nameMatcher nm \<and> cl_broker ?r \<noteq> None \<and> cl_protocolVersion ?r = 5 \<and>
     second \<le> cl_keepAlive ?r \<and> cl_keepAlive ?r mod second = 0 \<and>
     100 * millisecond \<le> cl_connectRetryDelay ?r \<and> 100 * millisecond \<le> cl_connectTimeout ?r \<and>
     list_all (\<lambda>m. existsByName (cd_name \<circ> qd_DeviceConfig) (mcd_name m) mqttDevices \<and>
       mcd_mqttTopics m \<noteq> []) (cl_mqttDevices ?r)"
    using assms
    by (auto simp: mqttClient_result_def Let_def case_prod_beta url_field_def keepAlive_field_ok
        duration_field_bound mqttClientDevices_ok simp del: mult_numeral_1 split: option.splits if_splits)
  ultimately show ?thesis
    using mqtt_sections_ok [OF errs]
    by (simp add: mqttClient_ok_def client_sections_transform)
qed

lemma mqttClient_devices_names:
  "map mcd_name (cl_mqttDevices (fst (mqttClient_result env c nm devices mqttDevices))) =
     sort (map fst (cr_MqttDevices c))"
  by (simp add: mqttClient_result_def Let_def case_prod_beta MapToList_names)

lemma mqttClient_panics_iff:
  "mqttClient_transform env c nm devices mqttDevices = None \<longleftrightarrow> length devices < length (cr_MqttDevices c)"
  using arg_cong [OF mqttClient_devices_names [of env c nm devices mqttDevices], of length]
  by (simp add: mqttClient_transform_def Let_def)

text \<open>Nothing panics when the devices a client receives are all defined.\<close>

lemma mqttClient_no_panic:
  assumes "wf_gomap (cr_MqttDevices c)"
    and "fst ` set (cr_MqttDevices c) \<subseteq> set (getNames cd_name devices)"
  shows "mqttClient_transform env c nm devices mqttDevices =
    Some (mqttClient_result env c nm devices mqttDevices)"
proof -
  have "length (cr_MqttDevices c) = card (fst ` set (cr_MqttDevices c))"
    using assms(1) by (metis wf_gomap_def distinct_card length_map set_map)
  also have "\<dots> \<le> card (set (getNames cd_name devices))"
    using assms(2) by (intro card_mono) auto
  also have "\<dots> \<le> length devices"
    by (metis card_length getNames_def length_map)
  finally show ?thesis
    using mqttClient_panics_iff [of env c nm devices mqttDevices]
    by (auto simp: mqttClient_transform_def Let_def split: if_splits)
qed

end
