(* ===== verification/Config_Root.thy ===== *)
theory Config_Root
  imports Config_Mqtt Config_Genset
begin

text \<open>
  src/config/config.go, the sections of the web server, of the authentication and of the views,
  and the transformation of the whole file. Decoding the YAML text is not modelled: it gives
  the record \<open>configRead\<close>.
\<close>

section \<open>Web server\<close>

record httpServerConfigRead =
  wr_Bind :: string
  wr_Port :: "int option"
  wr_LogRequests :: "bool option"
  wr_FrontendProxy :: string
  wr_FrontendPath :: string
  wr_FrontendExpires :: string
  wr_ConfigExpires :: string
  wr_LogDebug :: "bool option"

record 'u HttpServerConfig =
  ws_enabled :: bool
  ws_bind :: string
  ws_port :: int
  ws_logRequests :: bool
  ws_frontendProxy :: "'u option"
  ws_frontendPath :: string
  ws_frontendExpires :: duration
  ws_configExpires :: duration
  ws_logDebug :: bool

definition httpServer_transform ::
  "'u config_env \<Rightarrow> httpServerConfigRead option \<Rightarrow> 'u HttpServerConfig checked" where
  "httpServer_transform env cp =
     (case cp of
        None \<Rightarrow> (\<lparr>ws_enabled = False, ws_bind = '''', ws_port = 8000, ws_logRequests = True,
          ws_frontendProxy = None, ws_frontendPath = '''', ws_frontendExpires = 0,
          ws_configExpires = 0, ws_logDebug = False\<rparr>, [])
      | Some c \<Rightarrow>
          (let p = [''HttpServer''];
               (proxy, e1) =
                 (if length (wr_FrontendProxy c) > 0
                  then case url_Parse env (wr_FrontendProxy c) of
                         Some u \<Rightarrow> (Some u, [])
                       | None \<Rightarrow> (None, [(p @ [''FrontendProxy''], InvalidUrl (wr_FrontendProxy c))])
                  else (None, []));
               (frontendExpires, e2) = duration_field (p @ [''FrontendExpires'']) (wr_FrontendExpires c)
                 (5 * minute) 0;
               (configExpires, e3) = duration_field (p @ [''ConfigExpires'']) (wr_ConfigExpires c)
                 minute 0
           in (\<lparr>ws_enabled = True, ws_bind = wr_Bind c, ws_port = or_default (wr_Port c) 8000,
                ws_logRequests = (wr_LogRequests c \<noteq> Some False), ws_frontendProxy = proxy,
                ws_frontendPath = (if length (wr_FrontendPath c) > 0 then wr_FrontendPath c
                                   else ''./frontend-build/''),
                ws_frontendExpires = frontendExpires, ws_configExpires = configExpires,
                ws_logDebug = (wr_LogDebug c = Some True)\<rparr>,
               check (length (wr_Bind c) = 0) (p @ [''Bind''], MustNotBeEmpty) @ e1 @ e2 @ e3)))"

section \<open>Authentication\<close>

record authenticationConfigRead =
  ar_JwtSecret :: "string option"
  ar_JwtValidityPeriod :: string
  ar_HtaccessFile :: "string option"

record AuthenticationConfig =
  au_enabled :: bool
  au_jwtSecret :: string
  au_jwtValidityPeriod :: duration
  au_htaccessFile :: string

text \<open>
  The code tests the wrong variable, \<open>err\<close> instead of \<open>e\<close>, after it drew the random secret:
  \<open>err\<close> is always nil there, so a failed draw leaves the empty string as the secret and
  reports nothing. The period keeps its default when it is wrong.
\<close>

definition authentication_transform ::
  "'u config_env \<Rightarrow> bool \<Rightarrow> authenticationConfigRead option \<Rightarrow> AuthenticationConfig checked" where
  "authentication_transform env bypassFileCheck cp =
     (let randString = (case randomString env 64 of Some s \<Rightarrow> s | None \<Rightarrow> '''');
          p = [''Authentication'']
      in case cp of
           None \<Rightarrow> (\<lparr>au_enabled = False, au_jwtSecret = randString, au_jwtValidityPeriod = hour,
             au_htaccessFile = ''''\<rparr>, [])
         | Some c \<Rightarrow>
             (let (secret, e1) =
                    (case ar_JwtSecret c of
                       None \<Rightarrow> (randString, [])
                     | Some s \<Rightarrow> if length s < 32 then (randString, [(p @ [''JwtSecret''], SecretTooShort)])
                                 else (s, []));
                  (period, e2) =
                    (let s = ar_JwtValidityPeriod c; pp = p @ [''JwtValidityPeriod'']
                     in if length s < 1 then (hour, [])
                        else case ParseDuration s of
                               None \<Rightarrow> (hour, [(pp, DurationParseError s)])
                             | Some d \<Rightarrow> if d < 0 then (hour, [(pp, DurationNegative s)]) else (d, []));
                  (htaccess, e3) =
                    (case ar_HtaccessFile c of
                       Some f \<Rightarrow>
                         if length f > 0
                         then (f, if bypassFileCheck then []
                                  else case os_Stat env f of
                                         None \<Rightarrow> [(p @ [''HtaccessFile''], FileCannotOpen f)]
                                       | Some isDir \<Rightarrow>
                                           check isDir (p @ [''HtaccessFile''], FileIsDirectory f))
                         else ('''', [(p @ [''HtaccessFile''], MustNotBeEmpty)])
                     | None \<Rightarrow> ('''', [(p @ [''HtaccessFile''], MustNotBeEmpty)]))
              in (\<lparr>au_enabled = True, au_jwtSecret = secret, au_jwtValidityPeriod = period,
                   au_htaccessFile = htaccess\<rparr>, e1 @ e2 @ e3)))"

section \<open>Views\<close>

record viewDeviceConfigRead =
  vdr_Name :: string
  vdr_Title :: string
  vdr_Filter :: filterConfigRead

record viewConfigRead =
  vwr_Name :: string
  vwr_Title :: string
  vwr_Devices :: "viewDeviceConfigRead list"
  vwr_Autoplay :: "bool option"
  vwr_AllowedUsers :: "string list"
  vwr_Hidden :: "bool option"

record ViewDeviceConfig =
  vwd_name :: string
  vwd_title :: string
  vwd_filter :: filter_conf

record ViewConfig =
  vw_name :: string
  vw_title :: string
  vw_devices :: "ViewDeviceConfig list"
  vw_autoplay :: bool
  vw_allowedUsers :: "(string, unit) gomap"
  vw_hidden :: bool

definition viewDevice_transform :: "DeviceConfig list \<Rightarrow> viewDeviceConfigRead \<Rightarrow> ViewDeviceConfig checked" where
  "viewDevice_transform devices c =
     (let (filt, e) = filter_transform (vdr_Filter c)
      in (\<lparr>vwd_name = vdr_Name c, vwd_title = vdr_Title c, vwd_filter = filt\<rparr>,
          check (\<not> existsByName cd_name (vdr_Name c) devices) ([], NotDefined (vdr_Name c)) @ e))"

definition view_transform :: "DeviceConfig list \<Rightarrow> viewConfigRead \<Rightarrow> ViewConfig checked" where
  "view_transform devices c =
     (let (devs, e) = TransformAndValidateListUnique (vwr_Devices c) (viewDevice_transform devices)
            (duplicateName vwd_name)
      in (\<lparr>vw_name = vwr_Name c, vw_title = vwr_Title c, vw_devices = devs,
           vw_autoplay = (vwr_Autoplay c \<noteq> Some False),
           vw_allowedUsers = foldl (\<lambda>m user. AList.update user () m) [] (vwr_AllowedUsers c),
           vw_hidden = (vwr_Hidden c = Some True)\<rparr>,
          check (\<not> nameMatcher (vwr_Name c)) ([''Views'', ''Name''], NameDoesNotMatch (vwr_Name c)) @
          check (length (vwr_Title c) < 1) ([''Views'', vwr_Name c, ''Title''], MustNotBeEmpty) @
          under [''Views'', vwr_Name c] e))"

section \<open>The whole file\<close>

record configRead =
  Version :: "int option"
  ProjectTitle :: string
  LogConfig :: "bool option"
  LogWorkerStart :: "bool option"
  LogStateStorageDebug :: "bool option"
  LogCommandStorageDebug :: "bool option"
  HttpServer :: "httpServerConfigRead option"
  Authentication :: "authenticationConfigRead option"
  MqttClients :: "(string, mqttClientConfigRead) gomap"
  Modbus :: "(string, modbusConfigRead) gomap"
  VictronDevices :: "(string, victronDeviceConfigRead) gomap"
  ModbusDevices :: "(string, modbusDeviceConfigRead) gomap"
  GpioDevices :: "(string, gpioDeviceConfigRead) gomap"
  HttpDevices :: "(string, httpDeviceConfigRead) gomap"
  MqttDevices :: "(string, mqttDeviceConfigRead) gomap"
  GensetDevices :: "(string, gensetDeviceConfigRead) gomap"
  Views :: "viewConfigRead list"

record 'u Config =
  cf_version :: int
  cf_projectTitle :: string
  cf_logConfig :: bool
  cf_logWorkerStart :: bool
  cf_logStateStorageDebug :: bool
  cf_logCommandStorageDebug :: bool
  cf_httpServer :: "'u HttpServerConfig"
  cf_authentication :: AuthenticationConfig
  cf_mqttClients :: "'u MqttClientConfig list"
  cf_modbus :: "ModbusConfig list"
  cf_devices :: "DeviceConfig list"
  cf_victronDevices :: "VictronDeviceConfig list"
  cf_modbusDevices :: "ModbusDeviceConfig list"
  cf_gpioDevices :: "GpioDeviceConfig list"
  cf_httpDevices :: "'u HttpDeviceConfig list"
  cf_mqttDevices :: "MqttDeviceConfig list"
  cf_gensetDevices :: "GensetDeviceConfig list"
  cf_views :: "ViewConfig list"

text \<open>The orders the runtime picks for the three kinds of maps that are ranged over.\<close>

record map_orders =
  it_relays :: "(string \<times> relayConfigRead) list \<Rightarrow> (string \<times> relayConfigRead) list"
  it_bindings :: "(string \<times> (string, string) gomap) list \<Rightarrow> (string \<times> (string, string) gomap) list"
  it_registers :: "(string \<times> string) list \<Rightarrow> (string \<times> string) list"

definition map_orders_ok :: "map_orders \<Rightarrow> bool" where
  "map_orders_ok o1 \<longleftrightarrow> iter_order (it_relays o1) \<and> iter_order (it_bindings o1) \<and> iter_order (it_registers o1)"

definition version_field :: "int option \<Rightarrow> int checked" where
  "version_field v =
     (case v of
        None \<Rightarrow> (0, [([''Version''], VersionMissing)])
      | Some n \<Rightarrow> (n, check (n \<noteq> 2) ([''Version''], UnsupportedVersion n)))"

definition nonMqttGenset_devices ::
  "VictronDeviceConfig list \<Rightarrow> ModbusDeviceConfig list \<Rightarrow> GpioDeviceConfig list \<Rightarrow>
     'u HttpDeviceConfig list \<Rightarrow> MqttDeviceConfig list \<Rightarrow> DeviceConfig list" where
  \<comment> \<open>the devices that are defined when the genset devices are transformed\<close>
  "nonMqttGenset_devices victron modbus gpio http mqtt =
     map vd_DeviceConfig victron @ map md_DeviceConfig modbus @ map gd_DeviceConfig gpio @
     map hd_DeviceConfig http @ map qd_DeviceConfig mqtt"

definition TransformAndValidate ::
  "map_orders \<Rightarrow> 'u config_env \<Rightarrow> bool \<Rightarrow> configRead \<Rightarrow> 'u Config checked option" where
  "TransformAndValidate o1 env bypassFileCheck c =
     (let (version, e1) = version_field (Version c);
          (httpServer, e2) = httpServer_transform env (HttpServer c);
          (authentication, e3) = authentication_transform env bypassFileCheck (Authentication c);
          (modbus, e4) = TransformAndValidateMapToList (Modbus c) modbus_transform;
          (victronDevices, e5) = TransformAndValidateMapToList (VictronDevices c) victron_transform;
          (modbusDevices, e6) = TransformAndValidateMapToList (ModbusDevices c)
            (\<lambda>inp nm. modbusDevice_transform (it_relays o1) inp nm modbus);
          (gpioDevices, e7) = TransformAndValidateMapToList (GpioDevices c) gpio_transform;
          (httpDevices, e8) = TransformAndValidateMapToList (HttpDevices c) (http_transform env);
          (mqttDevices, e9) = TransformAndValidateMapToList (MqttDevices c) mqttDevice_transform;
          devices = nonMqttGenset_devices victronDevices modbusDevices gpioDevices httpDevices mqttDevices;
          (gensetDevices, e10) = TransformAndValidateMapToList (GensetDevices c)
            (\<lambda>inp nm. genset_transform (it_bindings o1) (it_registers o1) inp nm devices);
          devices = devices @ map ed_DeviceConfig gensetDevices;
          (views, e12) = TransformAndValidateListUnique (Views c) (view_transform devices)
            (duplicateName vw_name)
      in case TransformAndValidateMapToListP (MqttClients c)
                (\<lambda>inp nm. mqttClient_transform env inp nm devices mqttDevices) of
           None \<Rightarrow> None
         | Some (mqttClients, e11) \<Rightarrow>
             Some (\<lparr>cf_version = version,
               cf_projectTitle = (if length (ProjectTitle c) > 0 then ProjectTitle c else ''go-iotdevice''),
               cf_logConfig = (LogConfig c \<noteq> Some False), cf_logWorkerStart = (LogWorkerStart c \<noteq> Some False),
               cf_logStateStorageDebug = (LogStateStorageDebug c = Some True),
               cf_logCommandStorageDebug = (LogCommandStorageDebug c = Some True),
               cf_httpServer = httpServer, cf_authentication = authentication,
               cf_mqttClients = mqttClients, cf_modbus = modbus, cf_devices = devices,
               cf_victronDevices = victronDevices, cf_modbusDevices = modbusDevices,
               cf_gpioDevices = gpioDevices, cf_httpDevices = httpDevices, cf_mqttDevices = mqttDevices,
               cf_gensetDevices = gensetDevices, cf_views = views\<rparr>,
               e1 @ e2 @ e3 @ e4 @ e5 @ e6 @ e7 @ e8 @ e9 @ e10 @ e11 @ under [''Views''] e12))"

end
