(* ===== verification/Config_Proofs.thy ===== *)
theory Config_Proofs
  imports Config_Root Restarter
begin

text \<open>
  What the transformation of a configuration guarantees: a file without errors satisfies
  \<open>config_ok\<close>, which names every bound and every reference between sections; when it panics;
  which devices a client may publish; what the secret of the tokens is; and that the delays
  of the restarter are those the bounds promise, up to an overflow.
\<close>

section \<open>The specification of a valid configuration\<close>

definition view_ok :: "DeviceConfig list \<Rightarrow> ViewConfig \<Rightarrow> bool" where
  "view_ok devices v \<longleftrightarrow> nameMatcher (vw_name v) \<and> vw_title v \<noteq> '''' \<and>
     distinct (getNames vwd_name (vw_devices v)) \<and>
     list_all (\<lambda>d. existsByName cd_name (vwd_name d) devices) (vw_devices v)"

definition httpServer_ok :: "'u HttpServerConfig \<Rightarrow> bool" where
  "httpServer_ok s \<longleftrightarrow> 0 \<le> ws_frontendExpires s \<and> 0 \<le> ws_configExpires s \<and>
     (ws_enabled s \<longrightarrow> ws_bind s \<noteq> '''' \<and> ws_frontendPath s \<noteq> '''')"

definition authentication_ok :: "AuthenticationConfig \<Rightarrow> bool" where
  "authentication_ok a \<longleftrightarrow> 0 \<le> au_jwtValidityPeriod a \<and> (au_enabled a \<longrightarrow> au_htaccessFile a \<noteq> '''')"

definition config_ok :: "'u Config \<Rightarrow> bool" where
  "config_ok cfg \<longleftrightarrow> cf_version cfg = 2 \<and> cf_projectTitle cfg \<noteq> '''' \<and>
     httpServer_ok (cf_httpServer cfg) \<and> authentication_ok (cf_authentication cfg) \<and>
     list_all modbus_ok (cf_modbus cfg) \<and> list_all victron_ok (cf_victronDevices cfg) \<and>
     list_all (modbusDevice_ok (cf_modbus cfg)) (cf_modbusDevices cfg) \<and>
     list_all gpio_ok (cf_gpioDevices cfg) \<and> list_all http_ok (cf_httpDevices cfg) \<and>
     list_all mqttDevice_ok (cf_mqttDevices cfg) \<and>
     list_all (genset_ok (nonMqttGenset_devices (cf_victronDevices cfg) (cf_modbusDevices cfg)
       (cf_gpioDevices cfg) (cf_httpDevices cfg) (cf_mqttDevices cfg))) (cf_gensetDevices cfg) \<and>
     list_all (mqttClient_ok (cf_devices cfg) (cf_mqttDevices cfg)) (cf_mqttClients cfg) \<and>
     distinct (getNames vw_name (cf_views cfg)) \<and> list_all (view_ok (cf_devices cfg)) (cf_views cfg)"

section \<open>Lemmas\<close>

lemma view_transform_ok:
  assumes "snd (view_transform devices c) = []"
  shows "view_ok devices (fst (view_transform devices c))"
proof -
  have "snd (TransformAndValidateListUnique (vwr_Devices c) (viewDevice_transform devices)
      (duplicateName vwd_name)) = []"
    using assms by (simp add: view_transform_def case_prod_beta)
  then show ?thesis
    using assms unfolding ListUnique_no_errors
    by (simp add: view_transform_def view_ok_def case_prod_beta ListUnique_fst list_all_iff
        viewDevice_transform_def)
qed

lemma views_ok:
  assumes "snd (TransformAndValidateListUnique vs (view_transform devices) (duplicateName vw_name)) = []"
  shows "distinct (getNames vw_name
        (fst (TransformAndValidateListUnique vs (view_transform devices) (duplicateName vw_name)))) \<and>
    list_all (view_ok devices)
        (fst (TransformAndValidateListUnique vs (view_transform devices) (duplicateName vw_name)))"
  using assms unfolding ListUnique_no_errors
  by (auto simp: ListUnique_fst list_all_iff intro: view_transform_ok)

lemma httpServer_transform_ok:
  "snd (httpServer_transform env c) = [] \<Longrightarrow> httpServer_ok (fst (httpServer_transform env c))"
  by (auto simp: httpServer_transform_def httpServer_ok_def Let_def case_prod_beta
      duration_field_bound split: option.splits)

lemma authentication_transform_ok:
  "snd (authentication_transform env by c) = [] \<Longrightarrow>
     authentication_ok (fst (authentication_transform env by c))"
  by (auto simp: authentication_transform_def authentication_ok_def Let_def case_prod_beta
      split: option.splits if_splits)

lemma version_field_ok: "snd (version_field v) = [] \<Longrightarrow> fst (version_field v) = 2"
  by (auto simp: version_field_def split: option.splits)

text \<open>The sections of a file, and the result of the transformation in terms of them.\<close>

lemma TransformAndValidate_eq:
  fixes o1 :: map_orders and env :: "'u config_env" and b :: bool and c :: configRead
  defines "modbus \<equiv> TransformAndValidateMapToList (Modbus c) modbus_transform"
    and "victron \<equiv> TransformAndValidateMapToList (VictronDevices c) victron_transform"
  defines "mdevs \<equiv> TransformAndValidateMapToList (ModbusDevices c)
      (\<lambda>inp nm. modbusDevice_transform (it_relays o1) inp nm (fst modbus))"
    and "gpio \<equiv> TransformAndValidateMapToList (GpioDevices c) gpio_transform"
    and "http \<equiv> TransformAndValidateMapToList (HttpDevices c) (http_transform env)"
    and "mqtt \<equiv> TransformAndValidateMapToList (MqttDevices c) mqttDevice_transform"
  defines "devs \<equiv> nonMqttGenset_devices (fst victron) (fst mdevs) (fst gpio) (fst http) (fst mqtt)"
  defines "genset \<equiv> TransformAndValidateMapToList (GensetDevices c)
      (\<lambda>inp nm. genset_transform (it_bindings o1) (it_registers o1) inp nm devs)"
  defines "all \<equiv> devs @ map ed_DeviceConfig (fst genset)"
  defines "views \<equiv> TransformAndValidateListUnique (Views c) (view_transform all) (duplicateName vw_name)"
    and "clients \<equiv> TransformAndValidateMapToListP (MqttClients c)
      (\<lambda>inp nm. mqttClient_transform env inp nm all (fst mqtt))"
  shows "TransformAndValidate o1 env b c =
    map_option (\<lambda>(cls, e). (\<lparr>cf_version = fst (version_field (Version c)),
      cf_projectTitle = (if length (ProjectTitle c) > 0 then ProjectTitle c else ''go-iotdevice''),
      cf_logConfig = (LogConfig c \<noteq> Some False), cf_logWorkerStart = (LogWorkerStart c \<noteq> Some False),
      cf_logStateStorageDebug = (LogStateStorageDebug c = Some True),
      cf_logCommandStorageDebug = (LogCommandStorageDebug c = Some True),
      cf_httpServer = fst (httpServer_transform env (HttpServer c)),
      cf_authentication = fst (authentication_transform env b (Authentication c)),
      cf_mqttClients = cls, cf_modbus = fst modbus, cf_devices = all,
      cf_victronDevices = fst victron, cf_modbusDevices = fst mdevs,
      cf_gpioDevices = fst gpio, cf_httpDevices = fst http, cf_mqttDevices = fst mqtt,
      cf_gensetDevices = fst genset, cf_views = fst views\<rparr>,
      snd (version_field (Version c)) @ snd (httpServer_transform env (HttpServer c)) @
      snd (authentication_transform env b (Authentication c)) @ snd modbus @ snd victron @
      snd mdevs @ snd gpio @ snd http @ snd mqtt @ snd genset @ e @ under [''Views''] (snd views))) clients"
  unfolding TransformAndValidate_def assms
  by (simp add: Let_def case_prod_beta option.case_eq_if map_option_case)

lemma those_map_set: "those (map f xs) = Some ys \<Longrightarrow> y \<in> set ys \<Longrightarrow> \<exists>x \<in> set xs. f x = Some y"
  by (induction xs arbitrary: ys) (auto split: option.splits)

lemma MapToListP_all:
  assumes "TransformAndValidateMapToListP m tr = Some (rs, [])"
    and "\<And>x k r. tr x k = Some r \<Longrightarrow> snd r = [] \<Longrightarrow> P (fst r)"
  shows "list_all P rs"
proof -
  obtain ys where ys: "those (map (\<lambda>k. tr (gomap_get m k) k) (sort (map fst m))) = Some ys"
      "rs = map fst ys" "concat (map snd ys) = []"
    using assms(1) by (auto simp: TransformAndValidateMapToListP_def Let_def split: option.splits)
  have "\<exists>k. tr (gomap_get m k) k = Some y" if "y \<in> set ys" for y
    using those_map_set [OF ys(1) that] by blast
  then show ?thesis
    using ys(2,3) assms(2) by (fastforce simp: list_all_iff)
qed

lemma mqttClient_transform_ok:
  "mqttClient_transform env c nm devices mqttDevices = Some r \<Longrightarrow> snd r = [] \<Longrightarrow>
     mqttClient_ok devices mqttDevices (fst r) \<and> readOnly_ok (fst r)"
  by (auto simp: mqttClient_transform_def Let_def mqttClient_readOnly_ok
      intro: mqttClient_result_ok split: if_splits)

lemma map_orders_okD:
  assumes "map_orders_ok o1"
  shows "iter_order (it_bindings o1)" and "iter_order (it_registers o1)"
  using assms by (simp_all add: map_orders_ok_def)

lemma names_of_clients:
  assumes "TransformAndValidateMapToListP m tr = Some (rs, e)"
    and "\<And>x k r. tr x k = Some r \<Longrightarrow> nm (fst r) = k"
  shows "map nm rs = sort (map fst m)"
proof -
  obtain ys where ys: "those (map (\<lambda>k. tr (gomap_get m k) k) (sort (map fst m))) = Some ys"
      "rs = map fst ys"
    using assms(1) by (auto simp: TransformAndValidateMapToListP_def Let_def split: option.splits)
  have "map (nm \<circ> fst) ys = ks" if "those (map (\<lambda>k. tr (gomap_get m k) k) ks) = Some ys" for ks ys
    using that by (induction ks arbitrary: ys) (auto split: option.splits dest: assms(2))
  then show ?thesis
    using ys by simp
qed

section \<open>A valid file\<close>

definition default_device :: deviceConfigRead where
  "default_device = \<lparr>dr_Filter = no_filter, dr_RestartInterval = '''', dr_RestartIntervalMaxBackoff = '''',
     dr_LogDebug = None, dr_LogComDebug = None\<rparr>"

definition default_section :: mqttSectionConfigRead where
  "default_section = \<lparr>sr_Enabled = None, sr_TopicTemplate = None, sr_Interval = '''', sr_Retain = None,
     sr_Qos = None, sr_Devices = []\<rparr>"

definition demo_client :: "mqttClientConfigRead" where
  "demo_client = \<lparr>cr_Broker = ''tcp://localhost'', cr_ProtocolVersion = None, cr_User = '''',
     cr_Password = '''', cr_ClientId = Some ''demo'', cr_KeepAlive = ''30s'', cr_ConnectRetryDelay = '''',
     cr_ConnectTimeout = ''250ms'', cr_TopicPrefix = None, cr_ReadOnly = Some True,
     cr_MaxBacklogSize = None,
     cr_MqttDevices = [(''remote'', \<lparr>mdr_MqttTopics = [''x/#'']\<rparr>)],
     cr_AvailabilityClient = default_section, cr_AvailabilityDevice = default_section,
     cr_Structure = default_section, cr_Telemetry = default_section, cr_Realtime = default_section,
     cr_HomeassistantDiscovery = default_section, cr_Command = default_section,
     cr_LogDebug = None, cr_LogMessages = None\<rparr>"

definition demo_genset :: gensetDeviceConfigRead where
  "demo_genset = \<lparr>er_device = default_device, er_InputBindings = [(''relays'', [(''CH1'', ''ArmSwitch'')])],
     er_OutputBindings = [], er_PrimingTimeout = '''', er_CrankingTimeout = '''', er_WarmUpTimeout = '''',
     er_WarmUpMinTime = '''', er_WarmUpTemp = None, er_EngineCoolDownTimeout = '''',
     er_EngineCoolDownMinTime = '''', er_EngineCoolDownTemp = None, er_EnclosureCoolDownTimeout = '''',
     er_EnclosureCoolDownMinTime = '''', er_EnclosureCoolDownTemp = None, er_EngineTempMin = None,
     er_EngineTempMax = None, er_AuxTemp0Min = None, er_AuxTemp0Max = None, er_AuxTemp1Min = None,
     er_AuxTemp1Max = None, er_SinglePhase = None, er_UMin = None, er_UMax = None, er_FMin = None,
     er_FMax = None, er_PMax = None, er_PTotMax = None\<rparr>"

definition demo_config :: "(string, mqttDeviceConfigRead) gomap \<Rightarrow> configRead" where
  "demo_config mqttDevs = \<lparr>Version = Some 2, ProjectTitle = '''', LogConfig = None, LogWorkerStart = None,
     LogStateStorageDebug = None, LogCommandStorageDebug = None, HttpServer = None,
     Authentication = None, MqttClients = [(''local'', demo_client)],
     Modbus = [(''bus0'', \<lparr>mbr_Device = ''/dev/ttyUSB0'', mbr_BaudRate = 9600,
        mbr_ReadTimeout = '''', mbr_LogDebug = None\<rparr>)],
     VictronDevices = [],
     ModbusDevices = [(''relays'', \<lparr>mr_device = default_device, mr_Bus = ''bus0'',
        mr_Kind = ''WaveshareRtuRelay8'', mr_Address = ''0x01'', mr_Relays = [], mr_PollInterval = ''''\<rparr>)],
     GpioDevices = [], HttpDevices = [], MqttDevices = mqttDevs,
     GensetDevices = [(''genset'', demo_genset)],
     Views = [\<lparr>vwr_Name = ''all'', vwr_Title = ''All'',
        vwr_Devices = [\<lparr>vdr_Name = ''relays'', vdr_Title = ''Relays'', vdr_Filter = no_filter\<rparr>],
        vwr_Autoplay = None, vwr_AllowedUsers = [], vwr_Hidden = None\<rparr>]\<rparr>"

definition demo_remote :: "(string, mqttDeviceConfigRead) gomap" where
  "demo_remote = [(''remote'', \<lparr>qr_device = default_device, qr_Kind = ''GoIotdeviceV3''\<rparr>)]"

definition demo_env :: "string config_env" where
  "demo_env = \<lparr>url_Parse = Some, url_ParseRequestURI = Some, uuid_New = (\<lambda>s. s),
     rand_Int = (\<lambda>i n. if i < n then Some i else Some 0), os_Stat = (\<lambda>f. Some False)\<rparr>"

definition demo_orders :: map_orders where
  "demo_orders = \<lparr>it_relays = rev, it_bindings = rev, it_registers = rev\<rparr>"

definition transform_errors :: "'u Config checked option \<Rightarrow> error list option" where
  "transform_errors r = map_option snd r"

lemma demo_orders_ok: "map_orders_ok demo_orders"
  by (simp add: map_orders_ok_def demo_orders_def)

lemma demo_no_errors: "transform_errors (TransformAndValidate demo_orders demo_env True (demo_config demo_remote)) = Some []"
  by code_simp

section \<open>Properties\<close>

lemmas section_lists_ok =
  MapToList_all [where P = modbus_ok and tr = modbus_transform, OF _ modbus_transform_ok]
  MapToList_all [where P = victron_ok and tr = victron_transform, OF _ victron_transform_ok]
  MapToList_all [where P = "modbusDevice_ok ms" and tr = "\<lambda>c nm. modbusDevice_transform it c nm ms" for it ms,
    OF _ modbusDevice_transform_ok]
  MapToList_all [where P = gpio_ok and tr = gpio_transform, OF _ gpio_transform_ok]
  MapToList_all [where P = http_ok and tr = "http_transform env" for env, OF _ http_transform_ok]
  MapToList_all [where P = mqttDevice_ok and tr = mqttDevice_transform, OF _ mqttDevice_transform_ok]

lemma accepted_config_ok:
  assumes "map_orders_ok o1" and "TransformAndValidate o1 env b c = Some (cfg, [])"
  shows "config_ok cfg"
proof -
  have genset: "list_all (genset_ok devs) (fst (TransformAndValidateMapToList m
      (\<lambda>inp nm. genset_transform (it_bindings o1) (it_registers o1) inp nm devs)))"
    if "snd (TransformAndValidateMapToList m
      (\<lambda>inp nm. genset_transform (it_bindings o1) (it_registers o1) inp nm devs)) = []" for m devs
    using that by (rule MapToList_all) (rule genset_transform_ok [OF map_orders_okD [OF assms(1)]])
  have clients: "list_all (mqttClient_ok devs ms) rs" if "TransformAndValidateMapToListP m
      (\<lambda>inp nm. mqttClient_transform env inp nm devs ms) = Some (rs, [])" for m devs ms rs
    using that by (rule MapToListP_all) (simp add: mqttClient_transform_ok)
  from assms(2) show ?thesis
    unfolding TransformAndValidate_eq config_ok_def
    by (clarsimp simp: version_field_ok httpServer_transform_ok
        authentication_transform_ok genset clients views_ok section_lists_ok)
qed

lemma accepted_devices:
  assumes "TransformAndValidate o1 env b c = Some (cfg, e)"
  shows "cf_devices cfg = nonMqttGenset_devices (cf_victronDevices cfg) (cf_modbusDevices cfg)
       (cf_gpioDevices cfg) (cf_httpDevices cfg) (cf_mqttDevices cfg) @ map ed_DeviceConfig (cf_gensetDevices cfg)"
  using assms unfolding TransformAndValidate_eq by clarsimp

text \<open>
  C27: a configuration that is accepted without errors is valid: every name matches the
  pattern, every interval, timeout and rate is within its bounds, each minimal time of a genset
  is at most its timeout, no quality of service exceeds two, the keep-alive is a whole number
  of seconds, the buses, devices and MQTT devices that a section refers to are defined, and the
  names of the views and of the devices of a view are distinct.
\<close>

theorem config_valid:
  assumes "map_orders_ok o1" and "TransformAndValidate o1 env b c = Some (cfg, [])"
  shows "config_ok cfg"
  using assms by (rule accepted_config_ok)

theorem config_valid_witness:
  "\<exists>cfg. TransformAndValidate demo_orders demo_env True (demo_config demo_remote) = Some (cfg, []) \<and>
     config_ok cfg"
proof -
  obtain cfg where "TransformAndValidate demo_orders demo_env True (demo_config demo_remote) = Some (cfg, [])"
    using demo_no_errors by (auto simp: transform_errors_def)
  with config_valid [OF demo_orders_ok this] show ?thesis by blast
qed

text \<open>
  The transformation panics exactly when a client is to receive more MQTT devices than
  there are devices in the whole file, whatever else is wrong with it: the capacity of the slice
  of the remaining devices is negative then. A file of that kind gets no error message.
\<close>

theorem config_panics:
  "TransformAndValidate o1 env b c = None \<longleftrightarrow>
     (\<exists>nm \<in> fst ` set (MqttClients c).
        length (VictronDevices c) + length (ModbusDevices c) + length (GpioDevices c) +
        length (HttpDevices c) + length (MqttDevices c) + length (GensetDevices c)
        < length (cr_MqttDevices (gomap_get (MqttClients c) nm)))"
  by (simp add: TransformAndValidate_eq MapToListP_panics_iff mqttClient_panics_iff
      nonMqttGenset_devices_def add.assoc)

text \<open>
  C33: a client of an accepted configuration never publishes about a device that it itself
  receives: the devices of its seven sections are defined devices other than its MQTT devices.
  A client that only reads has every section but the commands disabled and queues nothing.
\<close>

theorem mqtt_no_loop:
  assumes "map_orders_ok o1" and "TransformAndValidate o1 env b c = Some (cfg, [])"
  shows "list_all (\<lambda>cl. readOnly_ok cl \<and> list_all (\<lambda>s. list_all (\<lambda>d.
       sd_name d \<in> set (getNames cd_name (cf_devices cfg)) \<and>
       sd_name d \<notin> set (getNames mcd_name (cl_mqttDevices cl))) (ms_devices s)) (client_sections cl))
     (cf_mqttClients cfg)"
proof -
  have cl: "mqttClient_ok devs ms cl \<and> readOnly_ok cl \<Longrightarrow>
      readOnly_ok cl \<and> list_all (\<lambda>s. list_all (\<lambda>d. sd_name d \<in> set (getNames cd_name devs) \<and>
        sd_name d \<notin> set (getNames mcd_name (cl_mqttDevices cl))) (ms_devices s)) (client_sections cl)"
    for devs ms and cl :: "'a MqttClientConfig"
    by (force simp: mqttClient_ok_def section_ok_def list_all_iff existsByName_iff
        nonLoopMqttDevices_def getNames_def)
  have clients: "list_all (\<lambda>cl. mqttClient_ok devs ms cl \<and> readOnly_ok cl) rs"
    if "TransformAndValidateMapToListP m (\<lambda>inp nm. mqttClient_transform env inp nm devs ms) = Some (rs, [])"
    for m devs ms rs
    using that by (rule MapToListP_all) (rule mqttClient_transform_ok)
  from assms(2) have "list_all (\<lambda>cl. mqttClient_ok (cf_devices cfg) (cf_mqttDevices cfg) cl \<and> readOnly_ok cl)
      (cf_mqttClients cfg)"
    unfolding TransformAndValidate_eq by (clarsimp simp: clients)
  then show ?thesis
    by (rule list.pred_mono_strong) (rule cl)
qed

theorem mqtt_no_loop_witness:
  "\<exists>cfg. TransformAndValidate demo_orders demo_env True (demo_config demo_remote) = Some (cfg, []) \<and>
     list_all readOnly_ok (cf_mqttClients cfg)"
proof -
  obtain cfg where cfg: "TransformAndValidate demo_orders demo_env True (demo_config demo_remote) = Some (cfg, [])"
    using demo_no_errors by (auto simp: transform_errors_def)
  with mqtt_no_loop [OF demo_orders_ok cfg] show ?thesis
    by (auto simp: list_all_iff)
qed

text \<open>
  The secret the login tokens of an accepted configuration are signed with has at least 32
  characters, unless no secret is configured and the random generator fails: then the secret
  is the empty string, and no error is reported.
\<close>

theorem token_secret:
  assumes "snd (authentication_transform env by (Some c)) = []"
  shows "if ar_JwtSecret c = None \<and> randomString env 64 = None
    then au_jwtSecret (fst (authentication_transform env by (Some c))) = ''''
    else 32 \<le> length (au_jwtSecret (fst (authentication_transform env by (Some c))))"
  using assms by (auto simp: authentication_transform_def Let_def case_prod_beta
      dest: randomString_length split: option.splits if_splits)

theorem token_secret_witness:
  "au_jwtSecret (fst (authentication_transform (demo_env\<lparr>rand_Int := (\<lambda>i n. None)\<rparr>) True
     (Some \<lparr>ar_JwtSecret = None, ar_JwtValidityPeriod = '''', ar_HtaccessFile = Some ''f''\<rparr>))) = ''''"
proof -
  let ?env = "demo_env\<lparr>rand_Int := (\<lambda>i n. None)\<rparr>"
  let ?c = "\<lparr>ar_JwtSecret = None, ar_JwtValidityPeriod = '''', ar_HtaccessFile = Some ''f''\<rparr>"
  have "snd (authentication_transform ?env True (Some ?c)) = []"
    by (simp add: authentication_transform_def)
  moreover have "randomString ?env 64 = None" by code_simp
  ultimately show ?thesis
    using token_secret [of ?env True ?c] by simp
qed

definition restarter_of :: "DeviceConfig \<Rightarrow> restarter_config" where
  \<comment> \<open>the restarter reads the two intervals of the device's section\<close>
  "restarter_of d = \<lparr>RestartInterval = cd_restartInterval d,
     RestartIntervalMaxBackoff = cd_restartIntervalMaxBackoff d\<rparr>"

text \<open>
  A device of an accepted section is never restarted sooner than 10ms after it failed, nor
  later than the configured maximum, as long as the configured interval times 65536 fits in a
  \<open>Duration\<close>. Nothing checks that it does: an interval of 40h is accepted, and its delay after
  sixteen errors in a row is negative, so the device is restarted at once.
\<close>

theorem restart_delay_of_config:
  assumes "snd (device_transform c nm) = []"
    and "cd_restartInterval (fst (device_transform c nm)) * 2 ^ 16 \<le> max_i64"
  shows "10 * millisecond \<le> getRestartInterval (restarter_of (fst (device_transform c nm))) n \<and>
    getRestartInterval (restarter_of (fst (device_transform c nm))) n
      \<le> cd_restartIntervalMaxBackoff (fst (device_transform c nm)) \<and>
    device_transform (default_device\<lparr>dr_RestartInterval := ''40h''\<rparr>) ''d'' =
      (\<lparr>cd_name = ''d'', cd_filter = fst (filter_transform no_filter),
        cd_restartInterval = 40 * hour, cd_restartIntervalMaxBackoff = minute,
        cd_logDebug = False, cd_logComDebug = False\<rparr>, []) \<and>
    getRestartInterval (restarter_of (fst (device_transform
      (default_device\<lparr>dr_RestartInterval := ''40h''\<rparr>) ''d''))) 16 < 0"
proof -
  let ?d = "fst (device_transform c nm)"
  have ok: "device_ok ?d" by (rule device_transform_ok [OF assms(1)])
  then have no: "no_overflow (restarter_of ?d)"
    using assms(2) by (simp add: no_overflow_def restarter_of_def device_ok_def)
  have "10 * millisecond * 1 \<le> cd_restartInterval ?d * 2 ^ min n 16"
    using ok by (intro mult_mono) (auto simp: device_ok_def)
  moreover have forty: "device_transform (default_device\<lparr>dr_RestartInterval := ''40h''\<rparr>) ''d'' =
      (\<lparr>cd_name = ''d'', cd_filter = fst (filter_transform no_filter),
        cd_restartInterval = 40 * hour, cd_restartIntervalMaxBackoff = minute,
        cd_logDebug = False, cd_logComDebug = False\<rparr>, [])"
    by code_simp
  ultimately show ?thesis
    unfolding getRestartInterval_eq [OF no] forty
    using ok by (simp add: restarter_of_def device_ok_def getRestartInterval_def wrap_i64_def)
qed

theorem restart_delay_of_config_witness:
  "10 * millisecond \<le> getRestartInterval (restarter_of (fst (device_transform default_device ''d''))) 3"
proof -
  have "snd (device_transform default_device ''d'') = []"
    and "cd_restartInterval (fst (device_transform default_device ''d'')) * 2 ^ 16 \<le> max_i64"
    by code_simp+
  then show ?thesis
    using restart_delay_of_config [of default_device "''d''" 3] by blast
qed

text \<open>
  The bindings of a genset device do not depend on the order in which the runtime visits
  the two nested maps they are read from, nor do the errors that are reported for them.
\<close>

theorem bindings_deterministic:
  assumes "iter_order it" and "iter_order it2" and "iter_order it'" and "iter_order it2'"
  shows "fst (bindings_transform it it2 c devices) = fst (bindings_transform it' it2' c devices) \<and>
    set (snd (bindings_transform it it2 c devices)) = set (snd (bindings_transform it' it2' c devices)) \<and>
    sorted (map binding_key (fst (bindings_transform it it2 c devices)))"
  using bindings_transform_order [OF assms(1,2), of c devices]
    bindings_transform_order [OF assms(3,4), of c devices]
  by (simp add: bindings_transform_def)

theorem bindings_deterministic_witness:
  "map bi_name (fst (bindings_transform rev rev [(''a'', [(''x'', ''U1''), (''b'', ''U2'')])] [])) = [''U2'', ''U1'']"
proof -
  have "map bi_name (fst (bindings_transform (\<lambda>x. x) (\<lambda>x. x) [(''a'', [(''x'', ''U1''), (''b'', ''U2'')])] [])) =
      [''U2'', ''U1'']"
    by code_simp
  then show ?thesis
    using bindings_deterministic [of rev rev "\<lambda>x. x" "\<lambda>x. x" "[(''a'', [(''x'', ''U1''), (''b'', ''U2'')])]" "[]"]
    by simp
qed

end
