(* ===== verification/Mqtt_Topics.thy ===== *)
theory Mqtt_Topics
  imports Config_Mqtt Topic_Matcher
begin

text \<open>
  The topics of an MQTT client (src/config/getters.go): its templates with the placeholders
  replaced by a \<open>strings.Replacer\<close>. The replacer goes through the text once, from left to right;
  where several old strings match, the first in the argument list wins, and what it inserts
  is not looked at again.
\<close>

section \<open>strings.NewReplacer\<close>

fun first_match :: "(string \<times> string) list \<Rightarrow> string \<Rightarrow> (string \<times> string) option" where
  "first_match [] s = None"
| "first_match ((old, new) # ps) s = (if is_prefix old s then Some (old, new) else first_match ps s)"

text \<open>No old string of the callers is empty; an empty one is passed over, so that the
  definition ends.\<close>

function Replace :: "(string \<times> string) list \<Rightarrow> string \<Rightarrow> string" where
  "Replace ps [] = []"
| "Replace ps (c # s) =
     (case first_match (filter (\<lambda>p. fst p \<noteq> []) ps) (c # s) of
        None \<Rightarrow> c # Replace ps s
      | Some (old, new) \<Rightarrow> new @ Replace ps (drop (max 1 (length old)) (c # s)))"
  by pat_completeness auto
termination
  by (relation "measure (\<lambda>(_, s). length s)") auto

section \<open>Topics\<close>

definition topic_pairs :: "'u MqttClientConfig \<Rightarrow> (string \<times> string) list \<Rightarrow> (string \<times> string) list" where
  "topic_pairs c oldnew = oldnew @ [(''%Prefix%'', cl_topicPrefix c), (''%ClientId%'', cl_clientId c)]"

definition AvailabilityClientTopic :: "'u MqttClientConfig \<Rightarrow> string" where
  "AvailabilityClientTopic c = Replace (topic_pairs c []) (ms_topicTemplate (cl_availabilityClient c))"

definition AvailabilityDeviceTopic :: "'u MqttClientConfig \<Rightarrow> string \<Rightarrow> string" where
  "AvailabilityDeviceTopic c deviceName =
     Replace (topic_pairs c [(''%DeviceName%'', deviceName)]) (ms_topicTemplate (cl_availabilityDevice c))"

definition StructureTopic :: "'u MqttClientConfig \<Rightarrow> string \<Rightarrow> string" where
  "StructureTopic c deviceName =
     Replace (topic_pairs c [(''%DeviceName%'', deviceName)]) (ms_topicTemplate (cl_structure c))"

definition TelemetryTopic :: "'u MqttClientConfig \<Rightarrow> string \<Rightarrow> string" where
  "TelemetryTopic c deviceName =
     Replace (topic_pairs c [(''%DeviceName%'', deviceName)]) (ms_topicTemplate (cl_telemetry c))"

definition RealtimeTopic :: "'u MqttClientConfig \<Rightarrow> string \<Rightarrow> string \<Rightarrow> string" where
  "RealtimeTopic c deviceName registerName =
     Replace (topic_pairs c [(''%DeviceName%'', deviceName), (''%RegisterName%'', registerName)])
       (ms_topicTemplate (cl_realtime c))"

definition HomeassistantDiscoveryTopic :: "'u MqttClientConfig \<Rightarrow> string \<Rightarrow> string \<Rightarrow> string \<Rightarrow> string" where
  "HomeassistantDiscoveryTopic c component nodeId objectId =
     Replace (topic_pairs c [(''%Component%'', component), (''%NodeId%'', nodeId), (''%ObjectId%'', objectId)])
       (ms_topicTemplate (cl_homeassistantDiscovery c))"

definition CommandTopic :: "'u MqttClientConfig \<Rightarrow> string \<Rightarrow> string \<Rightarrow> string" where
  "CommandTopic c deviceName registerName =
     Replace (topic_pairs c [(''%DeviceName%'', deviceName), (''%RegisterName%'', registerName)])
       (ms_topicTemplate (cl_command c))"

section \<open>Lemmas\<close>

text \<open>A text without a percent sign is copied; a placeholder is replaced.\<close>

lemma is_prefix_hd: "is_prefix (d # p) (c # s) \<Longrightarrow> d = c"
  by simp

definition percent_olds :: "(string \<times> string) list \<Rightarrow> bool" where
  "percent_olds ps \<longleftrightarrow> list_all (\<lambda>(old, new). old \<noteq> [] \<and> hd old = CHR ''%'') ps"

lemma first_match_no_percent:
  "percent_olds ps \<Longrightarrow> CHR ''%'' \<noteq> c \<Longrightarrow> first_match (filter (\<lambda>p. fst p \<noteq> []) ps) (c # s) = None"
  by (induction ps) (auto simp: percent_olds_def neq_Nil_conv)

lemma Replace_plain:
  "percent_olds ps \<Longrightarrow> CHR ''%'' \<notin> set t \<Longrightarrow> Replace ps (t @ s) = t @ Replace ps s"
proof (induction t)
  case (Cons c t)
  from Cons.prems have "first_match (filter (\<lambda>p. fst p \<noteq> []) ps) (c # t @ s) = None"
    by (intro first_match_no_percent) simp_all
  with Cons show ?case by simp
qed simp

lemma Replace_end: "percent_olds ps \<Longrightarrow> CHR ''%'' \<notin> set t \<Longrightarrow> Replace ps t = t"
  using Replace_plain [of ps t "[]"] by simp

lemma Replace_placeholder:
  assumes s: "s = old @ rest" "old \<noteq> []"
    and m: "first_match (filter (\<lambda>p. fst p \<noteq> []) ps) s = Some (old, new)"
  shows "Replace ps s = new @ Replace ps rest"
proof -
  from s have "s \<noteq> []" by simp
  then obtain c t where c: "s = c # t" by (cases s) simp_all
  have "max 1 (length old) = length old"
    using s(2) by (cases old) simp_all
  then have "drop (max 1 (length old)) s = rest"
    by (simp add: s(1))
  with m show ?thesis by (simp add: c)
qed

lemma percent_topic_pairs:
  "percent_olds oldnew \<Longrightarrow> percent_olds (topic_pairs c oldnew)"
  by (simp add: topic_pairs_def percent_olds_def)

text \<open>The realtime and the command topic of the default templates.\<close>

lemma device_topic_default:
  assumes "template = ''%Prefix%'' @ mid @ ''%DeviceName%/%RegisterName%''" and "CHR ''%'' \<notin> set mid"
  shows "Replace (topic_pairs c [(''%DeviceName%'', dev), (''%RegisterName%'', reg)]) template =
    cl_topicPrefix c @ mid @ dev @ ''/'' @ reg"
proof -
  let ?ps = "topic_pairs c [(''%DeviceName%'', dev), (''%RegisterName%'', reg)]"
  have pc: "percent_olds ?ps"
    by (rule percent_topic_pairs) (simp add: percent_olds_def)
  have "Replace ?ps template = cl_topicPrefix c @ Replace ?ps (mid @ ''%DeviceName%/%RegisterName%'')"
    unfolding assms(1) by (rule Replace_placeholder) (simp_all add: topic_pairs_def)
  also have "Replace ?ps (mid @ ''%DeviceName%/%RegisterName%'') = mid @ Replace ?ps ''%DeviceName%/%RegisterName%''"
    by (rule Replace_plain [OF pc assms(2)])
  also have "Replace ?ps ''%DeviceName%/%RegisterName%'' = dev @ Replace ?ps (''/'' @ ''%RegisterName%'')"
    by (rule Replace_placeholder) (simp_all add: topic_pairs_def)
  also have "Replace ?ps (''/'' @ ''%RegisterName%'') = ''/'' @ Replace ?ps ''%RegisterName%''"
    by (rule Replace_plain [OF pc]) simp
  also have "Replace ?ps ''%RegisterName%'' = reg @ Replace ?ps []"
    by (rule Replace_placeholder) (simp_all add: topic_pairs_def)
  finally show ?thesis by simp
qed

lemma RealtimeTopic_default:
  "ms_topicTemplate (cl_realtime c) = ''%Prefix%real/%DeviceName%/%RegisterName%'' \<Longrightarrow>
     RealtimeTopic c dev reg = cl_topicPrefix c @ ''real/'' @ dev @ ''/'' @ reg"
  unfolding RealtimeTopic_def by (rule device_topic_default) simp_all

lemma CommandTopic_default:
  "ms_topicTemplate (cl_command c) = ''%Prefix%cmnd/%DeviceName%/%RegisterName%'' \<Longrightarrow>
     CommandTopic c dev reg = cl_topicPrefix c @ ''cmnd/'' @ dev @ ''/'' @ reg"
  unfolding CommandTopic_def by (rule device_topic_default) simp_all

lemma nameMatcher_no_percent: "nameMatcher s \<Longrightarrow> CHR ''%'' \<notin> set s"
  by (auto simp: nameMatcher_def list_all_iff name_char_def dest: bspec)

text \<open>Splitting such a topic at the placeholder.\<close>

lemma split_first_plain:
  "CHR ''%'' \<notin> set t \<Longrightarrow> split_first (CHR ''%'' # p) (t @ CHR ''%'' # p @ s) = Some (t, s)"
  by (induction t) auto

end
