(* ===== verification/Mqtt_Messages.thy ===== *)
theory Mqtt_Messages
  imports Mqtt_Topics Device_State
begin

text \<open>
  The messages of src/mqttForwarders and the filters in front of them. The JSON package is a
  parameter: \<open>marshal\<close> returns the payload, or \<open>None\<close> for its error (a NaN or an infinity has no
  JSON number), \<open>unmarshal\<close> the message or \<open>None\<close>. What the forwarders publish is the list of
  their \<open>Publish\<close> calls.
\<close>

section \<open>Publications\<close>

record publish =
  pb_topic :: string
  pb_payload :: string
  pb_qos :: byte
  pb_retain :: bool

definition Publish_of :: "MqttSectionConfig \<Rightarrow> string \<Rightarrow> string option \<Rightarrow> publish list" where
  \<comment> \<open>the message is dropped with a log line where it cannot be marshalled\<close>
  "Publish_of mCfg topic payload =
     (case payload of
        None \<Rightarrow> []
      | Some p \<Rightarrow> [\<lparr>pb_topic = topic, pb_payload = p, pb_qos = ms_qos mCfg, pb_retain = ms_retain mCfg\<rparr>])"

section \<open>Filters\<close>

definition availabilityRegisterFilter :: "register \<Rightarrow> bool" where
  "availabilityRegisterFilter r \<longleftrightarrow> reg_name r \<noteq> AvailabilityRegisterName"

definition createRegisterValueFilter :: "filter_conf \<Rightarrow> register \<Rightarrow> bool" where
  "createRegisterValueFilter registerFilter =
     (let f1 = RegisterFilter registerFilter in (\<lambda>r. availabilityRegisterFilter r \<and> f1 r))"

definition createDeviceAndRegisterValueFilter :: "string \<Rightarrow> filter_conf \<Rightarrow> value_filter" where
  "createDeviceAndRegisterValueFilter devName registerFilter =
     (let f0 = DeviceNameValueFilter devName; f1 = createRegisterValueFilter registerFilter
      in (\<lambda>v. f0 v \<and> f1 (val_reg v)))"

definition createWritableAndRegisterValueFilter :: "filter_conf \<Rightarrow> register \<Rightarrow> bool" where
  "createWritableAndRegisterValueFilter registerFilter =
     (let f0 = createRegisterValueFilter registerFilter in (\<lambda>r. reg_writable r \<and> f0 r))"

fun section_device :: "MqttDeviceSectionConfig list \<Rightarrow> string \<Rightarrow> MqttDeviceSectionConfig option" where
  "section_device [] deviceName = None"
| "section_device (c # cs) deviceName =
     (if sd_name c = deviceName then Some c else section_device cs deviceName)"

definition getCommandDevice :: "'u MqttClientConfig \<Rightarrow> string \<Rightarrow> MqttDeviceSectionConfig option" where
  "getCommandDevice cfg deviceName = section_device (ms_devices (cl_command cfg)) deviceName"

definition getCommandFilter :: "'u MqttClientConfig \<Rightarrow> string \<Rightarrow> register \<Rightarrow> bool" where
  "getCommandFilter cfg devName =
     (let dev = (if ms_enabled (cl_command cfg) then getCommandDevice cfg devName else None)
      in case dev of
           None \<Rightarrow> (\<lambda>r. False)
         | Some d \<Rightarrow> (let commandEnabledFilter = RegisterFilter (sd_filter d)
                      in (\<lambda>r. reg_writable r \<and> commandEnabledFilter r)))"

section \<open>Values\<close>

text \<open>\<open>RealtimeMessage\<close> and \<open>CommandMessage\<close> have the same three optional fields.\<close>

record value_message =
  vm_NumericValue :: "f64 option"
  vm_TextValue :: "string option"
  vm_EnumIdx :: "int option"

definition empty_message :: value_message where
  "empty_message = \<lparr>vm_NumericValue = None, vm_TextValue = None, vm_EnumIdx = None\<rparr>"

fun convertValueToRealtimeMessage :: "val \<Rightarrow> value_message" where
  "convertValueToRealtimeMessage (NumericRegisterValue _ _ x) = empty_message\<lparr>vm_NumericValue := Some x\<rparr>"
| "convertValueToRealtimeMessage (TextRegisterValue _ _ s) = empty_message\<lparr>vm_TextValue := Some s\<rparr>"
| "convertValueToRealtimeMessage (EnumRegisterValue _ _ i) = empty_message\<lparr>vm_EnumIdx := Some i\<rparr>"
| "convertValueToRealtimeMessage (NullRegisterValue _ _) = empty_message"

text \<open>
  How a message becomes a value again, by the type of the register: the switch of the command
  handler (command.go) and of the realtime handler (mqttDevice/device.go).
\<close>

definition message_value :: "string \<Rightarrow> register \<Rightarrow> value_message \<Rightarrow> val option" where
  "message_value deviceName r msg =
     (case reg_type r of
        NumberRegister \<Rightarrow> map_option (NumericRegisterValue deviceName r) (vm_NumericValue msg)
      | TextRegister \<Rightarrow> map_option (TextRegisterValue deviceName r) (vm_TextValue msg)
      | EnumRegister \<Rightarrow> map_option (EnumRegisterValue deviceName r) (vm_EnumIdx msg)
      | UndefinedRegister \<Rightarrow> None)"

text \<open>The same value of another device and register.\<close>

fun readdress :: "string \<Rightarrow> register \<Rightarrow> val \<Rightarrow> val" where
  "readdress d r (NumericRegisterValue _ _ x) = NumericRegisterValue d r x"
| "readdress d r (TextRegisterValue _ _ s) = TextRegisterValue d r s"
| "readdress d r (EnumRegisterValue _ _ i) = EnumRegisterValue d r i"
| "readdress d r (NullRegisterValue _ _) = NullRegisterValue d r"

lemma message_value_convert:
  assumes "well_typed v" and "reg_type r = reg_type (val_reg v)"
  shows "message_value d r (convertValueToRealtimeMessage v) = Some (readdress d r v)"
  using assms by (cases v) (simp_all add: message_value_def empty_message_def)

lemma readdress_self: "DeviceName v = d \<Longrightarrow> val_reg v = r \<Longrightarrow> readdress d r v = v"
  by (cases v) simp_all

lemma message_value_typed: "message_value d r m = Some v \<Longrightarrow> well_typed v \<and> DeviceName v = d \<and> val_reg v = r"
  by (auto simp: message_value_def split: RegisterType.splits)

section \<open>Registers\<close>

record StructRegister =
  sg_Category :: string
  sg_Name :: string
  sg_Description :: string
  sg_Type :: string
  sg_Enum :: enum_map
  sg_Unit :: string
  sg_Sort :: int
  sg_Writable :: bool

record StructureMessage =
  sm_AvailabilityTopics :: "string list"
  sm_TelemetryTopic :: string
  sm_RealtimeTopic :: string
  sm_CommandTopic :: string
  sm_Registers :: "StructRegister list"

definition NewStructRegister :: "register \<Rightarrow> StructRegister" where
  "NewStructRegister r =
     \<lparr>sg_Category = reg_category r, sg_Name = reg_name r, sg_Description = reg_description r,
      sg_Type = RegisterType_String (reg_type r), sg_Enum = reg_enum r, sg_Unit = reg_unit r,
      sg_Sort = reg_sort r, sg_Writable = reg_writable r\<rparr>"

text \<open>The getters of \<open>mqttDevice.StructRegister\<close> (src/mqttDevice/structRegister.go).\<close>

definition struct_register :: "StructRegister \<Rightarrow> register" where
  "struct_register s =
     NewRegisterStruct (sg_Category s) (sg_Name s) (sg_Description s)
       (RegisterTypeFromString (sg_Type s)) (sg_Enum s) (sg_Unit s) (sg_Sort s) (sg_Writable s)"

lemma RegisterTypeFromString_String [simp]: "RegisterTypeFromString (RegisterType_String t) = t"
  by (cases t) (simp_all add: RegisterTypeFromString_def)

lemma struct_register_New [simp]: "struct_register (NewStructRegister r) = r"
  by (simp add: struct_register_def NewStructRegister_def NewRegisterStruct_def)

lemma struct_register_writable:
  "struct_register (s\<lparr>sg_Writable := w\<rparr>) = (struct_register s)\<lparr>reg_writable := w\<rparr>"
  by (simp add: struct_register_def NewRegisterStruct_def)

lemma reg_name_struct_register [simp]: "reg_name (struct_register s) = sg_Name s"
  by (simp add: struct_register_def)

definition applyWritableFiltersToRegisters ::
  "'u MqttClientConfig \<Rightarrow> string \<Rightarrow> register list \<Rightarrow> StructRegister list \<times> nat" where
  "applyWritableFiltersToRegisters cfg devName inp =
     (let f = getCommandFilter cfg devName;
          oup = map (\<lambda>r. (NewStructRegister r)\<lparr>sg_Writable := f r\<rparr>) inp
      in (oup, length (filter sg_Writable oup)))"

fun section_existsByName :: "string \<Rightarrow> MqttDeviceSectionConfig list \<Rightarrow> bool" where
  "section_existsByName needle [] = False"
| "section_existsByName needle (t # ts) = (needle = sd_name t \<or> section_existsByName needle ts)"

definition getAvailabilityTopics :: "'u MqttClientConfig \<Rightarrow> string \<Rightarrow> string list" where
  "getAvailabilityTopics cfg devName =
     (if ms_enabled (cl_availabilityClient cfg) then [AvailabilityClientTopic cfg] else []) @
     (if ms_enabled (cl_availabilityDevice cfg) \<and> section_existsByName devName (ms_devices (cl_availabilityDevice cfg))
      then [AvailabilityDeviceTopic cfg devName] else [])"

definition struct_message :: "'u MqttClientConfig \<Rightarrow> string \<Rightarrow> register list \<Rightarrow> StructureMessage" where
  \<comment> \<open>the message \<open>publishStruct\<close> makes of the sorted registers\<close>
  "struct_message cfg devName registers =
     (let (structRegisters, countWritable) = applyWritableFiltersToRegisters cfg devName registers
      in \<lparr>sm_AvailabilityTopics = getAvailabilityTopics cfg devName,
          sm_TelemetryTopic = (if ms_enabled (cl_telemetry cfg) then TelemetryTopic cfg devName else ''''),
          sm_RealtimeTopic =
            (if ms_enabled (cl_realtime cfg) then RealtimeTopic cfg devName ''%RegisterName%'' else ''''),
          sm_CommandTopic =
            (if countWritable < 1 then '''' else CommandTopic cfg devName ''%RegisterName%''),
          sm_Registers = structRegisters\<rparr>)"

definition publishStruct ::
  "(StructureMessage \<Rightarrow> string option) \<Rightarrow> (register list \<Rightarrow> register list) \<Rightarrow> 'u MqttClientConfig \<Rightarrow>
     string \<Rightarrow> string \<Rightarrow> register list \<Rightarrow> publish list" where
  "publishStruct marshal tie cfg devName topic registers =
     Publish_of (cl_structure cfg) topic
       (marshal (struct_message cfg devName (SortRegisterStructs tie registers)))"

section \<open>Telemetry\<close>

record NumericTelemetryValue =
  nt_Category :: string
  nt_Description :: string
  nt_Value :: f64
  nt_Unit :: string

record TextTelemetryValue =
  tt_Category :: string
  tt_Description :: string
  tt_Value :: string

record EnumTelemetryValue =
  et_Category :: string
  et_Description :: string
  et_EnumIdx :: int
  et_Value :: string

record TelemetryMessage =
  tm_Time :: string
  tm_NextTelemetry :: string
  tm_Model :: string
  tm_NumericValues :: "(string, NumericTelemetryValue) gomap"
  tm_TextValues :: "(string, TextTelemetryValue) gomap"
  tm_EnumValues :: "(string, EnumTelemetryValue) gomap"

fun numeric_telemetry :: "val \<Rightarrow> NumericTelemetryValue option" where
  "numeric_telemetry (NumericRegisterValue _ r x) =
     Some \<lparr>nt_Category = reg_category r, nt_Description = reg_description r, nt_Value = x,
           nt_Unit = reg_unit r\<rparr>"
| "numeric_telemetry _ = None"

fun text_telemetry :: "val \<Rightarrow> TextTelemetryValue option" where
  "text_telemetry (TextRegisterValue _ r s) =
     Some \<lparr>tt_Category = reg_category r, tt_Description = reg_description r, tt_Value = s\<rparr>"
| "text_telemetry _ = None"

fun enum_telemetry :: "val \<Rightarrow> EnumTelemetryValue option" where
  "enum_telemetry (EnumRegisterValue _ r i) =
     Some \<lparr>et_Category = reg_category r, et_Description = reg_description r, et_EnumIdx = i,
           et_Value = enum_text r i\<rparr>"
| "enum_telemetry _ = None"

definition convertValues :: "(val \<Rightarrow> 't option) \<Rightarrow> val list \<Rightarrow> (string, 't) gomap" where
  \<comment> \<open>the loop the three converters share\<close>
  "convertValues conv values =
     foldl (\<lambda>ret v. case conv v of None \<Rightarrow> ret | Some t \<Rightarrow> AList.update (val_name v) t ret) [] values"

definition convertValuesToNumericTelemetryValues :: "val list \<Rightarrow> (string, NumericTelemetryValue) gomap" where
  "convertValuesToNumericTelemetryValues values = convertValues numeric_telemetry values"

definition convertValuesToTextTelemetryValues :: "val list \<Rightarrow> (string, TextTelemetryValue) gomap" where
  "convertValuesToTextTelemetryValues values = convertValues text_telemetry values"

definition convertValuesToEnumTelemetryValues :: "val list \<Rightarrow> (string, EnumTelemetryValue) gomap" where
  "convertValuesToEnumTelemetryValues values = convertValues enum_telemetry values"

lemma wf_convertValues [wf_intros]: "wf_gomap (convertValues conv vs)"
proof -
  have "wf_gomap m \<Longrightarrow>
    wf_gomap (foldl (\<lambda>ret v. case conv v of None \<Rightarrow> ret | Some t \<Rightarrow> AList.update (val_name v) t ret) m vs)" for m
    by (induction vs arbitrary: m) (auto intro: wf_intros split: option.splits)
  then show ?thesis by (simp add: convertValues_def)
qed

text \<open>Where the names are distinct, the map has the entry of each convertible value.\<close>

lemma convertValues_snoc:
  "convertValues conv (vs @ [v]) =
     (case conv v of None \<Rightarrow> convertValues conv vs
      | Some t \<Rightarrow> AList.update (val_name v) t (convertValues conv vs))"
  unfolding convertValues_def by simp

lemma convertValues_lookup:
  "distinct (map val_name vs) \<Longrightarrow>
     map_of (convertValues conv vs) n =
       Option.bind (find (\<lambda>v. val_name v = n) vs) conv"
proof (induction vs rule: rev_induct)
  case Nil
  show ?case by (simp add: convertValues_def)
next
  case (snoc v vs)
  have f: "find (\<lambda>v. val_name v = n) (vs @ [v]) =
    (case find (\<lambda>v. val_name v = n) vs of None \<Rightarrow> if val_name v = n then Some v else None | Some w \<Rightarrow> Some w)"
    by (induction vs) auto
  have none: "find (\<lambda>w. val_name w = n) vs = None" if "val_name v = n"
    unfolding find_None_iff using snoc.prems that by (auto simp: image_iff)
  have IH: "map_of (convertValues conv vs) n = Option.bind (find (\<lambda>v. val_name v = n) vs) conv"
    using snoc by simp
  show ?case
    using none by (auto simp: convertValues_snoc f update_conv' IH split: option.splits)
qed

lemma find_val_name:
  "distinct (map val_name vs) \<Longrightarrow> v \<in> set vs \<Longrightarrow> find (\<lambda>w. val_name w = val_name v) vs = Some v"
  by (induction vs) auto

section \<open>Marshalling and unmarshalling\<close>

definition codec_exact :: "('m \<Rightarrow> string option) \<Rightarrow> (string \<Rightarrow> 'm option) \<Rightarrow> 'm \<Rightarrow> bool" where
  \<comment> \<open>the JSON package reads back what it wrote for this message\<close>
  "codec_exact marshal unmarshal m \<longleftrightarrow> Option.bind (marshal m) unmarshal = Some m"

lemma codec_exactE:
  assumes "codec_exact marshal unmarshal m"
  obtains p where "marshal m = Some p" and "unmarshal p = Some m"
  using assms by (auto simp: codec_exact_def bind_eq_Some_conv)

section \<open>Examples\<close>

text \<open>Two registers with values, and a client with the default templates, for the witnesses.\<close>

definition power_register :: register where
  "power_register = NewRegisterStruct ''Monitor'' ''Power'' ''Power'' NumberRegister None ''W'' 1 False"

definition mode_register :: register where
  "mode_register =
     NewRegisterStruct ''Monitor'' ''Mode'' ''Mode'' EnumRegister (Some [(0, ''Off''), (1, ''On'')]) '''' 2 True"

definition power_value :: "rat \<Rightarrow> val" where
  "power_value x = NumericRegisterValue ''dev'' power_register (F_Fin x)"

definition mode_value :: "int \<Rightarrow> val" where
  "mode_value i = EnumRegisterValue ''dev'' mode_register i"

lemmas example_values = power_value_def mode_value_def power_register_def mode_register_def val_name_def

definition section_all :: "string \<Rightarrow> MqttSectionConfig" where
  "section_all template =
     \<lparr>ms_enabled = True, ms_topicTemplate = template, ms_interval = 0, ms_retain = False, ms_qos = 1,
      ms_devices = [\<lparr>sd_name = ''dev'', sd_filter = \<lparr>IncludeRegisters = [], SkipRegisters = [],
        IncludeCategories = [], SkipCategories = [], DefaultInclude = True\<rparr>\<rparr>]\<rparr>"

definition example_client :: "unit MqttClientConfig" where
  "example_client =
     \<lparr>cl_name = ''local'', cl_broker = Some (), cl_protocolVersion = 5, cl_user = '''', cl_password = '''',
      cl_clientId = ''go-iotdevice'', cl_keepAlive = minute, cl_connectRetryDelay = second,
      cl_connectTimeout = second, cl_topicPrefix = ''iot/'', cl_readOnly = False, cl_maxBacklogSize = 256,
      cl_mqttDevices = [],
      cl_availabilityClient = section_all ''%Prefix%avail/%ClientId%'',
      cl_availabilityDevice = section_all ''%Prefix%avail/%DeviceName%'',
      cl_structure = section_all ''%Prefix%struct/%DeviceName%'',
      cl_telemetry = section_all ''%Prefix%tele/%DeviceName%'',
      cl_realtime = section_all ''%Prefix%real/%DeviceName%/%RegisterName%'',
      cl_homeassistantDiscovery = section_all ''homeassistant/%Component%/%NodeId%/%ObjectId%/config'',
      cl_command = section_all ''%Prefix%cmnd/%DeviceName%/%RegisterName%'',
      cl_logDebug = False, cl_logMessages = False\<rparr>"

end
