(* ===== verification/Mqtt_Forwarders.thy ===== *)
theory Mqtt_Forwarders
  imports Mqtt_Messages Pool
begin

text \<open>
  The goroutines of src/mqttForwarders. Each one is a loop around a \<open>select\<close>; it is modelled as a
  function of the sequence of what it receives, which returns what it publishes and how far
  it got. A value of a closed channel is the zero value of its type, as in Go: no value for an
  interface (\<open>None\<close>), the empty register for a register.
\<close>

datatype routine_end = Waiting | Returned | NilPanic

section \<open>Realtime (realtime.go)\<close>

definition publishRealtimeMessage ::
  "(value_message \<Rightarrow> string option) \<Rightarrow> 'u MqttClientConfig \<Rightarrow> string \<Rightarrow> val \<Rightarrow> publish list" where
  "publishRealtimeMessage marshal cfg devName v =
     Publish_of (cl_realtime cfg) (RealtimeTopic cfg devName (val_name v))
       (marshal (convertValueToRealtimeMessage v))"

definition realtimeImmediateModeRoutine ::
  "(value_message \<Rightarrow> string option) \<Rightarrow> 'u MqttClientConfig \<Rightarrow> string \<Rightarrow> val list \<Rightarrow> publish list" where
  \<comment> \<open>of the values drained until the subscription closes its channel\<close>
  "realtimeImmediateModeRoutine marshal cfg devName drained =
     concat (map (publishRealtimeMessage marshal cfg devName) drained)"

datatype rt_event = RtDone | RtDrained "val option" | RtTick

type_synonym updates_iter = "(string \<times> val) list \<Rightarrow> (string \<times> val) list"

fun realtime_delayed :: "updates_iter \<Rightarrow> (string, val) gomap \<Rightarrow> rt_event list \<Rightarrow> val list \<times> routine_end" where
  \<comment> \<open>the values handed to \<open>publishRealtimeMessage\<close>, in order\<close>
  "realtime_delayed it updates [] = ([], Waiting)"
| "realtime_delayed it updates (RtDone # es) = ([], Returned)"
| "realtime_delayed it updates (RtDrained None # es) = ([], NilPanic)"
| "realtime_delayed it updates (RtDrained (Some v) # es) =
     (if reg_type (val_reg v) = NumberRegister
      then realtime_delayed it (AList.update (val_name v) v updates) es
      else (let (sent, e) = realtime_delayed it updates es in (v # sent, e)))"
| "realtime_delayed it updates (RtTick # es) =
     (let (sent, e) = realtime_delayed it [] es in (map snd (it updates) @ sent, e))"

definition realtimeDelayedUpdateModeRoutine ::
  "(value_message \<Rightarrow> string option) \<Rightarrow> updates_iter \<Rightarrow> 'u MqttClientConfig \<Rightarrow> string \<Rightarrow> rt_event list \<Rightarrow>
     publish list \<times> routine_end" where
  "realtimeDelayedUpdateModeRoutine marshal it cfg devName es =
     (let (sent, e) = realtime_delayed it [] es
      in (concat (map (publishRealtimeMessage marshal cfg devName) sent), e))"

definition realtime_immediate_mode :: "'u MqttClientConfig \<Rightarrow> bool" where
  \<comment> \<open>which of the two \<open>runRealtimeForwarder\<close> starts\<close>
  "realtime_immediate_mode cfg \<longleftrightarrow> ms_interval (cl_realtime cfg) \<le> 0"

section \<open>Structure (structure.go)\<close>

datatype str_event = StrDone | StrRegister register | StrTick

record str_state =
  str_registers :: "(string, register) gomap"
  str_armed :: bool
    \<comment> \<open>the ticker ticks in 100 milliseconds; it starts with an interval that never passes\<close>

type_synonym register_iter = "(string \<times> register) list \<Rightarrow> (string \<times> register) list"

definition str_receive :: "str_state \<Rightarrow> register \<Rightarrow> str_state" where
  "str_receive s reg =
     (let s1 = (if length (str_registers s) < 1 then s\<lparr>str_armed := True\<rparr> else s)
      in if reg_name reg = AvailabilityRegisterName then s1
         else s1\<lparr>str_registers := AList.update (reg_name reg) reg (str_registers s1)\<rparr>)"

fun structure_batches ::
  "register_iter \<Rightarrow> str_state \<Rightarrow> str_event list \<Rightarrow> register list list \<times> str_state" where
  \<comment> \<open>the lists of registers handed to \<open>publishStruct\<close>; a stopped ticker does not tick\<close>
  "structure_batches it s [] = ([], s)"
| "structure_batches it s (StrDone # es) = ([], s)"
| "structure_batches it s (StrRegister reg # es) = structure_batches it (str_receive s reg) es"
| "structure_batches it s (StrTick # es) =
     (if str_armed s
      then (let (bs, s1) = structure_batches it (s\<lparr>str_registers := [], str_armed := False\<rparr>) es
            in (map snd (it (str_registers s)) # bs, s1))
      else structure_batches it s es)"

definition str_start :: str_state where
  "str_start = \<lparr>str_registers = [], str_armed = False\<rparr>"

definition structureOnUpdateModeRoutine ::
  "(StructureMessage \<Rightarrow> string option) \<Rightarrow> (register list \<Rightarrow> register list) \<Rightarrow> register_iter \<Rightarrow>
     'u MqttClientConfig \<Rightarrow> string \<Rightarrow> str_event list \<Rightarrow> publish list" where
  "structureOnUpdateModeRoutine marshal tie it cfg devName es =
     concat (map (publishStruct marshal tie cfg devName (StructureTopic cfg devName))
       (fst (structure_batches it str_start es)))"

text \<open>The periodic routine publishes the filtered registers of the database at each tick.\<close>

definition structurePeriodicModeRoutine ::
  "(StructureMessage \<Rightarrow> string option) \<Rightarrow> (register list \<Rightarrow> register list) \<Rightarrow> register_iter \<Rightarrow>
     'u MqttClientConfig \<Rightarrow> string \<Rightarrow> (register \<Rightarrow> bool) \<Rightarrow> register_db list \<Rightarrow> publish list" where
  \<comment> \<open>of the database at each tick\<close>
  "structurePeriodicModeRoutine marshal tie it cfg devName f dbs =
     concat (map (\<lambda>db. publishStruct marshal tie cfg devName (StructureTopic cfg devName)
       (rdb_GetFiltered it db f)) dbs)"

definition structure_on_update_mode :: "'u MqttClientConfig \<Rightarrow> bool" where
  "structure_on_update_mode cfg \<longleftrightarrow> ms_interval (cl_structure cfg) \<le> 0"

section \<open>Telemetry (telemetry.go)\<close>

definition time_add :: "go_time \<Rightarrow> duration \<Rightarrow> go_time" where
  "time_add t d = \<lparr>wall = wall t + d, mono = map_option (\<lambda>m. m + d) (mono t)\<rparr>"

datatype tele_event =
    TeleDone | TeleAvail bool
  | TeleTick go_time "val list" \<comment> \<open>the time and the filtered state at the tick\<close>

definition telemetry_message ::
  "(go_time \<Rightarrow> string) \<Rightarrow> 'u MqttClientConfig \<Rightarrow> string \<Rightarrow> go_time \<Rightarrow> val list \<Rightarrow> TelemetryMessage" where
  "telemetry_message rfc3339 cfg model now vs =
     \<lparr>tm_Time = rfc3339 now,
      tm_NextTelemetry = rfc3339 (time_add now (ms_interval (cl_telemetry cfg))),
      tm_Model = model,
      tm_NumericValues = convertValuesToNumericTelemetryValues vs,
      tm_TextValues = convertValuesToTextTelemetryValues vs,
      tm_EnumValues = convertValuesToEnumTelemetryValues vs\<rparr>"

fun telemetry_loop ::
  "(TelemetryMessage \<Rightarrow> string option) \<Rightarrow> (go_time \<Rightarrow> string) \<Rightarrow> 'u MqttClientConfig \<Rightarrow> string \<Rightarrow> string \<Rightarrow>
     bool \<Rightarrow> tele_event list \<Rightarrow> publish list" where
  "telemetry_loop marshal rfc cfg devName model avail [] = []"
| "telemetry_loop marshal rfc cfg devName model avail (TeleDone # es) = []"
| "telemetry_loop marshal rfc cfg devName model avail (TeleAvail a # es) =
     telemetry_loop marshal rfc cfg devName model a es"
| "telemetry_loop marshal rfc cfg devName model avail (TeleTick now vs # es) =
     (if \<not> avail then []
      else Publish_of (cl_telemetry cfg) (TelemetryTopic cfg devName)
             (marshal (telemetry_message rfc cfg model now vs))) @
     telemetry_loop marshal rfc cfg devName model avail es"

definition runTelemetryForwarder ::
  "(TelemetryMessage \<Rightarrow> string option) \<Rightarrow> (go_time \<Rightarrow> string) \<Rightarrow> 'u MqttClientConfig \<Rightarrow> string \<Rightarrow> string \<Rightarrow>
     tele_event list \<Rightarrow> publish list" where
  "runTelemetryForwarder marshal rfc cfg devName model es =
     telemetry_loop marshal rfc cfg devName model False es"

section \<open>Availability (availability.go)\<close>

definition runAvailabilityForwarder :: "'u MqttClientConfig \<Rightarrow> string \<Rightarrow> bool list \<Rightarrow> publish list" where
  \<comment> \<open>of the flags received until the context is done\<close>
  "runAvailabilityForwarder cfg devName avails =
     concat (map (\<lambda>avail. Publish_of (cl_availabilityDevice cfg) (AvailabilityDeviceTopic cfg devName)
       (Some (if avail then AvailabilityOnlineValue else AvailabilityOfflineValue))) avails)"

section \<open>Commands (command.go)\<close>

text \<open>A route is a subscription of the client: its topic and the register its handler is for.\<close>

record command_route =
  cmd_topic :: string
  cmd_register :: register

definition setupCommandSubscription ::
  "'u MqttClientConfig \<Rightarrow> string \<Rightarrow> register_db \<Rightarrow> register \<Rightarrow> command_route list" where
  "setupCommandSubscription cfg devName registerDb register =
     (let topic = CommandTopic cfg devName (reg_name register)
      in case rdb_GetByName registerDb (reg_name register) of
           None \<Rightarrow> []
         | Some r \<Rightarrow> [\<lparr>cmd_topic = topic, cmd_register = r\<rparr>])"

definition commandRoutine ::
  "'u MqttClientConfig \<Rightarrow> string \<Rightarrow> (register_db \<times> register) list \<Rightarrow> command_route list" where
  \<comment> \<open>of the registers received, each with the database at that time\<close>
  "commandRoutine cfg devName received =
     concat (map (\<lambda>(db, reg). setupCommandSubscription cfg devName db reg) received)"

definition command_handler ::
  "(string \<Rightarrow> value_message option) \<Rightarrow> string \<Rightarrow> command_route \<Rightarrow> string \<Rightarrow> val option" where
  \<comment> \<open>the value filled into the command storage; \<open>None\<close>: only a log line\<close>
  "command_handler unmarshal deviceName route payload =
     (case unmarshal payload of
        None \<Rightarrow> None
      | Some msg \<Rightarrow> message_value deviceName (cmd_register route) msg)"

section \<open>Start (forwarder.go)\<close>

datatype forwarder =
    FwHomeassistant string filter_conf
  | FwAvailability string
  | FwStructure string filter_conf
  | FwTelemetry string filter_conf
  | FwRealtime string filter_conf
  | FwCommand string filter_conf

definition section_forwarders ::
  "string pool \<Rightarrow> MqttSectionConfig \<Rightarrow> (string \<Rightarrow> filter_conf \<Rightarrow> forwarder) \<Rightarrow> forwarder list" where
  \<comment> \<open>the loop over the devices of an enabled section; the pool's items are the devices' names\<close>
  "section_forwarders devicePool sCfg mk =
     (if ms_enabled sCfg
      then concat (map (\<lambda>deviceConfig.
             case Pool_GetByName devicePool (sd_name deviceConfig) of
               None \<Rightarrow> []
             | Some dev \<Rightarrow> [mk dev (sd_filter deviceConfig)]) (ms_devices sCfg))
      else [])"

definition RunMqttForwarders :: "'u MqttClientConfig \<Rightarrow> string pool \<Rightarrow> forwarder list" where
  \<comment> \<open>the forwarders started, in order\<close>
  "RunMqttForwarders cfg devicePool =
     section_forwarders devicePool (cl_homeassistantDiscovery cfg) FwHomeassistant @
     section_forwarders devicePool (cl_availabilityDevice cfg) (\<lambda>dev f. FwAvailability dev) @
     section_forwarders devicePool (cl_structure cfg) FwStructure @
     section_forwarders devicePool (cl_telemetry cfg) FwTelemetry @
     section_forwarders devicePool (cl_realtime cfg) FwRealtime @
     section_forwarders devicePool (cl_command cfg) FwCommand"

section \<open>What the realtime routine sends\<close>

text \<open>The newest value of a register in a list of values.\<close>

fun latest :: "string \<Rightarrow> val list \<Rightarrow> val option" where
  "latest n [] = None"
| "latest n (v # vs) =
     (case latest n vs of Some w \<Rightarrow> Some w | None \<Rightarrow> if val_name v = n then Some v else None)"

lemma latest_append: "latest n (xs @ ys) = (case latest n ys of Some w \<Rightarrow> Some w | None \<Rightarrow> latest n xs)"
  by (induction xs) (auto split: option.splits)

lemma latest_in: "latest n vs = Some v \<Longrightarrow> v \<in> set vs \<and> val_name v = n"
  by (induction vs) (auto split: option.splits if_splits)

definition keyed :: "(string, val) gomap \<Rightarrow> bool" where
  "keyed m \<longleftrightarrow> wf_gomap m \<and> list_all (\<lambda>(k, v). val_name v = k) m"

lemma keyed_Nil [simp]: "keyed []"
  by (simp add: keyed_def)

lemma keyed_update: "keyed m \<Longrightarrow> keyed (AList.update (val_name v) v m)"
  by (auto simp: keyed_def list_all_iff intro: wf_intros dest!: update_entry)

lemma latest_keyed:
  "list_all (\<lambda>(k, v). val_name v = k) m \<Longrightarrow> distinct (map fst m) \<Longrightarrow> latest n (map snd m) = map_of m n"
proof (induction m)
  case (Cons p m)
  obtain k v where p: "p = (k, v)" by force
  have IH: "latest n (map snd m) = map_of m n" and "k = val_name v" and "k \<notin> fst ` set m"
    using Cons by (simp_all add: p)
  moreover have "map_of m (val_name v) = None"
    using calculation by (simp add: map_of_eq_None_iff)
  ultimately show ?case
    by (auto simp: p split: option.splits)
qed simp

lemma latest_iter:
  assumes "iter_order it" and "keyed m"
  shows "latest n (map snd (it m)) = map_of m n"
proof -
  have s: "mset (it m) = mset m"
    using assms(1) by (rule iter_order_mset)
  have d: "distinct (map fst (it m))"
    using assms(2) s by (metis keyed_def mset_eq_imp_distinct_iff mset_map wf_gomap_def)
  have "list_all (\<lambda>(k, v). val_name v = k) (it m)"
    using assms by (simp add: keyed_def list_all_iff iter_order_set)
  then have "latest n (map snd (it m)) = map_of (it m) n"
    using d by (rule latest_keyed)
  also have "map_of (it m) = map_of m"
    using d assms(2) s by (intro map_of_inject_set [THEN iffD2] iter_order_set [OF assms(1)])
      (simp_all add: keyed_def wf_gomap_def)
  finally show ?thesis by simp
qed

end
