(* ===== verification/Mqtt_Device.thy ===== *)
theory Mqtt_Device
  imports Mqtt_Forwarders
begin

text \<open>
  src/mqttDevice: a device that mirrors a device of another instance. It subscribes to the
  structure messages, and the first one tells it which further topics to subscribe to; the
  registers it lists become the device's own. A handler is a function of the device and the
  message; the JSON package is a parameter, as in the forwarders.
\<close>

section \<open>The device\<close>

record mqtt_device =
  md_state :: device_state
  md_kind :: MqttDeviceKind
  md_registerFilter :: "register \<Rightarrow> bool"
  md_subscriptionSetup :: bool
  md_avail :: "(string, bool) gomap"

definition mqtt_NewDevice :: "device_config \<Rightarrow> MqttDeviceKind \<Rightarrow> mqtt_device" where
  "mqtt_NewDevice deviceConfig kind =
     \<lparr>md_state = NewState deviceConfig, md_kind = kind,
      md_registerFilter = RegisterFilter (dc_Filter deviceConfig),
      md_subscriptionSetup = False, md_avail = []\<rparr>"

definition mqtt_Name :: "mqtt_device \<Rightarrow> string" where
  "mqtt_Name c = ds_Name (md_state c)"

definition mqtt_Model :: "mqtt_device \<Rightarrow> string" where
  "mqtt_Model c = ''mqtt-'' @ MqttDeviceKind_String (md_kind c)"

text \<open>The routes added to the clients; the nil client of an unknown name is skipped.\<close>

definition mqtt_Run_routes ::
  "((string \<times> string list) list \<Rightarrow> (string \<times> string list) list) \<Rightarrow> MqttDeviceKind \<Rightarrow>
     (string, string list) gomap \<Rightarrow> (string \<Rightarrow> 'c option) \<Rightarrow> ('c \<times> string) list" where
  "mqtt_Run_routes it kind topics pool_get =
     (if kind \<noteq> MqttDeviceGoIotdeviceV3Kind then []
      else concat (map (\<lambda>(clientName, ts).
        case pool_get clientName of None \<Rightarrow> [] | Some mc \<Rightarrow> map (Pair mc) ts) (it topics)))"

section \<open>Registers\<close>

definition updateRegisters :: "mqtt_device \<Rightarrow> StructRegister list \<Rightarrow> mqtt_device" where
  "updateRegisters c registers =
     c\<lparr>md_state := (md_state c)\<lparr>ds_registerDb :=
        fst (RegisterDb_Add (ds_registerDb (md_state c))
          (filter (md_registerFilter c) (map struct_register registers)))\<rparr>\<rparr>"

section \<open>Availability\<close>

definition countTrue :: "(string, bool) gomap \<Rightarrow> nat" where
  "countTrue m = length (filter snd m)"

definition availability_handler ::
  "nat \<Rightarrow> mqtt_device \<Rightarrow> string \<Rightarrow> string \<Rightarrow> mqtt_device \<times> device_action list" where
  "availability_handler numbAvail c topic payload =
     (let c1 = c\<lparr>md_avail := AList.update topic (payload = ''online'') (md_avail c)\<rparr>
      in (c1, [FillState (SetAvailable (md_state c1) (countTrue (md_avail c1) = numbAvail))]))"

section \<open>Telemetry\<close>

definition telemetry_value :: "string \<Rightarrow> TelemetryMessage \<Rightarrow> register \<Rightarrow> val option" where
  "telemetry_value deviceName msg r =
     (case reg_type r of
        NumberRegister \<Rightarrow> map_option (\<lambda>v. NumericRegisterValue deviceName r (nt_Value v))
          (map_of (tm_NumericValues msg) (reg_name r))
      | TextRegister \<Rightarrow> map_option (\<lambda>v. TextRegisterValue deviceName r (tt_Value v))
          (map_of (tm_TextValues msg) (reg_name r))
      | EnumRegister \<Rightarrow> map_option (\<lambda>v. EnumRegisterValue deviceName r (et_EnumIdx v))
          (map_of (tm_EnumValues msg) (reg_name r))
      | UndefinedRegister \<Rightarrow> None)"

definition telemetry_handler ::
  "(string \<Rightarrow> TelemetryMessage option) \<Rightarrow> register_iter \<Rightarrow> mqtt_device \<Rightarrow> string \<Rightarrow> device_action list" where
  "telemetry_handler unmarshal it c payload =
     (case unmarshal payload of
        None \<Rightarrow> []
      | Some msg \<Rightarrow> map FillState
          (List.map_filter (telemetry_value (mqtt_Name c) msg) (rdb_GetAll it (ds_registerDb (md_state c)))))"

section \<open>Realtime\<close>

definition realtime_route :: "string \<Rightarrow> (string \<times> TopicMatcher) option" where
  \<comment> \<open>the topic subscribed to and the matcher of its handler\<close>
  "realtime_route topicTemplate =
     (case CreateMatcherSingleVariable topicTemplate ''%RegisterName%'' of
        Inl e \<Rightarrow> None
      | Inr tm \<Rightarrow> Some (replace_first ''%RegisterName%'' ''+'' topicTemplate, tm))"

definition realtime_handler ::
  "(string \<Rightarrow> value_message option) \<Rightarrow> TopicMatcher \<Rightarrow> mqtt_device \<Rightarrow> string \<Rightarrow> string \<Rightarrow> device_action list" where
  "realtime_handler unmarshal tm c topic payload =
     (if length payload < 1 then []
      else case ParseTopic tm topic of
        Inl e \<Rightarrow> []
      | Inr registerName \<Rightarrow>
          (case unmarshal payload of
             None \<Rightarrow> []
           | Some realtimeMessage \<Rightarrow>
               (case rdb_GetByName (ds_registerDb (md_state c)) registerName of
                  None \<Rightarrow> []
                | Some register \<Rightarrow>
                    (case message_value (mqtt_Name c) register realtimeMessage of
                       None \<Rightarrow> []
                     | Some v \<Rightarrow> [FillState v]))))"

section \<open>Commands\<close>

definition filterCommandRegisters :: "StructRegister list \<Rightarrow> (string, unit) gomap" where
  "filterCommandRegisters inp =
     foldl (\<lambda>oup r. if sg_Writable r then AList.update (sg_Name r) () oup else oup) [] inp"

definition command_filter :: "string \<Rightarrow> StructRegister list \<Rightarrow> value_filter" where
  "command_filter deviceName registers =
     (let commandRegister = filterCommandRegisters registers
      in (\<lambda>v. if DeviceName v \<noteq> deviceName then False else in_map commandRegister (val_name v)))"

fun command_message :: "val \<Rightarrow> value_message option" where
  "command_message (NumericRegisterValue _ _ x) = Some (empty_message\<lparr>vm_NumericValue := Some x\<rparr>)"
| "command_message (TextRegisterValue _ _ s) = Some (empty_message\<lparr>vm_TextValue := Some s\<rparr>)"
| "command_message (EnumRegisterValue _ _ i) = Some (empty_message\<lparr>vm_EnumIdx := Some i\<rparr>)"
| "command_message (NullRegisterValue _ _) = None"

definition forward_command ::
  "(value_message \<Rightarrow> string option) \<Rightarrow> string \<Rightarrow> string \<Rightarrow> val \<Rightarrow> publish list \<times> device_action list" where
  \<comment> \<open>one turn of the loop of \<open>runCommandForwarder\<close>\<close>
  "forward_command marshal deviceName topicTemplate command =
     (case command_message command of
        None \<Rightarrow> ([], [])
      | Some msg \<Rightarrow>
          ((case marshal msg of
              None \<Rightarrow> []
            | Some payload \<Rightarrow>
                [\<lparr>pb_topic = replace_first ''%RegisterName%'' (val_name command) topicTemplate,
                  pb_payload = payload, pb_qos = 1, pb_retain = False\<rparr>]),
           [FillCommand (NullRegisterValue deviceName (val_reg command))]))"

definition runCommandForwarder ::
  "(value_message \<Rightarrow> string option) \<Rightarrow> string \<Rightarrow> string \<Rightarrow> val list \<Rightarrow> publish list \<times> device_action list" where
  \<comment> \<open>of the commands drained from the subscription with \<open>command_filter\<close>\<close>
  "runCommandForwarder marshal deviceName topicTemplate drained =
     (let rs = map (forward_command marshal deviceName topicTemplate) drained
      in (concat (map fst rs), concat (map snd rs)))"

section \<open>Structure messages\<close>

datatype mirror_route =
    AvailabilityRoute string nat
  | TelemetryRoute string
  | RealtimeRoute string TopicMatcher

record mirror_setup =
  su_routes :: "mirror_route list"
  su_command :: "(string \<times> StructRegister list) option"
    \<comment> \<open>topic template and registers of the command forwarder started\<close>

definition setup_subscriptions :: "StructureMessage \<Rightarrow> mirror_setup" where
  "setup_subscriptions msg =
     \<lparr>su_routes =
        map (\<lambda>topic. AvailabilityRoute topic (length (sm_AvailabilityTopics msg))) (sm_AvailabilityTopics msg) @
        (if length (sm_TelemetryTopic msg) > 0 then [TelemetryRoute (sm_TelemetryTopic msg)] else []) @
        (if length (sm_RealtimeTopic msg) > 0
         then (case realtime_route (sm_RealtimeTopic msg) of
                 None \<Rightarrow> [] | Some (topic, tm) \<Rightarrow> [RealtimeRoute topic tm])
         else []),
      su_command =
        (if length (sm_CommandTopic msg) > 0 then Some (sm_CommandTopic msg, sm_Registers msg) else None)\<rparr>"

definition struct_handler ::
  "(string \<Rightarrow> StructureMessage option) \<Rightarrow> mqtt_device \<Rightarrow> string \<Rightarrow> mqtt_device \<times> mirror_setup option" where
  \<comment> \<open>with its goroutine run to the end before the next message is handled\<close>
  "struct_handler unmarshal c payload =
     (case unmarshal payload of
        None \<Rightarrow> (c, None)
      | Some msg \<Rightarrow>
          (if \<not> md_subscriptionSetup c
           then (updateRegisters (c\<lparr>md_subscriptionSetup := True\<rparr>) (sm_Registers msg),
                 Some (setup_subscriptions msg))
           else (updateRegisters c (sm_Registers msg), None)))"

fun struct_messages ::
  "(string \<Rightarrow> StructureMessage option) \<Rightarrow> mqtt_device \<Rightarrow> string list \<Rightarrow> mqtt_device \<times> mirror_setup list" where
  "struct_messages unmarshal c [] = (c, [])"
| "struct_messages unmarshal c (p # ps) =
     (let (c1, su) = struct_handler unmarshal c p; (c2, sus) = struct_messages unmarshal c1 ps
      in (c2, (case su of None \<Rightarrow> [] | Some s \<Rightarrow> [s]) @ sus))"

section \<open>Goroutines of the structure handler\<close>

text \<open>
  Each message starts a goroutine, and they may interleave: the flag is read and written by
  two separate atomic operations. \<open>Load\<close> is the test, \<open>Store\<close> the assignment after it.
\<close>

datatype setup_pc = PcLoad | PcStore | PcSetup | PcUpdate | PcEnd

record setup_state =
  sp_flag :: bool
  sp_pcs :: "setup_pc list"
  sp_setups :: nat

inductive setup_step :: "setup_state \<Rightarrow> setup_state \<Rightarrow> bool" where
  new_message: "setup_step s (s\<lparr>sp_pcs := sp_pcs s @ [PcLoad]\<rparr>)"
| load_unset: "i < length (sp_pcs s) \<Longrightarrow> sp_pcs s ! i = PcLoad \<Longrightarrow> \<not> sp_flag s \<Longrightarrow>
    setup_step s (s\<lparr>sp_pcs := (sp_pcs s)[i := PcStore]\<rparr>)"
| load_set: "i < length (sp_pcs s) \<Longrightarrow> sp_pcs s ! i = PcLoad \<Longrightarrow> sp_flag s \<Longrightarrow>
    setup_step s (s\<lparr>sp_pcs := (sp_pcs s)[i := PcUpdate]\<rparr>)"
| store: "i < length (sp_pcs s) \<Longrightarrow> sp_pcs s ! i = PcStore \<Longrightarrow>
    setup_step s (s\<lparr>sp_flag := True, sp_pcs := (sp_pcs s)[i := PcSetup]\<rparr>)"
| set_up: "i < length (sp_pcs s) \<Longrightarrow> sp_pcs s ! i = PcSetup \<Longrightarrow>
    setup_step s (s\<lparr>sp_setups := Suc (sp_setups s), sp_pcs := (sp_pcs s)[i := PcUpdate]\<rparr>)"
| update: "i < length (sp_pcs s) \<Longrightarrow> sp_pcs s ! i = PcUpdate \<Longrightarrow>
    setup_step s (s\<lparr>sp_pcs := (sp_pcs s)[i := PcEnd]\<rparr>)"

definition setup_start :: setup_state where
  "setup_start = \<lparr>sp_flag = False, sp_pcs = [], sp_setups = 0\<rparr>"

end
