(* ===== verification/Mqtt_Forwarders_Proofs.thy ===== *)
theory Mqtt_Forwarders_Proofs
  imports Mqtt_Forwarders
begin

text \<open>
  What the forwarders publish: the delayed realtime mode against the immediate one, the
  structure messages against the registers received, and which registers get a command route.
\<close>

section \<open>Delayed and immediate realtime mode\<close>

fun drained :: "rt_event list \<Rightarrow> val list" where
  "drained [] = []"
| "drained (RtDrained (Some v) # es) = v # drained es"
| "drained (_ # es) = drained es"

fun running :: "rt_event \<Rightarrow> bool" where
  "running RtDone = False"
| "running (RtDrained None) = False"
| "running _ = True"

definition number_names :: "(string \<Rightarrow> bool) \<Rightarrow> val list \<Rightarrow> bool" where
  \<comment> \<open>each name keeps its register type\<close>
  "number_names num vs \<longleftrightarrow> list_all (\<lambda>v. (reg_type (val_reg v) = NumberRegister) = num (val_name v)) vs"

definition pending_ok :: "(string \<Rightarrow> bool) \<Rightarrow> (string, val) gomap \<Rightarrow> bool" where
  "pending_ok num m \<longleftrightarrow> keyed m \<and> (\<forall>n. map_of m n \<noteq> None \<longrightarrow> num n)"

lemma pending_ok_Nil [simp]: "pending_ok num []"
  by (simp add: pending_ok_def)

lemma pending_ok_update:
  "pending_ok num m \<Longrightarrow> num (val_name v) \<Longrightarrow> pending_ok num (AList.update (val_name v) v m)"
  by (auto simp: pending_ok_def keyed_update update_conv')

text \<open>With pending updates, the tick at the end publishes the newest value of every register.\<close>

lemma realtime_delayed_flush:
  assumes "iter_order it"
  shows "list_all running es \<Longrightarrow> number_names num (drained es) \<Longrightarrow> pending_ok num m \<Longrightarrow>
    latest n (fst (realtime_delayed it m (es @ [RtTick]))) =
      (case latest n (drained es) of Some w \<Rightarrow> Some w | None \<Rightarrow> map_of m n)"
proof (induction es arbitrary: m rule: drained.induct [case_names Empty Value Done Closed Tick])
  case Empty
  then show ?case
    using assms by (simp add: pending_ok_def latest_iter)
next
  case (Value v es)
  show ?case
  proof (cases "reg_type (val_reg v) = NumberRegister")
    case True
    with Value have "pending_ok num (AList.update (val_name v) v m)"
      by (simp add: number_names_def pending_ok_update)
    with Value True show ?thesis
      by (simp add: number_names_def update_conv' split: option.splits)
  next
    case False
    with Value have "\<not> num (val_name v)"
      by (simp add: number_names_def)
    with Value(4) have "map_of m (val_name v) = None"
      unfolding pending_ok_def by blast
    with Value False show ?thesis
      by (auto simp: number_names_def case_prod_beta Let_def split: option.splits)
  qed
next
  case (Tick es)
  have ok: "keyed m"
    using Tick.prems(3) by (simp add: pending_ok_def)
  show ?case
    using Tick latest_iter [OF assms ok, of n]
    by (simp add: case_prod_beta Let_def latest_append split: option.splits)
qed simp_all

lemma set_update_values: "snd ` set (AList.update k v m) \<subseteq> insert v (snd ` set m)"
  by (auto dest!: update_entry)

lemma realtime_delayed_subset:
  assumes "iter_order it"
  shows "set (fst (realtime_delayed it m es)) \<subseteq> snd ` set m \<union> set (drained es)"
proof (induction es arbitrary: m)
  case (Cons e es)
  show ?case
  proof (cases e)
    case (RtDrained w)
    show ?thesis
    proof (cases w)
      case (Some v)
      have "set (fst (realtime_delayed it (AList.update (val_name v) v m) es))
          \<subseteq> snd ` set m \<union> set (drained (e # es))"
        using Cons [of "AList.update (val_name v) v m"] set_update_values [of "val_name v" v m]
        unfolding RtDrained Some drained.simps list.set by blast
      moreover have "set (fst (realtime_delayed it m es)) \<subseteq> snd ` set m \<union> set (drained (e # es))"
        using Cons [of m] unfolding RtDrained Some drained.simps list.set by blast
      ultimately show ?thesis
        unfolding RtDrained Some by (simp add: case_prod_beta Let_def)
    qed (simp add: RtDrained)
  next
    case RtTick
    then show ?thesis
      using Cons [of "[]"] iter_order_set [OF assms, of m] by (auto simp: case_prod_beta Let_def)
  qed simp
qed simp



section \<open>Structure messages\<close>

text \<open>The registers received until the routine ends, the newest of each name.\<close>

fun received :: "str_event list \<Rightarrow> register list" where
  "received [] = []"
| "received (StrDone # es) = []"
| "received (StrRegister r # es) = r # received es"
| "received (StrTick # es) = received es"

definition store_register :: "(string \<rightharpoonup> register) \<Rightarrow> register \<Rightarrow> (string \<rightharpoonup> register)" where
  "store_register m r = m(reg_name r \<mapsto> r)"

definition store_all :: "(string \<rightharpoonup> register) \<Rightarrow> register list \<Rightarrow> (string \<rightharpoonup> register)" where
  "store_all = foldl store_register"

lemma store_all_simps [simp]:
  "store_all m [] = m"
  "store_all m (r # rs) = store_all (m(reg_name r \<mapsto> r)) rs"
  "store_all m (xs @ ys) = store_all (store_all m xs) ys"
  by (simp_all add: store_all_def store_register_def)

lemma store_all_distinct:
  "distinct (map reg_name rs) \<Longrightarrow>
     store_all m rs n = (case find (\<lambda>r. reg_name r = n) rs of Some r \<Rightarrow> Some r | None \<Rightarrow> m n)"
proof (induction rs arbitrary: m)
  case (Cons r rs)
  have "find (\<lambda>s. reg_name s = n) rs = None" if "reg_name r = n"
    unfolding find_None_iff using Cons.prems that by (auto simp: image_iff)
  with Cons show ?case by (auto split: option.splits)
qed simp

lemma store_all_outside: "n \<notin> reg_name ` set rs \<Longrightarrow> store_all m rs n = m n"
  by (induction rs arbitrary: m) auto

end
