(* ===== verification/Mqtt_Mirror.thy ===== *)
theory Mqtt_Mirror
  imports Mqtt_Device Mqtt_Forwarders_Proofs
begin

text \<open>
  Two instances talking over MQTT: what the forwarders of one publish is what the mirror device
  of the other takes over, its registers, values and availability, and a command given to the
  mirror reaches the device.
\<close>

section \<open>Registers\<close>

text \<open>The batches the on-update routine publishes store what it received.\<close>

definition str_ok :: "str_state \<Rightarrow> bool" where
  "str_ok s \<longleftrightarrow> (str_registers s \<noteq> [] \<longrightarrow> str_armed s) \<and> wf_gomap (str_registers s) \<and>
     list_all (\<lambda>(k, r). reg_name r = k) (str_registers s)"

lemma str_ok_start: "str_ok str_start" "str_ok (s\<lparr>str_registers := [], str_armed := b\<rparr>)"
  by (simp_all add: str_ok_def str_start_def)

lemma str_ok_receive: "str_ok s \<Longrightarrow> str_ok (str_receive s r)"
  by (auto simp: str_ok_def str_receive_def Let_def list_all_iff wf_gomap_def distinct_update
      dest!: update_entry)

lemma str_receive_registers:
  "map_of (str_registers (str_receive s r)) =
     (if reg_name r = AvailabilityRegisterName then map_of (str_registers s)
      else (map_of (str_registers s))(reg_name r \<mapsto> r))"
  by (rule ext) (simp add: str_receive_def Let_def update_conv')

lemma store_all_batch:
  assumes "mset rs = mset (map snd m)" and "wf_gomap m" and "list_all (\<lambda>(k, r). reg_name r = k) m"
  shows "store_all g rs = g ++ map_of m"
proof (rule ext)
  fix n
  have names: "map reg_name (map snd m) = map fst m"
    using assms(3) by (induction m) auto
  have "mset (map reg_name rs) = mset (map fst m)"
    using assms(1) names by (metis mset_map)
  then have d: "distinct (map reg_name rs)"
    using assms(2) by (metis mset_eq_imp_distinct_iff wf_gomap_def)
  have key: "reg_name r = k" if "(k, r) \<in> set m" for k r
    using assms(3) that by (auto simp: list_all_iff)
  have iff: "r \<in> set rs \<and> reg_name r = n \<longleftrightarrow> map_of m n = Some r" for r
  proof -
    have "r \<in> set rs \<longleftrightarrow> r \<in> snd ` set m"
      using assms(1) by (metis list.set_map set_mset_mset)
    moreover have "map_of m n = Some r \<longleftrightarrow> (n, r) \<in> set m"
      using assms(2) by (simp add: wf_gomap_def)
    moreover have "r \<in> snd ` set m \<and> reg_name r = n \<longleftrightarrow> (n, r) \<in> set m"
    proof
      assume r: "r \<in> snd ` set m \<and> reg_name r = n"
      then obtain k where k: "(k, r) \<in> set m" by auto
      with r key [OF k] show "(n, r) \<in> set m" by simp
    next
      assume n: "(n, r) \<in> set m"
      with key [OF n] show "r \<in> snd ` set m \<and> reg_name r = n"
        by (simp add: rev_image_eqI)
    qed
    ultimately show ?thesis by simp
  qed
  have "find (\<lambda>r. reg_name r = n) rs = map_of m n"
  proof (cases "find (\<lambda>r. reg_name r = n) rs")
    case None
    then show ?thesis
      using iff by (cases "map_of m n") (auto simp: find_None_iff)
  next
    case (Some r)
    then have "r \<in> set rs \<and> reg_name r = n"
      by (auto simp: find_Some_iff)
    with Some iff show ?thesis by simp
  qed
  then show "store_all g rs n = (g ++ map_of m) n"
    by (simp add: store_all_distinct [OF d] map_add_def)
qed

lemma SortRegisterStructs_batch:
  assumes "iter_order it" and "iter_order tie" and "str_ok s"
  shows "store_all g (SortRegisterStructs tie (map snd (it (str_registers s)))) = g ++ map_of (str_registers s)"
proof (rule store_all_batch)
  have "mset (SortRegisterStructs tie (map snd (it (str_registers s)))) = mset (map snd (it (str_registers s)))"
    by (rule SortRegisterStructs_perm [OF assms(2)])
  then show "mset (SortRegisterStructs tie (map snd (it (str_registers s)))) = mset (map snd (str_registers s))"
    using iter_order_mset [OF assms(1)] by (metis mset_map)
qed (use assms(3) in \<open>simp_all add: str_ok_def\<close>)

definition announced_registers :: "(register list \<Rightarrow> register list) \<Rightarrow> register list list \<Rightarrow> register list" where
  "announced_registers tie bs = concat (map (SortRegisterStructs tie) bs)"

lemma announced_registers_Cons [simp]:
  "announced_registers tie (b # bs) = SortRegisterStructs tie b @ announced_registers tie bs"
  "announced_registers tie [] = []"
  by (simp_all add: announced_registers_def)

lemma structure_batches_store:
  assumes "iter_order it" and "iter_order tie"
  shows "str_ok s \<Longrightarrow> StrDone \<notin> set es \<Longrightarrow>
    store_all g (announced_registers tie (fst (structure_batches it s (es @ [StrTick])))) =
      store_all (g ++ map_of (str_registers s))
        (filter (\<lambda>r. reg_name r \<noteq> AvailabilityRegisterName) (received es))"
proof (induction es arbitrary: s g)
  case Nil
  show ?case
  proof (cases "str_armed s")
    case True
    then show ?thesis
      using SortRegisterStructs_batch [OF assms Nil(1)] by simp
  next
    case False
    with Nil have "str_registers s = []"
      by (auto simp: str_ok_def)
    with False show ?thesis by simp
  qed
next
  case (Cons e es)
  show ?case
  proof (cases e)
    case StrDone
    with Cons show ?thesis by simp
  next
    case (StrRegister r)
    have "store_all g (announced_registers tie (fst (structure_batches it (str_receive s r) (es @ [StrTick])))) =
        store_all (g ++ map_of (str_registers (str_receive s r)))
          (filter (\<lambda>r. reg_name r \<noteq> AvailabilityRegisterName) (received es))"
      using Cons.prems by (intro Cons.IH str_ok_receive) simp_all
    then show ?thesis
      by (simp add: StrRegister str_receive_registers)
  next
    case StrTick
    show ?thesis
    proof (cases "str_armed s")
      case True
      have "store_all h (announced_registers tie (fst (structure_batches it
          (s\<lparr>str_registers := [], str_armed := False\<rparr>) (es @ [StrTick])))) =
          store_all h (filter (\<lambda>r. reg_name r \<noteq> AvailabilityRegisterName) (received es))" for h
        using Cons.prems
        by (subst Cons.IH [OF str_ok_start(2)]) simp_all
      then show ?thesis
        using True SortRegisterStructs_batch [OF assms Cons.prems(1)]
        by (simp add: StrTick Let_def case_prod_beta)
    next
      case False
      then show ?thesis
        using Cons by (simp add: StrTick)
    qed
  qed
qed

lemma store_all_cong: "g n = h n \<Longrightarrow> store_all g rs n = store_all h rs n"
proof (induction rs arbitrary: g h)
  case (Cons r rs)
  have "(g(reg_name r \<mapsto> r)) n = (h(reg_name r \<mapsto> r)) n"
    using Cons.prems by simp
  then show ?case
    unfolding store_all_simps by (rule Cons.IH)
qed simp

lemma store_all_filter_name:
  "n \<noteq> a \<Longrightarrow> store_all g (filter (\<lambda>r. reg_name r \<noteq> a) rs) n = store_all g rs n"
proof (induction rs arbitrary: g)
  case (Cons r rs)
  then show ?case
    using store_all_cong [of g n "g(reg_name r \<mapsto> r)" rs] by simp
qed simp

lemma store_all_split:
  "store_all Map.empty rs n = Some r \<Longrightarrow>
     \<exists>pre post. rs = pre @ r # post \<and> reg_name r = n \<and> n \<notin> reg_name ` set post"
proof (induction rs rule: rev_induct)
  case (snoc x rs)
  show ?case
  proof (cases "reg_name x = n")
    case True
    with snoc.prems show ?thesis
      by (intro exI [of _ rs] exI [of _ "[]"]) simp
  next
    case False
    with snoc obtain pre post
      where "rs = pre @ r # post" and "reg_name r = n" and "n \<notin> reg_name ` set post"
      by auto
    with False show ?thesis
      by (intro exI [of _ pre] exI [of _ "post @ [x]"]) simp
  qed
qed simp

text \<open>What the mirror's database holds after the structure messages.\<close>

lemma updateRegisters_sel [simp]:
  "md_registerFilter (updateRegisters c rs) = md_registerFilter c"
  "ds_registerDb (md_state (updateRegisters c rs)) =
     fst (RegisterDb_Add (ds_registerDb (md_state c)) (filter (md_registerFilter c) (map struct_register rs)))"
  "md_subscriptionSetup (updateRegisters c rs) = md_subscriptionSetup c"
  "ds_config (md_state (updateRegisters c rs)) = ds_config (md_state c)"
  by (simp_all add: updateRegisters_def)

lemma map_New_id: "map NewRegisterStructByInterface rs = rs"
  by (induction rs) simp_all

lemma struct_handler_db:
  "ds_registerDb (md_state (fst (struct_handler unmarshal c p))) =
     fst (AddStruct (ds_registerDb (md_state c))
       (filter (md_registerFilter c) (case unmarshal p of None \<Rightarrow> [] | Some m \<Rightarrow> map struct_register (sm_Registers m))))"
  "md_registerFilter (fst (struct_handler unmarshal c p)) = md_registerFilter c"
  by (simp_all add: struct_handler_def RegisterDb_Add_def map_New_id del: AddStruct.simps(2) split: option.splits)

lemma struct_messages_db:
  "ds_registerDb (md_state (fst (struct_messages unmarshal c ps))) =
     fst (AddStruct (ds_registerDb (md_state c)) (filter (md_registerFilter c)
       (concat (map (\<lambda>p. case unmarshal p of None \<Rightarrow> [] | Some m \<Rightarrow> map struct_register (sm_Registers m)) ps))))"
proof (induction ps arbitrary: c)
  case (Cons p ps)
  show ?case
    by (simp add: case_prod_beta Let_def Cons.IH struct_handler_db AddStruct_append del: AddStruct.simps(2))
qed simp

definition announced :: "'u MqttClientConfig \<Rightarrow> string \<Rightarrow> register \<Rightarrow> register" where
  \<comment> \<open>a register as the structure message announces it\<close>
  "announced cfg devName r = r\<lparr>reg_writable := getCommandFilter cfg devName r\<rparr>"

lemma struct_message_registers:
  "map struct_register (sm_Registers (struct_message cfg devName rs)) = map (announced cfg devName) rs"
  by (simp add: struct_message_def applyWritableFiltersToRegisters_def Let_def comp_def announced_def
      struct_register_writable)

lemma payload_registers:
  assumes "list_all (\<lambda>b. codec_exact marshal unmarshal (struct_message cfg devName (SortRegisterStructs tie b))) bs"
  shows "concat (map (\<lambda>p. case unmarshal p of None \<Rightarrow> [] | Some m \<Rightarrow> map struct_register (sm_Registers m))
      (map pb_payload (concat (map (publishStruct marshal tie cfg devName topic) bs)))) =
    map (announced cfg devName) (announced_registers tie bs)"
  using assms
proof (induction bs)
  case (Cons b bs)
  from Cons.prems obtain p
    where "marshal (struct_message cfg devName (SortRegisterStructs tie b)) = Some p"
      and "unmarshal p = Some (struct_message cfg devName (SortRegisterStructs tie b))"
    by (auto elim: codec_exactE)
  with Cons show ?case
    by (simp add: publishStruct_def Publish_of_def struct_message_registers)
qed simp

lemma reg_name_announced [simp]: "reg_name (announced cfg devName r) = reg_name r"
  by (simp add: announced_def)


text \<open>A mirror that accepts every register.\<close>

definition example_mirror :: mqtt_device where
  "example_mirror =
     mqtt_NewDevice \<lparr>dc_Name = ''mirror'', dc_Filter = \<lparr>IncludeRegisters = [], SkipRegisters = [],
        IncludeCategories = [], SkipCategories = [], DefaultInclude = True\<rparr>, dc_LogDebug = False,
        dc_LogComDebug = False\<rparr> MqttDeviceGoIotdeviceV3Kind"

definition example_struct :: StructureMessage where
  "example_struct = struct_message example_client ''dev'' [power_register, mode_register]"

lemma example_mirror_filter: "md_registerFilter example_mirror r"
  by (simp add: example_mirror_def mqtt_NewDevice_def RegisterFilter_iff)


section \<open>Topics\<close>

text \<open>
  The subscription of an MQTT client: a topic filter matches level by level, and the level
  \<open>+\<close> matches any one.
\<close>

fun levels :: "string \<Rightarrow> string list" where
  "levels [] = [[]]"
| "levels (c # s) = (if c = CHR ''/'' then [] # levels s else (c # hd (levels s)) # tl (levels s))"

definition topic_matches :: "string \<Rightarrow> string \<Rightarrow> bool" where
  "topic_matches subscribed topic \<longleftrightarrow>
     list_all2 (\<lambda>f l. f = ''+'' \<or> f = l) (levels subscribed) (levels topic)"

lemma levels_nonempty [simp]: "levels s \<noteq> []"
  by (cases s) auto

lemma levels_append: "levels (s @ ''/'' @ t) = levels s @ levels t"
  by (induction s) simp_all

lemma levels_plain: "CHR ''/'' \<notin> set s \<Longrightarrow> levels s = [s]"
  by (induction s) auto

lemma topic_matches_last:
  assumes "CHR ''/'' \<notin> set n"
  shows "topic_matches (s @ ''/'' @ ''+'') (s @ ''/'' @ n)"
  by (simp only: topic_matches_def levels_append levels_plain [OF assms] list_all2_append list_all2_refl)
    (simp add: list_all2_refl)

text \<open>A template of the default form: the prefix, a fixed part, the device and the register.\<close>

definition default_form :: "'u MqttClientConfig \<Rightarrow> string \<Rightarrow> string \<Rightarrow> string \<Rightarrow> bool" where
  "default_form cfg template mid devName \<longleftrightarrow>
     template = ''%Prefix%'' @ mid @ ''%DeviceName%/%RegisterName%'' \<and>
     CHR ''%'' \<notin> set (cl_topicPrefix cfg) \<and> CHR ''%'' \<notin> set mid \<and> CHR ''%'' \<notin> set devName"

definition topic_base :: "'u MqttClientConfig \<Rightarrow> string \<Rightarrow> string \<Rightarrow> string" where
  "topic_base cfg mid devName = cl_topicPrefix cfg @ mid @ devName"

lemma RealtimeTopic_form:
  "default_form cfg (ms_topicTemplate (cl_realtime cfg)) mid devName \<Longrightarrow>
     RealtimeTopic cfg devName n = topic_base cfg mid devName @ ''/'' @ n"
  unfolding RealtimeTopic_def default_form_def topic_base_def append_assoc
  by (elim conjE) (rule device_topic_default)

lemma CommandTopic_form:
  "default_form cfg (ms_topicTemplate (cl_command cfg)) mid devName \<Longrightarrow>
     CommandTopic cfg devName n = topic_base cfg mid devName @ ''/'' @ n"
  unfolding CommandTopic_def default_form_def topic_base_def append_assoc
  by (elim conjE) (rule device_topic_default)

lemma split_first_base:
  "default_form cfg template mid devName \<Longrightarrow>
     split_first ''%RegisterName%'' (topic_base cfg mid devName @ ''/'' @ ''%RegisterName%'') =
       Some (topic_base cfg mid devName @ ''/'', '''')"
  using split_first_plain [of "topic_base cfg mid devName @ ''/''" "''RegisterName%''" "''''"]
  by (simp add: default_form_def topic_base_def)

lemma plain_RegisterName: "plain ''%RegisterName%''"
  by (simp add: plain_def is_meta_def meta_chars_def)

lemma realtime_route_base:
  assumes "default_form cfg template mid devName"
  shows "realtime_route (topic_base cfg mid devName @ ''/'' @ ''%RegisterName%'') =
    Some (topic_base cfg mid devName @ ''/'' @ ''+'',
      \<lparr>tm_m = Some (map Lit (topic_base cfg mid devName @ ''/'') @ Cap # map Lit '''')\<rparr>)"
  using created_matcher [OF plain_RegisterName split_first_base [OF assms]]
    replace_first_split [OF split_first_base [OF assms], of "''+''"]
  unfolding realtime_route_def by simp

section \<open>Values\<close>

text \<open>
  C24: A value published by the realtime forwarder of a client with a template of the default form
  has a topic the mirror is subscribed to after the structure message, and the mirror fills
  the same value under its own name, if it knows the register with the same type.
\<close>

theorem realtime_mirrored:
  assumes "default_form cfg (ms_topicTemplate (cl_realtime cfg)) mid devName"
    and "ms_enabled (cl_realtime cfg)" and "codec_exact marshal unmarshal (convertValueToRealtimeMessage v)"
    and "marshal (convertValueToRealtimeMessage v) \<noteq> Some ''''"
    and "well_typed v" and "val_name v \<noteq> ''''" and "CHR ''/'' \<notin> set (val_name v)"
    and "rdb_GetByName (ds_registerDb (md_state c)) (val_name v) = Some r" and "reg_type r = reg_type (val_reg v)"
  shows "\<exists>pb subscribed tm. publishRealtimeMessage marshal cfg devName v = [pb] \<and>
    realtime_route (sm_RealtimeTopic (struct_message cfg devName rs)) = Some (subscribed, tm) \<and>
    topic_matches subscribed (pb_topic pb) \<and>
    realtime_handler unmarshal tm c (pb_topic pb) (pb_payload pb) = [FillState (readdress (mqtt_Name c) r v)]"
proof -
  let ?base = "topic_base cfg mid devName"
  let ?tm = "\<lparr>tm_m = Some (map Lit (?base @ ''/'') @ Cap # map Lit '''')\<rparr>"
  obtain p where p: "marshal (convertValueToRealtimeMessage v) = Some p"
      "unmarshal p = Some (convertValueToRealtimeMessage v)"
    using assms(3) by (rule codec_exactE)
  have nonempty: "\<not> length p < 1"
    using assms(4) p(1) by (cases p) auto
  have route: "realtime_route (sm_RealtimeTopic (struct_message cfg devName rs)) = Some (?base @ ''/'' @ ''+'', ?tm)"
    using assms(2) realtime_route_base [OF assms(1)]
    by (simp add: struct_message_def Let_def case_prod_beta RealtimeTopic_form [OF assms(1)])
  have "ParseTopic ?tm (?base @ ''/'' @ val_name v) = Inr (val_name v)"
    unfolding ParseTopic_created using assms(6,7) by simp
  then have "realtime_handler unmarshal ?tm c (?base @ ''/'' @ val_name v) p = [FillState (readdress (mqtt_Name c) r v)]"
    using nonempty p(2) assms(8) message_value_convert [OF assms(5,9)]
    unfolding realtime_handler_def by simp
  moreover let ?pb = "\<lparr>pb_topic = ?base @ ''/'' @ val_name v, pb_payload = p,
      pb_qos = ms_qos (cl_realtime cfg), pb_retain = ms_retain (cl_realtime cfg)\<rparr>"
  have "publishRealtimeMessage marshal cfg devName v = [?pb]"
    by (simp add: publishRealtimeMessage_def Publish_of_def p(1) RealtimeTopic_form [OF assms(1)])
  ultimately show ?thesis
    using route topic_matches_last [OF assms(7), of ?base]
    by (intro exI [of _ ?pb] exI [of _ "?base @ ''/'' @ ''+''"] exI [of _ ?tm] conjI) simp_all
qed

definition example_mirrored :: mqtt_device where
  "example_mirrored = updateRegisters example_mirror (sm_Registers example_struct)"

theorem realtime_mirrored_witness:
  "\<exists>pb subscribed tm. publishRealtimeMessage (\<lambda>m. Some ''json'') example_client ''dev'' (power_value 7) = [pb] \<and>
    realtime_route (sm_RealtimeTopic (struct_message example_client ''dev'' [power_register])) = Some (subscribed, tm) \<and>
    topic_matches subscribed (pb_topic pb) \<and>
    realtime_handler (\<lambda>p. Some (convertValueToRealtimeMessage (power_value 7))) tm example_mirrored
      (pb_topic pb) (pb_payload pb) = [FillState (readdress (mqtt_Name example_mirrored) power_register (power_value 7))]"
proof (rule realtime_mirrored [where mid = "''real/''"])
  show "rdb_GetByName (ds_registerDb (md_state example_mirrored)) (val_name (power_value 7)) = Some power_register"
    by (simp add: example_mirrored_def example_struct_def struct_message_registers RegisterDb_Add_def
        example_mirror_def mqtt_NewDevice_def RegisterFilter_iff NewState_def NewRegisterDb_def Let_def
        availabilityRegister_def example_values rdb_GetByName_def announced_def AvailabilityRegisterName_def
        NewRegisterStruct_def getCommandFilter_def getCommandDevice_def example_client_def section_all_def)
qed (simp_all add: default_form_def example_client_def section_all_def codec_exact_def example_values)

text \<open>Telemetry: the values that fit the mirror's registers.\<close>

lemma telemetry_value_message:
  assumes "distinct (map val_name vs)"
  shows "telemetry_value d (telemetry_message rfc cfg model now vs) r =
    Option.bind (find (\<lambda>v. val_name v = reg_name r) vs)
      (\<lambda>v. if well_typed (readdress d r v) then Some (readdress d r v) else None)"
proof (cases "find (\<lambda>v. val_name v = reg_name r) vs")
  case None
  then show ?thesis
    by (cases "reg_type r") (simp_all add: telemetry_value_def telemetry_message_def
        convertValuesToNumericTelemetryValues_def convertValuesToTextTelemetryValues_def
        convertValuesToEnumTelemetryValues_def convertValues_lookup [OF assms])
next
  case (Some v)
  then show ?thesis
    by (cases "reg_type r"; cases v) (simp_all add: telemetry_value_def telemetry_message_def
        convertValuesToNumericTelemetryValues_def convertValuesToTextTelemetryValues_def
        convertValuesToEnumTelemetryValues_def convertValues_lookup [OF assms])
qed

lemma device_values_distinct:
  assumes "wf_state st" and "iter_order it"
  shows "distinct (map val_name (GetStateFiltered it st (createDeviceAndRegisterValueFilter devName conf)))"
proof -
  let ?vs = "GetStateFiltered it st (createDeviceAndRegisterValueFilter devName conf)"
  have one: "DeviceName v = devName" if "v \<in> set ?vs" for v
    using that by (auto simp: GetStateFiltered_def createDeviceAndRegisterValueFilter_def
        DeviceNameValueFilter_def Let_def)
  have "map val_key ?vs = map (\<lambda>n. \<lparr>sk_deviceName = devName, sk_registerName = n\<rparr>) (map val_name ?vs)"
    using one by (simp add: val_key_def)
  with GetStateFiltered_distinct [OF assms, of "createDeviceAndRegisterValueFilter devName conf"] show ?thesis
    by (metis distinct_map)
qed

lemma set_map_filter_Some: "set (List.map_filter f xs) = {y. \<exists>x \<in> set xs. f x = Some y}"
  by (induction xs) (auto simp: List.map_filter_simps split: option.splits)

lemma rdb_GetAll_set:
  assumes "wf_rdb db" and "iter_order it"
  shows "r \<in> set (rdb_GetAll it db) \<longleftrightarrow> rdb_GetByName db (reg_name r) = Some r"
proof -
  have "set (rdb_GetAll it db) = ran (rdb_GetByName db)"
    using rdb_GetFiltered_set [OF assms, of "\<lambda>r. True"] by (simp add: rdb_GetAll_def rdb_GetFiltered_def)
  then show ?thesis
    using rdb_keyed [OF assms(1)] by (auto simp: ran_def)
qed

text \<open>
  The telemetry message made of the values of a device makes the mirror fill, for each of these
  values whose name is a register of the mirror of the value's type, this value, and nothing else.
\<close>

theorem telemetry_mirrored:
  assumes "wf_state st" and "iter_order it" and "wf_rdb (ds_registerDb (md_state c))" and "iter_order rit"
    and "vs = GetStateFiltered it st (createDeviceAndRegisterValueFilter devName conf)"
    and "unmarshal payload = Some (telemetry_message rfc cfg model now vs)"
  shows "set (telemetry_handler unmarshal rit c payload) =
    {FillState (readdress (mqtt_Name c) r v) | v r. v \<in> set vs \<and>
       rdb_GetByName (ds_registerDb (md_state c)) (val_name v) = Some r \<and>
       well_typed (readdress (mqtt_Name c) r v)}"
proof -
  let ?db = "ds_registerDb (md_state c)"
  let ?d = "mqtt_Name c"
  have d: "distinct (map val_name vs)"
    unfolding assms(5) by (rule device_values_distinct [OF assms(1,2)])
  have fnd: "find (\<lambda>v. val_name v = n) vs = Some v \<longleftrightarrow> v \<in> set vs \<and> val_name v = n" for n v
    using find_val_name [OF d] by (auto simp: find_Some_iff)
  have tv: "telemetry_value ?d (telemetry_message rfc cfg model now vs) r = Some x \<longleftrightarrow>
      (\<exists>v. v \<in> set vs \<and> val_name v = reg_name r \<and> well_typed (readdress ?d r v) \<and> x = readdress ?d r v)" for r x
    by (auto simp: telemetry_value_message [OF d] bind_eq_Some_conv fnd)
  have "set (telemetry_handler unmarshal rit c payload) =
      {FillState x | x r. r \<in> set (rdb_GetAll rit ?db) \<and>
         telemetry_value ?d (telemetry_message rfc cfg model now vs) r = Some x}"
    using assms(6) by (auto simp: telemetry_handler_def set_map_filter_Some)
  also have "\<dots> = {FillState (readdress ?d r v) | v r. v \<in> set vs \<and>
       rdb_GetByName ?db (val_name v) = Some r \<and> well_typed (readdress ?d r v)}" (is "?L = ?R")
  proof (intro set_eqI iffI)
    fix a
    assume "a \<in> ?L"
    then obtain r v where a: "a = FillState (readdress ?d r v)" and r: "rdb_GetByName ?db (reg_name r) = Some r"
      and v: "v \<in> set vs" "val_name v = reg_name r" "well_typed (readdress ?d r v)"
      unfolding rdb_GetAll_set [OF assms(3,4)] tv by blast
    from r v(2) have "rdb_GetByName ?db (val_name v) = Some r" by simp
    with a v(1,3) show "a \<in> ?R" by blast
  next
    fix a
    assume "a \<in> ?R"
    then obtain r v where a: "a = FillState (readdress ?d r v)" and r: "rdb_GetByName ?db (val_name v) = Some r"
      and v: "v \<in> set vs" "well_typed (readdress ?d r v)"
      by blast
    have n: "val_name v = reg_name r"
      using rdb_keyed [OF assms(3) r] by simp
    with r have "rdb_GetByName ?db (reg_name r) = Some r" by simp
    with a v n show "a \<in> ?L"
      unfolding rdb_GetAll_set [OF assms(3,4)] tv by blast
  qed
  finally show ?thesis .
qed

lemma wf_example_mirrored: "wf_rdb (ds_registerDb (md_state example_mirrored))"
  by (simp add: example_mirrored_def example_mirror_def mqtt_NewDevice_def RegisterDb_Add_def wf_NewState wf_intros
      del: AddStruct.simps)

theorem telemetry_mirrored_witness:
  "set (telemetry_handler (\<lambda>p. Some (telemetry_message (\<lambda>t. ''now'') example_client ''model'' zero_time
        (GetStateFiltered rev [(val_key (power_value 7), power_value 7)]
          (createDeviceAndRegisterValueFilter ''dev'' (dc_Filter (ds_config (md_state example_mirror))))))) rev example_mirrored ''json'') =
    {FillState (readdress (mqtt_Name example_mirrored) r v) | v r.
       v \<in> set (GetStateFiltered rev [(val_key (power_value 7), power_value 7)]
          (createDeviceAndRegisterValueFilter ''dev'' (dc_Filter (ds_config (md_state example_mirror))))) \<and>
       rdb_GetByName (ds_registerDb (md_state example_mirrored)) (val_name v) = Some r \<and>
       well_typed (readdress (mqtt_Name example_mirrored) r v)}"
  by (rule telemetry_mirrored [OF _ iter_order_rev wf_example_mirrored iter_order_rev refl])
    (simp_all add: wf_state_def wf_gomap_def is_null_def power_value_def)

section \<open>Availability\<close>

definition availability_messages :: "nat \<Rightarrow> mqtt_device \<Rightarrow> (string \<times> string) list \<Rightarrow> mqtt_device" where
  "availability_messages numb c ms = foldl (\<lambda>c (topic, payload). fst (availability_handler numb c topic payload)) c ms"

definition last_payload :: "(string \<times> string) list \<Rightarrow> string \<Rightarrow> string option" where
  "last_payload ms t = map_of (rev ms) t"

lemma availability_messages_avail:
  "map_of (md_avail (availability_messages numb c ms)) t =
     (case last_payload ms t of Some p \<Rightarrow> Some (p = ''online'') | None \<Rightarrow> map_of (md_avail c) t)"
  "md_state (availability_messages numb c ms) = md_state c"
  by (induction ms rule: rev_induct)
    (auto simp: availability_messages_def last_payload_def availability_handler_def Let_def update_conv'
      split: option.splits)

lemma wf_availability_messages:
  "wf_gomap (md_avail c) \<Longrightarrow> wf_gomap (md_avail (availability_messages numb c ms))"
  by (induction ms rule: rev_induct)
    (auto simp: availability_messages_def availability_handler_def Let_def wf_gomap_def distinct_update)

lemma countTrue_card: "wf_gomap m \<Longrightarrow> countTrue m = card {t. map_of m t = Some True}"
proof -
  assume wf: "wf_gomap m"
  have "{t. map_of m t = Some True} = fst ` set (filter snd m)"
    using wf by (auto simp: wf_gomap_def image_iff)
  moreover have "distinct (map fst (filter snd m))"
    using wf by (simp add: wf_gomap_def distinct_map_filter)
  ultimately show ?thesis
    by (metis countTrue_def distinct_card length_map list.set_map)
qed

lemma countTrue_all:
  assumes "wf_gomap m" and "distinct ts" and "fst ` set m \<subseteq> set ts"
  shows "countTrue m = length ts \<longleftrightarrow> (\<forall>t \<in> set ts. map_of m t = Some True)"
proof -
  let ?on = "{t. map_of m t = Some True}"
  have sub: "?on \<subseteq> set ts"
    using assms(3) by (auto dest!: map_of_SomeD)
  have len: "length ts = card (set ts)"
    using assms(2) by (simp add: distinct_card)
  have "card ?on = card (set ts) \<longleftrightarrow> ?on = set ts"
    by (rule iffI) (erule card_subset_eq [OF finite_set sub], simp)
  then show ?thesis
    using sub unfolding countTrue_card [OF assms(1)] len by blast
qed

lemma availability_topics:
  "fst ` set (md_avail (availability_messages numb c ms)) = fst ` set (md_avail c) \<union> fst ` set ms"
proof (induction ms rule: rev_induct)
  case (snoc m ms)
  obtain t p where m: "m = (t, p)" by force
  have "dom (map_of (md_avail (availability_messages numb c (ms @ [m])))) =
      insert t (dom (map_of (md_avail (availability_messages numb c ms))))"
    by (simp add: m availability_messages_def availability_handler_def Let_def update_conv')
  then show ?case
    using snoc by (simp add: dom_map_of_conv_image_fst m)
qed (simp add: availability_messages_def)

text \<open>
  With distinct availability topics, each message makes the mirror available exactly if the
  last message of every topic is online.
\<close>

theorem availability_mirrored:
  assumes "distinct ts" and "fst ` set (ms @ [(t, p)]) \<subseteq> set ts" and "md_avail c = []"
  shows "snd (availability_handler (length ts) (availability_messages (length ts) c ms) t p) =
    [FillState (SetAvailable (md_state c)
      (list_all (\<lambda>t'. last_payload (ms @ [(t, p)]) t' = Some ''online'') ts))]"
proof -
  let ?c = "availability_messages (length ts) c (ms @ [(t, p)])"
  have c: "fst (availability_handler (length ts) (availability_messages (length ts) c ms) t p) = ?c"
    by (simp add: availability_messages_def)
  have wf: "wf_gomap (md_avail ?c)"
    by (rule wf_availability_messages) (simp add: assms(3))
  have "fst ` set (md_avail ?c) \<subseteq> set ts"
    unfolding availability_topics using assms(2,3) by simp
  then have "countTrue (md_avail ?c) = length ts \<longleftrightarrow> (\<forall>t \<in> set ts. map_of (md_avail ?c) t = Some True)"
    by (rule countTrue_all [OF wf assms(1)])
  also have "\<dots> \<longleftrightarrow> list_all (\<lambda>t'. last_payload (ms @ [(t, p)]) t' = Some ''online'') ts"
    unfolding availability_messages_avail list_all_iff assms(3) by (auto split: option.splits)
  finally have count: "countTrue (md_avail ?c) = length ts \<longleftrightarrow>
      list_all (\<lambda>t'. last_payload (ms @ [(t, p)]) t' = Some ''online'') ts" .
  have "snd (availability_handler (length ts) (availability_messages (length ts) c ms) t p) =
      [FillState (SetAvailable (md_state ?c) (countTrue (md_avail ?c) = length ts))]"
    unfolding c [symmetric] by (simp add: availability_handler_def Let_def)
  then show ?thesis
    unfolding count availability_messages_avail(2) .
qed

theorem availability_mirrored_witness:
  "snd (availability_handler 2 (availability_messages 2 example_mirror [(''a'', ''online''), (''b'', ''online'')]) ''a'' ''offline'') =
    [FillState (SetAvailable (md_state example_mirror) False)]"
  using availability_mirrored [of "[''a'', ''b'']" "[(''a'', ''online''), (''b'', ''online'')]" "''a''" "''offline''" example_mirror]
  by (simp add: example_mirror_def mqtt_NewDevice_def last_payload_def numeral_2_eq_2)

section \<open>Commands\<close>

lemma command_message_convert: "well_typed v \<Longrightarrow> command_message v = Some (convertValueToRealtimeMessage v)"
  by (cases v) simp_all


definition example_db :: register_db where
  "example_db = fst (AddStruct NewRegisterDb [power_register, mode_register])"


section \<open>Set-up of the subscriptions\<close>

lemma struct_handler_set:
  "md_subscriptionSetup c \<Longrightarrow> md_subscriptionSetup (fst (struct_handler unmarshal c p)) \<and>
     snd (struct_handler unmarshal c p) = None"
  by (simp add: struct_handler_def split: option.splits)

lemma struct_messages_set: "md_subscriptionSetup c \<Longrightarrow> snd (struct_messages unmarshal c ps) = []"
proof (induction ps arbitrary: c)
  case (Cons p ps)
  then show ?case
    using struct_handler_set [OF Cons.prems, of unmarshal p] by (simp add: case_prod_beta Let_def)
qed simp

text \<open>
  As long as the structure messages are handled one after the other, the first one that can be
  parsed sets the subscriptions up and no later one does: the registers whose commands are
  forwarded are those of the first message, also when later messages announce more.
\<close>

theorem mirror_setup_first:
  assumes "unmarshal p = Some msg" and "\<not> md_subscriptionSetup c"
  shows "snd (struct_messages unmarshal c (p # ps)) = [setup_subscriptions msg]"
proof -
  have "md_subscriptionSetup (fst (struct_handler unmarshal c p))"
    and "snd (struct_handler unmarshal c p) = Some (setup_subscriptions msg)"
    using assms by (simp_all add: struct_handler_def)
  then show ?thesis
    by (simp add: case_prod_beta Let_def struct_messages_set)
qed

text \<open>
  The mirror of a device whose first message has one writable register, and whose second
  message announces another: the mirror then knows it as writable, but forwards no command of it.
\<close>

definition late_register :: register where
  "late_register = NewRegisterStruct ''Monitor'' ''Late'' ''Late'' EnumRegister (Some [(0, ''Off''), (1, ''On'')]) '''' 3 True"

definition two_messages :: "string \<Rightarrow> StructureMessage option" where
  "two_messages p = Some (struct_message example_client ''dev''
     (if p = ''first'' then [power_register, mode_register] else [late_register]))"

theorem mirror_setup_first_witness:
  "map_option (\<lambda>(topic, regs). command_filter ''mirror'' regs (EnumRegisterValue ''mirror'' late_register 1))
      (su_command (hd (snd (struct_messages two_messages example_mirror [''first'', ''second''])))) = Some False \<and>
   map_option reg_writable (rdb_GetByName (ds_registerDb (md_state
      (fst (struct_messages two_messages example_mirror [''first'', ''second''])))) ''Late'') = Some True"
proof
  have filters: "getCommandFilter example_client ''dev'' r = reg_writable r" for r
    by (simp add: getCommandFilter_def getCommandDevice_def example_client_def section_all_def RegisterFilter_iff)
  have topic: "CommandTopic example_client ''dev'' n = ''iot/cmnd/dev/'' @ n" for n
    using CommandTopic_form [of example_client "''cmnd/''" "''dev''" n]
    by (simp add: default_form_def example_client_def section_all_def topic_base_def)
  let ?msg = "struct_message example_client ''dev'' [power_register, mode_register]"
  have first: "two_messages ''first'' = Some ?msg" and fresh: "\<not> md_subscriptionSetup example_mirror"
    by (simp_all add: two_messages_def example_mirror_def mqtt_NewDevice_def)
  have su: "su_command (setup_subscriptions ?msg) = Some (''iot/cmnd/dev/%RegisterName%'', sm_Registers ?msg)"
    by (simp add: setup_subscriptions_def struct_message_def applyWritableFiltersToRegisters_def filters topic
        power_register_def mode_register_def)
  have "\<not> command_filter ''mirror'' (sm_Registers ?msg) (EnumRegisterValue ''mirror'' late_register 1)"
    by (simp add: command_filter_def filterCommandRegisters_def struct_message_def late_register_def
        applyWritableFiltersToRegisters_def filters example_values in_map_def NewStructRegister_def)
  then show "map_option (\<lambda>(topic, regs). command_filter ''mirror'' regs (EnumRegisterValue ''mirror'' late_register 1))
      (su_command (hd (snd (struct_messages two_messages example_mirror [''first'', ''second''])))) = Some False"
    unfolding mirror_setup_first [where unmarshal = two_messages and p = "''first''", OF first fresh]
    by (simp add: su)
  show "map_option reg_writable (rdb_GetByName (ds_registerDb (md_state
      (fst (struct_messages two_messages example_mirror [''first'', ''second''])))) ''Late'') = Some True"
    unfolding struct_messages_db
    by (simp add: two_messages_def struct_message_registers announced_def filters example_mirror_filter
        example_mirror_def mqtt_NewDevice_def NewState_def RegisterDb_Add_def NewRegisterDb_def Let_def
        rdb_GetByName_def power_register_def mode_register_def late_register_def availabilityRegister_def
        AvailabilityRegisterName_def NewRegisterStruct_def RegisterFilter_iff)
qed

text \<open>
  The flag is tested and set by two operations: the goroutines of two messages can both find
  it unset, and both set the subscriptions up.
\<close>

theorem mirror_setup_twice: "\<exists>s. setup_step\<^sup>*\<^sup>* setup_start s \<and> sp_flag s \<and> sp_setups s = 2"
proof -
  let ?s = "\<lambda>f pcs n. \<lparr>sp_flag = f, sp_pcs = pcs, sp_setups = n\<rparr>"
  have "setup_step setup_start (?s False [PcLoad] 0)"
    using new_message [of setup_start] by (simp add: setup_start_def)
  moreover have "setup_step (?s False [PcLoad] 0) (?s False [PcLoad, PcLoad] 0)"
    using new_message [of "?s False [PcLoad] 0"] by simp
  moreover have "setup_step (?s False [PcLoad, PcLoad] 0) (?s False [PcStore, PcLoad] 0)"
    using load_unset [of 0 "?s False [PcLoad, PcLoad] 0"] by simp
  moreover have "setup_step (?s False [PcStore, PcLoad] 0) (?s False [PcStore, PcStore] 0)"
    using load_unset [of 1 "?s False [PcStore, PcLoad] 0"] by simp
  moreover have "setup_step (?s False [PcStore, PcStore] 0) (?s True [PcSetup, PcStore] 0)"
    using store [of 0 "?s False [PcStore, PcStore] 0"] by simp
  moreover have "setup_step (?s True [PcSetup, PcStore] 0) (?s True [PcSetup, PcSetup] 0)"
    using store [of 1 "?s True [PcSetup, PcStore] 0"] by simp
  moreover have "setup_step (?s True [PcSetup, PcSetup] 0) (?s True [PcUpdate, PcSetup] 1)"
    using set_up [of 0 "?s True [PcSetup, PcSetup] 0"] by simp
  moreover have "setup_step (?s True [PcUpdate, PcSetup] 1) (?s True [PcUpdate, PcUpdate] 2)"
    using set_up [of 1 "?s True [PcUpdate, PcSetup] 1"] by (simp add: numeral_2_eq_2)
  ultimately have "setup_step\<^sup>*\<^sup>* setup_start (?s True [PcUpdate, PcUpdate] 2)"
    by (meson converse_rtranclp_into_rtranclp r_into_rtranclp)
  then show ?thesis
    by (intro exI [of _ "?s True [PcUpdate, PcUpdate] 2"]) simp
qed

end
