(* ===== verification/Hass_Discovery.thy ===== *)
theory Hass_Discovery
  imports Mqtt_Forwarders
begin

text \<open>
  src/mqttForwarders/hassDiscovery.go and caseConverter.go: the messages that make a device's
  registers known to Home Assistant, with the template that turns a realtime message into a
  state.
\<close>

section \<open>CamelToSnakeCase\<close>

text \<open>
  The two regular expressions are replaced from left to right without overlap; \<open>.\<close> does not match a
  newline. \<open>strings.ToLower\<close> is modelled on ASCII letters, other bytes are kept.
\<close>

function matchFirstCap :: "string \<Rightarrow> string" where
  "matchFirstCap (a # b # c # s) =
     (if a \<noteq> CHR 0x0A \<and> is_upper b \<and> is_lower c
      then a # CHR ''_'' # b # takeWhile is_lower (c # s) @ matchFirstCap (dropWhile is_lower s)
      else a # matchFirstCap (b # c # s))"
| "matchFirstCap [a, b] = [a, b]"
| "matchFirstCap [a] = [a]"
| "matchFirstCap [] = []"
  by pat_completeness auto
termination
  by (relation "measure length") (auto simp: less_Suc_eq_le intro: order_trans [OF length_dropWhile_le])

fun matchAllCap :: "string \<Rightarrow> string" where
  "matchAllCap (a # b # s) =
     (if (is_lower a \<or> is_digit a) \<and> is_upper b then a # CHR ''_'' # b # matchAllCap s
      else a # matchAllCap (b # s))"
| "matchAllCap [a] = [a]"
| "matchAllCap [] = []"

definition CamelToSnakeCase :: "string \<Rightarrow> string" where
  "CamelToSnakeCase str = map to_lower (matchAllCap (matchFirstCap str))"

section \<open>Messages\<close>

record hass_base =
  hb_UniqueId :: string
  hb_Name :: string
  hb_Availability :: "string list"
  hb_AvailabilityMode :: string

record hass_sensor =
  hs_base :: hass_base
  hs_StateTopic :: string
  hs_ValueTemplate :: string
  hs_UnitOfMeasurement :: string

record hass_switch =
  hw_base :: hass_base
  hw_CommandTopic :: string
  hw_StateTopic :: string
  hw_ValueTemplate :: string
  hw_PayloadOff :: string
  hw_PayloadOn :: string
  hw_StateOff :: string
  hw_StateOn :: string

datatype hass_message = HassSensor hass_sensor | HassSwitch hass_switch

definition getRealtimeCfg :: "'u MqttClientConfig \<Rightarrow> string \<Rightarrow> MqttDeviceSectionConfig option" where
  "getRealtimeCfg cfg deviceName =
     (if ms_enabled (cl_realtime cfg) then section_device (ms_devices (cl_realtime cfg)) deviceName else None)"

definition getAvailabilityDeviceCfg :: "'u MqttClientConfig \<Rightarrow> string \<Rightarrow> MqttDeviceSectionConfig option" where
  "getAvailabilityDeviceCfg cfg deviceName =
     (if ms_enabled (cl_availabilityDevice cfg)
      then section_device (ms_devices (cl_availabilityDevice cfg)) deviceName else None)"

definition getHomeassistantDiscoveryAvailabilityTopics :: "'u MqttClientConfig \<Rightarrow> string \<Rightarrow> string list" where
  "getHomeassistantDiscoveryAvailabilityTopics cfg deviceName =
     (if ms_enabled (cl_availabilityClient cfg) then [AvailabilityClientTopic cfg] else []) @
     (if ms_enabled (cl_availabilityDevice cfg)
      then (case getAvailabilityDeviceCfg cfg deviceName of
              None \<Rightarrow> [] | Some availCfg \<Rightarrow> [AvailabilityDeviceTopic cfg deviceName])
      else [])"

definition getHomeassistantDiscoveryBaseMessage ::
  "'u MqttClientConfig \<Rightarrow> string \<Rightarrow> register \<Rightarrow> string \<times> hass_base" where
  "getHomeassistantDiscoveryBaseMessage cfg deviceName register =
     (let uniqueId = deviceName @ ''-'' @ CamelToSnakeCase (reg_name register)
      in (uniqueId,
          \<lparr>hb_UniqueId = uniqueId, hb_Name = deviceName @ '' '' @ reg_description register,
           hb_Availability = getHomeassistantDiscoveryAvailabilityTopics cfg deviceName,
           hb_AvailabilityMode = ''all''\<rparr>))"

definition getHomeassistantDiscoverySensorMessage ::
  "'u MqttClientConfig \<Rightarrow> string \<Rightarrow> register \<Rightarrow> string \<Rightarrow> string \<times> hass_message" where
  "getHomeassistantDiscoverySensorMessage cfg deviceName register valueTemplate =
     (let (uniqueId, base) = getHomeassistantDiscoveryBaseMessage cfg deviceName register
      in (HomeassistantDiscoveryTopic cfg ''sensor'' (cl_clientId cfg) uniqueId,
          HassSensor \<lparr>hs_base = base, hs_StateTopic = RealtimeTopic cfg deviceName (reg_name register),
            hs_ValueTemplate = valueTemplate, hs_UnitOfMeasurement = reg_unit register\<rparr>))"

definition getHomeassistantDiscoverySwitchMessage ::
  "'u MqttClientConfig \<Rightarrow> string \<Rightarrow> register \<Rightarrow> string \<Rightarrow> string \<Rightarrow> string \<Rightarrow> string \<Rightarrow> string \<Rightarrow>
     string \<times> hass_message" where
  "getHomeassistantDiscoverySwitchMessage cfg deviceName register valueTemplate payloadOff payloadOn stateOff stateOn =
     (let (uniqueId, base) = getHomeassistantDiscoveryBaseMessage cfg deviceName register
      in (HomeassistantDiscoveryTopic cfg ''switch'' (cl_clientId cfg) uniqueId,
          HassSwitch \<lparr>hw_base = base, hw_CommandTopic = CommandTopic cfg deviceName (reg_name register),
            hw_StateTopic = RealtimeTopic cfg deviceName (reg_name register),
            hw_ValueTemplate = valueTemplate, hw_PayloadOff = payloadOff, hw_PayloadOn = payloadOn,
            hw_StateOff = stateOff, hw_StateOn = stateOn\<rparr>))"

definition getCommandPayload :: "(value_message \<Rightarrow> string option) \<Rightarrow> value_message \<Rightarrow> string" where
  "getCommandPayload marshal msg = (case marshal msg of None \<Rightarrow> ''{}'' | Some payload \<Rightarrow> payload)"

section \<open>The template of an enum\<close>

fun template_branches :: "string \<Rightarrow> (int \<times> string) list \<Rightarrow> string" where
  "template_branches op [] = ''''"
| "template_branches op ((idx, label) # bs) =
     ''{% '' @ op @ '' value_json.EnumIdx == '' @ itoa idx @ '' %}'' @ label @ template_branches ''elif'' bs"

definition enum_branches :: "enum_map \<Rightarrow> (int \<times> string) list" where
  \<comment> \<open>index and label of each turn of the loop \<open>for idx := range keys\<close>\<close>
  "enum_branches e =
     (let keys = sort (map fst (enum_entries e))
      in map (\<lambda>i. (int i, case enum_lookup e (int i) of Some v \<Rightarrow> v | None \<Rightarrow> '''')) [0..<length keys])"

definition enum_template :: "enum_map \<Rightarrow> string" where
  "enum_template e = template_branches ''if'' (enum_branches e) @ ''{% endif %}''"

section \<open>Publishing\<close>

definition hass_message_for ::
  "(value_message \<Rightarrow> string option) \<Rightarrow> 'u MqttClientConfig \<Rightarrow> string \<Rightarrow> register \<Rightarrow> (register \<Rightarrow> bool) \<Rightarrow>
     (string \<times> hass_message) option" where
  \<comment> \<open>the switch of \<open>publishHomeassistantDiscoveryMessage\<close>\<close>
  "hass_message_for marshalCmd cfg deviceName register commandFilter =
     (case reg_type register of
        NumberRegister \<Rightarrow>
          Some (getHomeassistantDiscoverySensorMessage cfg deviceName register ''{{ value_json.NumVal }}'')
      | TextRegister \<Rightarrow>
          Some (getHomeassistantDiscoverySensorMessage cfg deviceName register ''{{ value_json.TextVal }}'')
      | EnumRegister \<Rightarrow>
          (let keys = sort (map fst (enum_entries (reg_enum register)))
           in if commandFilter register \<and> length keys \<ge> 2
              then (let offIdx = keys ! 0; onIdx = keys ! 1
                    in Some (getHomeassistantDiscoverySwitchMessage cfg deviceName register
                         ''{{ value_json.EnumIdx }}''
                         (getCommandPayload marshalCmd (empty_message\<lparr>vm_EnumIdx := Some offIdx\<rparr>))
                         (getCommandPayload marshalCmd (empty_message\<lparr>vm_EnumIdx := Some onIdx\<rparr>))
                         (itoa offIdx) (itoa onIdx)))
              else Some (getHomeassistantDiscoverySensorMessage cfg deviceName register
                     (enum_template (reg_enum register))))
      | UndefinedRegister \<Rightarrow> None)"

definition publishHomeassistantDiscoveryMessage ::
  "(value_message \<Rightarrow> string option) \<Rightarrow> (hass_message \<Rightarrow> string option) \<Rightarrow> 'u MqttClientConfig \<Rightarrow> string \<Rightarrow>
     register \<Rightarrow> (register \<Rightarrow> bool) \<Rightarrow> publish list" where
  "publishHomeassistantDiscoveryMessage marshalCmd marshal cfg deviceName register commandFilter =
     (case hass_message_for marshalCmd cfg deviceName register commandFilter of
        None \<Rightarrow> []
      | Some (topic, msg) \<Rightarrow> Publish_of (cl_homeassistantDiscovery cfg) topic (marshal msg))"

definition hass_filter :: "filter_conf \<Rightarrow> MqttDeviceSectionConfig \<Rightarrow> register \<Rightarrow> bool" where
  "hass_filter filterConf realtimeCfg =
     (let hassFilter = createRegisterValueFilter filterConf;
          realtimeFilter = createRegisterValueFilter (sd_filter realtimeCfg)
      in (\<lambda>r. hassFilter r \<and> realtimeFilter r))"

definition homeassistantDiscoveryOnUpdateModeRoutine ::
  "(value_message \<Rightarrow> string option) \<Rightarrow> (hass_message \<Rightarrow> string option) \<Rightarrow> 'u MqttClientConfig \<Rightarrow> string \<Rightarrow>
     register list \<Rightarrow> publish list" where
  \<comment> \<open>of the registers received until the context is done\<close>
  "homeassistantDiscoveryOnUpdateModeRoutine marshalCmd marshal cfg deviceName regs =
     concat (map (\<lambda>reg. publishHomeassistantDiscoveryMessage marshalCmd marshal cfg deviceName reg
       (getCommandFilter cfg deviceName)) regs)"

definition homeassistantDiscoveryPeriodicModeRoutine ::
  "(value_message \<Rightarrow> string option) \<Rightarrow> (hass_message \<Rightarrow> string option) \<Rightarrow> register_iter \<Rightarrow>
     'u MqttClientConfig \<Rightarrow> string \<Rightarrow> (register \<Rightarrow> bool) \<Rightarrow> register_db list \<Rightarrow> publish list" where
  \<comment> \<open>of the database at each tick\<close>
  "homeassistantDiscoveryPeriodicModeRoutine marshalCmd marshal it cfg deviceName f dbs =
     concat (map (\<lambda>db. concat (map (\<lambda>reg. publishHomeassistantDiscoveryMessage marshalCmd marshal cfg
       deviceName reg (getCommandFilter cfg deviceName)) (rdb_GetFiltered it db f))) dbs)"

definition runHomeassistantDiscoveryForwarder ::
  "'u MqttClientConfig \<Rightarrow> string \<Rightarrow> filter_conf \<Rightarrow> (register \<Rightarrow> bool) option" where
  \<comment> \<open>the filter of the registers the routine is started for; \<open>None\<close>: it is not started\<close>
  "runHomeassistantDiscoveryForwarder cfg deviceName filterConf =
     (case getRealtimeCfg cfg deviceName of
        None \<Rightarrow> None
      | Some realtimeCfg \<Rightarrow> Some (hass_filter filterConf realtimeCfg))"

section \<open>Properties\<close>

text \<open>The template has one branch per entry of the enum, numbered from zero.\<close>

lemma enum_branches_keys: "map fst (enum_branches e) = map int [0..<length (enum_entries e)]"
  by (simp add: enum_branches_def Let_def)

lemma enum_branches_entries:
  assumes "wf_enum e"
  shows "set (enum_branches e) = set (enum_entries e) \<longleftrightarrow>
    fst ` set (enum_entries e) = int ` {0..<length (enum_entries e)}"
proof
  assume "set (enum_branches e) = set (enum_entries e)"
  then have "fst ` set (enum_entries e) = set (map fst (enum_branches e))" by simp
  then show "fst ` set (enum_entries e) = int ` {0..<length (enum_entries e)}"
    unfolding enum_branches_keys by simp
next
  assume keys: "fst ` set (enum_entries e) = int ` {0..<length (enum_entries e)}"
  have lookup: "enum_lookup e k = Some v \<longleftrightarrow> (k, v) \<in> set (enum_entries e)" for k v
    using assms by (simp add: enum_lookup_def wf_enum_def wf_gomap_def)
  show "set (enum_branches e) = set (enum_entries e)"
  proof (intro set_eqI iffI)
    fix p
    assume "p \<in> set (enum_branches e)"
    then obtain i where i: "i < length (enum_entries e)"
        and p: "p = (int i, case enum_lookup e (int i) of Some v \<Rightarrow> v | None \<Rightarrow> '''')"
      by (auto simp: enum_branches_def Let_def)
    have "int i \<in> fst ` set (enum_entries e)"
      using keys i by simp
    then obtain v where "(int i, v) \<in> set (enum_entries e)" by auto
    moreover from this have "enum_lookup e (int i) = Some v"
      by (simp only: lookup)
    ultimately show "p \<in> set (enum_entries e)"
      by (simp add: p)
  next
    fix p
    assume p: "p \<in> set (enum_entries e)"
    obtain k v where kv: "p = (k, v)" by force
    with p keys have "k \<in> int ` {0..<length (enum_entries e)}" by force
    then obtain i where i: "k = int i" "i < length (enum_entries e)" by auto
    with p kv lookup have "enum_lookup e (int i) = Some v" by blast
    with i kv show "p \<in> set (enum_branches e)"
      by (auto simp: enum_branches_def Let_def image_iff)
  qed
qed

text \<open>
  The value template of an enum register translates every index of the enum to its label
  exactly if the indices are 0, 1, up to the number of labels: the loop uses the positions of the
  sorted keys, not the keys, so another enum gets branches for indices it does not have.
\<close>

theorem hass_enum_template:
  assumes "wf_enum (reg_enum r)" and "reg_type r = EnumRegister" and "\<not> commandFilter r"
  shows "hass_message_for marshalCmd cfg dev r commandFilter =
      Some (HomeassistantDiscoveryTopic cfg ''sensor'' (cl_clientId cfg) (dev @ ''-'' @ CamelToSnakeCase (reg_name r)),
        HassSensor \<lparr>hs_base = snd (getHomeassistantDiscoveryBaseMessage cfg dev r),
          hs_StateTopic = RealtimeTopic cfg dev (reg_name r),
          hs_ValueTemplate = template_branches ''if'' (enum_branches (reg_enum r)) @ ''{% endif %}'',
          hs_UnitOfMeasurement = reg_unit r\<rparr>) \<and>
    (set (enum_branches (reg_enum r)) = set (enum_entries (reg_enum r)) \<longleftrightarrow>
       fst ` set (enum_entries (reg_enum r)) = int ` {0..<length (enum_entries (reg_enum r))})"
  using assms(2,3) enum_branches_entries [OF assms(1)]
  by (simp add: hass_message_for_def getHomeassistantDiscoverySensorMessage_def
      getHomeassistantDiscoveryBaseMessage_def enum_template_def Let_def)

definition charger_register :: register where
  "charger_register = NewRegisterStruct ''Monitor'' ''State'' ''State'' EnumRegister
     (Some [(0, ''Off''), (2, ''Fault''), (3, ''Bulk'')]) '''' 1 False"

lemma charger_template:
  "enum_template (reg_enum charger_register) =
     ''{% if value_json.EnumIdx == 0 %}Off{% elif value_json.EnumIdx == 1 %}{% elif value_json.EnumIdx == 2 %}Fault{% endif %}''"
  by (simp add: charger_register_def enum_template_def enum_branches_def enum_entries_def enum_lookup_def
      Let_def itoa_def nat_dec.simps digit_char_def numeral_nat)

theorem hass_enum_template_witness:
  "set (enum_branches (reg_enum charger_register)) \<noteq> set (enum_entries (reg_enum charger_register))"
proof -
  have "wf_enum (reg_enum charger_register)" and "reg_type charger_register = EnumRegister"
    by (simp_all add: charger_register_def wf_enum_def wf_gomap_def enum_entries_def)
  from hass_enum_template [OF this, of "\<lambda>r. False"]
  have "set (enum_branches (reg_enum charger_register)) = set (enum_entries (reg_enum charger_register)) \<longleftrightarrow>
      fst ` set (enum_entries (reg_enum charger_register)) =
      int ` {0..<length (enum_entries (reg_enum charger_register))}"
    by blast
  moreover have "fst ` set (enum_entries (reg_enum charger_register)) = {0, 2, 3}"
    and "length (enum_entries (reg_enum charger_register)) = 3"
    by (simp_all add: charger_register_def enum_entries_def)
  moreover have "({0, 2, 3} :: int set) \<noteq> int ` {0..<3}"
  proof
    assume eq: "({0, 2, 3} :: int set) = int ` {0..<3}"
    have "(1 :: int) \<in> int ` {0..<3}"
      by (rule image_eqI [of _ _ 1]) simp_all
    then show False unfolding eq [symmetric] by simp
  qed
  ultimately show ?thesis by simp
qed

lemma createRegisterValueFilter_cong:
  "createRegisterValueFilter conf r \<longleftrightarrow> reg_name r \<noteq> AvailabilityRegisterName \<and> RegisterFilter conf r"
  by (simp add: createRegisterValueFilter_def availabilityRegisterFilter_def Let_def)

text \<open>
  A register is only announced where the realtime forwarder of the device accepts its values,
  and the state topic of the announcement is the topic they are published on.
\<close>

theorem hass_state_topic:
  assumes "runHomeassistantDiscoveryForwarder cfg dev conf = Some f" and "f r" and "reg_type r \<noteq> UndefinedRegister"
    and "DeviceName v = dev" and "val_reg v = r" and "marshalRt (convertValueToRealtimeMessage v) = Some p"
  shows "\<exists>rcfg topic msg. getRealtimeCfg cfg dev = Some rcfg \<and>
    createDeviceAndRegisterValueFilter dev (sd_filter rcfg) v \<and>
    hass_message_for marshalCmd cfg dev r commandFilter = Some (topic, msg) \<and>
    map pb_topic (publishRealtimeMessage marshalRt cfg dev v) =
      [case msg of HassSensor s \<Rightarrow> hs_StateTopic s | HassSwitch s \<Rightarrow> hw_StateTopic s]"
proof -
  obtain rcfg where r: "getRealtimeCfg cfg dev = Some rcfg" and f: "f = hass_filter conf rcfg"
    using assms(1) by (auto simp: runHomeassistantDiscoveryForwarder_def split: option.splits)
  have "createDeviceAndRegisterValueFilter dev (sd_filter rcfg) v"
    using assms(2,4,5) unfolding f
    by (simp add: hass_filter_def createDeviceAndRegisterValueFilter_def DeviceNameValueFilter_def Let_def)
  moreover have "map pb_topic (publishRealtimeMessage marshalRt cfg dev v) = [RealtimeTopic cfg dev (reg_name r)]"
    using assms(5,6) by (simp add: publishRealtimeMessage_def Publish_of_def val_name_def)
  moreover have "\<exists>topic msg. hass_message_for marshalCmd cfg dev r commandFilter = Some (topic, msg) \<and>
      (case msg of HassSensor s \<Rightarrow> hs_StateTopic s | HassSwitch s \<Rightarrow> hw_StateTopic s) = RealtimeTopic cfg dev (reg_name r)"
    using assms(3)
    by (cases "reg_type r") (simp_all add: hass_message_for_def getHomeassistantDiscoverySensorMessage_def
        getHomeassistantDiscoverySwitchMessage_def Let_def case_prod_beta)
  ultimately show ?thesis
    using r by auto
qed

text \<open>
  The payloads of the switch announced for a writable enum register are commands which the
  command route of the register takes for its first two indices.
\<close>

theorem hass_switch_commands:
  assumes "reg_type r = EnumRegister" and "commandFilter r" and "sort (map fst (enum_entries (reg_enum r))) = off # on # rest"
    and "codec_exact marshalCmd unmarshal (empty_message\<lparr>vm_EnumIdx := Some off\<rparr>)"
    and "codec_exact marshalCmd unmarshal (empty_message\<lparr>vm_EnumIdx := Some on\<rparr>)"
    and "rdb_GetByName db (reg_name r) = Some r"
  shows "\<exists>topic sw route. hass_message_for marshalCmd cfg dev r commandFilter = Some (topic, HassSwitch sw) \<and>
    setupCommandSubscription cfg dev db r = [route] \<and> cmd_topic route = hw_CommandTopic sw \<and>
    command_handler unmarshal dev route (hw_PayloadOff sw) = Some (EnumRegisterValue dev r off) \<and>
    command_handler unmarshal dev route (hw_PayloadOn sw) = Some (EnumRegisterValue dev r on) \<and>
    hw_StateOff sw = itoa off \<and> hw_StateOn sw = itoa on"
proof -
  have payload: "unmarshal (getCommandPayload marshalCmd m) = Some m" if "codec_exact marshalCmd unmarshal m" for m
    using that by (auto simp: getCommandPayload_def elim: codec_exactE)
  note payloads = payload [OF assms(4)] payload [OF assms(5)]
  show ?thesis
    using assms(1,2,3,6)
    by (simp add: hass_message_for_def getHomeassistantDiscoverySwitchMessage_def Let_def case_prod_beta
        setupCommandSubscription_def command_handler_def payloads message_value_def)
qed

theorem hass_state_topic_witness:
  "\<exists>rcfg topic msg. getRealtimeCfg example_client ''dev'' = Some rcfg \<and>
    createDeviceAndRegisterValueFilter ''dev'' (sd_filter rcfg) (power_value 1) \<and>
    hass_message_for (\<lambda>m. None) example_client ''dev'' power_register (\<lambda>r. False) = Some (topic, msg) \<and>
    map pb_topic (publishRealtimeMessage (\<lambda>m. Some ''json'') example_client ''dev'' (power_value 1)) =
      [case msg of HassSensor s \<Rightarrow> hs_StateTopic s | HassSwitch s \<Rightarrow> hw_StateTopic s]"
proof (rule hass_state_topic)
  let ?d = "hd (ms_devices (section_all ''''))"
  show "runHomeassistantDiscoveryForwarder example_client ''dev'' (sd_filter ?d) = Some (hass_filter (sd_filter ?d) ?d)"
    by (simp add: runHomeassistantDiscoveryForwarder_def getRealtimeCfg_def example_client_def section_all_def)
  show "hass_filter (sd_filter ?d) ?d power_register"
    by (simp add: hass_filter_def createRegisterValueFilter_cong section_all_def RegisterFilter_iff power_register_def
        AvailabilityRegisterName_def)
qed (simp_all add: power_value_def power_register_def)

theorem hass_switch_commands_witness:
  "\<exists>topic sw route. hass_message_for
      (\<lambda>m. Some (if vm_EnumIdx m = Some 0 then ''0'' else ''1'')) example_client ''dev'' mode_register (\<lambda>r. True) =
      Some (topic, HassSwitch sw) \<and>
    setupCommandSubscription example_client ''dev'' (fst (AddStruct NewRegisterDb [mode_register])) mode_register = [route] \<and>
    cmd_topic route = hw_CommandTopic sw \<and>
    command_handler (\<lambda>p. Some (empty_message\<lparr>vm_EnumIdx := Some (if p = ''0'' then 0 else 1)\<rparr>)) ''dev'' route
      (hw_PayloadOff sw) = Some (EnumRegisterValue ''dev'' mode_register 0) \<and>
    command_handler (\<lambda>p. Some (empty_message\<lparr>vm_EnumIdx := Some (if p = ''0'' then 0 else 1)\<rparr>)) ''dev'' route
      (hw_PayloadOn sw) = Some (EnumRegisterValue ''dev'' mode_register 1) \<and>
    hw_StateOff sw = itoa 0 \<and> hw_StateOn sw = itoa 1"
  by (rule hass_switch_commands [where rest = "[]"])
    (simp_all add: mode_register_def enum_entries_def codec_exact_def NewRegisterDb_def rdb_GetByName_def)

end
