(* ===== verification/Http_Device.thy ===== *)
theory Http_Device
  imports Device_State
begin

text \<open>
  src/httpDevice/device.go and implementation.go: a device polled by HTTP. A poll decodes the
  response and then, field by field, registers a register and fills its value; the calls made for
  the fields are a list of \<open>field_call\<close>s, which \<open>exec_calls\<close> executes. The two kinds of devices are
  implementations of one interface, the record \<open>Implementation\<close>, whose contract is the locale
  \<open>http_implementation\<close>.
\<close>

section \<open>The device\<close>

record http_device =
  hd_state :: device_state
  hd_kind :: HttpDeviceKind
  hd_registerFilter :: "register \<Rightarrow> bool"
  hd_sort :: "(string, int) gomap"

definition http_NewDevice :: "device_config \<Rightarrow> HttpDeviceKind \<Rightarrow> http_device" where
  "http_NewDevice deviceConfig kind =
     \<lparr>hd_state = NewState deviceConfig, hd_kind = kind,
      hd_registerFilter = RegisterFilter (dc_Filter deviceConfig), hd_sort = []\<rparr>"

definition http_Name :: "http_device \<Rightarrow> string" where
  "http_Name ds = ds_Name (hd_state ds)"

definition http_Model :: "http_device \<Rightarrow> string" where
  "http_Model ds = HttpDeviceKind_String (hd_kind ds)"

definition http_db :: "http_device \<Rightarrow> register_db" where
  "http_db ds = ds_registerDb (hd_state ds)"

section \<open>Registers\<close>

text \<open>An implementation's \<open>GetCategorySort\<close> panics for an unknown category: \<open>None\<close>.\<close>

type_synonym category_sort = "string \<Rightarrow> int option"

definition getRegisterSort :: "category_sort \<Rightarrow> http_device \<Rightarrow> string \<Rightarrow> (http_device \<times> int) option" where
  "getRegisterSort catSort ds category =
     (case catSort category of
        None \<Rightarrow> None
      | Some s \<Rightarrow>
          (let offset = wrap_i64 (s * 100)
           in case map_of (hd_sort ds) category of
                None \<Rightarrow> Some (ds\<lparr>hd_sort := AList.update category 1 (hd_sort ds)\<rparr>, offset)
              | Some cnt \<Rightarrow>
                  Some (ds\<lparr>hd_sort := AList.update category (wrap_i64 (cnt + 1)) (hd_sort ds)\<rparr>,
                        wrap_i64 (offset + cnt))))"

datatype payload = PNumber f64 | PText string | PEnum int

record field_call =
  fc_category :: string
  fc_name :: string
  fc_description :: string
  fc_unit :: string
  fc_type :: RegisterType
  fc_enum :: enum_map
  fc_writable :: bool
  fc_value :: payload

definition same_register :: "register \<Rightarrow> field_call \<Rightarrow> bool" where
  "same_register r f \<longleftrightarrow>
     reg_category r = fc_category f \<and> reg_description r = fc_description f \<and>
     reg_type r = fc_type f \<and> reg_unit r = fc_unit f"

definition call_register :: "field_call \<Rightarrow> int \<Rightarrow> register" where
  "call_register f srt =
     NewRegisterStruct (fc_category f) (fc_name f) (fc_description f) (fc_type f) (fc_enum f) (fc_unit f)
       srt (fc_writable f)"

definition http_add :: "http_device \<Rightarrow> register \<Rightarrow> http_device" where
  "http_add ds r = ds\<lparr>hd_state := (hd_state ds)\<lparr>ds_registerDb := fst (RegisterDb_Add (http_db ds) [r])\<rparr>\<rparr>"

definition addIgnoreRegister ::
  "category_sort \<Rightarrow> http_device \<Rightarrow> field_call \<Rightarrow> (http_device \<times> register option \<times> device_action list) option" where
  "addIgnoreRegister catSort ds f =
     (case (case rdb_GetByName (http_db ds) (fc_name f) of
              None \<Rightarrow> None | Some r \<Rightarrow> if same_register r f then Some r else None) of
        Some r \<Rightarrow> Some (ds, Some r, [])
      | None \<Rightarrow>
          (case getRegisterSort catSort ds (fc_category f) of
             None \<Rightarrow> None
           | Some (ds1, srt) \<Rightarrow>
               (let r = call_register f srt
                in if \<not> hd_registerFilter ds1 r then Some (ds1, None, [])
                   else Some (http_add ds1 r, Some r, [AddRegisters [r]]))))"

fun payload_val :: "string \<Rightarrow> register \<Rightarrow> payload \<Rightarrow> val" where
  "payload_val d r (PNumber x) = NumericRegisterValue d r x"
| "payload_val d r (PText s) = TextRegisterValue d r s"
| "payload_val d r (PEnum i) = EnumRegisterValue d r i"

definition exec_call ::
  "category_sort \<Rightarrow> http_device \<Rightarrow> field_call \<Rightarrow> (http_device \<times> device_action list) option" where
  \<comment> \<open>what \<open>text\<close>, \<open>number\<close>, \<open>boolean\<close>, \<open>enum\<close> and \<open>alarm\<close> do once they have their value\<close>
  "exec_call catSort ds f =
     (case addIgnoreRegister catSort ds f of
        None \<Rightarrow> None
      | Some (ds1, None, acts) \<Rightarrow> Some (ds1, acts)
      | Some (ds1, Some r, acts) \<Rightarrow> Some (ds1, acts @ [FillState (payload_val (http_Name ds1) r (fc_value f))]))"

fun exec_calls ::
  "category_sort \<Rightarrow> http_device \<Rightarrow> field_call list \<Rightarrow> (http_device \<times> device_action list) option" where
  "exec_calls catSort ds [] = Some (ds, [])"
| "exec_calls catSort ds (f # fs) =
     (case exec_call catSort ds f of
        None \<Rightarrow> None
      | Some (ds1, acts) \<Rightarrow>
          (case exec_calls catSort ds1 fs of
             None \<Rightarrow> None
           | Some (ds2, acts') \<Rightarrow> Some (ds2, acts @ acts')))"

section \<open>Implementations\<close>

record http_request =
  rq_method :: string
  rq_path :: string
  rq_body :: string

datatype 'a http_result = HttpPanic | HttpErr | HttpOk 'a

record Implementation =
  im_path :: string
  im_sort :: category_sort
  im_response :: "string \<Rightarrow> field_call list option"
    \<comment> \<open>the calls \<open>HandleResponse\<close> makes; \<open>None\<close>: the body cannot be parsed\<close>
  im_command :: "val \<Rightarrow> (http_request \<times> field_call list) http_result"
    \<comment> \<open>\<open>CommandValueRequest\<close>: the request and the calls of \<open>onSuccess\<close>\<close>

datatype http_response = DoError | Response nat "string option"
  \<comment> \<open>the status code and the body, \<open>None\<close> where it cannot be read\<close>

definition http_poll :: "Implementation \<Rightarrow> http_device \<Rightarrow> http_response \<Rightarrow> (http_device \<times> device_action list) http_result" where
  "http_poll impl ds resp =
     (case resp of
        DoError \<Rightarrow> HttpErr
      | Response code None \<Rightarrow> HttpErr
      | Response code (Some body) \<Rightarrow>
          if code \<noteq> 200 then HttpErr
          else (case im_response impl body of
             None \<Rightarrow> HttpErr
           | Some fs \<Rightarrow> (case exec_calls (im_sort impl) ds fs of None \<Rightarrow> HttpPanic | Some r \<Rightarrow> HttpOk r)))"

definition http_execCommand ::
  "Implementation \<Rightarrow> http_device \<Rightarrow> val \<Rightarrow> http_response \<Rightarrow> (http_device \<times> device_action list) option" where
  \<comment> \<open>\<open>None\<close>: panic; the response is that of the request, where one is sent\<close>
  "http_execCommand impl ds v resp =
     (let reset = FillCommand (NullRegisterValue (http_Name ds) (val_reg v))
      in case im_command impl v of
           HttpPanic \<Rightarrow> None
         | HttpErr \<Rightarrow> Some (ds, [reset])
         | HttpOk (request, onSuccess) \<Rightarrow>
             (case resp of
                DoError \<Rightarrow> Some (ds, [reset])
              | Response code body \<Rightarrow>
                  if code \<noteq> 200 then Some (ds, [])
                  else if body = None then Some (ds, [])
                  else (case exec_calls (im_sort impl) ds onSuccess of
                     None \<Rightarrow> None
                   | Some (ds1, acts) \<Rightarrow> Some (ds1, acts @ [reset]))))"

datatype http_event =
    HttpDone
  | HttpTick http_response
  | HttpCommand "val option" http_response \<comment> \<open>the nil value of the closed channel is skipped\<close>

datatype http_status = HttpRunning | HttpReturned bool bool | HttpPanicked
  \<comment> \<open>returned: with an error, and immediately\<close>

definition http_SetAvailable :: "http_device \<Rightarrow> bool \<Rightarrow> device_action" where
  "http_SetAvailable ds b = FillState (SetAvailable (hd_state ds) b)"

fun http_loop ::
  "Implementation \<Rightarrow> http_device \<Rightarrow> http_event list \<Rightarrow> http_status \<times> http_device \<times> device_action list" where
  "http_loop impl ds [] = (HttpRunning, ds, [])"
| "http_loop impl ds (HttpDone # es) = (HttpReturned False False, ds, [http_SetAvailable ds False])"
| "http_loop impl ds (HttpTick resp # es) =
     (case http_poll impl ds resp of
        HttpPanic \<Rightarrow> (HttpPanicked, ds, [http_SetAvailable ds False])
      | HttpErr \<Rightarrow> (HttpReturned True False, ds, [http_SetAvailable ds False])
      | HttpOk (ds1, acts) \<Rightarrow>
          (let (st, ds2, acts') = http_loop impl ds1 es in (st, ds2, acts @ acts')))"
| "http_loop impl ds (HttpCommand None resp # es) = http_loop impl ds es"
| "http_loop impl ds (HttpCommand (Some v) resp # es) =
     (case http_execCommand impl ds v resp of
        None \<Rightarrow> (HttpPanicked, ds, [http_SetAvailable ds False])
      | Some (ds1, acts) \<Rightarrow>
          (let (st, ds2, acts') = http_loop impl ds1 es in (st, ds2, acts @ acts')))"

definition http_Run ::
  "bool \<Rightarrow> Implementation \<Rightarrow> http_device \<Rightarrow> http_response \<Rightarrow> http_event list \<Rightarrow>
     http_status \<times> http_device \<times> device_action list" where
  \<comment> \<open>\<open>requestOk\<close>: the poll request can be made of the URL; the first response is that of the
    poll before the loop\<close>
  "http_Run requestOk impl ds first es =
     (if \<not> requestOk then (HttpReturned True True, ds, [])
      else case http_poll impl ds first of
        HttpPanic \<Rightarrow> (HttpPanicked, ds, [])
      | HttpErr \<Rightarrow> (HttpReturned True True, ds, [])
      | HttpOk (ds1, acts) \<Rightarrow>
          (let (st, ds2, acts') = http_loop impl ds1 es
           in (st, ds2, acts @ [http_SetAvailable ds1 True] @ acts')))"

section \<open>The contract of an implementation\<close>

text \<open>Every category it uses has a sort.\<close>

definition sorted_calls :: "category_sort \<Rightarrow> field_call list \<Rightarrow> bool" where
  "sorted_calls catSort fs \<longleftrightarrow> list_all (\<lambda>f. catSort (fc_category f) \<noteq> None) fs"

lemma sorted_calls_simps [simp]:
  "sorted_calls catSort []"
  "sorted_calls catSort (f # fs) \<longleftrightarrow> catSort (fc_category f) \<noteq> None \<and> sorted_calls catSort fs"
  "sorted_calls catSort (fs @ gs) \<longleftrightarrow> sorted_calls catSort fs \<and> sorted_calls catSort gs"
  by (auto simp: sorted_calls_def)

lemma addIgnoreRegister_sorted:
  "catSort (fc_category f) \<noteq> None \<Longrightarrow> addIgnoreRegister catSort ds f \<noteq> None"
  by (auto simp: addIgnoreRegister_def getRegisterSort_def Let_def split: option.splits)

lemma exec_call_sorted: "catSort (fc_category f) \<noteq> None \<Longrightarrow> exec_call catSort ds f \<noteq> None"
  using addIgnoreRegister_sorted [of catSort f ds] by (auto simp: exec_call_def split: option.splits)

lemma exec_calls_sorted: "sorted_calls catSort fs \<Longrightarrow> exec_calls catSort ds fs \<noteq> None"
proof (induction fs arbitrary: ds)
  case (Cons f fs)
  then have f: "catSort (fc_category f) \<noteq> None" and fs: "sorted_calls catSort fs"
    by (simp_all del: not_None_eq)
  obtain ds1 acts where "exec_call catSort ds f = Some (ds1, acts)"
    using exec_call_sorted [where catSort = catSort and f = f and ds = ds, OF f] by auto
  with Cons.IH [OF fs, of ds1] show ?case by auto
qed simp

text \<open>The commands sent have the type of their register.\<close>

fun typed_event :: "http_event \<Rightarrow> bool" where
  "typed_event (HttpCommand (Some v) resp) = well_typed v"
| "typed_event _ = True"

locale http_implementation =
  fixes impl :: Implementation
  assumes response_sorted: "im_response impl body = Some fs \<Longrightarrow> sorted_calls (im_sort impl) fs"
    and command_sorted: "im_command impl v = HttpOk (rq, fs) \<Longrightarrow> sorted_calls (im_sort impl) fs"
    and command_typed: "well_typed v \<Longrightarrow> im_command impl v \<noteq> HttpPanic"
begin

lemma poll_no_panic: "http_poll impl ds resp \<noteq> HttpPanic"
proof -
  have "exec_calls (im_sort impl) ds fs \<noteq> None" if "im_response impl body = Some fs" for body fs
    by (rule exec_calls_sorted [OF response_sorted [OF that]])
  then show ?thesis
    by (auto simp: http_poll_def simp del: not_None_eq split: http_response.splits option.splits)
qed

lemma command_no_panic: "well_typed v \<Longrightarrow> http_execCommand impl ds v resp \<noteq> None"
proof -
  have "exec_calls (im_sort impl) ds fs \<noteq> None" if "im_command impl v = HttpOk (rq, fs)" for rq fs
    by (rule exec_calls_sorted [OF command_sorted [OF that]])
  then show "well_typed v \<Longrightarrow> http_execCommand impl ds v resp \<noteq> None"
    using command_typed [of v]
    by (auto simp: http_execCommand_def Let_def simp del: not_None_eq
        split: http_response.splits option.splits http_result.splits)
qed

lemma loop_no_panic: "list_all typed_event es \<Longrightarrow> fst (http_loop impl ds es) \<noteq> HttpPanicked"
proof (induction es arbitrary: ds)
  case (Cons e es)
  show ?case
  proof (cases e)
    case (HttpTick resp)
    then show ?thesis
      using poll_no_panic [of ds resp] Cons
      by (auto simp: case_prod_beta Let_def split: http_result.splits)
  next
    case (HttpCommand v resp)
    show ?thesis
    proof (cases v)
      case (Some w)
      then show ?thesis
        using HttpCommand command_no_panic [of w ds resp] Cons
        by (auto simp: case_prod_beta Let_def)
    qed (use HttpCommand Cons in simp)
  qed simp
qed simp

lemma Run_no_panic: "list_all typed_event es \<Longrightarrow> fst (http_Run ok impl ds first es) \<noteq> HttpPanicked"
  using poll_no_panic [of ds first] loop_no_panic
  by (auto simp: http_Run_def case_prod_beta Let_def split: http_result.splits)

end

end
