(* ===== verification/Http_Shelly.thy ===== *)
theory Http_Shelly
  imports Http_Device
begin

text \<open>
  src/httpDevice/shellyEm3.go: the energy meter. The decoding of its JSON status is a parameter;
  the fields of the status are as the code declares them.
\<close>

section \<open>The status\<close>

record shelly_wifi =
  ws_Connected :: bool
  ws_Ssid :: string
  ws_Ip :: string
  ws_Rssi :: int

record shelly_relay =
  re_Ison :: bool
  re_HasTimer :: bool
  re_TimerStarted :: int
  re_TimerDuration :: int
  re_TimerRemaining :: int
  re_Overpower :: bool
  re_IsValid :: bool
  re_Source :: string

record shelly_emeter =
  em_Power :: f64
  em_Pf :: f64
  em_Current :: f64
  em_Voltage :: f64
  em_IsValid :: bool
  em_Total :: f64
  em_TotalReturned :: f64

record shelly_emeter_n =
  en_Current :: f64
  en_Ixsum :: f64
  en_Mismatch :: bool
  en_IsValid :: bool

record ShellyEm3StatusStruct =
  sh_WifiSta :: shelly_wifi
  sh_CloudEnabled :: bool
  sh_CloudConnected :: bool
  sh_MqttConnected :: bool
  sh_Time :: string
  sh_Serial :: int
  sh_HasUpdate :: bool
  sh_Mac :: string
  sh_CfgChangedCnt :: int
  sh_Relays :: "shelly_relay list"
  sh_Emeters :: "shelly_emeter list"
  sh_TotalPower :: f64
  sh_EmeterN :: shelly_emeter_n
  sh_Uptime :: int

section \<open>Registers and values\<close>

definition shelly_GetCategorySort :: category_sort where
  "shelly_GetCategorySort category =
     (if category = ''Essential'' then Some 0
      else if category = ''Energy Meters'' then Some 1
      else if category = ''Relays'' then Some 2
      else if category = ''Network Status'' then Some 3
      else if category = ''Wifi'' then Some 4
      else if category = ''System'' then Some 5
      else None)"

definition shelly_text :: "string \<Rightarrow> string \<Rightarrow> string \<Rightarrow> string \<Rightarrow> field_call list" where
  "shelly_text category registerName description v =
     (if length v < 1 then []
      else [\<lparr>fc_category = category, fc_name = registerName, fc_description = description, fc_unit = '''',
             fc_type = TextRegister, fc_enum = None, fc_writable = False, fc_value = PText v\<rparr>])"

definition shelly_number :: "string \<Rightarrow> string \<Rightarrow> string \<Rightarrow> string \<Rightarrow> f64 \<Rightarrow> field_call list" where
  "shelly_number category registerName description unit v =
     [\<lparr>fc_category = category, fc_name = registerName, fc_description = description, fc_unit = unit,
       fc_type = NumberRegister, fc_enum = None, fc_writable = False, fc_value = PNumber v\<rparr>]"

definition shelly_boolean :: "string \<Rightarrow> string \<Rightarrow> string \<Rightarrow> bool \<Rightarrow> field_call list" where
  "shelly_boolean category registerName description v =
     [\<lparr>fc_category = category, fc_name = registerName, fc_description = description, fc_unit = '''',
       fc_type = NumberRegister, fc_enum = Some [(0, ''false''), (1, ''true'')], fc_writable = False,
       fc_value = PEnum (if v then 1 else 0)\<rparr>]"

definition f64_of_int :: "int \<Rightarrow> f64" where
  "f64_of_int i = round_f64 (of_int i)"

definition shelly_emeter_calls :: "nat \<Rightarrow> shelly_emeter \<Rightarrow> field_call list" where
  "shelly_emeter_calls idx e =
     (let cat = ''Energy Meters'';
          regName = ''Emeter'' @ itoa (int idx + 1);
          desc = ''P'' @ itoa (int idx + 1)
      in shelly_number ''Essential'' (regName @ ''Power'') (desc @ '' Power'') ''W'' (em_Power e) @
         shelly_number cat (regName @ ''Pf'') (desc @ '' Power Factor'') '''' (em_Pf e) @
         shelly_number cat (regName @ ''Current'') (desc @ '' Current'') ''A'' (em_Current e) @
         shelly_number ''Essential'' (regName @ ''Voltage'') (desc @ '' Voltage'') ''V'' (em_Voltage e) @
         shelly_boolean cat (regName @ ''IsValid'') (desc @ '' Is Valid'') (em_IsValid e) @
         shelly_number cat (regName @ ''Total'') (desc @ '' Total'') ''Wh'' (em_Total e) @
         shelly_number cat (regName @ ''TotalReturned'') (desc @ '' TotalReturned'') ''Wh'' (em_TotalReturned e))"

definition shelly_relay_calls :: "nat \<Rightarrow> shelly_relay \<Rightarrow> field_call list" where
  "shelly_relay_calls idx r =
     (let cat = ''Relays'';
          regName = ''Relay'' @ itoa (int idx + 1);
          desc = ''Relay'' @ itoa (int idx + 1)
      in shelly_boolean ''Essential'' (regName @ ''IsOn'') (desc @ '' is on'') (re_Ison r) @
         shelly_boolean cat (regName @ ''HasTimer'') (desc @ '' has timer'') (re_HasTimer r) @
         shelly_number cat (regName @ ''TimerStarted'') (desc @ '' timer started'') '''' (f64_of_int (re_TimerStarted r)) @
         shelly_number cat (regName @ ''TimerDuration'') (desc @ '' timer duration'') '''' (f64_of_int (re_TimerDuration r)) @
         shelly_number cat (regName @ ''TimerRemaining'') (desc @ '' timer remaining'') '''' (f64_of_int (re_TimerRemaining r)) @
         shelly_boolean cat (regName @ ''Overpower'') (desc @ '' over power'') (re_Overpower r) @
         shelly_boolean cat (regName @ ''IsValid'') (desc @ '' is valid'') (re_IsValid r) @
         shelly_text cat (regName @ ''Source'') (desc @ '' source'') (re_Source r))"

fun indexed :: "nat \<Rightarrow> (nat \<Rightarrow> 'a \<Rightarrow> 'b list) \<Rightarrow> 'a list \<Rightarrow> 'b list" where
  "indexed idx f [] = []"
| "indexed idx f (x # xs) = f idx x @ indexed (Suc idx) f xs"

definition shelly_extractRegistersAndValues :: "ShellyEm3StatusStruct \<Rightarrow> field_call list" where
  "shelly_extractRegistersAndValues s =
     shelly_number ''Essential'' ''TotalPower'' ''Total Power'' ''W'' (sh_TotalPower s) @
     indexed 0 shelly_emeter_calls (sh_Emeters s) @
     shelly_number ''Energy Meters'' ''NCurrent'' ''Neutral Current'' ''A'' (en_Current (sh_EmeterN s)) @
     shelly_boolean ''Energy Meters'' ''Mismatch'' ''Mismatch'' (en_Mismatch (sh_EmeterN s)) @
     shelly_boolean ''Energy Meters'' ''NIsValid'' ''Is Valid'' (en_IsValid (sh_EmeterN s)) @
     indexed 0 shelly_relay_calls (sh_Relays s) @
     shelly_boolean ''Network Status'' ''WifiConnected'' ''Wifi Connected'' (ws_Connected (sh_WifiSta s)) @
     shelly_boolean ''Network Status'' ''CloudEnabled'' ''Cloud enabled'' (sh_CloudEnabled s) @
     shelly_boolean ''Network Status'' ''CloudConnected'' ''Cloud connected'' (sh_CloudConnected s) @
     shelly_boolean ''Network Status'' ''MqttConnected'' ''Mqtt Connected'' (sh_MqttConnected s) @
     shelly_text ''Wifi'' ''WifiSsid'' ''SSID'' (ws_Ssid (sh_WifiSta s)) @
     shelly_text ''Wifi'' ''WifiIp'' ''IP'' (ws_Ip (sh_WifiSta s)) @
     shelly_number ''Wifi'' ''WifiRssi'' ''RSSI'' '''' (f64_of_int (ws_Rssi (sh_WifiSta s))) @
     shelly_text ''System'' ''Time'' ''Time'' (sh_Time s) @
     shelly_number ''System'' ''Serial'' ''Serial'' '''' (f64_of_int (sh_Serial s)) @
     shelly_boolean ''System'' ''HasUpdate'' ''Has update'' (sh_HasUpdate s) @
     shelly_text ''System'' ''Mac'' ''MAC'' (sh_Mac s) @
     shelly_number ''System'' ''CfgChangedCnt'' ''Configuration changed counter'' ''''
       (f64_of_int (sh_CfgChangedCnt s)) @
     shelly_number ''System'' ''Uptime'' ''Uptime'' ''s'' (f64_of_int (sh_Uptime s))"

definition ShellyEm3Device :: "(string \<Rightarrow> ShellyEm3StatusStruct option) \<Rightarrow> Implementation" where
  "ShellyEm3Device unmarshal =
     \<lparr>im_path = ''status'', im_sort = shelly_GetCategorySort,
      im_response = (\<lambda>body. map_option shelly_extractRegistersAndValues (unmarshal body)),
      im_command = (\<lambda>v. HttpErr)\<rparr>"

section \<open>The contract\<close>

lemma sorted_calls_indexed:
  "(\<And>i x. sorted_calls cs (f i x)) \<Longrightarrow> sorted_calls cs (indexed idx f xs)"
  by (induction xs arbitrary: idx) simp_all

lemma shelly_sorted:
  "sorted_calls shelly_GetCategorySort (shelly_text c n d v) \<longleftrightarrow> v = [] \<or> shelly_GetCategorySort c \<noteq> None"
  "sorted_calls shelly_GetCategorySort (shelly_number c n d u x) \<longleftrightarrow> shelly_GetCategorySort c \<noteq> None"
  "sorted_calls shelly_GetCategorySort (shelly_boolean c n d b) \<longleftrightarrow> shelly_GetCategorySort c \<noteq> None"
  by (auto simp: shelly_text_def shelly_number_def shelly_boolean_def)

lemma shelly_categories:
  "shelly_GetCategorySort ''Essential'' \<noteq> None" "shelly_GetCategorySort ''Energy Meters'' \<noteq> None"
  "shelly_GetCategorySort ''Relays'' \<noteq> None" "shelly_GetCategorySort ''Network Status'' \<noteq> None"
  "shelly_GetCategorySort ''Wifi'' \<noteq> None" "shelly_GetCategorySort ''System'' \<noteq> None"
  by (simp_all add: shelly_GetCategorySort_def)

lemma shelly_extract_sorted: "sorted_calls shelly_GetCategorySort (shelly_extractRegistersAndValues s)"
proof -
  have e: "sorted_calls shelly_GetCategorySort (shelly_emeter_calls i e)" for i e
    by (simp only: shelly_emeter_calls_def Let_def sorted_calls_simps shelly_sorted shelly_categories simp_thms)
  have r: "sorted_calls shelly_GetCategorySort (shelly_relay_calls i r)" for i r
    by (simp only: shelly_relay_calls_def Let_def sorted_calls_simps shelly_sorted shelly_categories simp_thms)
  show ?thesis
    by (simp only: shelly_extractRegistersAndValues_def sorted_calls_simps shelly_sorted shelly_categories
        sorted_calls_indexed [OF e] sorted_calls_indexed [OF r] simp_thms)
qed

interpretation shelly: http_implementation "ShellyEm3Device unmarshal" for unmarshal
  by unfold_locales (auto simp: ShellyEm3Device_def shelly_extract_sorted)

end
