(* ===== verification/Go_Float.thy ===== *)
theory Go_Float
  imports Go_Duration
begin

text \<open>
  \<open>strconv.ParseFloat\<close> to 64 bits: the special names, decimal and hexadecimal numbers with a
  fraction and an exponent, underscores between digits. The result is the nearest float64 to the
  exact value; \<open>None\<close> is an error, of the syntax or of the range.
\<close>

definition lower_is :: "string \<Rightarrow> string \<Rightarrow> bool" where
  "lower_is name s \<longleftrightarrow> map to_lower s = name"

definition mant_char :: "bool \<Rightarrow> char \<Rightarrow> bool" where
  "mant_char hex c \<longleftrightarrow> c = CHR ''_'' \<or> (if hex then c \<in> set hex_digits else is_digit c)"

definition no_underscore :: "string \<Rightarrow> string" where
  "no_underscore = filter (\<lambda>c. c \<noteq> CHR ''_'')"

definition parse_digits :: "nat \<Rightarrow> string \<Rightarrow> nat" where
  "parse_digits base s = foldl (\<lambda>n c. base * n + hex_val c) 0 s"

text \<open>The exponent stops growing at five digits.\<close>

definition exponent_value :: "string \<Rightarrow> int" where
  "exponent_value s = foldl (\<lambda>e c. if e < 10000 then 10 * e + int (digit_val c) else e) 0 s"

definition read_exponent :: "bool \<Rightarrow> string \<Rightarrow> int option" where
  \<comment> \<open>the exponent of the rest of the text, which must be all of it\<close>
  "read_exponent hex s =
     (case s of
        [] \<Rightarrow> if hex then None else Some 0
      | c # t \<Rightarrow>
          if to_lower c \<noteq> (if hex then CHR ''p'' else CHR ''e'') then None
          else let neg = t \<noteq> [] \<and> hd t = CHR ''-'';
                   ds = (if t \<noteq> [] \<and> hd t \<in> {CHR ''+'', CHR ''-''} then tl t else t)
               in if ds = [] \<or> \<not> is_digit (hd ds) \<or> \<not> list_all (\<lambda>d. is_digit d \<or> d = CHR ''_'') ds then None
                  else Some ((if neg then - 1 else 1) * exponent_value (no_underscore ds)))"

text \<open>\<open>underscoreOK\<close>: \<open>saw\<close> is the class of the last character, here a digit, an underscore or neither.\<close>

datatype saw = SawStart | SawDigit | SawUnderscore | SawOther

fun underscores_ok :: "bool \<Rightarrow> saw \<Rightarrow> string \<Rightarrow> bool" where
  "underscores_ok hex saw [] = (saw \<noteq> SawUnderscore)"
| "underscores_ok hex saw (c # s) =
     (if is_digit c \<or> hex \<and> c \<in> set hex_digits then underscores_ok hex SawDigit s
      else if c = CHR ''_'' then saw = SawDigit \<and> underscores_ok hex SawUnderscore s
      else saw \<noteq> SawUnderscore \<and> underscores_ok hex SawOther s)"

definition scale :: "nat \<Rightarrow> int \<Rightarrow> rat" where
  "scale base e = (if 0 \<le> e then of_nat base ^ nat e else 1 / of_nat base ^ nat (- e))"

definition read_float :: "bool \<Rightarrow> string \<Rightarrow> rat option" where
  \<comment> \<open>the exact value of an unsigned number; \<open>hex\<close>: its prefix is already removed\<close>
  "read_float hex s =
     (let ip = takeWhile (mant_char hex) s;
          r = dropWhile (mant_char hex) s;
          dot = r \<noteq> [] \<and> hd r = CHR ''.'';
          fp = (if dot then takeWhile (mant_char hex) (tl r) else []);
          r' = (if dot then dropWhile (mant_char hex) (tl r) else r);
          base = (if hex then 16 else 10);
          digits = no_underscore (ip @ fp);
          mant = rat_of_nat (parse_digits base digits)
      in if digits = [] then None
         else if CHR ''_'' \<in> set s \<and> \<not> underscores_ok hex (if hex then SawDigit else SawStart) s then None
         else case read_exponent hex r' of
                None \<Rightarrow> None
              | Some e \<Rightarrow> Some (mant * scale base (- int (length (no_underscore fp))) *
                           scale (if hex then 2 else 10) e))"

definition signed_float :: "bool \<Rightarrow> rat \<Rightarrow> f64 option" where
  "signed_float neg q =
     (let v = round_f64 (if neg then - q else q)
      in if v = F_PInf \<or> v = F_NInf then None
         else if q = 0 \<and> neg then Some F_NegZero else Some v)"

definition ParseFloat :: "string \<Rightarrow> f64 option" where
  "ParseFloat str =
     (let neg = str \<noteq> [] \<and> hd str = CHR ''-'';
          s = (if str \<noteq> [] \<and> hd str \<in> {CHR ''+'', CHR ''-''} then tl str else str);
          hex = take 2 (map to_lower s) = ''0x'' \<and> length s > 2
      in if lower_is ''inf'' s \<or> lower_is ''infinity'' s then Some (if neg then F_NInf else F_PInf)
         else if lower_is ''nan'' str then Some F_NaN
         else case read_float hex (if hex then drop 2 s else s) of
                None \<Rightarrow> None
              | Some q \<Rightarrow> signed_float neg q)"

section \<open>Arithmetic\<close>

text \<open>Products and quotients by IEEE 754, from the exact values; \<open>f64_add\<close> is in the prelude.\<close>

fun f64_negative :: "f64 \<Rightarrow> bool" where
  "f64_negative F_NInf = True"
| "f64_negative F_NegZero = True"
| "f64_negative (F_Fin q) = (q < 0)"
| "f64_negative _ = False"

definition f64_inf :: "f64 \<Rightarrow> bool" where
  "f64_inf a \<longleftrightarrow> a = F_PInf \<or> a = F_NInf"

definition f64_is_zero :: "f64 \<Rightarrow> bool" where
  "f64_is_zero a \<longleftrightarrow> a = F_NegZero \<or> a = F_Fin 0"

fun f64_neg :: "f64 \<Rightarrow> f64" where
  "f64_neg F_NaN = F_NaN"
| "f64_neg F_PInf = F_NInf"
| "f64_neg F_NInf = F_PInf"
| "f64_neg F_NegZero = F_Fin 0"
| "f64_neg (F_Fin q) = (if q = 0 then F_NegZero else F_Fin (- q))"

definition f64_sub :: "f64 \<Rightarrow> f64 \<Rightarrow> f64" where
  "f64_sub a b = f64_add a (f64_neg b)"

definition f64_mul :: "f64 \<Rightarrow> f64 \<Rightarrow> f64" where
  "f64_mul a b =
     (let neg = (f64_negative a \<noteq> f64_negative b)
      in if a = F_NaN \<or> b = F_NaN then F_NaN
         else if f64_inf a \<or> f64_inf b then
           (if f64_is_zero a \<or> f64_is_zero b then F_NaN else if neg then F_NInf else F_PInf)
         else if f64_is_zero a \<or> f64_is_zero b then (if neg then F_NegZero else F_Fin 0)
         else round_f64 (f64_num a * f64_num b))"

definition f64_div :: "f64 \<Rightarrow> f64 \<Rightarrow> f64" where
  "f64_div a b =
     (let neg = (f64_negative a \<noteq> f64_negative b)
      in if a = F_NaN \<or> b = F_NaN \<or> (f64_inf a \<and> f64_inf b) \<or> (f64_is_zero a \<and> f64_is_zero b) then F_NaN
         else if f64_inf a \<or> f64_is_zero b then (if neg then F_NInf else F_PInf)
         else if f64_inf b \<or> f64_is_zero a then (if neg then F_NegZero else F_Fin 0)
         else round_f64 (f64_num a / f64_num b))"

end
