(* ===== verification/Http_Teracom.thy ===== *)
theory Http_Teracom
  imports Http_Device Go_Float
begin

text \<open>
  src/httpDevice/teracom.go: a controller with sensors, inputs and relays. The decoding of its
  JSON status is a parameter; the fields of the status are as the code declares them.
\<close>

section \<open>The status\<close>

record teracomSensorValueStruct =
  sv_Value :: string
  sv_Unit :: string
  sv_Alarm :: string
  sv_Min :: string
  sv_Max :: string
  sv_Hys :: string

record teracomSensorStruct =
  ts_Description :: string
  ts_ID :: string
  ts_Item1 :: teracomSensorValueStruct
  ts_Item2 :: teracomSensorValueStruct

record teracomAnalogStruct =
  ta_Description :: string
  ta_Value :: string
  ta_Unit :: string
  ta_Multiplier :: string
  ta_Offset :: string
  ta_Alarm :: string
  ta_Min :: string
  ta_Max :: string
  ta_Hys :: string

record teracomDigitalStruct =
  td_Description :: string
  td_Value :: string
  td_Valuebin :: string
  td_AlarmState :: string
  td_Alarm :: string

record teracomRelayStruct =
  tr_Description :: string
  tr_Value :: string
  tr_Valuebin :: string
  tr_PulseWidth :: string
  tr_Control :: string

record teracomDeviceInfo =
  di_DeviceName :: string
  di_HostName :: string
  di_ID :: string
  di_FwVer :: string
  di_SysContact :: string
  di_SysName :: string
  di_SysLocation :: string

record teracomStatusStruct =
  te_DeviceInfo :: teracomDeviceInfo
  te_S1 :: teracomSensorStruct
  te_S2 :: teracomSensorStruct
  te_S3 :: teracomSensorStruct
  te_S4 :: teracomSensorStruct
  te_S5 :: teracomSensorStruct
  te_S6 :: teracomSensorStruct
  te_S7 :: teracomSensorStruct
  te_S8 :: teracomSensorStruct
  te_AI1 :: teracomAnalogStruct
  te_AI2 :: teracomAnalogStruct
  te_AI3 :: teracomAnalogStruct
  te_AI4 :: teracomAnalogStruct
  te_VI1 :: teracomAnalogStruct
  te_VI2 :: teracomAnalogStruct
  te_VI3 :: teracomAnalogStruct
  te_VI4 :: teracomAnalogStruct
  te_DI1 :: teracomDigitalStruct
  te_DI2 :: teracomDigitalStruct
  te_DI3 :: teracomDigitalStruct
  te_DI4 :: teracomDigitalStruct
  te_R1 :: teracomRelayStruct
  te_R2 :: teracomRelayStruct
  te_R3 :: teracomRelayStruct
  te_R4 :: teracomRelayStruct
  te_Hwerr :: string
  te_Alarmed :: string
  te_Date :: string
  te_Time :: string

section \<open>Registers and values\<close>

definition teracom_GetCategorySort :: category_sort where
  "teracom_GetCategorySort category =
     (if category = ''Sensors'' then Some 0
      else if category = ''Analog Inputs'' then Some 1
      else if category = ''Virtual Inputs'' then Some 2
      else if category = ''Digital Inputs'' then Some 3
      else if category = ''Relays'' then Some 4
      else if category = ''Alarms'' then Some 5
      else if category = ''General'' then Some 6
      else if category = ''Device Info'' then Some 7
      else if category = ''Settings'' then Some 8
      else None)"

definition tera_text :: "string \<Rightarrow> string \<Rightarrow> string \<Rightarrow> string \<Rightarrow> field_call list" where
  "tera_text category registerName description v =
     (if length v < 1 then []
      else [\<lparr>fc_category = category, fc_name = registerName, fc_description = description, fc_unit = '''',
             fc_type = TextRegister, fc_enum = None, fc_writable = False, fc_value = PText v\<rparr>])"

definition tera_number :: "string \<Rightarrow> string \<Rightarrow> string \<Rightarrow> string \<Rightarrow> string \<Rightarrow> field_call list" where
  "tera_number category registerName description unit v =
     (if v = ''---'' then []
      else case ParseFloat v of
        None \<Rightarrow> []
      | Some floatValue \<Rightarrow>
          [\<lparr>fc_category = category, fc_name = registerName, fc_description = description, fc_unit = unit,
            fc_type = NumberRegister, fc_enum = None, fc_writable = False, fc_value = PNumber floatValue\<rparr>])"

definition enum_index :: "(int \<times> string) list \<Rightarrow> string \<Rightarrow> int" where
  \<comment> \<open>the labels are distinct, so the order of the range does not matter\<close>
  "enum_index enm strValue =
     (case find (\<lambda>(idx, v). v = strValue) enm of Some (idx, v) \<Rightarrow> idx | None \<Rightarrow> - 1)"

definition tera_enum ::
  "string \<Rightarrow> string \<Rightarrow> string \<Rightarrow> (int \<times> string) list \<Rightarrow> string \<Rightarrow> bool \<Rightarrow> field_call list" where
  "tera_enum category registerName description enm strValue writable =
     [\<lparr>fc_category = category, fc_name = registerName, fc_description = description, fc_unit = '''',
       fc_type = EnumRegister, fc_enum = Some enm, fc_writable = writable,
       fc_value = PEnum (enum_index enm strValue)\<rparr>]"

definition relay_enum :: "(int \<times> string) list" where
  "relay_enum = [(0, ''OFF''), (1, ''ON''), (2, ''in pulse'')]"

definition tera_relay :: "string \<Rightarrow> string \<Rightarrow> string \<Rightarrow> bool \<Rightarrow> field_call list" where
  "tera_relay registerName description strValue writable =
     tera_enum ''Relays'' registerName description relay_enum strValue writable"

definition tera_alarm :: "string \<Rightarrow> string \<Rightarrow> string \<Rightarrow> string \<Rightarrow> field_call list" where
  "tera_alarm category registerName description strValue =
     [\<lparr>fc_category = category, fc_name = registerName, fc_description = description, fc_unit = '''',
       fc_type = EnumRegister, fc_enum = Some [(0, ''OK''), (1, ''ALARMED'')], fc_writable = False,
       fc_value = PEnum (if strValue = ''1'' then 1 else 0)\<rparr>]"

definition tera_item :: "nat \<Rightarrow> nat \<Rightarrow> teracomSensorStruct \<Rightarrow> teracomSensorValueStruct \<Rightarrow> field_call list" where
  "tera_item sIdx vIdx s i =
     (if sv_Value i = ''---'' then []
      else (let regName = ''S'' @ itoa (int sIdx) @ ''V'' @ itoa (int vIdx); desc = ts_Description s
            in tera_number ''Sensors'' regName desc (sv_Unit i) (sv_Value i) @
               tera_alarm ''Alarms'' (regName @ ''Alarm'') desc (sv_Alarm i) @
               tera_number ''Settings'' (regName @ ''Min'') (desc @ '' Min'') (sv_Unit i) (sv_Min i) @
               tera_number ''Settings'' (regName @ ''Max'') (desc @ '' Max'') (sv_Unit i) (sv_Max i) @
               tera_number ''Settings'' (regName @ ''Hys'') (desc @ '' Hysteresis'') (sv_Unit i) (sv_Hys i)))"

definition tera_sensor :: "nat \<Rightarrow> teracomSensorStruct \<Rightarrow> field_call list" where
  "tera_sensor sIdx s =
     (if ts_ID s = ''0000000000000000'' then []
      else tera_item sIdx 1 s (ts_Item1 s) @ tera_item sIdx 2 s (ts_Item2 s) @
           tera_text ''Settings'' ((''S'' @ itoa (int sIdx)) @ ''Id'') (ts_Description s @ '' Id'') (ts_ID s))"

definition tera_analog :: "string \<Rightarrow> string \<Rightarrow> nat \<Rightarrow> teracomAnalogStruct \<Rightarrow> field_call list" where
  "tera_analog regNamePrefix valueCat sIdx a =
     (if ta_Value a = ''---'' then []
      else (let regName = regNamePrefix @ itoa (int sIdx); desc = ta_Description a
            in tera_number valueCat regName desc (ta_Unit a) (ta_Value a) @
               tera_alarm ''Alarms'' (regName @ ''Alarm'') desc (ta_Alarm a) @
               tera_number ''Settings'' (regName @ ''Min'') (desc @ '' Min'') (ta_Unit a) (ta_Min a) @
               tera_number ''Settings'' (regName @ ''Max'') (desc @ '' Max'') (ta_Unit a) (ta_Max a) @
               tera_number ''Settings'' (regName @ ''Hys'') (desc @ '' Hysteresis'') (ta_Unit a) (ta_Hys a) @
               tera_number ''Settings'' (regName @ ''Offset'') (desc @ '' Offset'') (ta_Unit a) (ta_Offset a) @
               tera_number ''Settings'' (regName @ ''Multiplier'') (desc @ '' Multiplier'') (ta_Unit a)
                 (ta_Multiplier a)))"

definition tera_digital :: "nat \<Rightarrow> teracomDigitalStruct \<Rightarrow> field_call list" where
  "tera_digital sIdx a =
     (let regName = ''DI'' @ itoa (int sIdx); desc = td_Description a
      in tera_enum ''Digital Inputs'' regName desc [(0, ''OPEN''), (1, ''CLOSED'')] (td_Value a) False @
         tera_alarm ''Alarms'' (regName @ ''Alarm'') desc (td_Alarm a))"

definition tera_relay_calls :: "nat \<Rightarrow> teracomRelayStruct \<Rightarrow> field_call list" where
  "tera_relay_calls sIdx r =
     (let regName = ''R'' @ itoa (int sIdx); desc = tr_Description r;
          writable = tr_Control r = ''0''
      in tera_relay regName desc (tr_Value r) writable @
         (if \<not> writable
          then tera_text ''Relays'' (regName @ ''Control'') (desc @ '' is controlled by'') (tr_Control r)
          else []))"

definition tera_general :: "teracomStatusStruct \<Rightarrow> field_call list" where
  "tera_general m =
     tera_text ''Device Info'' ''DeviceName'' ''Device Name'' (di_DeviceName (te_DeviceInfo m)) @
     tera_text ''Device Info'' ''HostName'' ''Host Name'' (di_HostName (te_DeviceInfo m)) @
     tera_text ''Device Info'' ''Id'' ''Id'' (di_ID (te_DeviceInfo m)) @
     tera_text ''Device Info'' ''FWVer'' ''Firmware Vesion'' (di_FwVer (te_DeviceInfo m)) @
     tera_text ''Device Info'' ''SysContact'' ''System Contact'' (di_SysContact (te_DeviceInfo m)) @
     tera_text ''Device Info'' ''SysName'' ''System Name'' (di_SysName (te_DeviceInfo m)) @
     tera_text ''Device Info'' ''SysLocation'' ''System Location'' (di_SysLocation (te_DeviceInfo m)) @
     tera_text ''General'' ''Hwerr'' ''Hardware Error'' (te_Hwerr m) @
     tera_alarm ''General'' ''Alarmed'' ''Alarmed'' (te_Alarmed m) @
     tera_text ''General'' ''Date'' ''Date'' (te_Date m) @
     tera_text ''General'' ''Time'' ''Time'' (te_Time m)"

definition teracom_extractRegistersAndValues :: "teracomStatusStruct \<Rightarrow> field_call list" where
  "teracom_extractRegistersAndValues m =
     tera_general m @
     tera_sensor 1 (te_S1 m) @ tera_sensor 2 (te_S2 m) @ tera_sensor 3 (te_S3 m) @ tera_sensor 4 (te_S4 m) @
     tera_sensor 5 (te_S5 m) @ tera_sensor 6 (te_S6 m) @ tera_sensor 7 (te_S7 m) @ tera_sensor 8 (te_S8 m) @
     tera_analog ''AI'' ''Analog Inputs'' 1 (te_AI1 m) @ tera_analog ''AI'' ''Analog Inputs'' 2 (te_AI2 m) @
     tera_analog ''AI'' ''Analog Inputs'' 3 (te_AI3 m) @ tera_analog ''AI'' ''Analog Inputs'' 4 (te_AI4 m) @
     tera_analog ''VI'' ''Virtual Inputs'' 1 (te_VI1 m) @ tera_analog ''VI'' ''Virtual Inputs'' 2 (te_VI2 m) @
     tera_analog ''VI'' ''Virtual Inputs'' 3 (te_VI3 m) @ tera_analog ''VI'' ''Virtual Inputs'' 4 (te_VI4 m) @
     tera_digital 1 (te_DI1 m) @ tera_digital 2 (te_DI2 m) @ tera_digital 3 (te_DI3 m) @ tera_digital 4 (te_DI4 m) @
     tera_relay_calls 1 (te_R1 m) @ tera_relay_calls 2 (te_R2 m) @
     tera_relay_calls 3 (te_R3 m) @ tera_relay_calls 4 (te_R4 m)"

section \<open>Responses and commands\<close>

definition trim_BOM :: "string \<Rightarrow> string" where
  "trim_BOM body =
     (if take 3 body = [CHR 0xEF, CHR 0xBB, CHR 0xBF] then drop 3 body else body)"

definition teracom_CommandValueRequest :: "val \<Rightarrow> (http_request \<times> field_call list) http_result" where
  "teracom_CommandValueRequest v =
     (if reg_type (val_reg v) \<noteq> EnumRegister then HttpErr
      else case v of
        EnumRegisterValue d r i \<Rightarrow>
          (let label = enum_text r i;
               cmd = (if label = ''ON'' then Some ''ron'' else if label = ''OFF'' then Some ''rof''
                      else if label = ''in pulse'' then Some ''rpl'' else None);
               param = (if reg_name r = ''R1'' then Some ''1'' else if reg_name r = ''R2'' then Some ''2''
                        else if reg_name r = ''R3'' then Some ''4'' else if reg_name r = ''R4'' then Some ''8''
                        else None)
           in case cmd of
                None \<Rightarrow> HttpErr
              | Some c \<Rightarrow>
                  (case param of
                     None \<Rightarrow> HttpErr
                   | Some p \<Rightarrow>
                       HttpOk (\<lparr>rq_method = ''POST'', rq_path = ''/monitor/monitor.htm'', rq_body = c @ ''='' @ p\<rparr>,
                         tera_relay (reg_name r) (reg_description r) label (reg_writable r))))
      | _ \<Rightarrow> HttpPanic)"

definition TeracomDevice :: "(string \<Rightarrow> teracomStatusStruct option) \<Rightarrow> Implementation" where
  "TeracomDevice unmarshal =
     \<lparr>im_path = ''status.json'', im_sort = teracom_GetCategorySort,
      im_response = (\<lambda>body. map_option teracom_extractRegistersAndValues (unmarshal (trim_BOM body))),
      im_command = teracom_CommandValueRequest\<rparr>"

section \<open>The contract\<close>

lemma teracom_categories:
  "teracom_GetCategorySort ''Sensors'' \<noteq> None" "teracom_GetCategorySort ''Analog Inputs'' \<noteq> None"
  "teracom_GetCategorySort ''Virtual Inputs'' \<noteq> None" "teracom_GetCategorySort ''Digital Inputs'' \<noteq> None"
  "teracom_GetCategorySort ''Relays'' \<noteq> None" "teracom_GetCategorySort ''Alarms'' \<noteq> None"
  "teracom_GetCategorySort ''General'' \<noteq> None" "teracom_GetCategorySort ''Device Info'' \<noteq> None"
  "teracom_GetCategorySort ''Settings'' \<noteq> None"
  by (simp_all add: teracom_GetCategorySort_def)

text \<open>Every category passed to the helpers has a sort, so has every call.\<close>

abbreviation tera_sorted :: "field_call list \<Rightarrow> bool" where
  "tera_sorted \<equiv> sorted_calls teracom_GetCategorySort"

lemma tera_helper_sorted:
  "teracom_GetCategorySort c \<noteq> None \<Longrightarrow> tera_sorted (tera_text c n d v)"
  "teracom_GetCategorySort c \<noteq> None \<Longrightarrow> tera_sorted (tera_number c n d u v)"
  "teracom_GetCategorySort c \<noteq> None \<Longrightarrow> tera_sorted (tera_enum c n d e v w)"
  "teracom_GetCategorySort c \<noteq> None \<Longrightarrow> tera_sorted (tera_alarm c n d v)"
  by (auto simp: tera_text_def tera_number_def tera_enum_def tera_alarm_def split: option.splits)

lemma tera_relay_sorted: "tera_sorted (tera_relay n d v w)"
  unfolding tera_relay_def by (intro tera_helper_sorted teracom_categories)

lemma sorted_calls_append: "sorted_calls cs xs \<Longrightarrow> sorted_calls cs ys \<Longrightarrow> sorted_calls cs (xs @ ys)"
  by simp

lemma sorted_calls_if: "sorted_calls cs xs \<Longrightarrow> sorted_calls cs ys \<Longrightarrow> sorted_calls cs (if b then xs else ys)"
  by simp

lemmas tera_sorted_intros =
  sorted_calls_append sorted_calls_if sorted_calls_simps(1) tera_helper_sorted tera_relay_sorted teracom_categories

lemma tera_item_sorted: "tera_sorted (tera_item i j s v)"
  unfolding tera_item_def Let_def by (intro tera_sorted_intros)

lemma tera_sensor_sorted: "tera_sorted (tera_sensor i s)"
  unfolding tera_sensor_def by (intro tera_sorted_intros tera_item_sorted)

lemma tera_analog_sorted: "teracom_GetCategorySort c \<noteq> None \<Longrightarrow> tera_sorted (tera_analog p c i a)"
  unfolding tera_analog_def Let_def by (intro tera_sorted_intros)

lemma tera_digital_sorted: "tera_sorted (tera_digital i a)"
  unfolding tera_digital_def Let_def by (intro tera_sorted_intros)

lemma tera_relay_calls_sorted: "tera_sorted (tera_relay_calls i r)"
  unfolding tera_relay_calls_def Let_def by (intro tera_sorted_intros)

lemma tera_general_sorted: "tera_sorted (tera_general m)"
  unfolding tera_general_def by (intro tera_sorted_intros)

lemma teracom_extract_sorted: "tera_sorted (teracom_extractRegistersAndValues m)"
  unfolding teracom_extractRegistersAndValues_def
  by (intro sorted_calls_append tera_general_sorted tera_sensor_sorted tera_analog_sorted tera_digital_sorted
      tera_relay_calls_sorted teracom_categories)

lemma teracom_command_ok:
  "teracom_CommandValueRequest v = HttpOk (rq, fs) \<Longrightarrow> tera_sorted fs"
  by (auto simp: teracom_CommandValueRequest_def Let_def tera_relay_sorted split: if_splits val.splits option.splits)

lemma teracom_command_typed: "well_typed v \<Longrightarrow> teracom_CommandValueRequest v \<noteq> HttpPanic"
  by (cases v) (auto simp: teracom_CommandValueRequest_def Let_def split: option.splits)

interpretation teracom: http_implementation "TeracomDevice unmarshal" for unmarshal
  by unfold_locales
    (auto simp: TeracomDevice_def teracom_extract_sorted teracom_command_typed dest: teracom_command_ok)

end
