(* ===== verification/Http_Proofs.thy ===== *)
theory Http_Proofs
  imports Http_Shelly Http_Teracom
begin

text \<open>
  What the HTTP devices do: their runs do not panic, commands and their reset, the registers of
  the relays, and the sort numbers of the registers.
\<close>

section \<open>The factory (implementation.go)\<close>

definition implementationFactory ::
  "(string \<Rightarrow> teracomStatusStruct option) \<Rightarrow> (string \<Rightarrow> ShellyEm3StatusStruct option) \<Rightarrow> HttpDeviceKind \<Rightarrow>
     Implementation option" where
  \<comment> \<open>\<open>None\<close>: panic\<close>
  "implementationFactory teracomJson shellyJson kind =
     (case kind of
        HttpTeracomKind \<Rightarrow> Some (TeracomDevice teracomJson)
      | HttpShellyEm3Kind \<Rightarrow> Some (ShellyEm3Device shellyJson)
      | HttpUndefinedKind \<Rightarrow> None)"

section \<open>Runs\<close>

lemma exec_call_config:
  "exec_call cs ds f = Some (ds1, acts) \<Longrightarrow> ds_config (hd_state ds1) = ds_config (hd_state ds) \<and>
     ds_availableValue (hd_state ds1) = ds_availableValue (hd_state ds) \<and>
     ds_unavailableValue (hd_state ds1) = ds_unavailableValue (hd_state ds) \<and>
     hd_registerFilter ds1 = hd_registerFilter ds"
  by (auto simp: exec_call_def addIgnoreRegister_def getRegisterSort_def http_add_def Let_def
      split: option.splits if_splits)

lemma exec_calls_config:
  "exec_calls cs ds fs = Some (ds1, acts) \<Longrightarrow> ds_config (hd_state ds1) = ds_config (hd_state ds) \<and>
     ds_availableValue (hd_state ds1) = ds_availableValue (hd_state ds) \<and>
     ds_unavailableValue (hd_state ds1) = ds_unavailableValue (hd_state ds) \<and>
     hd_registerFilter ds1 = hd_registerFilter ds"
proof (induction fs arbitrary: ds acts)
  case (Cons f fs)
  then obtain ds2 a acts' where "exec_call cs ds f = Some (ds2, a)" and "exec_calls cs ds2 fs = Some (ds1, acts')"
    by (auto split: option.splits)
  with Cons.IH exec_call_config show ?case by metis
qed simp

lemma http_SetAvailable_poll:
  "http_poll impl ds resp = HttpOk (ds1, acts) \<Longrightarrow> http_SetAvailable ds1 = http_SetAvailable ds"
  by (rule ext) (auto simp: http_poll_def http_SetAvailable_def SetAvailable_def
      split: http_response.splits option.splits if_splits dest!: exec_calls_config)

lemma http_SetAvailable_command:
  "http_execCommand impl ds v resp = Some (ds1, acts) \<Longrightarrow> http_SetAvailable ds1 = http_SetAvailable ds"
  by (rule ext) (auto simp: http_execCommand_def Let_def http_SetAvailable_def SetAvailable_def
      split: http_result.splits http_response.splits option.splits if_splits dest!: exec_calls_config)

text \<open>Once a run has made the device available, it makes it unavailable when it ends.\<close>

definition loop_ends :: "http_device \<Rightarrow> http_status \<times> http_device \<times> device_action list \<Rightarrow> bool" where
  "loop_ends ds r \<longleftrightarrow>
     (case r of (st, ds1, acts) \<Rightarrow> st = HttpRunning \<or>
        ((\<exists>pre. acts = pre @ [http_SetAvailable ds False]) \<and> st \<noteq> HttpReturned True True \<and> st \<noteq> HttpReturned False True))"

lemma loop_ends_more:
  "loop_ends ds r \<Longrightarrow> loop_ends ds (case r of (st, ds2, acts') \<Rightarrow> (st, ds2, acts @ acts'))"
  by (cases r) (auto simp: loop_ends_def)

lemma loop_ends_cong: "http_SetAvailable ds1 = http_SetAvailable ds \<Longrightarrow> loop_ends ds1 r = loop_ends ds r"
  by (simp add: loop_ends_def)

lemma http_loop_ends: "loop_ends ds (http_loop impl ds es)"
proof (induction es arbitrary: ds)
  case (Cons e es)
  show ?case
  proof (cases e)
    case (HttpTick resp)
    show ?thesis
    proof (cases "http_poll impl ds resp")
      case (HttpOk r)
      obtain ds1 acts where r: "r = (ds1, acts)" by force
      have "loop_ends ds (http_loop impl ds1 es)"
        using Cons [of ds1] unfolding loop_ends_cong [OF http_SetAvailable_poll [OF HttpOk [unfolded r]]] .
      then show ?thesis
        using loop_ends_more [of ds "http_loop impl ds1 es" acts] by (simp add: HttpTick HttpOk r)
    qed (simp_all add: HttpTick loop_ends_def)
  next
    case (HttpCommand v resp)
    show ?thesis
    proof (cases v)
      case (Some w)
      show ?thesis
      proof (cases "http_execCommand impl ds w resp")
        case (Some r)
        obtain ds1 acts where r: "r = (ds1, acts)" by force
        have "loop_ends ds (http_loop impl ds1 es)"
          using Cons [of ds1] unfolding loop_ends_cong [OF http_SetAvailable_command [OF Some [unfolded r]]] .
        then show ?thesis
          using loop_ends_more [of ds "http_loop impl ds1 es" acts] by (simp add: HttpCommand \<open>v = Some w\<close> Some r)
      qed (simp add: HttpCommand Some loop_ends_def)
    qed (simp add: HttpCommand Cons)
  qed (simp add: loop_ends_def)
qed (simp add: loop_ends_def)

text \<open>
  C37: The device of every kind the configuration accepts has an implementation, its run does not
  panic as long as the commands have the type of their register, and a run that ends leaves the
  device unavailable, or was never available.
\<close>

theorem http_run_safe:
  assumes "kind \<noteq> HttpUndefinedKind" and "list_all typed_event es"
  shows "\<exists>impl. implementationFactory tj sj kind = Some impl \<and>
    (case http_Run ok impl ds first es of
       (HttpPanicked, _, _) \<Rightarrow> False
     | (HttpRunning, _, _) \<Rightarrow> True
     | (HttpReturned err immediate, _, acts) \<Rightarrow>
         if immediate then acts = [] else \<exists>pre. acts = pre @ [http_SetAvailable ds False])"
proof -
  obtain impl where impl: "implementationFactory tj sj kind = Some impl"
    and safe: "fst (http_Run ok impl ds first es) \<noteq> HttpPanicked"
    using assms(1) teracom.Run_no_panic [OF assms(2)] shelly.Run_no_panic [OF assms(2)]
    by (cases kind) (simp_all add: implementationFactory_def)
  have "case http_Run ok impl ds first es of
       (HttpPanicked, _, _) \<Rightarrow> False
     | (HttpRunning, _, _) \<Rightarrow> True
     | (HttpReturned err immediate, _, acts) \<Rightarrow>
         if immediate then acts = [] else \<exists>pre. acts = pre @ [http_SetAvailable ds False]"
  proof (cases "ok \<and> (\<exists>r. http_poll impl ds first = HttpOk r)")
    case False
    then show ?thesis
      using safe by (auto simp: http_Run_def split: http_result.splits)
  next
    case True
    then obtain ds1 acts where poll: "http_poll impl ds first = HttpOk (ds1, acts)" by auto
    obtain st ds2 acts' where loop: "http_loop impl ds1 es = (st, ds2, acts')"
      using prod_cases3 by blast
    have run: "http_Run ok impl ds first es = (st, ds2, acts @ [http_SetAvailable ds1 True] @ acts')"
      using True by (simp add: http_Run_def poll loop)
    have "loop_ends ds (st, ds2, acts')"
      using http_loop_ends [of ds1 impl es] unfolding loop_ends_cong [OF http_SetAvailable_poll [OF poll]] loop .
    then have ends: "st = HttpRunning \<or> (\<exists>pre. acts' = pre @ [http_SetAvailable ds False]) \<and>
        st \<noteq> HttpReturned True True \<and> st \<noteq> HttpReturned False True"
      by (simp add: loop_ends_def)
    show ?thesis
    proof (cases st)
      case (HttpReturned err immediate)
      with ends have "\<not> immediate"
        by (cases err; cases immediate) simp_all
      moreover obtain pre where "acts' = pre @ [http_SetAvailable ds False]"
        using ends HttpReturned by auto
      ultimately show ?thesis
        by (simp add: run HttpReturned)
    qed (use safe run in simp_all)
  qed
  with impl show ?thesis
    by (intro exI [of _ impl] conjI)
qed

definition example_config :: device_config where
  "example_config =
     \<lparr>dc_Name = ''dev'', dc_Filter = \<lparr>IncludeRegisters = [], SkipRegisters = [],
        IncludeCategories = [], SkipCategories = [''Energy Meters''], DefaultInclude = True\<rparr>,
      dc_LogDebug = False, dc_LogComDebug = False\<rparr>"

theorem http_run_safe_witness:
  "\<exists>impl. implementationFactory (\<lambda>b. None) (\<lambda>b. None) HttpTeracomKind = Some impl \<and>
    (case http_Run True impl (http_NewDevice example_config HttpTeracomKind) (Response 404 (Some ''''))
        [HttpTick DoError] of
       (HttpPanicked, _, _) \<Rightarrow> False
     | (HttpRunning, _, _) \<Rightarrow> True
     | (HttpReturned err immediate, _, acts) \<Rightarrow>
         if immediate then acts = []
         else \<exists>pre. acts = pre @ [http_SetAvailable (http_NewDevice example_config HttpTeracomKind) False])"
  by (rule http_run_safe) simp_all

section \<open>Commands\<close>

text \<open>What the actions do to the state of the command storage.\<close>

definition command_state :: "storage_state \<Rightarrow> device_action list \<Rightarrow> storage_state" where
  "command_state st acts =
     foldl (\<lambda>st a. case a of FillCommand v \<Rightarrow> fst (updateState st v) | _ \<Rightarrow> st) st acts"

lemma command_state_simps [simp]:
  "command_state st [] = st"
  "command_state st (AddRegisters rs # acts) = command_state st acts"
  "command_state st (FillState v # acts) = command_state st acts"
  "command_state st (FillCommand v # acts) = command_state (fst (updateState st v)) acts"
  "command_state st (xs @ ys) = command_state (command_state st xs) ys"
  by (simp_all add: command_state_def)

lemma command_state_call: "exec_call cs ds f = Some (ds1, acts) \<Longrightarrow> command_state st acts = st"
  by (auto simp: exec_call_def addIgnoreRegister_def Let_def split: option.splits if_splits)

lemma command_state_calls: "exec_calls cs ds fs = Some (ds1, acts) \<Longrightarrow> command_state st acts = st"
proof (induction fs arbitrary: ds acts)
  case (Cons f fs)
  then obtain ds2 a a' where "exec_call cs ds f = Some (ds2, a)" and "exec_calls cs ds2 fs = Some (ds1, a')"
    and "acts = a @ a'"
    by (auto split: option.splits)
  with Cons.IH command_state_call show ?case by simp
qed simp

definition command_reset :: "Implementation \<Rightarrow> val \<Rightarrow> http_response \<Rightarrow> bool" where
  \<comment> \<open>no request is made, it fails, or it succeeds; not: another status, or an unreadable body\<close>
  "command_reset impl v resp \<longleftrightarrow>
     im_command impl v = HttpErr \<or> resp = DoError \<or> (\<exists>body. resp = Response 200 (Some body))"

lemma command_state_exec:
  assumes "http_execCommand impl ds v resp = Some (ds1, acts)"
  shows "command_state st acts =
    (if command_reset impl v resp then fst (updateState st (NullRegisterValue (http_Name ds) (val_reg v))) else st)"
  using assms
  by (auto simp: http_execCommand_def command_reset_def Let_def command_state_calls
      split: http_result.splits http_response.splits option.splits if_splits)

text \<open>
  A command can be given again, that is, filling the same value once more is a change of the
  command storage, exactly if the execution of the first one reset it: a request answered with
  another status than 200 leaves the command in the storage, and repeating it has no effect.
\<close>

theorem http_command_repeat:
  assumes "wf_state st" and "Value_Equals v v" and "\<not> is_null v" and "DeviceName v = http_Name ds"
    and "http_execCommand impl ds v resp = Some (ds1, acts)"
  shows "snd (updateState (command_state (fst (updateState st v)) acts) v) \<longleftrightarrow> command_reset impl v resp"
proof (cases "command_reset impl v resp")
  case True
  let ?n = "NullRegisterValue (http_Name ds) (val_reg v)"
  have k: "val_key ?n = val_key v"
    using assms(4) by (simp add: val_key_def val_name_def)
  have "wf_state (fst (updateState st v))"
    by (rule wf_updateState [OF assms(1)])
  from updateState_lookup [OF this, of ?n]
  have "map_of (fst (updateState (fst (updateState st v)) ?n)) (val_key v) = None"
    by (simp add: k is_null_def)
  with True show ?thesis
    by (simp add: command_state_exec [OF assms(5)] updateState_changed)
next
  case False
  then show ?thesis
    using updateState_again [OF assms(1-3)] by (simp add: command_state_exec [OF assms(5)])
qed

definition pump_register :: register where
  "pump_register = NewRegisterStruct ''Relays'' ''R2'' ''Pump'' EnumRegister (Some relay_enum) '''' 400 True"

theorem http_command_repeat_witness:
  "snd (updateState (command_state (fst (updateState [] (EnumRegisterValue ''dev'' pump_register 1))) [])
     (EnumRegisterValue ''dev'' pump_register 1)) \<longleftrightarrow>
   command_reset (TeracomDevice (\<lambda>b. None)) (EnumRegisterValue ''dev'' pump_register 1) (Response 503 (Some ''busy''))"
proof (rule http_command_repeat)
  show "http_execCommand (TeracomDevice (\<lambda>b. None)) (http_NewDevice example_config HttpTeracomKind)
      (EnumRegisterValue ''dev'' pump_register 1) (Response 503 (Some ''busy'')) =
    Some (http_NewDevice example_config HttpTeracomKind, [])"
    by (simp add: http_execCommand_def TeracomDevice_def teracom_CommandValueRequest_def pump_register_def
        enum_text_def enum_lookup_def enum_entries_def relay_enum_def Let_def)
qed (simp_all add: is_null_def http_Name_def http_NewDevice_def example_config_def)

section \<open>Registers\<close>

text \<open>A call for a register that is known with the same properties only fills its value.\<close>

lemma exec_call_known:
  assumes "rdb_GetByName (http_db ds) (fc_name f) = Some r" and "same_register r f"
  shows "exec_call cs ds f = Some (ds, [FillState (payload_val (http_Name ds) r (fc_value f))])"
  using assms by (simp add: exec_call_def addIgnoreRegister_def)

lemma http_add_lookup:
  assumes "rdb_GetByName (http_db ds) (reg_name r) = None"
  shows "rdb_GetByName (http_db (http_add ds r)) n =
    (if n = reg_name r then Some r else rdb_GetByName (http_db ds) n)"
  using assms by (simp add: http_add_def http_db_def RegisterDb_Add_def rdb_GetByName_def Let_def update_conv')

lemma getRegisterSort_some: "cs c = Some s \<Longrightarrow> getRegisterSort cs ds c \<noteq> None"
  by (simp add: getRegisterSort_def Let_def split: option.splits)

lemma exec_call_new:
  assumes "rdb_GetByName (http_db ds) (fc_name f) = None" and "cs (fc_category f) = Some s"
    and "\<And>srt. hd_registerFilter ds (call_register f srt)"
  shows "\<exists>ds1 srt acts. exec_call cs ds f = Some (ds1, acts) \<and> http_Name ds1 = http_Name ds \<and>
    hd_registerFilter ds1 = hd_registerFilter ds \<and>
    (\<forall>n. rdb_GetByName (http_db ds1) n =
       (if n = fc_name f then Some (call_register f srt) else rdb_GetByName (http_db ds) n)) \<and>
    acts = [AddRegisters [call_register f srt],
      FillState (payload_val (http_Name ds) (call_register f srt) (fc_value f))]"
proof -
  obtain ds1 srt where g: "getRegisterSort cs ds (fc_category f) = Some (ds1, srt)"
    using getRegisterSort_some [of cs "fc_category f" s ds] assms(2) by auto
  then have d: "hd_state ds1 = hd_state ds" "hd_registerFilter ds1 = hd_registerFilter ds"
    by (auto simp: getRegisterSort_def Let_def split: option.splits)
  have add: "addIgnoreRegister cs ds f =
      Some (http_add ds1 (call_register f srt), Some (call_register f srt), [AddRegisters [call_register f srt]])"
    using assms(1,3) by (simp add: addIgnoreRegister_def g d Let_def)
  have db: "http_db ds1 = http_db ds"
    by (simp add: http_db_def d)
  have name: "reg_name (call_register f srt) = fc_name f"
    by (simp add: call_register_def)
  show ?thesis
    using http_add_lookup [of ds1 "call_register f srt"] assms(1)
    by (intro exI [of _ "http_add ds1 (call_register f srt)"] exI [of _ srt])
      (simp add: exec_call_def add db name http_Name_def d http_add_def ds_Name_def)
qed

text \<open>A call for another name leaves a register as it is.\<close>

lemma exec_call_other:
  assumes "exec_call cs ds f = Some (ds1, acts)" and "fc_name f \<noteq> n"
  shows "rdb_GetByName (http_db ds1) n = rdb_GetByName (http_db ds) n"
proof -
  have add: "rdb_GetByName (http_db (http_add d (call_register f srt))) n = rdb_GetByName (http_db d) n" for d srt
    using AddStruct_other [of n "[call_register f srt]" "http_db d"] assms(2)
    by (simp add: http_add_def http_db_def RegisterDb_Add_def call_register_def del: AddStruct.simps)
  have g: "http_db d = http_db ds" if "getRegisterSort cs ds c = Some (d, srt)" for c d srt
    using that by (auto simp: getRegisterSort_def Let_def http_db_def split: option.splits)
  show ?thesis
    using assms(1) add g
    by (auto simp: exec_call_def addIgnoreRegister_def Let_def split: option.splits if_splits)
qed

lemma exec_calls_known:
  assumes "rdb_GetByName (http_db ds) n = Some r" and "list_all (\<lambda>f. fc_name f = n \<longrightarrow> same_register r f) fs"
    and "exec_calls cs ds fs = Some (ds1, acts)"
  shows "rdb_GetByName (http_db ds1) n = Some r"
  using assms
proof (induction fs arbitrary: ds acts)
  case (Cons f fs)
  from Cons.prems(3) obtain ds2 a a' where f: "exec_call cs ds f = Some (ds2, a)"
    and fs: "exec_calls cs ds2 fs = Some (ds1, a')"
    by (auto split: option.splits)
  have "rdb_GetByName (http_db ds2) n = Some r"
  proof (cases "fc_name f = n")
    case True
    with Cons.prems(1,2) have "exec_call cs ds f = Some (ds, [FillState (payload_val (http_Name ds) r (fc_value f))])"
      by (intro exec_call_known) simp_all
    with f Cons.prems(1) show ?thesis by simp
  next
    case False
    with exec_call_other [OF f False] Cons.prems(1) show ?thesis by simp
  qed
  with Cons.IH fs Cons.prems(2) show ?case by simp
qed simp

text \<open>
  A relay that is known keeps its register, and so whether it can be written, in every later
  poll with the same description, whatever the poll says about who controls the relay: only the
  value is updated.
\<close>

theorem teracom_relay_kept:
  assumes "rdb_GetByName (http_db ds) (''R'' @ itoa (int i)) = Some r"
    and "reg_category r = ''Relays''" and "reg_type r = EnumRegister" and "reg_unit r = ''''"
    and "reg_description r = tr_Description rel"
    and "exec_calls teracom_GetCategorySort ds (tera_relay_calls i rel) = Some (ds1, acts)"
  shows "rdb_GetByName (http_db ds1) (''R'' @ itoa (int i)) = Some r \<and>
    hd acts = FillState (EnumRegisterValue (http_Name ds) r (enum_index relay_enum (tr_Value rel)))"
proof
  let ?f = "hd (tera_relay (''R'' @ itoa (int i)) (tr_Description rel) (tr_Value rel) (tr_Control rel = ''0''))"
  obtain rest where calls: "tera_relay_calls i rel = ?f # rest"
      and rest: "list_all (\<lambda>f. fc_name f \<noteq> ''R'' @ itoa (int i)) rest"
    by (simp add: tera_relay_calls_def tera_relay_def tera_enum_def tera_text_def Let_def)
  have f: "fc_name ?f = ''R'' @ itoa (int i)" "same_register r ?f"
      "fc_value ?f = PEnum (enum_index relay_enum (tr_Value rel))"
    using assms(2-5) by (simp_all add: tera_relay_def tera_enum_def same_register_def)
  have "list_all (\<lambda>f. fc_name f = ''R'' @ itoa (int i) \<longrightarrow> same_register r f) (tera_relay_calls i rel)"
    using rest f(2) by (auto simp: calls list_all_iff)
  then show "rdb_GetByName (http_db ds1) (''R'' @ itoa (int i)) = Some r"
    using exec_calls_known [OF assms(1) _ assms(6)] by blast
  have "exec_call teracom_GetCategorySort ds ?f =
      Some (ds, [FillState (EnumRegisterValue (http_Name ds) r (enum_index relay_enum (tr_Value rel)))])"
    using exec_call_known [of ds ?f r] assms(1) f by simp
  then show "hd acts = FillState (EnumRegisterValue (http_Name ds) r (enum_index relay_enum (tr_Value rel)))"
    using assms(6) by (auto simp: calls split: option.splits)
qed

definition relay_status :: "string \<Rightarrow> teracomRelayStruct" where
  "relay_status control =
     \<lparr>tr_Description = ''Pump'', tr_Value = ''ON'', tr_Valuebin = ''1'', tr_PulseWidth = ''0'', tr_Control = control\<rparr>"

definition example_device :: http_device where
  "example_device = http_add (http_NewDevice example_config HttpTeracomKind) pump_register"

text \<open>The relay was announced as writable; now it is controlled by the device itself.\<close>

theorem teracom_relay_kept_witness:
  "map_option (\<lambda>(ds1, acts). map_option reg_writable (rdb_GetByName (http_db ds1) ''R2''))
     (exec_calls teracom_GetCategorySort example_device (tera_relay_calls 2 (relay_status ''1''))) = Some (Some True)"
proof -
  have R2: "''R'' @ itoa (int 2) = ''R2''"
    by (simp add: itoa_def nat_dec.simps digit_char_def numeral_nat)
  have known: "rdb_GetByName (http_db example_device) (''R'' @ itoa (int 2)) = Some pump_register"
    unfolding R2 example_device_def
    by (subst http_add_lookup) (simp_all add: pump_register_def http_NewDevice_def http_db_def NewState_db
        AvailabilityRegisterName_def)
  obtain ds1 acts where run: "exec_calls teracom_GetCategorySort example_device (tera_relay_calls 2 (relay_status ''1'')) = Some (ds1, acts)"
    using exec_calls_sorted [OF tera_relay_calls_sorted, of example_device 2 "relay_status ''1''"] by auto
  have "rdb_GetByName (http_db ds1) (''R'' @ itoa (int 2)) = Some pump_register"
    by (rule teracom_relay_kept [OF known _ _ _ _ run, THEN conjunct1])
      (simp_all add: pump_register_def relay_status_def)
  then show ?thesis
    by (simp only: run option.map prod.case R2) (simp add: pump_register_def)
qed

section \<open>Sort numbers\<close>

lemma exec_call_ignored:
  assumes "cs (fc_category f) = Some s" and "rdb_GetByName (http_db ds) (fc_name f) = None"
    and "\<And>srt. \<not> hd_registerFilter ds (call_register f srt)"
  shows "exec_call cs ds f = Some (ds\<lparr>hd_sort := AList.update (fc_category f)
     (case map_of (hd_sort ds) (fc_category f) of None \<Rightarrow> 1 | Some n \<Rightarrow> wrap_i64 (n + 1)) (hd_sort ds)\<rparr>, [])"
  using assms by (simp add: exec_call_def addIgnoreRegister_def getRegisterSort_def Let_def split: option.splits)

lemma ignored_calls:
  assumes "cs (fc_category f) = Some s" and "rdb_GetByName (http_db ds) (fc_name f) = None"
    and "\<And>srt. \<not> hd_registerFilter ds (call_register f srt)" and "map_of (hd_sort ds) (fc_category f) = None"
    and "in_i64 (int n)"
  shows "\<exists>ds1. exec_calls cs ds (replicate n f) = Some (ds1, []) \<and> hd_state ds1 = hd_state ds \<and>
    hd_registerFilter ds1 = hd_registerFilter ds \<and>
    map_of (hd_sort ds1) (fc_category f) = (if n = 0 then None else Some (int n))"
  using assms(5)
proof (induction n)
  case 0
  then show ?case using assms(4) by simp
next
  case (Suc n)
  have "in_i64 (int n)"
    using Suc.prems by (simp add: in_i64_def min_i64_def max_i64_def)
  with Suc.IH obtain ds1 where ds1: "exec_calls cs ds (replicate n f) = Some (ds1, [])"
      "hd_state ds1 = hd_state ds" "hd_registerFilter ds1 = hd_registerFilter ds"
      "map_of (hd_sort ds1) (fc_category f) = (if n = 0 then None else Some (int n))"
    by blast
  have snoc: "exec_calls cs d (xs @ [x]) =
      (case exec_calls cs d xs of None \<Rightarrow> None
       | Some (d1, a) \<Rightarrow> (case exec_call cs d1 x of None \<Rightarrow> None | Some (d2, a') \<Rightarrow> Some (d2, a @ a')))" for d xs x
    by (induction xs arbitrary: d) (auto split: option.splits)
  have db: "rdb_GetByName (http_db ds1) (fc_name f) = None"
    using assms(2) ds1(2) by (simp add: http_db_def)
  have w: "wrap_i64 (int n + 1) = int (Suc n)"
    using wrap_i64_id [OF Suc.prems] by (simp add: add.commute)
  then have cnt: "(case map_of (hd_sort ds1) (fc_category f) of None \<Rightarrow> 1 | Some n \<Rightarrow> wrap_i64 (n + 1)) = int (Suc n)"
    using ds1(4) w by (cases n) simp_all
  have "exec_call cs ds1 f = Some (ds1\<lparr>hd_sort := AList.update (fc_category f) (int (Suc n)) (hd_sort ds1)\<rparr>, [])"
    using exec_call_ignored [where cs = cs and f = f and ds = ds1, OF assms(1) db, unfolded ds1(3), OF assms(3)]
    unfolding cnt .
  then show ?case
    using ds1 snoc [of ds "replicate n f" f] by (simp add: replicate_append_same update_conv')
qed

lemma exec_calls_append:
  "exec_calls cs ds (xs @ ys) =
     (case exec_calls cs ds xs of None \<Rightarrow> None
      | Some (ds1, acts) \<Rightarrow>
          (case exec_calls cs ds1 ys of None \<Rightarrow> None | Some (ds2, acts') \<Rightarrow> Some (ds2, acts @ acts')))"
  by (induction xs arbitrary: ds) (auto split: option.splits)

text \<open>
  The sort numbers of a category, which start at a hundred times the category's number, also
  count every poll of a register that the filter ignores: a register first seen after n such
  polls gets the number n of its category, in the range of a later category once n reaches 100.
\<close>

theorem http_sort_drift:
  assumes "cs (fc_category f) = Some s" and "fc_category g = fc_category f"
    and "rdb_GetByName (http_db ds) (fc_name f) = None" and "rdb_GetByName (http_db ds) (fc_name g) = None"
    and "\<And>srt. \<not> hd_registerFilter ds (call_register f srt)" and "\<And>srt. hd_registerFilter ds (call_register g srt)"
    and "map_of (hd_sort ds) (fc_category f) = None"
    and "in_i64 (s * 100)" and "in_i64 (s * 100 + int n)" and "in_i64 (int n)"
  shows "\<exists>ds1 acts r. exec_calls cs ds (replicate n f @ [g]) = Some (ds1, acts) \<and>
    rdb_GetByName (http_db ds1) (fc_name g) = Some r \<and> reg_sort r = s * 100 + int n"
proof -
  obtain ds1 where ds1: "exec_calls cs ds (replicate n f) = Some (ds1, [])" "hd_state ds1 = hd_state ds"
      "hd_registerFilter ds1 = hd_registerFilter ds"
      "map_of (hd_sort ds1) (fc_category f) = (if n = 0 then None else Some (int n))"
    using ignored_calls [where cs = cs and ds = ds and f = f and n = n, OF assms(1,3,5,7,10)] by blast
  have db: "rdb_GetByName (http_db ds1) (fc_name g) = None"
    using assms(4) ds1(2) by (simp add: http_db_def)
  let ?r = "call_register g (s * 100 + int n)"
  obtain ds2 where ds2: "getRegisterSort cs ds1 (fc_category g) = Some (ds2, s * 100 + int n)"
      "hd_state ds2 = hd_state ds1" "hd_registerFilter ds2 = hd_registerFilter ds1"
    using ds1(4) wrap_i64_id [OF assms(8)] wrap_i64_id [OF assms(9)] unfolding getRegisterSort_def assms(2)
    by (auto simp: assms(1) split: if_splits)
  have "addIgnoreRegister cs ds1 g = Some (http_add ds2 ?r, Some ?r, [AddRegisters [?r]])"
    using db assms(6) by (simp add: addIgnoreRegister_def ds2 ds1(3) Let_def)
  then have "exec_calls cs ds (replicate n f @ [g]) =
      Some (http_add ds2 ?r, [AddRegisters [?r], FillState (payload_val (http_Name (http_add ds2 ?r)) ?r (fc_value g))])"
    unfolding exec_calls_append ds1(1) by (simp add: exec_call_def)
  moreover have "rdb_GetByName (http_db (http_add ds2 ?r)) (fc_name g) = Some ?r"
    using db ds2(2) by (subst http_add_lookup) (simp_all add: http_db_def call_register_def)
  moreover have "reg_sort ?r = s * 100 + int n"
    by (simp add: call_register_def)
  ultimately show ?thesis by blast
qed

text \<open>An energy meter whose category is skipped, and a register that is included by name.\<close>

definition drift_device :: http_device where
  "drift_device = http_NewDevice (example_config\<lparr>dc_Filter := (dc_Filter example_config)\<lparr>IncludeRegisters := [''NCurrent'']\<rparr>\<rparr>)
     HttpShellyEm3Kind"

theorem http_sort_drift_witness:
  "\<exists>ds1 acts r. exec_calls shelly_GetCategorySort drift_device
      (replicate 150 (hd (shelly_number ''Energy Meters'' ''Emeter1Pf'' ''P1 Power Factor'' '''' (F_Fin 1))) @
       [hd (shelly_number ''Energy Meters'' ''NCurrent'' ''Neutral Current'' ''A'' (F_Fin 0))]) = Some (ds1, acts) \<and>
    rdb_GetByName (http_db ds1)
      (fc_name (hd (shelly_number ''Energy Meters'' ''NCurrent'' ''Neutral Current'' ''A'' (F_Fin 0)))) = Some r \<and>
    reg_sort r = 1 * 100 + int 150"
  by (rule http_sort_drift)
    (simp_all add: shelly_number_def shelly_GetCategorySort_def drift_device_def http_NewDevice_def http_db_def
      NewState_db AvailabilityRegisterName_def RegisterFilter_iff example_config_def call_register_def
      in_i64_def min_i64_def max_i64_def)

end
