(* ===== verification/Typed_Values.thy ===== *)
theory Typed_Values
  imports Finder Genset_Device_Proofs Http_Proofs Mqtt_Mirror
begin

text \<open>
  The values the devices fill have the type their register declares, which the MQTT mirror, the
  telemetry and the delayed realtime mode rely on; and the one device whose values do not.
\<close>

section \<open>Actions that fill well-typed values\<close>

fun typed_action :: "device_action \<Rightarrow> bool" where
  "typed_action (FillState v) = well_typed v"
| "typed_action _ = True"

definition typed_fills :: "device_action list \<Rightarrow> bool" where
  "typed_fills acts \<longleftrightarrow> list_all typed_action acts"

lemma typed_fills_simps [simp]:
  "typed_fills []"
  "typed_fills (FillState v # acts) \<longleftrightarrow> well_typed v \<and> typed_fills acts"
  "typed_fills (FillCommand v # acts) \<longleftrightarrow> typed_fills acts"
  "typed_fills (AddRegisters rs # acts) \<longleftrightarrow> typed_fills acts"
  "typed_fills (xs @ ys) \<longleftrightarrow> typed_fills xs \<and> typed_fills ys"
  by (auto simp: typed_fills_def)

lemma typed_SetAvailable [simp]: "well_typed (SetAvailable (NewState cfg) b)"
  by (simp add: SetAvailable_NewState availabilityRegister_def)

section \<open>The relay board\<close>

fun typed_command :: "device_event \<Rightarrow> bool" where
  "typed_command (EvCommand (Some v)) = well_typed v"
| "typed_command _ = True"

lemma typed_poll_fills:
  "list_all (\<lambda>r. reg_type r = EnumRegister) rs \<Longrightarrow> typed_fills (fst (poll_fills nm state rs))"
  by (induction rs) (auto simp: case_prod_beta Let_def split: option.splits)

lemma typed_wave_execPoll:
  "list_all (\<lambda>r. reg_type r = EnumRegister) rs \<Longrightarrow> typed_fills (fst (snd (wave_execPoll crc wr c rs bus)))"
  using typed_poll_fills
  by (auto simp: wave_execPoll_def case_prod_beta Let_def split: sum.splits)

lemma typed_wave_execCommand: "well_typed v \<Longrightarrow> typed_fills (fst (wave_execCommand crc wr c v bus))"
  by (cases v) (auto simp: wave_execCommand_def case_prod_beta Let_def split: option.splits)

lemma typed_wave_loop:
  "list_all (\<lambda>r. reg_type r = EnumRegister) rs \<Longrightarrow> list_all typed_command evs \<Longrightarrow>
     typed_fills (fst (snd (wave_loop crc wr c rs evs bus)))"
proof (induction evs arbitrary: bus)
  case (Cons e evs)
  show ?case
  proof (cases e)
    case EvTick
    then show ?thesis
      using Cons typed_wave_execPoll [OF Cons.prems(1), of crc wr c bus]
      by (simp add: case_prod_beta Let_def split: poll_result.splits)
  next
    case (EvCommand w)
    then show ?thesis
      using Cons by (cases w) (simp_all add: case_prod_beta Let_def typed_wave_execCommand)
  qed simp
qed simp

lemma typed_wave_run:
  assumes "md_State c = NewState cfg" and "list_all typed_command evs"
  shows "typed_fills (fst (snd (runWaveshareRtuRelay8 crc wr c evs bus)))"
proof -
  let ?rs = "FilterRegisters (getWaveshareRtuRelay8Registers (md_Config c)) (dc_Filter (ds_config (md_State c)))"
  have rs: "list_all (\<lambda>r. reg_type r = EnumRegister) ?rs"
    by (auto simp: FilterRegisters_eq relay_registers relay_register_def list_all_iff Let_def)
  show ?thesis
    using typed_wave_execPoll [OF rs, of crc wr c] typed_wave_loop [OF rs assms(2), of crc wr c]
    by (simp add: runWaveshareRtuRelay8_def case_prod_beta Let_def assms(1) split: sum.splits poll_result.splits)
qed

section \<open>The meter\<close>

lemma typed_FinderReadRegister:
  "fst (FinderReadRegister crc wr c r bus) = Inr v \<Longrightarrow> well_typed v"
  by (auto simp: FinderReadRegister_def FinderReadFloatRegister_def FinderReadUInt16Register_def
      FinderReadEnumRegister_def FinderReadStringRegister_def FinderReadWith_def decode_float_def decode_uint16_def
      decode_enum_def decode_string_def case_prod_beta Let_def
      split: RegisterType.splits FinderRegisterType.splits sum.splits option.splits)

lemma typed_finder_execPoll: "typed_fills (fst (snd (finder_execPoll crc wr c reduced ctx n rs bus)))"
proof (induction rs arbitrary: n bus)
  case (Cons r rs)
  then show ?case
    using typed_FinderReadRegister [of crc wr c r bus]
    by (auto simp: case_prod_beta Let_def split: sum.splits)
qed simp

lemma typed_finder_loop: "typed_fills (fst (snd (finder_loop crc wr c rs k evs bus)))"
proof (induction evs arbitrary: k bus)
  case (Cons e evs)
  then show ?case
    using typed_finder_execPoll
    by (cases e) (auto simp: case_prod_beta Let_def split: option.splits)
qed simp

lemma typed_finder_run:
  "md_State c = NewState cfg \<Longrightarrow> typed_fills (fst (snd (runFinder7M38 crc wr c rl ctx evs bus)))"
  using typed_finder_execPoll typed_finder_loop
  by (auto simp: runFinder7M38_def case_prod_beta Let_def split: option.splits)

section \<open>The genset\<close>

lemmas genset_register_types =
  ArmSwitchRegister_def ArmSwitchRegisterRO_def CommandSwitchRegister_def CommandSwitchRegisterRO_def
  ResetSwitchRegister_def ResetSwitchRegisterRO_def IOAvailableRegister_def FireDetectedRegister_def
  EngineTempRegister_def AuxTemp0Register_def AuxTemp1Register_def OutputAvailableRegister_def
  U0Register_def U1Register_def U2Register_def L0Register_def L1Register_def L2Register_def FRegister_def
  StateRegister_def StateChangedRegister_def IgnitionRegister_def StarterRegister_def FanRegister_def
  PumpRegister_def LoadRegister_def TimeInStateRegister_def IoCheckRegister_def OutputCheckRegister_def
  NewOnOffRegister_def NewNumberRegister_def

fun typed_setter :: "setter \<Rightarrow> bool" where
  "typed_setter (EnumSetter r f) = (reg_type r = EnumRegister)"
| "typed_setter (NumberSetter r f) = (reg_type r = NumberRegister)"

lemma inpSetter_typed: "inpSetter nm = Some s \<Longrightarrow> typed_setter s"
proof -
  have "list_all (\<lambda>(k, s). typed_setter s) inpSetter_table"
    by (simp add: inpSetter_table_def genset_register_types)
  then show "inpSetter nm = Some s \<Longrightarrow> typed_setter s"
    unfolding inpSetter_def list_all_iff by (auto dest: map_of_SomeD)
qed

lemma run_setter_typed: "typed_setter s \<Longrightarrow> run_setter nm s v = Some (f, w) \<Longrightarrow> well_typed w"
  by (cases s; cases v) auto

lemma typed_publish_events: "typed_fills (publish_events ts nm st ces)"
proof -
  have "typed_fills (publish_event ts nm st e)" for e
    by (cases e) (simp_all add: on_state_update_def on_output_update_def genset_register_types)
  then show ?thesis
    by (induction ces) (simp_all add: publish_events_def)
qed

lemma typed_genset_change:
  assumes "list_all (\<lambda>s. typed_setter (gsub_setter s)) subs" and "genset_change nm subs ev = Some (ch, fills)"
  shows "typed_fills fills"
  using assms run_setter_typed
  by (fastforce simp: genset_change_def list_all_length split: genset_event.splits if_splits)

lemma typed_genset_loop:
  "list_all (\<lambda>s. typed_setter (gsub_setter s)) subs \<Longrightarrow> typed_fills (snd (snd (genset_loop ts nm subs evs c)))"
proof (induction evs arbitrary: c)
  case (Cons ev evs)
  then show ?case
    using typed_genset_change [OF Cons.prems, of nm ev]
    by (auto simp: case_prod_beta Let_def typed_publish_events split: option.splits)
qed simp

lemma those_all: "those xs = Some ys \<Longrightarrow> (\<And>y. Some y \<in> set xs \<Longrightarrow> P y) \<Longrightarrow> list_all P ys"
  by (induction xs arbitrary: ys) (auto split: option.splits)

lemma typed_genset_run:
  assumes "gs_State d = NewState cfg"
  shows "typed_fills (snd (genset_Run ts d evs))"
proof -
  have adds: "typed_fills (fst (genset_addToRegisterDb sp bindings))" for sp bindings
    by (simp add: genset_addToRegisterDb_def switch_register_def case_prod_beta Let_def)
  have inputs: "list_all (\<lambda>s. typed_setter (gsub_setter s)) ys" if "those (map bind_input bs) = Some ys" for bs ys
    using that by (rule those_all) (auto simp: bind_input_def map_option_case split: option.splits dest: inpSetter_typed)
  have commands: "list_all (\<lambda>s. typed_setter (gsub_setter s)) ys" if "those (map (bind_command nm) rs) = Some ys" for nm rs ys
    using that by (rule those_all) (auto simp: bind_command_def map_option_case split: option.splits dest: inpSetter_typed)
  show ?thesis
    using adds by (auto simp: genset_Run_def case_prod_beta Let_def assms typed_publish_events
        intro!: typed_genset_loop dest: inputs commands split: option.splits)
qed

section \<open>The web relays and the mirror\<close>

definition typed_call :: "field_call \<Rightarrow> bool" where
  "typed_call f \<longleftrightarrow>
     (case fc_value f of
        PNumber x \<Rightarrow> fc_type f = NumberRegister
      | PText s \<Rightarrow> fc_type f = TextRegister
      | PEnum i \<Rightarrow> fc_type f = EnumRegister)"

lemma well_typed_payload: "reg_type r = fc_type f \<Longrightarrow> well_typed (payload_val d r (fc_value f)) \<longleftrightarrow> typed_call f"
  by (auto simp: typed_call_def split: payload.splits)

lemma addIgnoreRegister_type:
  "addIgnoreRegister cs ds f = Some (ds1, Some r, acts) \<Longrightarrow> reg_type r = fc_type f \<and> typed_fills acts"
  by (auto simp: addIgnoreRegister_def same_register_def call_register_def Let_def
      split: option.splits if_splits)

lemma addIgnoreRegister_none:
  "addIgnoreRegister cs ds f = Some (ds1, None, acts) \<Longrightarrow> acts = []"
  by (auto simp: addIgnoreRegister_def Let_def split: option.splits if_splits)

text \<open>The values a call fills are well typed exactly if the call is.\<close>

lemma exec_call_typed:
  assumes "exec_call cs ds f = Some (ds1, acts)" and "FillState v \<in> set acts"
  shows "well_typed v \<longleftrightarrow> typed_call f"
proof (cases "addIgnoreRegister cs ds f")
  case (Some p)
  obtain d r a where p: "p = (d, r, a)" using prod_cases3 by blast
  show ?thesis
  proof (cases r)
    case (Some r')
    with \<open>addIgnoreRegister cs ds f = Some p\<close> p have t: "reg_type r' = fc_type f" and a: "typed_fills a"
      by (auto dest: addIgnoreRegister_type)
    have "FillState w \<notin> set a" for w
      using \<open>addIgnoreRegister cs ds f = Some p\<close> p
      by (auto simp: addIgnoreRegister_def Let_def split: option.splits if_splits)
    then show ?thesis
      using assms \<open>addIgnoreRegister cs ds f = Some p\<close> p Some well_typed_payload [OF t]
      by (auto simp: exec_call_def)
  next
    case None
    with assms \<open>addIgnoreRegister cs ds f = Some p\<close> p show ?thesis
      by (auto simp: exec_call_def dest: addIgnoreRegister_none)
  qed
qed (use assms in \<open>simp add: exec_call_def\<close>)

lemma typed_fills_iff: "typed_fills acts \<longleftrightarrow> (\<forall>v. FillState v \<in> set acts \<longrightarrow> well_typed v)"
proof (induction acts)
  case (Cons a acts)
  then show ?case by (cases a) auto
qed simp

lemma exec_calls_typed:
  "list_all typed_call fs \<Longrightarrow> exec_calls cs ds fs = Some (ds1, acts) \<Longrightarrow> typed_fills acts"
proof (induction fs arbitrary: ds acts)
  case (Cons f fs)
  then obtain ds2 a a' where "exec_call cs ds f = Some (ds2, a)" and "exec_calls cs ds2 fs = Some (ds1, a')"
    and "acts = a @ a'"
    by (auto split: option.splits)
  with Cons exec_call_typed [of cs ds f ds2 a] show ?case
    by (auto simp: typed_fills_iff [of a])
qed simp

lemma tera_typed:
  "list_all typed_call (tera_text c n d v)" "list_all typed_call (tera_number c n d u v)"
  "list_all typed_call (tera_enum c n d e v w)" "list_all typed_call (tera_alarm c n d v)"
  "list_all typed_call (tera_relay n d v w)"
  by (simp_all add: tera_text_def tera_number_def tera_enum_def tera_alarm_def tera_relay_def typed_call_def
      split: option.splits)

lemma teracom_calls_typed: "list_all typed_call (teracom_extractRegistersAndValues m)"
  by (simp add: teracom_extractRegistersAndValues_def tera_general_def tera_sensor_def tera_item_def
      tera_analog_def tera_digital_def tera_relay_calls_def Let_def tera_typed)

lemma typed_http_poll:
  "http_poll (TeracomDevice u) ds resp = HttpOk (ds1, acts) \<Longrightarrow> typed_fills acts"
  by (auto simp: http_poll_def TeracomDevice_def split: http_response.splits option.splits if_splits
      intro: exec_calls_typed [OF teracom_calls_typed])

lemma typed_command_calls:
  "teracom_CommandValueRequest v = HttpOk (request, fs) \<Longrightarrow> list_all typed_call fs"
  by (auto simp: teracom_CommandValueRequest_def Let_def tera_typed split: option.splits if_splits val.splits)

lemma typed_http_command:
  assumes "http_execCommand (TeracomDevice u) ds v resp = Some (ds1, acts)"
  shows "typed_fills acts"
proof (cases "teracom_CommandValueRequest v")
  case (HttpOk p)
  then obtain request fs where p: "teracom_CommandValueRequest v = HttpOk (request, fs)" by (cases p) auto
  show ?thesis
    using assms exec_calls_typed [OF typed_command_calls [OF p]]
    by (auto simp: http_execCommand_def TeracomDevice_def p Let_def split: http_response.splits option.splits if_splits)
qed (use assms in \<open>auto simp: http_execCommand_def TeracomDevice_def Let_def\<close>)

lemma typed_http_SetAvailable:
  "http_SetAvailable ds = http_SetAvailable (http_NewDevice cfg k) \<Longrightarrow> typed_fills [http_SetAvailable ds b]"
  by (simp add: http_SetAvailable_def http_NewDevice_def)

lemma typed_http_loop:
  "http_SetAvailable ds = http_SetAvailable (http_NewDevice cfg k) \<Longrightarrow>
     typed_fills (snd (snd (http_loop (TeracomDevice u) ds es)))"
proof (induction es arbitrary: ds)
  case (Cons e es)
  note avail = typed_http_SetAvailable [OF Cons.prems]
  show ?case
  proof (cases e)
    case HttpDone
    then show ?thesis using avail by simp
  next
    case (HttpTick resp)
    then show ?thesis
      using avail Cons typed_http_poll http_SetAvailable_poll
      by (auto simp: case_prod_beta Let_def split: http_result.splits)
  next
    case (HttpCommand w resp)
    then show ?thesis
      using avail Cons typed_http_command http_SetAvailable_command
      by (cases w) (auto simp: case_prod_beta Let_def split: option.splits)
  qed
qed simp

lemma typed_http_run: "typed_fills (snd (snd (http_Run ok (TeracomDevice u) (http_NewDevice cfg k) first es)))"
proof (cases "http_poll (TeracomDevice u) (http_NewDevice cfg k) first")
  case (HttpOk p)
  obtain ds1 acts where p: "p = (ds1, acts)" by force
  note a = http_SetAvailable_poll [OF HttpOk [unfolded p]]
  show ?thesis
    using typed_http_poll [OF HttpOk [unfolded p]] typed_http_SetAvailable [OF a] typed_http_loop [OF a, of u es]
    by (simp add: http_Run_def HttpOk p case_prod_beta Let_def del: typed_fills_simps(2))
      (metis append_Cons append_Nil typed_fills_simps(5))
qed (simp_all add: http_Run_def)

lemma typed_realtime_handler: "typed_fills (realtime_handler u tm c topic payload)"
  by (auto simp: realtime_handler_def split: sum.splits option.splits dest: message_value_typed)

lemma typed_telemetry_handler: "typed_fills (telemetry_handler u it c payload)"
proof -
  have "telemetry_value d m r = Some v \<Longrightarrow> well_typed v" for d m r v
    by (auto simp: telemetry_value_def split: RegisterType.splits)
  then show ?thesis
    by (auto simp: typed_fills_iff telemetry_handler_def set_map_filter_Some split: option.splits)
qed

section \<open>Properties\<close>

text \<open>
  C36: Every value filled by a relay board, a meter, a genset, a Teracom device and a mirror has the
  type its register declares, as long as the commands sent to the relay board do.
\<close>

theorem fills_well_typed:
  assumes "md_State wave = NewState wcfg" and "list_all typed_command wevs"
    and "md_State meter = NewState mcfg" and "gs_State genset = NewState gcfg"
  shows "typed_fills (fst (snd (runWaveshareRtuRelay8 crc wr wave wevs wbus))) \<and>
    typed_fills (fst (snd (runFinder7M38 crc mr meter table ctx mevs mbus))) \<and>
    typed_fills (snd (genset_Run ts genset gevs)) \<and>
    typed_fills (snd (snd (http_Run ok (TeracomDevice json) (http_NewDevice hcfg kind) first hevs))) \<and>
    typed_fills (realtime_handler rjson tm mirror topic payload) \<and>
    typed_fills (telemetry_handler tjson it mirror payload)"
  using typed_wave_run [OF assms(1,2)] typed_finder_run [OF assms(3)] typed_genset_run [OF assms(4)]
  by (intro conjI typed_http_run typed_realtime_handler typed_telemetry_handler)

theorem fills_well_typed_witness:
  "typed_fills (snd (genset_Run (\<lambda>t. '''') (demo_gs []) [demo_reset True, demo_reset False]))"
proof -
  have w: "md_State demo_device = NewState (ds_config (md_State demo_device))"
    and g: "gs_State (demo_gs []) = NewState (ds_config (gs_State (demo_gs [])))"
    by (simp_all add: demo_device_def demo_gs_def genset_NewDevice_def)
  have c: "list_all typed_command [EvTick, EvCommand (Some (EnumRegisterValue ''board'' pump_register 1))]"
    by (simp add: pump_register_def)
  note all = fills_well_typed [OF w c w g, where gevs = "[demo_reset True, demo_reset False]" and ts = "\<lambda>t. ''''"]
  show ?thesis by (rule all [THEN conjunct2, THEN conjunct2, THEN conjunct1])
qed

text \<open>The values of a list of calls are those of its calls.\<close>

lemma exec_call_fill:
  assumes "exec_call cs ds f = Some (ds1, acts)" and "FillState v \<in> set acts"
  obtains d r where "v = payload_val d r (fc_value f)" and "reg_type r = fc_type f"
proof (cases "addIgnoreRegister cs ds f")
  case (Some p)
  obtain d2 r2 a where p: "p = (d2, r2, a)" using prod_cases3 by blast
  with Some have run: "addIgnoreRegister cs ds f = Some (d2, r2, a)" by simp
  then have a: "FillState v \<notin> set a"
    by (auto simp: addIgnoreRegister_def Let_def split: option.splits if_splits)
  show ?thesis
  proof (cases r2)
    case (Some r')
    with a assms run have "v = payload_val (http_Name d2) r' (fc_value f)"
      by (auto simp: exec_call_def)
    moreover have "reg_type r' = fc_type f"
      using addIgnoreRegister_type [OF run [unfolded Some]] by simp
    ultimately show ?thesis by (rule that)
  qed (use a assms run in \<open>simp add: exec_call_def\<close>)
qed (use assms in \<open>simp add: exec_call_def\<close>)

lemma exec_calls_fill:
  "exec_calls cs ds fs = Some (ds1, acts) \<Longrightarrow> FillState v \<in> set acts \<Longrightarrow>
     \<exists>f \<in> set fs. \<exists>d r. v = payload_val d r (fc_value f) \<and> reg_type r = fc_type f"
proof (induction fs arbitrary: ds acts)
  case (Cons f fs)
  then obtain ds2 a a' where a: "exec_call cs ds f = Some (ds2, a)" and a': "exec_calls cs ds2 fs = Some (ds1, a')"
    and acts: "acts = a @ a'"
    by (auto split: option.splits)
  show ?case
  proof (cases "FillState v \<in> set a")
    case True
    then show ?thesis using exec_call_fill [OF a] by (metis list.set_intros(1))
  next
    case False
    with Cons.prems(2) acts have "FillState v \<in> set a'" by simp
    from Cons.IH [OF a' this] show ?thesis by auto
  qed
qed simp

text \<open>A call of the energy meter fills a number, a text, or an enum of a number register.\<close>

definition shelly_call :: "field_call \<Rightarrow> bool" where
  "shelly_call f \<longleftrightarrow>
     (case fc_value f of PEnum i \<Rightarrow> fc_type f = NumberRegister | _ \<Rightarrow> typed_call f)"

lemma shelly_helper_calls:
  "list_all shelly_call (shelly_text c n d s)" "list_all shelly_call (shelly_number c n d un x)"
  "list_all shelly_call (shelly_boolean c n d b)"
  by (simp_all add: shelly_text_def shelly_number_def shelly_boolean_def shelly_call_def typed_call_def)

lemma shelly_indexed: "(\<And>i x. list_all P (f i x)) \<Longrightarrow> list_all P (indexed n f xs)"
  by (induction xs arbitrary: n) simp_all

lemma shelly_calls: "list_all shelly_call (shelly_extractRegistersAndValues m)"
  by (simp add: shelly_extractRegistersAndValues_def shelly_emeter_calls_def shelly_relay_calls_def Let_def
      shelly_helper_calls shelly_indexed)

fun is_enum_value :: "val \<Rightarrow> bool" where
  "is_enum_value (EnumRegisterValue _ _ _) = True"
| "is_enum_value _ = False"

lemma shelly_fills:
  assumes "http_poll (ShellyEm3Device u) ds resp = HttpOk (ds1, acts)" and "FillState v \<in> set acts"
  shows "if is_enum_value v then reg_type (val_reg v) = NumberRegister else well_typed v"
proof -
  obtain m where "exec_calls shelly_GetCategorySort ds (shelly_extractRegistersAndValues m) = Some (ds1, acts)"
    using assms(1) by (auto simp: http_poll_def ShellyEm3Device_def split: http_response.splits option.splits if_splits)
  then obtain f d r where f: "f \<in> set (shelly_extractRegistersAndValues m)"
    and v: "v = payload_val d r (fc_value f)" "reg_type r = fc_type f"
    using exec_calls_fill assms(2) by blast
  have "shelly_call f"
    using f shelly_calls [of m] by (simp add: list_all_iff)
  with v show ?thesis
    by (auto simp: shelly_call_def typed_call_def split: payload.splits)
qed

text \<open>
  The booleans of the energy meter are enum values of registers announced as number registers,
  so a mirror of the device that received their registers as announced drops every one of them
  when it comes in over the realtime topic, while it fills each of the numbers and texts.
\<close>

theorem shelly_booleans_not_mirrored:
  assumes "http_poll (ShellyEm3Device json) ds resp = HttpOk (ds1, acts)" and "FillState v \<in> set acts"
    and "rdb_GetByName (ds_registerDb (md_state c)) (val_name v) = Some r" and "reg_type r = reg_type (val_reg v)"
    and "ParseTopic tm topic = Inr (val_name v)" and "payload \<noteq> ''''"
    and "unmarshal payload = Some (convertValueToRealtimeMessage v)"
  shows "realtime_handler unmarshal tm c topic payload =
    (if is_enum_value v then [] else [FillState (readdress (mqtt_Name c) r v)])"
proof (cases "is_enum_value v")
  case True
  then have "message_value (mqtt_Name c) r (convertValueToRealtimeMessage v) = None"
    using shelly_fills [OF assms(1,2)] assms(4) by (cases v) (simp_all add: message_value_def empty_message_def)
  with True assms show ?thesis by (simp add: realtime_handler_def)
next
  case False
  then have "message_value (mqtt_Name c) r (convertValueToRealtimeMessage v) = Some (readdress (mqtt_Name c) r v)"
    using shelly_fills [OF assms(1,2)] assms(4) by (intro message_value_convert) simp_all
  with False assms show ?thesis by (cases payload) (simp_all add: realtime_handler_def)
qed

definition example_status :: ShellyEm3StatusStruct where
  "example_status =
     \<lparr>sh_WifiSta = \<lparr>ws_Connected = True, ws_Ssid = '''', ws_Ip = '''', ws_Rssi = 0\<rparr>, sh_CloudEnabled = False,
      sh_CloudConnected = False, sh_MqttConnected = False, sh_Time = '''', sh_Serial = 0, sh_HasUpdate = False,
      sh_Mac = '''', sh_CfgChangedCnt = 0, sh_Relays = [], sh_Emeters = [], sh_TotalPower = F_NaN,
      sh_EmeterN = \<lparr>en_Current = F_NaN, en_Ixsum = F_NaN, en_Mismatch = False, en_IsValid = True\<rparr>,
      sh_Uptime = 0\<rparr>"

fun is_flag :: "device_action \<Rightarrow> bool" where
  "is_flag (FillState v) \<longleftrightarrow> is_enum_value v \<and> val_name v = ''WifiConnected''"
| "is_flag _ \<longleftrightarrow> False"

definition mirror_knowing :: "register \<Rightarrow> mqtt_device" where
  "mirror_knowing r = example_mirror\<lparr>md_state := (md_state example_mirror)
     \<lparr>ds_registerDb := NewRegisterDb\<lparr>rdb_registers := [(reg_name r, r)]\<rparr>\<rparr>\<rparr>"

lemma example_poll:
  "case http_poll (ShellyEm3Device (\<lambda>b. Some example_status)) (http_NewDevice example_config HttpShellyEm3Kind)
      (Response 200 (Some ''{}'')) of HttpOk (ds1, acts) \<Rightarrow> list_ex is_flag acts | _ \<Rightarrow> False"
  by code_simp

theorem shelly_booleans_not_mirrored_witness:
  "\<exists>ds1 acts v. http_poll (ShellyEm3Device (\<lambda>b. Some example_status)) (http_NewDevice example_config HttpShellyEm3Kind)
      (Response 200 (Some ''{}'')) = HttpOk (ds1, acts) \<and> FillState v \<in> set acts \<and> is_enum_value v \<and>
    realtime_handler (\<lambda>p. Some (convertValueToRealtimeMessage v)) \<lparr>tm_m = Some (map Lit ''x/'' @ Cap # map Lit '''')\<rparr>
      (mirror_knowing (val_reg v)) (''x/'' @ val_name v) ''{}'' = []"
proof -
  obtain ds1 acts where poll: "http_poll (ShellyEm3Device (\<lambda>b. Some example_status))
      (http_NewDevice example_config HttpShellyEm3Kind) (Response 200 (Some ''{}'')) = HttpOk (ds1, acts)"
    and "list_ex is_flag acts"
    using example_poll by (auto split: http_result.splits)
  then obtain a where "a \<in> set acts" and "is_flag a"
    by (auto simp: list_ex_iff)
  moreover obtain v where a: "a = FillState v"
    using \<open>is_flag a\<close> by (cases a) auto
  ultimately have v: "FillState v \<in> set acts" "is_enum_value v" "val_name v = ''WifiConnected''"
    by simp_all
  have "rdb_GetByName (ds_registerDb (md_state (mirror_knowing (val_reg v)))) (val_name v) = Some (val_reg v)"
    by (simp add: mirror_knowing_def rdb_GetByName_def val_name_def)
  moreover have "ParseTopic \<lparr>tm_m = Some (map Lit ''x/'' @ Cap # map Lit '''')\<rparr> (''x/'' @ val_name v) = Inr (val_name v)"
    unfolding ParseTopic_created using v(3) by simp
  ultimately show ?thesis
    using shelly_booleans_not_mirrored [OF poll v(1), where payload = "''{}''" and topic = "''x/'' @ val_name v"
        and unmarshal = "\<lambda>p. Some (convertValueToRealtimeMessage v)" and c = "mirror_knowing (val_reg v)"
        and tm = "\<lparr>tm_m = Some (map Lit ''x/'' @ Cap # map Lit '''')\<rparr>" and r = "val_reg v"] poll v
    by (intro exI [of _ ds1] exI [of _ acts] exI [of _ v] conjI) simp_all
qed

end
