(* ===== verification/Gpio_Device.thy ===== *)
theory Gpio_Device
  imports Config_Devices
begin

text \<open>
  src/gpioDevice: a device that reads and writes the lines of a GPIO chip. The chip belongs to a
  third-party package: what it answers is an argument of the definitions (the line a pin's name
  stands for, the outcome of each request, the level of each line), what the device asks of it is
  recorded as a list of operations, in order with what the device fills.
\<close>

section \<open>Registers\<close>

record GpioRegister =
  gr_reg :: register
  gr_pin :: string
  gr_offset :: int

definition pinToRegister :: "(string \<Rightarrow> int option) \<Rightarrow> PinConfig \<Rightarrow> string \<Rightarrow> int \<Rightarrow> bool \<Rightarrow> GpioRegister option" where
  \<comment> \<open>\<open>None\<close>: \<open>ErrRegisterNotFound\<close>; the first argument is the chip's \<open>FindLine\<close>\<close>
  "pinToRegister findLine b category srt writable =
     (case findLine (pin_pin b) of
        None \<Rightarrow> None
      | Some offset \<Rightarrow>
          Some \<lparr>gr_reg = NewRegisterStruct category (pin_name b) (pin_description b) EnumRegister
                  (Some [(0, pin_lowLabel b), (1, pin_highLabel b)]) '''' srt writable,
                gr_pin = pin_pin b, gr_offset = offset\<rparr>)"

fun pins_from ::
  "(string \<Rightarrow> int option) \<Rightarrow> string \<Rightarrow> int \<Rightarrow> bool \<Rightarrow> PinConfig list \<Rightarrow> (string, GpioRegister) gomap \<Rightarrow>
     (string, GpioRegister) gomap option" where
  \<comment> \<open>the loop of \<open>pinToRegisterMap\<close>\<close>
  "pins_from findLine category srt writable [] regs = Some regs"
| "pins_from findLine category srt writable (b # bs) regs =
     (case pinToRegister findLine b category srt writable of
        None \<Rightarrow> None
      | Some r \<Rightarrow>
          pins_from findLine category (wrap_i64 (srt + 1)) writable bs (AList.update (pin_name b) r regs))"

definition pinToRegisterMap ::
  "(string \<Rightarrow> int option) \<Rightarrow> PinConfig list \<Rightarrow> string \<Rightarrow> int \<Rightarrow> bool \<Rightarrow> (string, GpioRegister) gomap option" where
  "pinToRegisterMap findLine bindings category srt writable =
     pins_from findLine category srt writable bindings []"

definition isValidValue :: "int \<Rightarrow> bool" where
  "isValidValue v \<longleftrightarrow> v = 0 \<or> v = 1"

section \<open>The device\<close>

record gpio_device =
  go_State :: device_state
  go_Config :: GpioDeviceConfig

definition gpio_Name :: "gpio_device \<Rightarrow> string" where
  "gpio_Name d = ds_Name (go_State d)"

definition gpio_Model :: string where
  "gpio_Model = ''Gpio Device''"

definition gpio_NewDevice :: "device_config \<Rightarrow> GpioDeviceConfig \<Rightarrow> gpio_device" where
  "gpio_NewDevice deviceConfig gpioConfig = \<lparr>go_State = NewState deviceConfig, go_Config = gpioConfig\<rparr>"

text \<open>What the device asks of the chip. The options of the third-party package have its names.\<close>

datatype line_option =
    WithBothEdges
  | WithEventHandler
  | WithDebounce duration
  | WithBiasDisabled
  | WithPullDown
  | WithPullUp
  | AsOutputs "int list"
  | AsOpenDrain
  | AsOpenSource
  | AsPushPull

datatype chip_op =
    RequestLines "int list" "line_option list" bool \<comment> \<open>whether it succeeds, as for the next two\<close>
  | Reconfigure "line_option list" bool
  | SetLine int int bool
  | CloseLines
  | CloseChip

datatype gpio_action = Op chip_op | Act device_action

text \<open>
  The outcome of requesting lines and reading their levels. The levels are those of the lines
  when they are read, by offset.
\<close>

datatype lines_result = RequestFailed | ValuesFailed | LineValues "int \<Rightarrow> int"

text \<open>
  The first valid option of the sorted options without repetitions, where the loop is left.
\<close>

definition chosen_option :: "(string \<times> line_option) list \<Rightarrow> string list \<Rightarrow> line_option list" where
  "chosen_option known opts =
     (case List.map_filter (map_of known) (remdups_adj (sort opts)) of [] \<Rightarrow> [] | opt # _ \<Rightarrow> [opt])"

definition input_options :: "(string \<times> line_option) list" where
  "input_options = [(''WithBiasDisabled'', WithBiasDisabled), (''WithPullDown'', WithPullDown),
     (''WithPullUp'', WithPullUp)]"

definition output_options :: "(string \<times> line_option) list" where
  "output_options = [(''AsOpenDrain'', AsOpenDrain), (''AsOpenSource'', AsOpenSource),
     (''AsPushPull'', AsPushPull)]"

definition initial_fills :: "string \<Rightarrow> (int \<Rightarrow> int) \<Rightarrow> GpioRegister list \<Rightarrow> gpio_action list" where
  "initial_fills nm level regList =
     map (\<lambda>r. Act (FillState (EnumRegisterValue nm (gr_reg r) (level (gr_offset r)))))
       (filter (\<lambda>r. isValidValue (level (gr_offset r))) regList)"

text \<open>
  Whether the setup of the inputs succeeded, in which case the lines are still open. The list is
  that of the map's values in the order of the iteration; \<open>edges\<close> is what the event handler fills
  meanwhile, in its own goroutine, so that \<open>mix\<close> decides in which order the two reach the storage.
\<close>

definition setupInputs ::
  "gpio_device \<Rightarrow> GpioRegister list \<Rightarrow> lines_result \<Rightarrow> gpio_action list \<Rightarrow>
     (gpio_action list \<Rightarrow> gpio_action list \<Rightarrow> gpio_action list) \<Rightarrow> bool \<times> gpio_action list" where
  "setupInputs d regList res edges mix =
     (let cfg = go_Config d;
          opts = [WithBothEdges, WithEventHandler] @
            (if gd_inputDebounce cfg > 0 then [WithDebounce (gd_inputDebounce cfg)] else []) @
            chosen_option input_options (gd_inputOptions cfg);
          request = (\<lambda>ok. Op (RequestLines (map gr_offset regList) opts ok))
      in case res of
           RequestFailed \<Rightarrow> (False, [request False])
         | ValuesFailed \<Rightarrow> (False, request True # edges @ [Op CloseLines])
         | LineValues level \<Rightarrow> (True, request True # mix (initial_fills (gpio_Name d) level regList) edges))"

definition setupOutputs ::
  "gpio_device \<Rightarrow> GpioRegister list \<Rightarrow> lines_result \<Rightarrow> bool \<Rightarrow> bool \<times> gpio_action list" where
  \<comment> \<open>the last argument: whether the reconfiguration succeeds\<close>
  "setupOutputs d regList res reconfigureOk =
     (let request = (\<lambda>ok. Op (RequestLines (map gr_offset regList) [] ok))
      in case res of
           RequestFailed \<Rightarrow> (False, [request False])
         | ValuesFailed \<Rightarrow> (False, [request True, Op CloseLines])
         | LineValues level \<Rightarrow>
             (reconfigureOk,
              request True # initial_fills (gpio_Name d) level regList @
              [Op (Reconfigure (AsOutputs (map (\<lambda>r. level (gr_offset r)) regList) #
                     chosen_option output_options (gd_outputOptions (go_Config d))) reconfigureOk),
               Op CloseLines]))"

text \<open>
  The event handler runs in the goroutine of the package; a later register with the same
  offset replaces an earlier one in its map.
\<close>

definition eventHandler :: "gpio_device \<Rightarrow> GpioRegister list \<Rightarrow> int \<Rightarrow> bool \<Rightarrow> device_action list" where
  "eventHandler d regList offset rising =
     (let offsetToRegMap = foldl (\<lambda>m r. AList.update (gr_offset r) r m) [] regList
      in case map_of offsetToRegMap offset of
           None \<Rightarrow> []
         | Some reg \<Rightarrow> [FillState (EnumRegisterValue (gpio_Name d) (gr_reg reg) (if rising then 1 else 0))])"

datatype command_result = LineFailed | SetFailed | SetDone

definition gpio_execCommand ::
  "gpio_device \<Rightarrow> (string, GpioRegister) gomap \<Rightarrow> val \<Rightarrow> command_result \<Rightarrow> gpio_action list" where
  "gpio_execCommand d oupRegisters v res =
     (case map_of oupRegisters (val_name v) of
        None \<Rightarrow> []
      | Some reg \<Rightarrow>
          (case v of
             EnumRegisterValue dv r idx \<Rightarrow>
               if \<not> isValidValue idx then []
               else (let request = (\<lambda>ok. Op (RequestLines [gr_offset reg] [AsOutputs [0]] ok));
                         set_level = (\<lambda>ok. Op (SetLine (gr_offset reg) idx ok))
                     in case res of
                          LineFailed \<Rightarrow> [request False]
                        | SetFailed \<Rightarrow> [request True, set_level False, Op CloseLines]
                        | SetDone \<Rightarrow>
                            [request True, set_level True,
                             Act (FillState (EnumRegisterValue (gpio_Name d) r idx)),
                             Act (FillCommand (NullRegisterValue (gpio_Name d) r)), Op CloseLines])
           | _ \<Rightarrow> []))"

text \<open>
  What happens while the device runs: edges, reported to the handler while the input lines are
  open; commands; and the cancelled context. The channel of the command subscription is closed
  then, and a closed channel gives the nil value.
\<close>

datatype gpio_event = GpioEdge int bool | GpioCommand "val option" command_result | GpioDone

datatype gpio_status = GpioRunning | GpioReturned bool bool | GpioPanicked
  \<comment> \<open>returned: with an error, and immediately\<close>

fun gpio_loop ::
  "gpio_device \<Rightarrow> GpioRegister list \<Rightarrow> (string, GpioRegister) gomap \<Rightarrow> gpio_event list \<Rightarrow>
     gpio_status \<times> gpio_action list" where
  "gpio_loop d inp oup [] = (GpioRunning, [])"
| "gpio_loop d inp oup (GpioEdge offset rising # es) =
     (let (st, acts) = gpio_loop d inp oup es in (st, map Act (eventHandler d inp offset rising) @ acts))"
| "gpio_loop d inp oup (GpioCommand v res # es) =
     (if oup = [] then gpio_loop d inp oup es
      else case v of
             None \<Rightarrow> (GpioPanicked, [])
           | Some w \<Rightarrow>
               (let (st, acts) = gpio_loop d inp oup es in (st, gpio_execCommand d oup w res @ acts)))"
| "gpio_loop d inp oup (GpioDone # es) = (GpioReturned False False, [])"

definition gpio_addToRegisterDb :: "((string \<times> GpioRegister) list \<Rightarrow> (string \<times> GpioRegister) list) \<Rightarrow>
    (string, GpioRegister) gomap \<Rightarrow> gpio_action" where
  "gpio_addToRegisterDb it registers = Act (AddRegisters (map (gr_reg \<circ> snd) (it registers)))"

text \<open>What the run depends on: the chip, and what its requests return.\<close>

record gpio_env =
  ge_chip :: bool \<comment> \<open>the chip is initialised\<close>
  ge_findLine :: "string \<Rightarrow> int option"
  ge_order :: "(string \<times> GpioRegister) list \<Rightarrow> (string \<times> GpioRegister) list"
  ge_inputs :: lines_result
  ge_early :: "(int \<times> bool) list" \<comment> \<open>the edges handled while the inputs are set up\<close>
  ge_mix :: "gpio_action list \<Rightarrow> gpio_action list \<Rightarrow> gpio_action list"
  ge_outputs :: lines_result
  ge_reconfigure :: bool

definition gpio_Run :: "gpio_env \<Rightarrow> gpio_device \<Rightarrow> gpio_event list \<Rightarrow> gpio_status \<times> gpio_action list" where
  "gpio_Run env d es =
     (if \<not> ge_chip env then (GpioReturned True True, [])
      else let failed = (\<lambda>acts. (GpioReturned True True, acts @ [Op CloseChip]));
               it = ge_order env
           in case pinToRegisterMap (ge_findLine env) (gd_inputs (go_Config d)) ''Inputs'' 0 False of
                None \<Rightarrow> failed []
              | Some inp \<Rightarrow>
          (case pinToRegisterMap (ge_findLine env) (gd_outputs (go_Config d)) ''Outputs'' 100 True of
                None \<Rightarrow> failed []
              | Some oup \<Rightarrow>
          (let added = [gpio_addToRegisterDb it inp, gpio_addToRegisterDb it oup];
               inpList = map snd (it inp);
               oupList = map snd (it oup);
               edges = concat (map (\<lambda>(o', rising). map Act (eventHandler d inpList o' rising)) (ge_early env));
               (inpOk, inpActs) =
                 (if inp = [] then (True, []) else setupInputs d inpList (ge_inputs env) edges (ge_mix env));
               closed = (if inp = [] then [] else [Op CloseLines])
           in if \<not> inpOk then failed (added @ inpActs)
              else let (oupOk, oupActs) =
                         (if oup = [] then (True, []) else setupOutputs d oupList (ge_outputs env) (ge_reconfigure env))
                   in if \<not> oupOk then failed (added @ inpActs @ oupActs @ closed)
                      else let (st, acts) = gpio_loop d inpList oup es;
                               avail = (\<lambda>b. Act (FillState (SetAvailable (go_State d) b)))
                           in (st, added @ inpActs @ oupActs @ [avail True] @ acts @
                                 (if st = GpioRunning then [] else [avail False] @ closed @ [Op CloseChip])))))"

end
