(* ===== verification/Gpio_Proofs.thy ===== *)
theory Gpio_Proofs
  imports Gpio_Device
begin

text \<open>
  The GPIO device closes what it opens, announces its availability, and drives each output line
  with the level it had and the levels commanded, with a drop to zero before each.
\<close>

section \<open>Operations on the chip and actions on the storages\<close>

definition chip_ops :: "gpio_action list \<Rightarrow> chip_op list" where
  "chip_ops acts = List.map_filter (\<lambda>a. case a of Op p \<Rightarrow> Some p | Act b \<Rightarrow> None) acts"

definition device_acts :: "gpio_action list \<Rightarrow> device_action list" where
  "device_acts acts = List.map_filter (\<lambda>a. case a of Op p \<Rightarrow> None | Act b \<Rightarrow> Some b) acts"

lemma gpio_acts_simps [simp]:
  "chip_ops [] = []" "chip_ops (Op p # acts) = p # chip_ops acts" "chip_ops (Act b # acts) = chip_ops acts"
  "chip_ops (xs @ ys) = chip_ops xs @ chip_ops ys"
  "device_acts [] = []" "device_acts (Op p # acts) = device_acts acts"
  "device_acts (Act b # acts) = b # device_acts acts"
  "device_acts (xs @ ys) = device_acts xs @ device_acts ys"
  "chip_ops (map Act bs) = []" "device_acts (map Act bs) = bs"
  by (simp_all add: chip_ops_def device_acts_def map_filter_simps map_filter_def comp_def)

text \<open>The order in which the fills of two goroutines reach the storage.\<close>

definition mix_order :: "(gpio_action list \<Rightarrow> gpio_action list \<Rightarrow> gpio_action list) \<Rightarrow> bool" where
  "mix_order mix \<longleftrightarrow> (\<forall>xs ys. mix xs ys \<in> shuffles xs ys)"

lemma append_shuffles: "xs @ ys \<in> shuffles xs ys"
  by (induction xs) (auto simp: Cons_in_shuffles_iff)

lemma mix_ops:
  assumes "mix_order mix" and "chip_ops xs = []" and "chip_ops ys = []"
  shows "chip_ops (mix xs ys) = []"
proof -
  have "chip_ops zs = [] \<longleftrightarrow> (\<forall>a \<in> set zs. \<exists>b. a = Act b)" for zs
    by (induction zs) (auto simp: chip_ops_def map_filter_simps split: gpio_action.splits option.splits)
  moreover have "set (mix xs ys) = set xs \<union> set ys"
    using assms(1) by (auto simp: mix_order_def intro!: set_shuffles)
  ultimately show ?thesis using assms(2,3) by auto
qed

lemma initial_fills_ops [simp]: "chip_ops (initial_fills nm level rs) = []"
  by (induction rs) (simp_all add: initial_fills_def)

definition early_acts :: "gpio_env \<Rightarrow> gpio_device \<Rightarrow> GpioRegister list \<Rightarrow> gpio_action list" where
  "early_acts env d inpList = concat (map (\<lambda>(o', rising). map Act (eventHandler d inpList o' rising)) (ge_early env))"

lemma early_acts_ops [simp]: "chip_ops (early_acts env d rs) = []"
proof -
  have "chip_ops (concat (map (\<lambda>(o', rising). map Act (eventHandler d rs o' rising)) es)) = []" for es
    by (induction es) auto
  then show ?thesis by (simp add: early_acts_def)
qed

section \<open>Open lines\<close>

fun open_lines :: "chip_op list \<Rightarrow> int" where
  "open_lines [] = 0"
| "open_lines (RequestLines offs opts ok # ps) = (if ok then 1 else 0) + open_lines ps"
| "open_lines (CloseLines # ps) = open_lines ps - 1"
| "open_lines (_ # ps) = open_lines ps"

lemma open_lines_append [simp]: "open_lines (ps @ qs) = open_lines ps + open_lines qs"
  by (induction ps rule: open_lines.induct) simp_all

lemma open_setupInputs:
  assumes "mix_order mix" and "chip_ops edges = []"
  shows "open_lines (chip_ops (snd (setupInputs d rs res edges mix))) = (if fst (setupInputs d rs res edges mix) then 1 else 0)"
  using mix_ops [OF assms(1) initial_fills_ops assms(2)]
  by (cases res) (simp_all add: setupInputs_def Let_def assms(2))

lemma open_setupOutputs [simp]: "open_lines (chip_ops (snd (setupOutputs d rs res ok))) = 0"
  by (cases res) (simp_all add: setupOutputs_def Let_def)

lemma open_execCommand [simp]: "open_lines (chip_ops (gpio_execCommand d oup v res)) = 0"
  by (cases res) (simp_all add: gpio_execCommand_def Let_def split: option.splits val.splits)

lemma open_loop [simp]: "open_lines (chip_ops (snd (gpio_loop d inp oup es))) = 0"
proof (induction es)
  case (Cons e es)
  then show ?case
    by (cases e; cases "oup = []") (simp_all add: case_prod_beta Let_def split: option.splits)
qed simp

section \<open>The loop\<close>

text \<open>The events the loop handles: those before it returns or panics.\<close>

fun ends_loop :: "bool \<Rightarrow> gpio_event \<Rightarrow> bool" where
  "ends_loop outputs GpioDone = True"
| "ends_loop outputs (GpioCommand None res) = outputs"
| "ends_loop outputs _ = False"

definition handled_events :: "bool \<Rightarrow> gpio_event list \<Rightarrow> gpio_event list" where
  "handled_events outputs es = takeWhile (\<lambda>e. \<not> ends_loop outputs e) es"

fun event_acts :: "gpio_device \<Rightarrow> GpioRegister list \<Rightarrow> (string, GpioRegister) gomap \<Rightarrow> gpio_event \<Rightarrow> gpio_action list" where
  "event_acts d inp oup (GpioEdge offset rising) = map Act (eventHandler d inp offset rising)"
| "event_acts d inp oup (GpioCommand (Some v) res) = (if oup = [] then [] else gpio_execCommand d oup v res)"
| "event_acts d inp oup _ = []"

lemma gpio_loop_acts:
  "snd (gpio_loop d inp oup es) = concat (map (event_acts d inp oup) (handled_events (oup \<noteq> []) es))"
proof (induction es)
  case (Cons e es)
  then show ?case
    by (cases "(oup \<noteq> [], e)" rule: ends_loop.cases; cases "oup = []")
      (simp_all add: case_prod_beta Let_def handled_events_def split: option.splits)
qed (simp add: handled_events_def)

lemma gpio_loop_status:
  "fst (gpio_loop d inp oup es) =
     (case dropWhile (\<lambda>e. \<not> ends_loop (oup \<noteq> []) e) es of
        [] \<Rightarrow> GpioRunning
      | e # _ \<Rightarrow> if e = GpioDone then GpioReturned False False else GpioPanicked)"
proof (induction es)
  case (Cons e es)
  then show ?case
    by (cases "(oup \<noteq> [], e)" rule: ends_loop.cases; cases "oup = []")
      (simp_all add: case_prod_beta Let_def split: option.splits)
qed simp


lemma gpio_loop_not_immediate: "fst (gpio_loop d inp oup es) \<noteq> GpioReturned True True"
  unfolding gpio_loop_status by (auto split: list.splits)

section \<open>The run\<close>

text \<open>A run that does not fail immediately has set up its lines and then handled its events.\<close>

definition setup_ran :: "gpio_env \<Rightarrow> gpio_device \<Rightarrow> (string, GpioRegister) gomap \<Rightarrow> (string, GpioRegister) gomap \<Rightarrow>
    gpio_action list \<Rightarrow> bool" where
  "setup_ran env d inp oup acts \<longleftrightarrow>
     ge_chip env \<and>
     pinToRegisterMap (ge_findLine env) (gd_inputs (go_Config d)) ''Inputs'' 0 False = Some inp \<and>
     pinToRegisterMap (ge_findLine env) (gd_outputs (go_Config d)) ''Outputs'' 100 True = Some oup \<and>
     (\<exists>inpActs oupActs.
        (if inp = [] then inpActs = []
         else setupInputs d (map snd (ge_order env inp)) (ge_inputs env)
             (early_acts env d (map snd (ge_order env inp))) (ge_mix env) = (True, inpActs)) \<and>
        (if oup = [] then oupActs = []
         else setupOutputs d (map snd (ge_order env oup)) (ge_outputs env) (ge_reconfigure env) = (True, oupActs)) \<and>
        acts = [gpio_addToRegisterDb (ge_order env) inp, gpio_addToRegisterDb (ge_order env) oup] @ inpActs @ oupActs)"

definition closing :: "gpio_device \<Rightarrow> (string, GpioRegister) gomap \<Rightarrow> gpio_status \<Rightarrow> gpio_action list" where
  "closing d inp st =
     (if st = GpioRunning then []
      else [Act (FillState (SetAvailable (go_State d) False))] @ (if inp = [] then [] else [Op CloseLines]) @
           [Op CloseChip])"

lemma gpio_Run_ran:
  assumes "gpio_Run env d es = (st, acts)" and "st \<noteq> GpioReturned True True"
  obtains inp oup pre where "setup_ran env d inp oup pre"
    and "st = fst (gpio_loop d (map snd (ge_order env inp)) oup es)"
    and "acts = pre @ [Act (FillState (SetAvailable (go_State d) True))] @
      snd (gpio_loop d (map snd (ge_order env inp)) oup es) @ closing d inp st"
  using assms
  by (auto simp: gpio_Run_def setup_ran_def closing_def early_acts_def Let_def case_prod_beta prod_eq_iff
      split: option.splits if_splits)

text \<open>Its registers are named after its pins.\<close>

lemma pins_from_names:
  "pins_from fl c srt w bs m = Some m' \<Longrightarrow> (k, r) \<in> set m' \<Longrightarrow>
     (k, r) \<in> set m \<or> k \<in> pin_name ` set bs \<and> reg_name (gr_reg r) = k"
proof (induction bs arbitrary: srt m)
  case (Cons b bs)
  then obtain r' where r': "pinToRegister fl b c srt w = Some r'"
    and rest: "pins_from fl c (wrap_i64 (srt + 1)) w bs (AList.update (pin_name b) r' m) = Some m'"
    by (auto split: option.splits)
  have name: "reg_name (gr_reg r') = pin_name b"
    using r' by (auto simp: pinToRegister_def NewRegisterStruct_def split: option.splits)
  from Cons.IH [OF rest Cons.prems(2)] show ?case
  proof
    assume "(k, r) \<in> set (AList.update (pin_name b) r' m)"
    then have "(k, r) \<in> set m \<or> (k = pin_name b \<and> r = r')"
      by (induction m) (auto split: if_splits)
    with name show ?thesis by auto
  qed auto
qed simp

lemma pin_names:
  assumes "pinToRegisterMap fl bs c srt w = Some m" and "(k, r) \<in> set m"
  shows "k \<in> pin_name ` set bs" and "reg_name (gr_reg r) = k"
  using pins_from_names [OF assms(1) [unfolded pinToRegisterMap_def] assms(2)] by auto

lemma pins_from_distinct: "distinct (map fst m) \<Longrightarrow> pins_from fl c srt w bs m = Some m' \<Longrightarrow> distinct (map fst m')"
  by (induction bs arbitrary: srt m) (auto split: option.splits intro: distinct_update)

lemma pin_map_distinct: "pinToRegisterMap fl bs c srt w = Some m \<Longrightarrow> distinct (map fst m)"
  by (auto simp: pinToRegisterMap_def intro: pins_from_distinct [of "[]"])

lemma pin_list_names:
  assumes "pinToRegisterMap fl bs c srt w = Some m" and "iter_order it" and "r \<in> set (map snd (it m))"
  shows "reg_name (gr_reg r) \<in> pin_name ` set bs"
  using assms pin_names [OF assms(1)] by (auto simp: iter_order_set)

section \<open>Availability\<close>

definition quiet :: "gpio_action list \<Rightarrow> bool" where
  "quiet acts \<longleftrightarrow> avail_trace (device_acts acts) = []"

lemma quiet_simps [simp]:
  "quiet []" "quiet (xs @ ys) \<longleftrightarrow> quiet xs \<and> quiet ys" "quiet (Op p # acts) \<longleftrightarrow> quiet acts"
  "quiet (Act (AddRegisters rs) # acts) \<longleftrightarrow> quiet acts" "quiet (Act (FillCommand v) # acts) \<longleftrightarrow> quiet acts"
  "quiet (Act (FillState (EnumRegisterValue nm r i)) # acts) \<longleftrightarrow>
     reg_name r \<noteq> AvailabilityRegisterName \<and> quiet acts"
  by (simp_all add: quiet_def)

lemma quiet_all: "quiet acts \<longleftrightarrow> (\<forall>a \<in> set acts. quiet [a])"
proof (induction acts)
  case (Cons a acts)
  have "quiet (a # acts) \<longleftrightarrow> quiet [a] \<and> quiet acts"
    using quiet_simps(2) [of "[a]" acts] by simp
  with Cons show ?case by simp
qed simp

lemma quiet_mix:
  assumes "mix_order mix" and "quiet xs" and "quiet ys"
  shows "quiet (mix xs ys)"
proof -
  have "set (mix xs ys) = set xs \<union> set ys"
    using assms(1) by (auto simp: mix_order_def intro!: set_shuffles)
  then show ?thesis
    using assms(2,3) quiet_all [of xs] quiet_all [of ys] quiet_all [of "mix xs ys"] by blast
qed

definition plain_regs :: "GpioRegister list \<Rightarrow> bool" where
  "plain_regs rs \<longleftrightarrow> (\<forall>r \<in> set rs. reg_name (gr_reg r) \<noteq> AvailabilityRegisterName)"

lemma quiet_initial_fills: "plain_regs rs \<Longrightarrow> quiet (initial_fills nm level rs)"
  by (induction rs) (auto simp: initial_fills_def plain_regs_def)

lemma offset_map_range:
  "map_of (foldl (\<lambda>m r. AList.update (gr_offset r) r m) m rs) off = Some r \<Longrightarrow> map_of m off = Some r \<or> r \<in> set rs"
proof (induction rs arbitrary: m)
  case (Cons r' rs)
  from Cons.IH [OF Cons.prems [simplified]] show ?case
    by (auto simp: update_conv' split: if_splits)
qed simp

lemma quiet_eventHandler: "plain_regs rs \<Longrightarrow> quiet (map Act (eventHandler d rs off rising))"
  using offset_map_range [of "[]" rs off]
  by (auto simp: eventHandler_def plain_regs_def Let_def split: option.splits)

lemma quiet_early_acts:
  assumes "plain_regs rs"
  shows "quiet (early_acts env d rs)"
proof -
  have "quiet (concat (map (\<lambda>(o', rising). map Act (eventHandler d rs o' rising)) es))" for es
    using quiet_eventHandler [OF assms] by (induction es) auto
  then show ?thesis by (simp add: early_acts_def)
qed

lemma quiet_setupInputs:
  "mix_order mix \<Longrightarrow> plain_regs rs \<Longrightarrow> quiet edges \<Longrightarrow> quiet (snd (setupInputs d rs res edges mix))"
  by (cases res) (simp_all add: setupInputs_def Let_def quiet_mix quiet_initial_fills)

lemma quiet_setupOutputs: "plain_regs rs \<Longrightarrow> quiet (snd (setupOutputs d rs res ok))"
  by (cases res) (simp_all add: setupOutputs_def Let_def quiet_initial_fills)

lemma quiet_execCommand:
  "map_of oup AvailabilityRegisterName = None \<Longrightarrow> quiet (gpio_execCommand d oup v res)"
  by (cases res) (auto simp: gpio_execCommand_def Let_def val_name_def split: option.splits val.splits)

lemma quiet_loop:
  assumes "plain_regs inp" and "map_of oup AvailabilityRegisterName = None"
  shows "quiet (snd (gpio_loop d inp oup es))"
proof -
  have "quiet (event_acts d inp oup e)" for e
    using assms by (cases "(d, inp, oup, e)" rule: event_acts.cases) (simp_all add: quiet_eventHandler quiet_execCommand)
  then have "quiet (concat (map (event_acts d inp oup) es))" for es
    by (induction es) simp_all
  then show ?thesis by (simp add: gpio_loop_acts)
qed


section \<open>Setup\<close>

text \<open>What the environment promises, and that no pin has the name of the availability.\<close>

definition gpio_setting :: "gpio_env \<Rightarrow> gpio_device \<Rightarrow> bool" where
  "gpio_setting env d \<longleftrightarrow>
     mix_order (ge_mix env) \<and> iter_order (ge_order env) \<and>
     AvailabilityRegisterName \<notin> pin_name ` set (gd_inputs (go_Config d) @ gd_outputs (go_Config d))"

lemma input_regs:
  assumes "gpio_setting env d"
    and "pinToRegisterMap (ge_findLine env) (gd_inputs (go_Config d)) ''Inputs'' 0 False = Some inp"
  shows "plain_regs (map snd (ge_order env inp))"
  using assms(1) pin_list_names [OF assms(2)] by (fastforce simp: plain_regs_def gpio_setting_def)

lemma output_regs:
  assumes "gpio_setting env d"
    and "pinToRegisterMap (ge_findLine env) (gd_outputs (go_Config d)) ''Outputs'' 100 True = Some oup"
  shows "plain_regs (map snd (ge_order env oup))" and "map_of oup AvailabilityRegisterName = None"
proof -
  show "plain_regs (map snd (ge_order env oup))"
    using assms(1) pin_list_names [OF assms(2)] by (fastforce simp: plain_regs_def gpio_setting_def)
  show "map_of oup AvailabilityRegisterName = None"
    using assms(1) pin_names(1) [OF assms(2)] by (auto simp: gpio_setting_def map_of_eq_None_iff image_Un)
qed

lemma setup_ran_facts:
  assumes setting: "gpio_setting env d" and ran: "setup_ran env d inp oup pre"
  shows "quiet pre" and "open_lines (chip_ops pre) = (if inp = [] then 0 else 1)"
proof -
  let ?il = "map snd (ge_order env inp)" and ?ol = "map snd (ge_order env oup)"
  obtain ia oa where
    ia: "if inp = [] then ia = [] else setupInputs d ?il (ge_inputs env) (early_acts env d ?il) (ge_mix env) = (True, ia)"
    and oa: "if oup = [] then oa = [] else setupOutputs d ?ol (ge_outputs env) (ge_reconfigure env) = (True, oa)"
    and pre: "pre = [gpio_addToRegisterDb (ge_order env) inp, gpio_addToRegisterDb (ge_order env) oup] @ ia @ oa"
    and maps: "pinToRegisterMap (ge_findLine env) (gd_inputs (go_Config d)) ''Inputs'' 0 False = Some inp"
      "pinToRegisterMap (ge_findLine env) (gd_outputs (go_Config d)) ''Outputs'' 100 True = Some oup"
    using ran by (auto simp: setup_ran_def)
  have mix: "mix_order (ge_mix env)" using setting by (simp add: gpio_setting_def)
  note plain = input_regs [OF setting maps(1)] output_regs [OF setting maps(2)]
  have "quiet ia"
    using ia quiet_setupInputs [OF mix plain(1) quiet_early_acts [OF plain(1)], of d "ge_inputs env" env d]
    by (cases "inp = []") simp_all
  moreover have "quiet oa"
    using oa quiet_setupOutputs [OF plain(2), of d "ge_outputs env" "ge_reconfigure env"] by (cases "oup = []") simp_all
  ultimately show "quiet pre"
    by (simp add: pre gpio_addToRegisterDb_def)
  have "open_lines (chip_ops ia) = (if inp = [] then 0 else 1)"
    using ia open_setupInputs [OF mix early_acts_ops [of env d ?il], of d ?il "ge_inputs env"]
    by (cases "inp = []") simp_all
  moreover have "open_lines (chip_ops oa) = 0"
    using oa open_setupOutputs [of d ?ol "ge_outputs env" "ge_reconfigure env"] by (cases "oup = []") simp_all
  ultimately show "open_lines (chip_ops pre) = (if inp = [] then 0 else 1)"
    by (simp add: pre gpio_addToRegisterDb_def)
qed

lemma failed_run:
  assumes setting: "gpio_setting env d" and "gpio_Run env d es = (GpioReturned True True, acts)"
  shows "quiet acts" and "open_lines (chip_ops acts) = 0" and "acts = [] \<or> last acts = Op CloseChip"
proof -
  have mix: "mix_order (ge_mix env)" using setting by (simp add: gpio_setting_def)
  show "quiet acts" "open_lines (chip_ops acts) = 0" "acts = [] \<or> last acts = Op CloseChip"
    using assms(2) gpio_loop_not_immediate open_setupInputs [OF mix early_acts_ops]
      quiet_setupInputs [OF mix input_regs [OF setting] quiet_early_acts [OF input_regs [OF setting]]]
      quiet_setupOutputs [OF output_regs(1) [OF setting]]
    by (auto simp: gpio_Run_def Let_def case_prod_beta prod_eq_iff early_acts_def [symmetric] gpio_addToRegisterDb_def
        split: option.splits if_splits)
qed

section \<open>Edges during the setup\<close>

text \<open>
  The handler of an edge and the setup fill the storage from two goroutines: an edge after the
  level was read may be filled before that level, which then stays in the storage although the
  line has the other one.
\<close>

theorem gpio_input_stale:
  assumes "level (gr_offset r) = 0"
  shows "\<exists>mix acts. mix_order mix \<and>
    setupInputs d [r] (LineValues level) (map Act (eventHandler d [r] (gr_offset r) True)) mix = (True, acts) \<and>
    device_acts acts = [FillState (EnumRegisterValue (gpio_Name d) (gr_reg r) 1),
      FillState (EnumRegisterValue (gpio_Name d) (gr_reg r) 0)]"
proof -
  have "mix_order (\<lambda>xs ys. ys @ xs)"
    unfolding mix_order_def using append_shuffles shuffles_commutes by blast
  then show ?thesis
    using assms by (intro exI [of _ "\<lambda>xs ys. ys @ xs"])
      (simp add: setupInputs_def initial_fills_def eventHandler_def isValidValue_def Let_def)
qed

section \<open>The levels driven on a line\<close>

text \<open>
  Requesting or reconfiguring lines as outputs drives each with its level; setting a value
  drives the one line that was requested.
\<close>

definition option_levels :: "int \<Rightarrow> int list \<Rightarrow> line_option list \<Rightarrow> int list" where
  "option_levels off offs opts =
     concat (map (\<lambda>opt. case opt of
         AsOutputs vs \<Rightarrow> map snd (filter (\<lambda>(o', v). o' = off) (zip offs vs)) | _ \<Rightarrow> []) opts)"

fun driven :: "int \<Rightarrow> int list \<Rightarrow> chip_op list \<Rightarrow> int list" where
  "driven off cur [] = []"
| "driven off cur (RequestLines offs opts ok # ps) = (if ok then option_levels off offs opts else []) @ driven off offs ps"
| "driven off cur (Reconfigure opts ok # ps) = (if ok then option_levels off cur opts else []) @ driven off cur ps"
| "driven off cur (SetLine o' v ok # ps) = (if ok \<and> o' = off then [v] else []) @ driven off cur ps"
| "driven off cur (_ # ps) = driven off cur ps"

fun requested :: "int list \<Rightarrow> chip_op list \<Rightarrow> int list" where
  "requested cur [] = cur"
| "requested cur (RequestLines offs opts ok # ps) = requested offs ps"
| "requested cur (_ # ps) = requested cur ps"

lemma driven_append [simp]: "driven off cur (ps @ qs) = driven off cur ps @ driven off (requested cur ps) qs"
  by (induction off cur ps rule: driven.induct) simp_all

lemma option_levels_simps [simp]:
  "option_levels off offs [] = []"
  "option_levels off offs (AsOutputs vs # opts) =
     map snd (filter (\<lambda>(o', v). o' = off) (zip offs vs)) @ option_levels off offs opts"
  "option_levels off offs (WithBothEdges # opts) = option_levels off offs opts"
  "option_levels off offs (WithEventHandler # opts) = option_levels off offs opts"
  "option_levels off offs (WithDebounce t # opts) = option_levels off offs opts"
  "option_levels off offs (opts @ opts') = option_levels off offs opts @ option_levels off offs opts'"
  by (simp_all add: option_levels_def)

lemma option_levels_other: "\<forall>opt \<in> set opts. \<forall>vs. opt \<noteq> AsOutputs vs \<Longrightarrow> option_levels off offs opts = []"
  by (auto simp: option_levels_def split: line_option.splits)

lemma chosen_option_set: "set (chosen_option known opts) \<subseteq> snd ` set known"
proof -
  have "set (List.map_filter (map_of known) xs) \<subseteq> snd ` set known" for xs
    by (induction xs) (force simp: map_filter_simps split: option.splits dest: map_of_SomeD)+
  from this [of "remdups_adj (sort opts)"] show ?thesis
    by (cases "List.map_filter (map_of known) (remdups_adj (sort opts))") (simp_all add: chosen_option_def)
qed

lemma chosen_levels [simp]:
  "option_levels off offs (chosen_option input_options opts) = []"
  "option_levels off offs (chosen_option output_options opts) = []"
  using chosen_option_set [of input_options opts] chosen_option_set [of output_options opts]
  by (auto intro!: option_levels_other simp: input_options_def output_options_def)

text \<open>What a command does to the level of the line of the output \<open>n\<close>.\<close>

fun command_levels :: "string \<Rightarrow> gpio_event \<Rightarrow> int list" where
  "command_levels n (GpioCommand (Some (EnumRegisterValue dv r idx)) res) =
     (if reg_name r = n \<and> isValidValue idx
      then (case res of LineFailed \<Rightarrow> [] | SetFailed \<Rightarrow> [0] | SetDone \<Rightarrow> [0, idx]) else [])"
| "command_levels n _ = []"

lemma driven_execCommand:
  assumes "map_of oup n = Some reg" and "\<forall>(k, r) \<in> set oup. gr_offset r = gr_offset reg \<longrightarrow> k = n"
  shows "driven (gr_offset reg) cur (chip_ops (gpio_execCommand d oup v res)) =
    command_levels n (GpioCommand (Some v) res)"
proof (cases v)
  case (EnumRegisterValue dv r idx)
  show ?thesis
  proof (cases "map_of oup (reg_name r)")
    case (Some reg')
    then have "gr_offset reg' = gr_offset reg \<longleftrightarrow> reg_name r = n"
      using assms map_of_SomeD [OF Some] by (cases "reg_name r = n") auto
    with Some show ?thesis
      by (cases res) (auto simp: gpio_execCommand_def EnumRegisterValue val_name_def Let_def)
  qed (use assms(1) in \<open>auto simp: gpio_execCommand_def EnumRegisterValue val_name_def\<close>)
qed (auto simp: gpio_execCommand_def split: option.splits)

lemma driven_events:
  assumes "map_of oup n = Some reg" and "\<forall>(k, r) \<in> set oup. gr_offset r = gr_offset reg \<longrightarrow> k = n"
  shows "driven (gr_offset reg) cur (chip_ops (concat (map (event_acts d inp oup) es))) =
    concat (map (command_levels n) es)"
proof (induction es arbitrary: cur)
  case (Cons e es)
  have "oup \<noteq> []" using assms(1) by auto
  then have "driven (gr_offset reg) cur (chip_ops (event_acts d inp oup e)) = command_levels n e"
    using driven_execCommand [OF assms]
    by (cases "(d, inp, oup, e)" rule: event_acts.cases) simp_all
  with Cons show ?case by simp
qed simp

lemma filter_key_unique:
  "distinct (map fst xs) \<Longrightarrow> map_of xs n = Some x \<Longrightarrow> \<forall>(k, r) \<in> set xs. P r \<longrightarrow> k = n \<Longrightarrow> P x \<Longrightarrow>
     filter (\<lambda>(k, r). P r) xs = [(n, x)]"
proof (induction xs)
  case (Cons y xs)
  show ?case
  proof (cases "fst y = n")
    case True
    then have "\<forall>(k, r) \<in> set xs. \<not> P r"
      using Cons.prems by (force simp: image_iff)
    then have "filter (\<lambda>(k, r). P r) xs = []" by (auto simp: filter_empty_conv)
    with True Cons.prems show ?thesis by (cases y) auto
  next
    case False
    with Cons show ?thesis by (cases y) auto
  qed
qed simp

lemma driven_start:
  fixes oup :: "(string, GpioRegister) gomap"
  assumes "iter_order it" and "distinct (map fst oup)" and "map_of oup n = Some reg"
    and "\<forall>(k, r) \<in> set oup. gr_offset r = gr_offset reg \<longrightarrow> k = n"
  shows "map snd (filter (\<lambda>(o', v). o' = gr_offset reg)
      (zip (map gr_offset (map snd (it oup))) (map (\<lambda>r. level (gr_offset r)) (map snd (it oup))))) =
    [level (gr_offset reg)]"
proof -
  let ?P = "\<lambda>(k :: string, r). gr_offset r = gr_offset reg"
  have "mset (filter ?P (it oup)) = mset (filter ?P oup)"
    by (simp add: mset_filter iter_order_mset [OF assms(1)])
  also have "filter ?P oup = [(n, reg)]"
    by (rule filter_key_unique [OF assms(2,3,4)]) simp
  finally have one: "filter ?P (it oup) = [(n, reg)]"
    by (simp del: mset_filter)
  have "map snd (filter (\<lambda>(o', v). o' = gr_offset reg)
      (zip (map gr_offset (map snd xs)) (map (\<lambda>r. level (gr_offset r)) (map snd xs)))) =
    map (\<lambda>(k, r). level (gr_offset r)) (filter ?P xs)" for xs :: "(string \<times> GpioRegister) list"
    by (induction xs) auto
  with one show ?thesis by simp
qed

section \<open>Properties\<close>

text \<open>
  C20: A GPIO device closes each line it opened, and the chip last, whenever it returns or panics; it
  becomes available exactly once, after the setup, and unavailable again when it ends. It panics
  only when it takes the nil value of the closed command channel before it sees the cancelled
  context, and fails with an error only immediately.
\<close>

theorem gpio_run_safe:
  assumes "gpio_Run env d es = (st, acts)" and "go_State d = NewState cfg" and "gpio_setting env d"
  shows "avail_trace (device_acts acts) =
      (case st of GpioRunning \<Rightarrow> [True] | GpioReturned err immediate \<Rightarrow> if immediate then [] else [True, False]
       | GpioPanicked \<Rightarrow> [True, False]) \<and>
    (st = GpioRunning \<or> open_lines (chip_ops acts) = 0 \<and> (acts = [] \<or> last acts = Op CloseChip)) \<and>
    (st = GpioPanicked \<longrightarrow> (\<exists>res. GpioCommand None res \<in> set es)) \<and>
    (\<forall>err immediate. st = GpioReturned err immediate \<longrightarrow> err = immediate)"
proof (cases "st = GpioReturned True True")
  case True
  then show ?thesis
    using failed_run [OF assms(3) assms(1) [unfolded True]] by (simp add: quiet_def)
next
  case False
  then obtain inp oup pre where ran: "setup_ran env d inp oup pre"
    and st: "st = fst (gpio_loop d (map snd (ge_order env inp)) oup es)"
    and acts: "acts = pre @ [Act (FillState (SetAvailable (go_State d) True))] @
      snd (gpio_loop d (map snd (ge_order env inp)) oup es) @ closing d inp st"
    using gpio_Run_ran [OF assms(1)] by blast
  note pre = setup_ran_facts [OF assms(3) ran]
  have loop: "quiet (snd (gpio_loop d (map snd (ge_order env inp)) oup es))"
    using ran input_regs [OF assms(3)] output_regs(2) [OF assms(3)]
    by (intro quiet_loop) (auto simp: setup_ran_def)
  have end_in: "dropWhile P xs = x # ys \<Longrightarrow> x \<in> set xs \<and> \<not> P x" for P :: "gpio_event \<Rightarrow> bool" and xs x ys
    by (metis dropWhile_eq_Cons_conv in_set_conv_decomp)
  have "st = GpioRunning \<or> st = GpioReturned False False \<or> (st = GpioPanicked \<and> (\<exists>res. GpioCommand None res \<in> set es))"
    unfolding st gpio_loop_status
    by (auto split: list.splits dest!: end_in elim: ends_loop.elims)
  then show ?thesis
    using pre loop by (auto simp: acts closing_def assms(2) quiet_def)
qed


definition example_gpio :: gpio_device where
  "example_gpio = gpio_NewDevice
     \<lparr>dc_Name = ''io'', dc_Filter = \<lparr>IncludeRegisters = [], SkipRegisters = [], IncludeCategories = [],
        SkipCategories = [], DefaultInclude = True\<rparr>, dc_LogDebug = False, dc_LogComDebug = False\<rparr>
     \<lparr>gd_DeviceConfig = \<lparr>cd_name = ''io'', cd_filter = \<lparr>IncludeRegisters = [], SkipRegisters = [],
          IncludeCategories = [], SkipCategories = [], DefaultInclude = True\<rparr>, cd_restartInterval = second,
          cd_restartIntervalMaxBackoff = minute, cd_logDebug = False, cd_logComDebug = False\<rparr>,
        gd_chip = ''gpiochip0'', gd_inputDebounce = 0, gd_inputOptions = [''WithPullUp''], gd_outputOptions = [],
        gd_inputs = [\<lparr>pin_pin = ''GPIO5'', pin_name = ''door'', pin_description = ''Door'',
          pin_lowLabel = ''open'', pin_highLabel = ''closed''\<rparr>],
        gd_outputs = [\<lparr>pin_pin = ''GPIO6'', pin_name = ''lamp'', pin_description = ''Lamp'',
          pin_lowLabel = ''off'', pin_highLabel = ''on''\<rparr>]\<rparr>"

definition example_lines :: "string \<Rightarrow> int option" where
  "example_lines pin = (if pin = ''GPIO5'' then Some 5 else if pin = ''GPIO6'' then Some 6 else None)"

definition example_env :: gpio_env where
  "example_env = \<lparr>ge_chip = True, ge_findLine = example_lines, ge_order = (\<lambda>xs. xs),
     ge_inputs = LineValues (\<lambda>_. 0), ge_early = [(5, True)], ge_mix = (@),
     ge_outputs = LineValues (\<lambda>_. 1), ge_reconfigure = True\<rparr>"

lemma example_env_sel:
  "ge_chip example_env" "ge_order example_env = (\<lambda>xs. xs)" "ge_inputs example_env = LineValues (\<lambda>_. 0)"
  "ge_early example_env = [(5, True)]" "ge_mix example_env = (@)" "ge_outputs example_env = LineValues (\<lambda>_. 1)"
  "ge_reconfigure example_env"
  by (simp_all add: example_env_def)

lemma example_setting: "gpio_setting example_env example_gpio"
  by (simp add: gpio_setting_def mix_order_def example_env_def append_shuffles example_gpio_def gpio_NewDevice_def
      iter_order_def AvailabilityRegisterName_def)

definition lamp_register :: GpioRegister where
  "lamp_register = \<lparr>gr_reg = NewRegisterStruct ''Outputs'' ''lamp'' ''Lamp'' EnumRegister
     (Some [(0, ''off''), (1, ''on'')]) '''' 100 True, gr_pin = ''GPIO6'', gr_offset = 6\<rparr>"

definition lamp_events :: "gpio_event list" where
  "lamp_events = [GpioCommand (Some (EnumRegisterValue ''io'' (gr_reg lamp_register) 1)) SetDone, GpioDone,
     GpioCommand None SetDone]"

lemma example_outputs:
  "pinToRegisterMap (ge_findLine example_env) (gd_outputs (go_Config example_gpio)) ''Outputs'' 100 True =
     Some [(''lamp'', lamp_register)]"
  by (simp add: pinToRegisterMap_def pinToRegister_def example_env_def example_gpio_def gpio_NewDevice_def
      example_lines_def lamp_register_def)

lemma example_inputs:
  "pinToRegisterMap (ge_findLine example_env) (gd_inputs (go_Config example_gpio)) ''Inputs'' 0 False =
     Some [(''door'', \<lparr>gr_reg = NewRegisterStruct ''Inputs'' ''door'' ''Door'' EnumRegister
        (Some [(0, ''open''), (1, ''closed'')]) '''' 0 False, gr_pin = ''GPIO5'', gr_offset = 5\<rparr>)]"
  by (simp add: pinToRegisterMap_def pinToRegister_def example_env_def example_gpio_def gpio_NewDevice_def
      example_lines_def)

lemma example_run: "fst (gpio_Run example_env example_gpio lamp_events) = GpioReturned False False"
  by (simp add: gpio_Run_def example_outputs example_inputs lamp_events_def setupInputs_def setupOutputs_def
      Let_def case_prod_beta example_env_sel)

theorem gpio_run_safe_witness:
  "avail_trace (device_acts (snd (gpio_Run example_env example_gpio lamp_events))) = [True, False] \<and>
   open_lines (chip_ops (snd (gpio_Run example_env example_gpio lamp_events))) = 0"
proof -
  have "gpio_Run example_env example_gpio lamp_events =
      (GpioReturned False False, snd (gpio_Run example_env example_gpio lamp_events))"
    using example_run by (metis prod.collapse)
  moreover have "go_State example_gpio = NewState (ds_config (go_State example_gpio))"
    by (simp add: example_gpio_def gpio_NewDevice_def)
  ultimately show ?thesis
    using gpio_run_safe [OF _ _ example_setting] by fastforce
qed

text \<open>
  C21: An output line is driven first with the level it had when the device started, so starting the
  device changes no output. From then on each command for it that gets hold of the line drives it
  to 0 and then, if the value can be set, to the value: a command that repeats the level 1
  interrupts it.
\<close>

theorem gpio_output_levels:
  assumes "gpio_Run env d es = (st, acts)" and "st \<noteq> GpioReturned True True" and "gpio_setting env d"
    and "pinToRegisterMap (ge_findLine env) (gd_outputs (go_Config d)) ''Outputs'' 100 True = Some oup"
    and "map_of oup n = Some reg" and "\<forall>(k, r) \<in> set oup. gr_offset r = gr_offset reg \<longrightarrow> k = n"
  shows "\<exists>level. ge_outputs env = LineValues level \<and>
    driven (gr_offset reg) [] (chip_ops acts) =
      level (gr_offset reg) # concat (map (command_levels n) (handled_events True es))"
proof -
  obtain inp oup' pre where ran: "setup_ran env d inp oup' pre"
    and acts: "acts = pre @ [Act (FillState (SetAvailable (go_State d) True))] @
      snd (gpio_loop d (map snd (ge_order env inp)) oup' es) @ closing d inp st"
    using gpio_Run_ran [OF assms(1,2)] by blast
  have oup': "oup' = oup" using ran assms(4) by (simp add: setup_ran_def)
  have ne: "oup \<noteq> []" using assms(5) by auto
  obtain ia oa where
    ia: "if inp = [] then ia = [] else setupInputs d (map snd (ge_order env inp)) (ge_inputs env)
        (early_acts env d (map snd (ge_order env inp))) (ge_mix env) = (True, ia)"
    and oa: "setupOutputs d (map snd (ge_order env oup)) (ge_outputs env) (ge_reconfigure env) = (True, oa)"
    and pre: "pre = [gpio_addToRegisterDb (ge_order env) inp, gpio_addToRegisterDb (ge_order env) oup] @ ia @ oa"
    using ran ne by (auto simp: setup_ran_def oup')
  have mix: "mix_order (ge_mix env)" and order: "iter_order (ge_order env)"
    using assms(3) by (simp_all add: gpio_setting_def)
  obtain level where level: "ge_outputs env = LineValues level"
    using oa by (cases "ge_outputs env") (simp_all add: setupOutputs_def Let_def)
  have "driven (gr_offset reg) cur (chip_ops ia) = []" for cur
    using ia mix_ops [OF mix initial_fills_ops early_acts_ops]
    by (cases "inp = []"; cases "ge_inputs env") (auto simp: setupInputs_def Let_def)
  moreover have "driven (gr_offset reg) cur (chip_ops oa) = [level (gr_offset reg)]" for cur
    using oa driven_start [OF order pin_map_distinct [OF assms(4)] assms(5,6), of level]
    by (auto simp: setupOutputs_def level Let_def split_def)
  moreover have "driven off cur (chip_ops (closing d inp st)) = []" for off cur
    by (simp add: closing_def)
  ultimately show ?thesis
    using driven_events [OF assms(5,6)] ne
    by (intro exI [of _ level]) (simp add: level acts pre oup' gpio_loop_acts gpio_addToRegisterDb_def)
qed


theorem gpio_output_levels_witness:
  "driven 6 [] (chip_ops (snd (gpio_Run example_env example_gpio lamp_events))) = [1, 0, 1]"
proof -
  have "gpio_Run example_env example_gpio lamp_events =
      (GpioReturned False False, snd (gpio_Run example_env example_gpio lamp_events))"
    using example_run by (metis prod.collapse)
  from gpio_output_levels [OF this _ example_setting example_outputs, of "''lamp''" lamp_register]
  obtain level where "ge_outputs example_env = LineValues level"
    and "driven (gr_offset lamp_register) [] (chip_ops (snd (gpio_Run example_env example_gpio lamp_events))) =
      level (gr_offset lamp_register) # concat (map (command_levels ''lamp'') (handled_events True lamp_events))"
    by auto
  then show ?thesis
    by (auto simp: example_env_def lamp_register_def lamp_events_def handled_events_def isValidValue_def)
qed

end
