(* ===== verification/Mqtt_Client.thy ===== *)
theory Mqtt_Client
  imports Mqtt_Messages Fifo "HOL-Library.Multiset"
begin

text \<open>
  src/mqttClient: the client's configuration of the connection, its routes, and the messages it
  publishes. The connection manager is a third-party package: each of its calls may succeed or
  fail, as the event says. The goroutines of the client, the callers of \<open>Publish\<close> and one for each
  time the connection comes up, take their steps in any order.
\<close>

section \<open>Configuration of the connection\<close>

definition availabilityOnline :: string where "availabilityOnline = ''online''"
definition availabilityOffline :: string where "availabilityOffline = ''offline''"

definition availabilityMsg :: "'u MqttClientConfig \<Rightarrow> string \<Rightarrow> publish" where
  "availabilityMsg cfg payload =
     (let mCfg = cl_availabilityClient cfg
      in \<lparr>pb_topic = AvailabilityClientTopic cfg, pb_payload = payload, pb_qos = ms_qos mCfg,
          pb_retain = ms_retain mCfg\<rparr>)"

record 'u connection_config =
  cc_BrokerUrls :: "'u option list"
  cc_KeepAlive :: int
  cc_ConnectRetryDelay :: duration
  cc_ConnectTimeout :: duration
  cc_ClientID :: string
  cc_Debug :: bool
  cc_login :: "(string \<times> string) option"
  cc_WillMessage :: "publish option"

text \<open>
  \<open>uint16(d.Seconds())\<close>: the seconds cut off at the decimal point. What the conversion of a
  number that is not a \<open>uint16\<close> gives is up to the implementation of Go, the argument \<open>conv\<close>.
\<close>

definition uint16_seconds :: "(int \<Rightarrow> int) \<Rightarrow> duration \<Rightarrow> int" where
  "uint16_seconds conv d =
     (let s = (if d < 0 then - (- d div second) else d div second)
      in if 0 \<le> s \<and> s < 65536 then s else conv s)"

definition cliCfg :: "(int \<Rightarrow> int) \<Rightarrow> 'u MqttClientConfig \<Rightarrow> 'u connection_config" where
  "cliCfg conv cfg =
     \<lparr>cc_BrokerUrls = [cl_broker cfg], cc_KeepAlive = uint16_seconds conv (cl_keepAlive cfg),
      cc_ConnectRetryDelay = cl_connectRetryDelay cfg, cc_ConnectTimeout = cl_connectTimeout cfg,
      cc_ClientID = cl_clientId cfg, cc_Debug = cl_logDebug cfg,
      cc_login = (if length (cl_user cfg) > 0 then Some (cl_user cfg, cl_password cfg) else None),
      cc_WillMessage =
        (if ms_enabled (cl_availabilityClient cfg) then Some (availabilityMsg cfg availabilityOffline) else None)\<rparr>"

section \<open>Routes\<close>

text \<open>
  A payload is a slice: its bytes and those between its length and its capacity. The bytes
  logged are \<open>Payload()[:80]\<close>, which may reach up to the capacity and panics beyond it.
\<close>

record payload_slice =
  pl_bytes :: string
  pl_spare :: string

definition logged_payload :: "payload_slice \<Rightarrow> string option" where
  "logged_payload pl =
     (if length (pl_bytes pl) + length (pl_spare pl) < 80 then None
      else Some (take 80 (pl_bytes pl @ pl_spare pl) @ (if length (pl_bytes pl) > 80 then ''...'' else [])))"

definition route_handler ::
  "'u MqttClientConfig \<Rightarrow> (string \<Rightarrow> string \<Rightarrow> 'r) \<Rightarrow> string \<Rightarrow> payload_slice \<Rightarrow> 'r option" where
  \<comment> \<open>the handler \<open>AddRoute\<close> registers; \<open>None\<close>: it panics before the message reaches its handler\<close>
  "route_handler cfg messageHandler topic pl =
     (if cl_logMessages cfg then
        case logged_payload pl of None \<Rightarrow> None | Some t \<Rightarrow> Some (messageHandler topic (pl_bytes pl))
      else Some (messageHandler topic (pl_bytes pl)))"

section \<open>State\<close>

text \<open>What the connection manager accepted, by its origin.\<close>

datatype sent = SentAvailability publish | SentData publish

text \<open>
  The goroutine started by \<open>onConnectionUp\<close>: about to publish that the client is online, about to
  take a message of the backlog, about to publish the message it took, ended.
\<close>

datatype drainer = DrOnline | DrLoop | DrHas publish | DrDone

record mqtt_client =
  mc_backlog :: "publish fifo"
  mc_subscriptions :: "string list"
  mc_subscribes :: "string list list" \<comment> \<open>the topics of each call of \<open>Subscribe\<close>\<close>
  mc_pending :: "publish list" \<comment> \<open>publishing failed, not yet in the backlog\<close>
  mc_drainers :: "drainer list"
  mc_sent :: "sent list"
  mc_down :: bool \<comment> \<open>\<open>Shutdown\<close> was called\<close>

definition NewV5 :: "'u MqttClientConfig \<Rightarrow> mqtt_client" where
  "NewV5 cfg =
     \<lparr>mc_backlog = NewFifo (cl_maxBacklogSize cfg), mc_subscriptions = [], mc_subscribes = [],
      mc_pending = [], mc_drainers = [], mc_sent = [], mc_down = False\<rparr>"

section \<open>Operations\<close>

definition AddRoute :: "string \<Rightarrow> mqtt_client \<Rightarrow> mqtt_client" where
  "AddRoute topic c =
     c\<lparr>mc_subscriptions := mc_subscriptions c @ [topic], mc_subscribes := mc_subscribes c @ [[topic]]\<rparr>"

definition onConnectionUp :: "mqtt_client \<Rightarrow> mqtt_client" where
  "onConnectionUp c =
     c\<lparr>mc_subscribes := (if length (mc_subscriptions c) > 0 then mc_subscribes c @ [mc_subscriptions c]
                         else mc_subscribes c),
       mc_drainers := mc_drainers c @ [DrOnline]\<rparr>"

definition accept :: "bool \<Rightarrow> sent \<Rightarrow> mqtt_client \<Rightarrow> mqtt_client" where
  "accept ok m c = (if ok then c\<lparr>mc_sent := mc_sent c @ [m]\<rparr> else c)"

definition mc_Publish :: "'u MqttClientConfig \<Rightarrow> publish \<Rightarrow> bool \<Rightarrow> mqtt_client \<Rightarrow> mqtt_client" where
  \<comment> \<open>up to the call of \<open>Enqueue\<close>, which is a step of its own\<close>
  "mc_Publish cfg p ok c =
     (if cl_readOnly cfg then c
      else if ok then accept True (SentData p) c
      else c\<lparr>mc_pending := mc_pending c @ [p]\<rparr>)"

definition mc_Enqueue :: "nat \<Rightarrow> mqtt_client \<Rightarrow> mqtt_client option" where
  "mc_Enqueue i c =
     (if i < length (mc_pending c) then
        Some (c\<lparr>mc_backlog := Enqueue (mc_backlog c) (mc_pending c ! i),
                mc_pending := take i (mc_pending c) @ drop (Suc i) (mc_pending c)\<rparr>)
      else None)"

definition drain_step :: "'u MqttClientConfig \<Rightarrow> nat \<Rightarrow> bool \<Rightarrow> mqtt_client \<Rightarrow> mqtt_client option" where
  \<comment> \<open>one step of the i-th goroutine; the flag is the outcome of a call of \<open>Publish\<close>\<close>
  "drain_step cfg i ok c =
     (if i < length (mc_drainers c) then
        (case mc_drainers c ! i of
           DrOnline \<Rightarrow>
             Some ((if ms_enabled (cl_availabilityClient cfg)
                    then accept ok (SentAvailability (availabilityMsg cfg availabilityOnline)) c else c)
                   \<lparr>mc_drainers := (mc_drainers c)[i := DrLoop]\<rparr>)
         | DrLoop \<Rightarrow>
             (case Dequeue (mc_backlog c) of
                (None, q) \<Rightarrow> Some (c\<lparr>mc_drainers := (mc_drainers c)[i := DrDone]\<rparr>)
              | (Some p, q) \<Rightarrow> Some (c\<lparr>mc_backlog := q, mc_drainers := (mc_drainers c)[i := DrHas p]\<rparr>))
         | DrHas p \<Rightarrow> Some (accept ok (SentData p) c\<lparr>mc_drainers := (mc_drainers c)[i := DrLoop]\<rparr>)
         | DrDone \<Rightarrow> None)
      else None)"

definition mc_Shutdown :: "'u MqttClientConfig \<Rightarrow> bool \<Rightarrow> mqtt_client \<Rightarrow> mqtt_client option" where
  \<comment> \<open>a second call closes a closed channel and panics: \<open>None\<close>\<close>
  "mc_Shutdown cfg ok c =
     (if mc_down c then None
      else Some ((if ms_enabled (cl_availabilityClient cfg)
                  then accept ok (SentAvailability (availabilityMsg cfg availabilityOffline)) c else c)
                 \<lparr>mc_down := True\<rparr>))"

datatype client_event =
    MAddRoute string
  | MConnectionUp
  | MPublish publish bool
  | MEnqueue nat
  | MDrain nat bool
  | MShutdown bool

fun mc_exec :: "'u MqttClientConfig \<Rightarrow> client_event \<Rightarrow> mqtt_client \<Rightarrow> mqtt_client option" where
  "mc_exec cfg (MAddRoute topic) c = Some (AddRoute topic c)"
| "mc_exec cfg MConnectionUp c = Some (onConnectionUp c)"
| "mc_exec cfg (MPublish p ok) c = Some (mc_Publish cfg p ok c)"
| "mc_exec cfg (MEnqueue i) c = mc_Enqueue i c"
| "mc_exec cfg (MDrain i ok) c = drain_step cfg i ok c"
| "mc_exec cfg (MShutdown ok) c = mc_Shutdown cfg ok c"

fun mc_run :: "'u MqttClientConfig \<Rightarrow> client_event list \<Rightarrow> mqtt_client \<Rightarrow> mqtt_client option" where
  "mc_run cfg [] c = Some c"
| "mc_run cfg (e # es) c = (case mc_exec cfg e c of None \<Rightarrow> None | Some c1 \<Rightarrow> mc_run cfg es c1)"

lemma mc_run_append:
  "mc_run cfg (es @ fs) c = (case mc_run cfg es c of None \<Rightarrow> None | Some c1 \<Rightarrow> mc_run cfg fs c1)"
  by (induction es arbitrary: c) (auto split: option.splits)

section \<open>What becomes of a message\<close>

definition data_sent :: "mqtt_client \<Rightarrow> publish list" where
  "data_sent c = List.map_filter (\<lambda>m. case m of SentData p \<Rightarrow> Some p | SentAvailability p \<Rightarrow> None) (mc_sent c)"

definition held :: "mqtt_client \<Rightarrow> publish list" where
  "held c = List.map_filter (\<lambda>d. case d of DrHas p \<Rightarrow> Some p | _ \<Rightarrow> None) (mc_drainers c)"

fun offered :: "'u MqttClientConfig \<Rightarrow> client_event list \<Rightarrow> publish list" where
  "offered cfg [] = []"
| "offered cfg (MPublish p ok # es) = (if cl_readOnly cfg then offered cfg es else p # offered cfg es)"
| "offered cfg (_ # es) = offered cfg es"

text \<open>The messages under way, wherever they are.\<close>

definition custody :: "mqtt_client \<Rightarrow> publish multiset" where
  "custody c = mset (data_sent c) + mset (fifo_list (mc_backlog c)) + mset (mc_pending c) + mset (held c)"

end
