(* ===== verification/Mqtt_Client_Proofs.thy ===== *)
theory Mqtt_Client_Proofs
  imports Mqtt_Client
begin

text \<open>
  What the client guarantees of the messages handed to \<open>Publish\<close>: none is invented or sent twice,
  and what it does not guarantee: their order, and that the backlog outlives a short connection.
\<close>

section \<open>Custody of messages\<close>

definition map_data :: "sent \<Rightarrow> publish option" where
  "map_data m = (case m of SentData p \<Rightarrow> Some p | SentAvailability p \<Rightarrow> None)"

lemma data_sent_simps [simp]:
  "data_sent (c\<lparr>mc_drainers := ds\<rparr>) = data_sent c" "data_sent (c\<lparr>mc_backlog := q\<rparr>) = data_sent c"
  "data_sent (c\<lparr>mc_pending := ps\<rparr>) = data_sent c" "data_sent (c\<lparr>mc_subscribes := ss\<rparr>) = data_sent c"
  "data_sent (c\<lparr>mc_subscriptions := ts\<rparr>) = data_sent c" "data_sent (c\<lparr>mc_down := b\<rparr>) = data_sent c"
  "data_sent (accept ok (SentAvailability p) c) = data_sent c"
  "data_sent (accept ok (SentData p) c) = data_sent c @ (if ok then [p] else [])"
  "data_sent (NewV5 cfg) = []"
  by (simp_all add: data_sent_def accept_def map_filter_simps map_filter_def NewV5_def)

lemma accept_sel [simp]:
  "mc_drainers (accept ok m c) = mc_drainers c" "mc_backlog (accept ok m c) = mc_backlog c"
  "mc_pending (accept ok m c) = mc_pending c" "mc_subscriptions (accept ok m c) = mc_subscriptions c"
  "mc_subscribes (accept ok m c) = mc_subscribes c" "mc_down (accept ok m c) = mc_down c"
  by (simp_all add: accept_def)

definition held_by :: "drainer \<Rightarrow> publish list" where
  "held_by d = (case d of DrHas p \<Rightarrow> [p] | _ \<Rightarrow> [])"

lemma held_by_simps [simp]:
  "held_by DrOnline = []" "held_by DrLoop = []" "held_by (DrHas p) = [p]" "held_by DrDone = []"
  by (simp_all add: held_by_def)

lemma held_concat: "held c = concat (map held_by (mc_drainers c))"
proof -
  have "List.map_filter (\<lambda>d. case d of DrHas p \<Rightarrow> Some p | _ \<Rightarrow> None) ds = concat (map held_by ds)" for ds
    by (induction ds) (auto simp: map_filter_simps held_by_def split: drainer.splits)
  then show ?thesis by (simp add: held_def)
qed

lemma held_update:
  assumes "i < length ds"
  shows "mset (concat (map held_by (ds[i := d]))) + mset (held_by (ds ! i)) =
    mset (concat (map held_by ds)) + mset (held_by d)"
proof -
  have "ds = take i ds @ ds ! i # drop (Suc i) ds"
    using assms by (rule id_take_nth_drop)
  then have "mset (concat (map held_by ds)) =
      mset (concat (map held_by (take i ds))) + mset (held_by (ds ! i)) + mset (concat (map held_by (drop (Suc i) ds)))"
    by (metis (no_types) concat_append concat.simps(2) list.map(2) map_append mset_append union_assoc)
  then show ?thesis
    using assms by (simp add: upd_conv_take_nth_drop)
qed

lemma mset_remove_nth:
  "i < length xs \<Longrightarrow> mset (take i xs @ drop (Suc i) xs) + {#xs ! i#} = mset xs"
  by (subst (4) id_take_nth_drop [of i xs]) simp_all

lemma custody_split:
  "custody c = mset (data_sent c) + mset (fifo_list (mc_backlog c)) + mset (mc_pending c) +
     mset (concat (map held_by (mc_drainers c)))"
  by (simp add: custody_def held_concat)

text \<open>One step: what a goroutine drops is the message it fails to publish from the backlog.\<close>

definition loses :: "client_event \<Rightarrow> bool" where
  "loses e \<longleftrightarrow> (\<exists>i. e = MDrain i False)"

lemma fifo_list_Enqueue_full:
  "wf_fifo q \<Longrightarrow> int (length (fifo_list q)) < maxLength q \<Longrightarrow> fifo_list (Enqueue q v) = fifo_list q @ [v]"
  by (simp add: Enqueue_def Let_def)

lemma fifo_list_Enqueue_mset: "mset (fifo_list (Enqueue q v)) \<subseteq># mset (fifo_list q) + {#v#}"
  by (cases "fifo_list q") (simp_all add: Enqueue_def Let_def)

lemma custody_Enqueue:
  assumes "mc_Enqueue i c = Some c'"
  shows "custody c' \<subseteq># custody c"
    and "wf_fifo (mc_backlog c) \<Longrightarrow> int (size (custody c)) \<le> maxLength (mc_backlog c) \<Longrightarrow> custody c' = custody c"
proof -
  have i: "i < length (mc_pending c)" and c': "c' = c\<lparr>mc_backlog := Enqueue (mc_backlog c) (mc_pending c ! i),
      mc_pending := take i (mc_pending c) @ drop (Suc i) (mc_pending c)\<rparr>"
    using assms by (auto simp: mc_Enqueue_def split: if_splits)
  let ?ps = "take i (mc_pending c) @ drop (Suc i) (mc_pending c)"
  let ?D = "mset (data_sent c)" and ?H = "mset (concat (map held_by (mc_drainers c)))"
  have pend: "mset (mc_pending c) = mset ?ps + {#mc_pending c ! i#}"
    using mset_remove_nth [OF i] by simp
  have old: "custody c = ?D + (mset (fifo_list (mc_backlog c)) + {#mc_pending c ! i#}) + mset ?ps + ?H"
    unfolding custody_split pend by simp
  have new: "custody c' = ?D + mset (fifo_list (Enqueue (mc_backlog c) (mc_pending c ! i))) + mset ?ps + ?H"
    unfolding custody_split c' by simp
  show "custody c' \<subseteq># custody c"
    unfolding old new by (intro subset_mset.add_mono subset_mset.order_refl fifo_list_Enqueue_mset)
  assume "wf_fifo (mc_backlog c)" and "int (size (custody c)) \<le> maxLength (mc_backlog c)"
  moreover have "length (fifo_list (mc_backlog c)) < size (custody c)"
    unfolding old by simp
  ultimately have "fifo_list (Enqueue (mc_backlog c) (mc_pending c ! i)) = fifo_list (mc_backlog c) @ [mc_pending c ! i]"
    by (intro fifo_list_Enqueue_full) simp_all
  then show "custody c' = custody c"
    unfolding old new by simp
qed

lemma custody_drain:
  assumes "drain_step cfg i ok c = Some c'"
  shows "custody c' \<subseteq># custody c" and "ok \<Longrightarrow> custody c' = custody c"
proof -
  have i: "i < length (mc_drainers c)"
    using assms by (auto simp: drain_step_def split: if_splits)
  note upd = held_update [OF i]
  have "custody c' \<subseteq># custody c \<and> (ok \<longrightarrow> custody c' = custody c)"
  proof (cases "mc_drainers c ! i")
    case DrOnline
    then show ?thesis
      using assms i upd [of DrLoop] by (auto simp: drain_step_def custody_split)
  next
    case DrLoop
    show ?thesis
    proof (cases "fifo_list (mc_backlog c)")
      case Nil
      then show ?thesis
        using assms i DrLoop upd [of DrDone] by (auto simp: drain_step_def custody_split Dequeue_def)
    next
      case (Cons p ps)
      then show ?thesis
        using assms i DrLoop upd [of "DrHas p"] by (auto simp: drain_step_def custody_split Dequeue_def)
    qed
  next
    case (DrHas p)
    then have "mset (concat (map held_by (mc_drainers c))) =
        add_mset p (mset (concat (map held_by ((mc_drainers c)[i := DrLoop]))))"
      using upd [of DrLoop] by simp
    with DrHas show ?thesis
      using assms i by (auto simp: drain_step_def custody_split)
  next
    case DrDone
    then show ?thesis using assms i by (simp add: drain_step_def)
  qed
  then show "custody c' \<subseteq># custody c" and "ok \<Longrightarrow> custody c' = custody c" by simp_all
qed

lemma custody_simple:
  "custody (AddRoute t c) = custody c" "custody (onConnectionUp c) = custody c"
  "custody (mc_Publish cfg p ok c) = custody c + mset (offered cfg [MPublish p ok])"
  "mc_Shutdown cfg ok c = Some c' \<Longrightarrow> custody c' = custody c"
  by (auto simp: custody_split AddRoute_def onConnectionUp_def mc_Publish_def mc_Shutdown_def split: if_splits)


lemma offered_append: "offered cfg (es @ fs) = offered cfg es @ offered cfg fs"
  by (induction cfg es rule: offered.induct) simp_all

lemma custody_step:
  assumes "mc_exec cfg e c = Some c'"
  shows "custody c' \<subseteq># custody c + mset (offered cfg [e])"
    and "\<not> loses e \<Longrightarrow> wf_fifo (mc_backlog c) \<Longrightarrow> int (size (custody c)) \<le> maxLength (mc_backlog c) \<Longrightarrow>
      custody c' = custody c + mset (offered cfg [e])"
proof -
  have "custody c' \<subseteq># custody c + mset (offered cfg [e]) \<and>
    (\<not> loses e \<longrightarrow> wf_fifo (mc_backlog c) \<longrightarrow> int (size (custody c)) \<le> maxLength (mc_backlog c) \<longrightarrow>
      custody c' = custody c + mset (offered cfg [e]))"
  proof (cases e)
    case (MPublish p ok)
    with assms have "c' = mc_Publish cfg p ok c" by simp
    then show ?thesis
      unfolding MPublish by (simp only: custody_simple(3)) simp
  next
    case (MEnqueue k)
    with assms have "mc_Enqueue k c = Some c'" by simp
    with custody_Enqueue [OF this] show ?thesis by (simp add: MEnqueue)
  next
    case (MDrain k ok)
    with assms have "drain_step cfg k ok c = Some c'" by simp
    with custody_drain [OF this] show ?thesis by (simp add: MDrain loses_def)
  next
    case (MShutdown ok)
    with assms have "mc_Shutdown cfg ok c = Some c'" by simp
    with custody_simple(4) [OF this] show ?thesis by (simp add: MShutdown)
  qed (use assms in \<open>auto simp: custody_simple(1,2)\<close>)
  then show "custody c' \<subseteq># custody c + mset (offered cfg [e])"
    and "\<not> loses e \<Longrightarrow> wf_fifo (mc_backlog c) \<Longrightarrow> int (size (custody c)) \<le> maxLength (mc_backlog c) \<Longrightarrow>
      custody c' = custody c + mset (offered cfg [e])" by simp_all
qed

lemma wf_fifo_Dequeue: "wf_fifo q \<Longrightarrow> Dequeue q = (v, q') \<Longrightarrow> wf_fifo q' \<and> maxLength q' = maxLength q"
  by (auto simp: Dequeue_def wf_fifo_def fifo_cap_def split: list.splits)

lemma maxLength_Enqueue [simp]: "maxLength (Enqueue q v) = maxLength q"
  by (simp add: Enqueue_def Let_def)

lemma backlog_step:
  assumes "mc_exec cfg e c = Some c'" and "wf_fifo (mc_backlog c)"
  shows "wf_fifo (mc_backlog c') \<and> maxLength (mc_backlog c') = maxLength (mc_backlog c)"
proof -
  obtain v q where q: "Dequeue (mc_backlog c) = (v, q)" by fastforce
  have "mc_backlog c' = mc_backlog c \<or> mc_backlog c' = q \<or> (\<exists>p. mc_backlog c' = Enqueue (mc_backlog c) p)"
    using assms(1) q
    by (cases e)
      (auto simp: AddRoute_def onConnectionUp_def mc_Publish_def mc_Enqueue_def drain_step_def mc_Shutdown_def
        split: if_splits drainer.splits option.splits)
  then show ?thesis
    using assms(2) fifo.inv_enq [OF assms(2)] wf_fifo_Dequeue [OF assms(2) q] by auto
qed

section \<open>Properties\<close>

text \<open>
  C17: Every message is accounted for: what was sent, waits in the backlog, or is in the hands of a
  goroutine was handed to \<open>Publish\<close> of a client that is not read-only, and no message is there more
  often than it was handed over. The backlog never exceeds its configured size, and as long as it
  suffices for all messages and no publishing from the backlog fails, none is lost.
\<close>

theorem mqtt_conservation:
  assumes "mc_run cfg es (NewV5 cfg) = Some c"
  shows "custody c \<subseteq># mset (offered cfg es) \<and>
    length (fifo_list (mc_backlog c)) \<le> nat (cl_maxBacklogSize cfg) \<and>
    (list_all (\<lambda>e. \<not> loses e) es \<and> int (length (offered cfg es)) \<le> cl_maxBacklogSize cfg \<longrightarrow>
     custody c = mset (offered cfg es))"
proof -
  have "custody c \<subseteq># mset (offered cfg es) \<and>
    wf_fifo (mc_backlog c) \<and> maxLength (mc_backlog c) = cl_maxBacklogSize cfg \<and>
    (list_all (\<lambda>e. \<not> loses e) es \<and> int (length (offered cfg es)) \<le> cl_maxBacklogSize cfg \<longrightarrow>
     custody c = mset (offered cfg es))"
    using assms
  proof (induction es arbitrary: c rule: rev_induct)
    case Nil
    then show ?case
      by (auto simp: custody_split NewV5_def NewFifo_def wf_fifo_def data_sent_def map_filter_simps)
  next
    case (snoc e es)
    then obtain c1 where c1: "mc_run cfg es (NewV5 cfg) = Some c1" and e: "mc_exec cfg e c1 = Some c"
      by (auto simp: mc_run_append split: option.splits)
    note IH = snoc.IH [OF c1]
    have "size (custody c1) \<le> length (offered cfg es)"
      using IH size_mset_mono [of "custody c1" "mset (offered cfg es)"] by simp
    then have lossless: "custody c = mset (offered cfg (es @ [e]))"
      if "list_all (\<lambda>e. \<not> loses e) (es @ [e])" "int (length (offered cfg (es @ [e]))) \<le> cl_maxBacklogSize cfg"
      using that IH custody_step(2) [OF e] by (auto simp: offered_append)
    moreover have "custody c \<subseteq># mset (offered cfg (es @ [e]))"
      using custody_step(1) [OF e] IH
      by (simp add: offered_append) (meson mset_subset_eq_mono_add subset_mset.order_refl subset_mset.order_trans)
    ultimately show ?case
      using backlog_step [OF e] IH by auto
  qed
  then show ?thesis
    by (auto simp: wf_fifo_def fifo_cap_def)
qed

theorem mqtt_conservation_witness:
  "\<exists>c. mc_run example_client [MPublish (availabilityMsg example_client ''a'') False, MEnqueue 0, MConnectionUp,
      MDrain 0 True] (NewV5 example_client) = Some c \<and>
    custody c = {#availabilityMsg example_client ''a''#}"
proof -
  let ?es = "[MPublish (availabilityMsg example_client ''a'') False, MEnqueue 0, MConnectionUp, MDrain 0 True]"
  obtain c where c: "mc_run example_client ?es (NewV5 example_client) = Some c"
    by (simp add: mc_Publish_def example_client_def NewV5_def mc_Enqueue_def onConnectionUp_def drain_step_def)
  then show ?thesis
    using mqtt_conservation [OF c] by (simp add: loses_def example_client_def)
qed

text \<open>
  C18: Once a goroutine that drains the backlog is at its loop, and nothing else moves, it takes every
  message of it in order and sends those that do not fail. A message that fails is dropped, and
  the loop goes on: a connection that is lost again empties the backlog without sending it.
\<close>

theorem mqtt_drain:
  assumes "i < length (mc_drainers c)" and "mc_drainers c ! i = DrLoop"
    and "length oks = length (fifo_list (mc_backlog c))"
  shows "\<exists>c'. mc_run cfg (concat (map (\<lambda>ok. [MDrain i True, MDrain i ok]) oks)) c = Some c' \<and>
    data_sent c' = data_sent c @ map fst (filter snd (zip (fifo_list (mc_backlog c)) oks)) \<and>
    fifo_list (mc_backlog c') = []"
  using assms
proof (induction oks arbitrary: c)
  case (Cons ok oks)
  then obtain p ps where ps: "fifo_list (mc_backlog c) = p # ps"
    by (cases "fifo_list (mc_backlog c)") simp_all
  let ?c = "accept ok (SentData p) (c\<lparr>mc_backlog := (mc_backlog c)\<lparr>fifo_list := ps\<rparr>,
      mc_drainers := (mc_drainers c)[i := DrHas p]\<rparr>)\<lparr>mc_drainers := (mc_drainers c)[i := DrLoop]\<rparr>"
  have "mc_run cfg [MDrain i True, MDrain i ok] c = Some ?c"
    using Cons.prems ps by (simp add: drain_step_def Dequeue_def)
  moreover have "\<exists>c'. mc_run cfg (concat (map (\<lambda>ok. [MDrain i True, MDrain i ok]) oks)) ?c = Some c' \<and>
      data_sent c' = data_sent ?c @ map fst (filter snd (zip (fifo_list (mc_backlog ?c)) oks)) \<and>
      fifo_list (mc_backlog c') = []"
    using Cons.prems ps by (intro Cons.IH) simp_all
  ultimately show ?case
    using ps mc_run_append [of cfg "[MDrain i True, MDrain i ok]" _ c]
    by (auto simp del: mc_run.simps)
qed simp

theorem mqtt_drain_witness:
  "\<exists>c c'. mc_run example_client [MPublish (availabilityMsg example_client ''a'') False, MEnqueue 0, MConnectionUp,
      MDrain 0 True] (NewV5 example_client) = Some c \<and>
    mc_run example_client [MDrain 0 True, MDrain 0 False] c = Some c' \<and>
    data_sent c' = [] \<and> fifo_list (mc_backlog c') = []"
proof -
  let ?es = "[MPublish (availabilityMsg example_client ''a'') False, MEnqueue 0, MConnectionUp, MDrain 0 True]"
  obtain c where c: "mc_run example_client ?es (NewV5 example_client) = Some c"
    by (simp add: mc_Publish_def example_client_def NewV5_def mc_Enqueue_def onConnectionUp_def drain_step_def)
  have at: "0 < length (mc_drainers c)" "mc_drainers c ! 0 = DrLoop"
      "length [False] = length (fifo_list (mc_backlog c))" "data_sent c = []"
    using c by (auto simp: mc_Publish_def example_client_def section_all_def NewV5_def NewFifo_def mc_Enqueue_def
        onConnectionUp_def drain_step_def Enqueue_def accept_def data_sent_def map_filter_simps)
  from at(3) obtain p where p: "fifo_list (mc_backlog c) = [p]"
    by (cases "fifo_list (mc_backlog c)") auto
  from mqtt_drain [OF at(1,2,3), of example_client] at(4) p obtain c' where
    "mc_run example_client [MDrain 0 True, MDrain 0 False] c = Some c'"
    and "data_sent c' = []" and "fifo_list (mc_backlog c') = []"
    by auto
  with c show ?thesis by blast
qed

text \<open>
  The order of messages is not kept: a message handed over while the connection was down can be
  sent after a newer one of the same topic, which goes past the backlog. If the topic is retained,
  the broker is left with the older value.
\<close>

theorem mqtt_overtaking:
  assumes "\<not> cl_readOnly cfg" and "cl_maxBacklogSize cfg \<ge> 1"
  shows "\<exists>es c. mc_run cfg es (NewV5 cfg) = Some c \<and> offered cfg es = [old, new] \<and>
    data_sent c = [new, old] \<and> fifo_list (mc_backlog c) = []"
proof -
  let ?es = "[MPublish old False, MEnqueue 0, MConnectionUp, MDrain 0 True, MPublish new True,
    MDrain 0 True, MDrain 0 True]"
  have "\<exists>c. mc_run cfg ?es (NewV5 cfg) = Some c \<and> data_sent c = [new, old] \<and> fifo_list (mc_backlog c) = []"
    using assms
    by (simp add: mc_Publish_def NewV5_def NewFifo_def mc_Enqueue_def onConnectionUp_def drain_step_def
        Enqueue_def Dequeue_def accept_def data_sent_def map_filter_simps)
  moreover have "offered cfg ?es = [old, new]"
    using assms by simp
  ultimately show ?thesis by blast
qed

theorem mqtt_overtaking_witness:
  "\<exists>es c. mc_run example_client es (NewV5 example_client) = Some c \<and>
    offered example_client es = [availabilityMsg example_client ''1'', availabilityMsg example_client ''2''] \<and>
    data_sent c = [availabilityMsg example_client ''2'', availabilityMsg example_client ''1''] \<and>
    fifo_list (mc_backlog c) = []"
  by (rule mqtt_overtaking) (simp_all add: example_client_def)

fun routes :: "client_event list \<Rightarrow> string list" where
  "routes [] = []"
| "routes (MAddRoute t # es) = t # routes es"
| "routes (_ # es) = routes es"

lemma routes_append: "routes (es @ fs) = routes es @ routes fs"
  by (induction es rule: routes.induct) simp_all

lemma subscriptions_step:
  "mc_exec cfg e c = Some c' \<Longrightarrow> mc_subscriptions c' = mc_subscriptions c @ routes [e]"
  by (cases e)
    (auto simp: AddRoute_def onConnectionUp_def mc_Publish_def mc_Enqueue_def drain_step_def mc_Shutdown_def
      split: if_splits drainer.splits option.splits prod.splits)

lemma subscriptions_run:
  "mc_run cfg es c = Some c' \<Longrightarrow> mc_subscriptions c' = mc_subscriptions c @ routes es"
proof (induction es arbitrary: c)
  case (Cons e es)
  then obtain c1 where "mc_exec cfg e c = Some c1" and "mc_run cfg es c1 = Some c'"
    by (auto split: option.splits)
  with Cons.IH subscriptions_step show ?case
    using routes_append [of "[e]" es] by fastforce
qed simp

text \<open>
  Each time the connection comes up, one call of \<open>Subscribe\<close> names all routes added so far, in
  the order they were added. A message that arrives is handed to its route unchanged, except that
  with the option to log messages the client panics on every payload whose slice has a
  capacity below 80 bytes.
\<close>

theorem mqtt_routes:
  assumes "mc_run cfg (es @ [MConnectionUp]) (NewV5 cfg) = Some c" and "routes es \<noteq> []"
  shows "last (mc_subscribes c) = routes es \<and>
    route_handler cfg h topic pl =
      (if cl_logMessages cfg \<and> length (pl_bytes pl) + length (pl_spare pl) < 80 then None
       else Some (h topic (pl_bytes pl)))"
proof -
  obtain c1 where c1: "mc_run cfg es (NewV5 cfg) = Some c1" and c: "c = onConnectionUp c1"
    using assms(1) by (auto simp: mc_run_append split: option.splits)
  have "mc_subscriptions c1 = routes es"
    using subscriptions_run [OF c1] by (simp add: NewV5_def)
  then show ?thesis
    using assms(2) by (simp add: c onConnectionUp_def route_handler_def logged_payload_def)
qed

theorem mqtt_routes_witness:
  "\<exists>c. mc_run example_client ([MAddRoute ''a'', MAddRoute ''b''] @ [MConnectionUp]) (NewV5 example_client) = Some c \<and>
    last (mc_subscribes c) = [''a'', ''b''] \<and>
    route_handler (example_client\<lparr>cl_logMessages := True\<rparr>) (\<lambda>t p. p) ''a'' \<lparr>pl_bytes = ''on'', pl_spare = []\<rparr> = None"
proof -
  let ?cfg = "example_client\<lparr>cl_logMessages := True\<rparr>"
  obtain c where c: "mc_run example_client ([MAddRoute ''a'', MAddRoute ''b''] @ [MConnectionUp])
      (NewV5 example_client) = Some c" by simp
  obtain c2 where c2: "mc_run ?cfg ([MAddRoute ''a''] @ [MConnectionUp]) (NewV5 ?cfg) = Some c2" by simp
  have "last (mc_subscribes c) = [''a'', ''b'']"
    using mqtt_routes [OF c, of "\<lambda>t p. p" "''a''" "\<lparr>pl_bytes = ''on'', pl_spare = []\<rparr>"] by simp
  moreover have "route_handler ?cfg (\<lambda>t p. p) ''a'' \<lparr>pl_bytes = ''on'', pl_spare = []\<rparr> = None"
    using mqtt_routes [OF c2, of "\<lambda>t p. p" "''a''" "\<lparr>pl_bytes = ''on'', pl_spare = []\<rparr>"] by simp
  ultimately show ?thesis
    using c by blast
qed

end
