(* ===== verification/Victron_Device.thy ===== *)
theory Victron_Device
  imports Config_Devices Go_Float
begin

text \<open>
  src/victronDevice: solar chargers and battery monitors on the VE.Direct protocol, and two devices
  that fill random values for registers of the same kind. The registers, their lists and the
  protocol are of a third-party package: what the code uses of them is the record
  \<open>ve_register\<close>, the functions on lists the record \<open>register_lists\<close>, and the values a fetch
  hands to the handler an argument.
\<close>

section \<open>Registers\<close>

datatype ve_type = VeNumber | VeText | VeEnum | VeFieldList | VeOther

record ve_register =
  ve_Category :: string
  ve_Name :: string
  ve_Description :: string
  ve_Type :: ve_type
  ve_Sort :: int
  ve_Static :: bool
  ve_Writable :: bool
  ve_Factory :: "(int, string) gomap option" \<comment> \<open>of the registers that have the method\<close>
  ve_Uniter :: "string option"
  ve_Signed :: bool
  ve_Factor :: int
  ve_Offset :: f64

definition ve_RegisterType :: "ve_register \<Rightarrow> RegisterType" where
  "ve_RegisterType r =
     (case ve_Type r of
        VeNumber \<Rightarrow> NumberRegister
      | VeText \<Rightarrow> TextRegister
      | VeEnum \<Rightarrow> EnumRegister
      | VeFieldList \<Rightarrow> TextRegister
      | VeOther \<Rightarrow> UndefinedRegister)"

definition ve_Enum :: "ve_register \<Rightarrow> enum_map" where
  "ve_Enum r = ve_Factory r"

definition ve_Unit :: "ve_register \<Rightarrow> string" where
  "ve_Unit r = (case ve_Uniter r of Some u \<Rightarrow> u | None \<Rightarrow> '''')"

text \<open>The register a \<open>Register\<close> is to the rest of the program.\<close>

definition ve_reg :: "ve_register \<Rightarrow> register" where
  "ve_reg r =
     \<lparr>reg_category = ve_Category r, reg_name = ve_Name r, reg_description = ve_Description r,
      reg_type = ve_RegisterType r, reg_enum = ve_Enum r, reg_unit = ve_Unit r, reg_sort = ve_Sort r,
      reg_writable = ve_Writable r\<rparr>"

record 'l register_lists =
  rl_Filter :: "(ve_register \<Rightarrow> bool) \<Rightarrow> 'l \<Rightarrow> 'l"
  rl_Registers :: "'l \<Rightarrow> ve_register list"
  rl_Number :: "'l \<Rightarrow> ve_register list"
  rl_Text :: "'l \<Rightarrow> ve_register list"
  rl_Enum :: "'l \<Rightarrow> ve_register list"
  rl_Bmv :: 'l
  rl_Solar :: 'l

definition ve_addToRegisterDb :: "'l register_lists \<Rightarrow> 'l \<Rightarrow> device_action" where
  "ve_addToRegisterDb lib rl = AddRegisters (map ve_reg (rl_Registers lib rl))"

section \<open>The device\<close>

record victron_device =
  vi_State :: device_state
  vi_Config :: VictronDeviceConfig
  vi_model :: string

definition victron_NewDevice :: "device_config \<Rightarrow> VictronDeviceConfig \<Rightarrow> victron_device" where
  "victron_NewDevice deviceConfig victronConfig =
     \<lparr>vi_State = NewState deviceConfig, vi_Config = victronConfig, vi_model = ''''\<rparr>"

definition victron_Name :: "victron_device \<Rightarrow> string" where
  "victron_Name c = ds_Name (vi_State c)"

definition victron_filter :: "victron_device \<Rightarrow> ve_register \<Rightarrow> bool" where
  "victron_filter c r = RegisterFilter (dc_Filter (ds_config (vi_State c))) (ve_reg r)"

definition victron_avail :: "victron_device \<Rightarrow> bool \<Rightarrow> device_action" where
  "victron_avail c b = FillState (SetAvailable (vi_State c) b)"

datatype victron_status = VicRunning | VicReturned bool bool | VicPanicked
  \<comment> \<open>returned: with an error, and immediately\<close>

section \<open>Random values\<close>

text \<open>What the random generator returns during one tick, for each register.\<close>

record random_draw =
  rd_Float64 :: "ve_register \<Rightarrow> f64"
  rd_letters :: "ve_register \<Rightarrow> nat list"
  rd_pick :: "ve_register \<Rightarrow> nat"
  rd_order :: "(int \<times> string) list \<Rightarrow> (int \<times> string) list"

definition random_number :: "random_draw \<Rightarrow> ve_register \<Rightarrow> f64" where
  "random_number d r =
     (let hundred = F_Fin 100; u = rd_Float64 d r; factor = round_f64 (of_int (ve_Factor r))
      in f64_add
          (if ve_Signed r
           then f64_div (f64_mul (f64_mul hundred (f64_sub u (F_Fin (1 / 2)))) (F_Fin 2)) factor
           else f64_div (f64_mul hundred u) factor)
          (ve_Offset r))"

definition ve_random_letters :: string where
  "ve_random_letters = ''0123456789ABCDEFGHIJKLMNOPQRSTUVWXYZabcdefghijklmnopqrstuvwxyz-''"

definition ve_randomString :: "nat list \<Rightarrow> string" where
  "ve_randomString nums = map (\<lambda>num. ve_random_letters ! num) nums"

fun nth_key :: "nat \<Rightarrow> (int \<times> string) list \<Rightarrow> int" where
  "nth_key k [] = 0"
| "nth_key 0 ((idx, v) # m) = idx"
| "nth_key (Suc k) ((idx, v) # m) = nth_key k m"

definition randomEnum :: "random_draw \<Rightarrow> ve_register \<Rightarrow> int option" where
  \<comment> \<open>\<open>rand.Intn\<close> panics at zero: \<open>None\<close>\<close>
  "randomEnum d r =
     (let enum = enum_entries (ve_Factory r)
      in if enum = [] then None else Some (nth_key (rd_pick d r) (rd_order d enum)))"

fun random_enums :: "string \<Rightarrow> random_draw \<Rightarrow> ve_register list \<Rightarrow> bool \<times> device_action list" where
  \<comment> \<open>whether all could be drawn\<close>
  "random_enums nm d [] = (True, [])"
| "random_enums nm d (r # rs) =
     (case randomEnum d r of
        None \<Rightarrow> (False, [])
      | Some i \<Rightarrow>
          (let (ok, acts) = random_enums nm d rs in (ok, FillState (EnumRegisterValue nm (ve_reg r) i) # acts)))"

definition random_tick :: "'l register_lists \<Rightarrow> victron_device \<Rightarrow> 'l \<Rightarrow> random_draw \<Rightarrow> bool \<times> device_action list" where
  "random_tick lib c rl d =
     (let nm = victron_Name c;
          (ok, enums) = random_enums nm d (rl_Enum lib rl)
      in (ok,
          map (\<lambda>r. FillState (NumericRegisterValue nm (ve_reg r) (random_number d r))) (rl_Number lib rl) @
          map (\<lambda>r. FillState (TextRegisterValue nm (ve_reg r) (ve_randomString (rd_letters d r)))) (rl_Text lib rl) @
          enums))"

datatype random_event = RandomDone | RandomTick random_draw

fun random_loop ::
  "'l register_lists \<Rightarrow> victron_device \<Rightarrow> 'l \<Rightarrow> random_event list \<Rightarrow> victron_status \<times> device_action list" where
  "random_loop lib c rl [] = (VicRunning, [])"
| "random_loop lib c rl (RandomDone # es) = (VicReturned False False, [])"
| "random_loop lib c rl (RandomTick d # es) =
     (let (ok, acts) = random_tick lib c rl d
      in if \<not> ok then (VicPanicked, acts)
         else let (st, acts') = random_loop lib c rl es in (st, acts @ acts'))"

definition runRandom ::
  "'l register_lists \<Rightarrow> victron_device \<Rightarrow> 'l \<Rightarrow> random_event list \<Rightarrow> victron_status \<times> device_action list" where
  "runRandom lib c rl es =
     (let rl1 = rl_Filter lib (victron_filter c) rl;
          (st, acts) = random_loop lib c rl1 es
      in (st, [victron_avail c True, ve_addToRegisterDb lib rl1] @ acts @
              (if st = VicRunning then [] else [victron_avail c False])))"

section \<open>VE.Direct\<close>

datatype ve_value =
    VeNumberValue ve_register f64
  | VeTextValue ve_register string
  | VeEnumValue ve_register int
  | VeFieldListValue ve_register string \<comment> \<open>its \<open>CommaString\<close>\<close>

fun valueHandler :: "string \<Rightarrow> ve_value \<Rightarrow> val" where
  "valueHandler nm (VeNumberValue r x) = NumericRegisterValue nm (ve_reg r) x"
| "valueHandler nm (VeTextValue r s) = TextRegisterValue nm (ve_reg r) s"
| "valueHandler nm (VeEnumValue r i) = EnumRegisterValue nm (ve_reg r) i"
| "valueHandler nm (VeFieldListValue r s) = TextRegisterValue nm (ve_reg r) s"

text \<open>
  A fetch pings the device and streams the values of a list of registers to the handler; it fails
  after some values, possibly because the context is done, or tells how long it took.
\<close>

datatype fetch_result = FetchFailed bool | FetchTook duration

type_synonym 'l fetch = "'l \<Rightarrow> ve_value list \<times> fetch_result"
  \<comment> \<open>of the registers asked for\<close>

definition fetch_acts :: "victron_device \<Rightarrow> ve_value list \<Rightarrow> device_action list" where
  "fetch_acts c vs = map (\<lambda>v. FillState (valueHandler (victron_Name c) v)) vs"

text \<open>
  After a tick it fetches until a fetch took less than the poll interval. The result is the
  status, where the device returned, and the fetches that are left.
\<close>

fun fetch_until_fast ::
  "victron_device \<Rightarrow> duration \<Rightarrow> 'l \<Rightarrow> 'l fetch list \<Rightarrow>
     victron_status option \<times> device_action list \<times> 'l fetch list" where
  "fetch_until_fast c pollInterval regs [] = (Some VicRunning, [], [])"
| "fetch_until_fast c pollInterval regs (f # fs) =
     (case f regs of
        (vs, FetchFailed ctxDone) \<Rightarrow> (Some (VicReturned (\<not> ctxDone) False), fetch_acts c vs, fs)
      | (vs, FetchTook took) \<Rightarrow>
          if took < pollInterval then (None, fetch_acts c vs, fs)
          else let (st, acts, fs') = fetch_until_fast c pollInterval regs fs in (st, fetch_acts c vs @ acts, fs'))"

datatype vedirect_event = VedirectDone | VedirectTick

fun vedirect_loop ::
  "victron_device \<Rightarrow> 'l \<Rightarrow> vedirect_event list \<Rightarrow> 'l fetch list \<Rightarrow> victron_status \<times> device_action list" where
  "vedirect_loop c regs [] fs = (VicRunning, [])"
| "vedirect_loop c regs (VedirectDone # es) fs = (VicReturned False False, [])"
| "vedirect_loop c regs (VedirectTick # es) fs =
     (let (st, acts, fs1) = fetch_until_fast c (vd_pollInterval (vi_Config c)) regs fs
      in case st of
           Some s \<Rightarrow> (s, acts)
         | None \<Rightarrow> (let (s, acts') = vedirect_loop c regs es fs1 in (s, acts @ acts')))"

definition runVedirect ::
  "'l register_lists \<Rightarrow> (string \<times> 'l) option \<Rightarrow> victron_device \<Rightarrow> 'l fetch list \<Rightarrow> vedirect_event list \<Rightarrow>
     victron_status \<times> victron_device \<times> device_action list" where
  \<comment> \<open>the second argument: the product and its registers, where the port could be opened\<close>
  "runVedirect lib api c fetches es =
     (case api of
        None \<Rightarrow> (VicReturned True True, c, [])
      | Some (product, rl) \<Rightarrow>
          (let c1 = c\<lparr>vi_model := product\<rparr>;
               rl1 = rl_Filter lib (victron_filter c1) rl;
               nonStaticRegisters = rl_Filter lib (\<lambda>r. \<not> ve_Static r) rl1;
               start = [victron_avail c1 True, ve_addToRegisterDb lib rl1]
           in case fetches of
                [] \<Rightarrow> (VicRunning, c1, start)
              | f # fs \<Rightarrow>
                  (case f rl1 of
                     (vs, FetchFailed ctxDone) \<Rightarrow>
                       (VicReturned True True, c1, start @ fetch_acts c1 vs @ [victron_avail c1 False])
                   | (vs, FetchTook took) \<Rightarrow>
                       (let (st, acts) = vedirect_loop c1 nonStaticRegisters es fs
                        in (st, c1, start @ fetch_acts c1 vs @ acts @
                             (if st = VicRunning then [] else [victron_avail c1 False]))))))"

text \<open>What the run of a device depends on.\<close>

record 'l victron_env =
  vn_lib :: "'l register_lists"
  vn_random :: "random_event list"
  vn_api :: "(string \<times> 'l) option"
  vn_fetches :: "'l fetch list"
  vn_events :: "vedirect_event list"

definition victron_Run :: "'l victron_env \<Rightarrow> victron_device \<Rightarrow> victron_status \<times> victron_device \<times> device_action list" where
  "victron_Run env c =
     (case vd_kind (vi_Config c) of
        VictronVedirectKind \<Rightarrow> runVedirect (vn_lib env) (vn_api env) c (vn_fetches env) (vn_events env)
      | VictronRandomBmvKind \<Rightarrow>
          (let (st, acts) = runRandom (vn_lib env) c (rl_Bmv (vn_lib env)) (vn_random env) in (st, c, acts))
      | VictronRandomSolarKind \<Rightarrow>
          (let (st, acts) = runRandom (vn_lib env) c (rl_Solar (vn_lib env)) (vn_random env) in (st, c, acts))
      | VictronUndefinedKind \<Rightarrow> (VicReturned True True, c, []))"

end
