(* ===== verification/Victron_Proofs.thy ===== *)
theory Victron_Proofs
  imports Victron_Device
begin

text \<open>What a Victron device fills: values of registers it announced, which pass its filter.\<close>

section \<open>What the package promises\<close>

text \<open>
  Filtering a list keeps the registers with the property, and the lists of one type are those of
  the registers of that type; a fetch hands over values of registers it was asked for, of their type.
\<close>

definition lists_ok :: "'l register_lists \<Rightarrow> bool" where
  "lists_ok lib \<longleftrightarrow>
     (\<forall>P l. set (rl_Registers lib (rl_Filter lib P l)) = {r \<in> set (rl_Registers lib l). P r}) \<and>
     (\<forall>l. set (rl_Number lib l) = {r \<in> set (rl_Registers lib l). ve_Type r = VeNumber} \<and>
          set (rl_Text lib l) = {r \<in> set (rl_Registers lib l). ve_Type r = VeText} \<and>
          set (rl_Enum lib l) = {r \<in> set (rl_Registers lib l). ve_Type r = VeEnum})"

fun value_ok :: "ve_register list \<Rightarrow> ve_value \<Rightarrow> bool" where
  "value_ok rs (VeNumberValue r x) \<longleftrightarrow> r \<in> set rs \<and> ve_Type r = VeNumber"
| "value_ok rs (VeTextValue r s) \<longleftrightarrow> r \<in> set rs \<and> ve_Type r = VeText"
| "value_ok rs (VeEnumValue r i) \<longleftrightarrow> r \<in> set rs \<and> ve_Type r = VeEnum"
| "value_ok rs (VeFieldListValue r s) \<longleftrightarrow> r \<in> set rs \<and> ve_Type r = VeFieldList"

definition fetches_ok :: "'l register_lists \<Rightarrow> 'l fetch list \<Rightarrow> bool" where
  "fetches_ok lib fs \<longleftrightarrow> (\<forall>f \<in> set fs. \<forall>l. list_all (value_ok (rl_Registers lib l)) (fst (f l)))"

definition env_ok :: "'l victron_env \<Rightarrow> bool" where
  "env_ok env \<longleftrightarrow> lists_ok (vn_lib env) \<and> fetches_ok (vn_lib env) (vn_fetches env)"

section \<open>Fills\<close>

text \<open>A value of a register that was announced, which is one that passes the filter.\<close>

definition announced_fill :: "victron_device \<Rightarrow> ve_register list \<Rightarrow> device_action \<Rightarrow> bool" where
  "announced_fill c rs a \<longleftrightarrow>
     (case a of FillState v \<Rightarrow> well_typed v \<and> DeviceName v = victron_Name c \<and> val_reg v \<in> ve_reg ` set rs | _ \<Rightarrow> False)"

lemma ve_reg_type [simp]: "reg_type (ve_reg r) = ve_RegisterType r"
  by (simp add: ve_reg_def)

lemma handler_fill: "value_ok rs v \<Longrightarrow> announced_fill c rs (FillState (valueHandler (victron_Name c) v))"
  by (cases v) (auto simp: announced_fill_def ve_RegisterType_def)

lemma fetch_fills: "list_all (value_ok rs) vs \<Longrightarrow> list_all (announced_fill c rs) (fetch_acts c vs)"
  by (induction vs) (simp_all add: fetch_acts_def handler_fill)

lemma fetches_ok_Cons [simp]:
  "fetches_ok lib (f # fs) \<longleftrightarrow> (\<forall>l. list_all (value_ok (rl_Registers lib l)) (fst (f l))) \<and> fetches_ok lib fs"
  "fetches_ok lib []"
  by (simp_all add: fetches_ok_def)

lemma until_fast_fills:
  "fetches_ok lib fs \<Longrightarrow> fetch_until_fast c p regs fs = (st, acts, fs') \<Longrightarrow>
     list_all (announced_fill c (rl_Registers lib regs)) acts \<and> fetches_ok lib fs' \<and> st \<noteq> Some VicPanicked"
proof (induction fs arbitrary: acts)
  case (Cons f fs)
  obtain vs res where f: "f regs = (vs, res)" by fastforce
  have "list_all (announced_fill c (rl_Registers lib regs)) (fetch_acts c vs)"
    using Cons.prems(1) f by (intro fetch_fills) (metis fetches_ok_Cons(1) fst_conv)
  with Cons f show ?case
    by (cases res; cases "fetch_until_fast c p regs fs") (auto split: if_splits)
qed auto

lemma vedirect_loop_fills:
  "fetches_ok lib fs \<Longrightarrow>
     list_all (announced_fill c (rl_Registers lib regs)) (snd (vedirect_loop c regs es fs)) \<and>
     fst (vedirect_loop c regs es fs) \<noteq> VicPanicked"
proof (induction c regs es fs rule: vedirect_loop.induct)
  case (3 c regs es fs)
  obtain st acts fs1 where f: "fetch_until_fast c (vd_pollInterval (vi_Config c)) regs fs = (st, acts, fs1)"
    using prod_cases3 by blast
  note ok = until_fast_fills [OF 3(2) f]
  show ?case
    using ok 3(1) [OF f [symmetric] refl refl] by (cases st) (auto simp: f split_def Let_def)
qed simp_all

lemma announced_fill_mono:
  "list_all (announced_fill c rs) acts \<Longrightarrow> set rs \<subseteq> set rs' \<Longrightarrow> list_all (announced_fill c rs') acts"
proof -
  assume fills: "list_all (announced_fill c rs) acts" and "set rs \<subseteq> set rs'"
  then have sub: "r \<in> ve_reg ` set rs \<Longrightarrow> r \<in> ve_reg ` set rs'" for r
    by (meson image_mono subsetD)
  show ?thesis
    by (rule list.pred_mono_strong [OF fills]) (auto simp: announced_fill_def intro: sub split: device_action.splits)
qed

lemma random_enums_fills:
  "\<forall>r \<in> set rs. ve_Type r = VeEnum \<and> r \<in> set all \<Longrightarrow>
     list_all (announced_fill c all) (snd (random_enums (victron_Name c) d rs))"
  by (induction rs)
    (auto simp: announced_fill_def ve_RegisterType_def case_prod_beta Let_def split: option.splits)

lemma random_tick_fills:
  assumes "lists_ok lib"
  shows "list_all (announced_fill c (rl_Registers lib rl)) (snd (random_tick lib c rl d))"
  using assms random_enums_fills [of "rl_Enum lib rl" "rl_Registers lib rl" c d]
  by (auto simp: random_tick_def lists_ok_def announced_fill_def ve_RegisterType_def list_all_iff case_prod_beta Let_def)

lemma random_loop_fills:
  "lists_ok lib \<Longrightarrow> list_all (announced_fill c (rl_Registers lib rl)) (snd (random_loop lib c rl es))"
proof (induction lib c rl es rule: random_loop.induct)
  case (3 lib c rl d es)
  obtain ok acts where t: "random_tick lib c rl d = (ok, acts)" by fastforce
  from 3 random_tick_fills [OF 3(2), of c rl d] show ?case
    by (auto simp: t case_prod_beta Let_def)
qed simp_all

lemma random_enums_panic:
  "\<not> fst (random_enums nm d rs) \<Longrightarrow> \<exists>r \<in> set rs. enum_entries (ve_Factory r) = []"
  by (induction rs) (auto simp: randomEnum_def Let_def case_prod_beta split: option.splits if_splits)

lemma random_loop_panic:
  "fst (random_loop lib c rl es) = VicPanicked \<Longrightarrow> \<exists>r \<in> set (rl_Enum lib rl). enum_entries (ve_Factory r) = []"
proof (induction lib c rl es rule: random_loop.induct)
  case (3 lib c rl d es)
  then show ?case
    using random_enums_panic [of "victron_Name c" d "rl_Enum lib rl"]
    by (auto simp: random_tick_def case_prod_beta Let_def split: if_splits)
qed simp_all

section \<open>Runs\<close>

text \<open>
  What a device does after its start: the first fills are of any register announced, those of the
  polls only of a register that \<open>polled\<close> holds of.
\<close>

definition victron_run_ok ::
  "victron_device \<Rightarrow> (ve_register \<Rightarrow> bool) \<Rightarrow> victron_status \<Rightarrow> device_action list \<Rightarrow> bool" where
  "victron_run_ok c polled st acts \<longleftrightarrow>
     (\<exists>rs first polls. acts = [victron_avail c True, AddRegisters (map ve_reg rs)] @ first @ polls @
         (if st = VicRunning then [] else [victron_avail c False]) \<and>
       list_all (victron_filter c) rs \<and> list_all (announced_fill c rs) first \<and>
       list_all (announced_fill c (filter polled rs)) polls \<and>
       (st = VicPanicked \<longrightarrow> (\<exists>r \<in> set rs. ve_Type r = VeEnum \<and> enum_entries (ve_Factory r) = [])))"

lemma filtered_pass:
  "lists_ok lib \<Longrightarrow> list_all (victron_filter c) (rl_Registers lib (rl_Filter lib (victron_filter c) rl))"
  by (simp add: lists_ok_def list_all_iff)

lemma runRandom_ok:
  assumes "lists_ok lib" and "runRandom lib c rl es = (st, acts)"
  shows "victron_run_ok c (\<lambda>r. True) st acts"
proof -
  let ?rl = "rl_Filter lib (victron_filter c) rl"
  obtain fills where loop: "random_loop lib c ?rl es = (st, fills)"
    and acts: "acts = [victron_avail c True, AddRegisters (map ve_reg (rl_Registers lib ?rl))] @ fills @
      (if st = VicRunning then [] else [victron_avail c False])"
    using assms(2) by (auto simp: runRandom_def ve_addToRegisterDb_def case_prod_beta Let_def prod_eq_iff)
  have "st = VicPanicked \<longrightarrow> (\<exists>r \<in> set (rl_Registers lib ?rl). ve_Type r = VeEnum \<and> enum_entries (ve_Factory r) = [])"
    using random_loop_panic [of lib c ?rl es] loop assms(1) by (auto simp: lists_ok_def)
  with acts filtered_pass [OF assms(1)] random_loop_fills [OF assms(1), of c ?rl es] show ?thesis
    unfolding victron_run_ok_def
    by (intro exI [of _ "rl_Registers lib ?rl"] exI [of _ "[]"] exI [of _ fills]) (simp add: loop)
qed

lemma model_unchanged [simp]:
  "victron_filter (c\<lparr>vi_model := m\<rparr>) = victron_filter c"
  "victron_avail (c\<lparr>vi_model := m\<rparr>) = victron_avail c"
  "announced_fill (c\<lparr>vi_model := m\<rparr>) = announced_fill c"
  by (auto simp: victron_filter_def victron_avail_def announced_fill_def victron_Name_def fun_eq_iff
      split: device_action.splits)

lemma runVedirect_ok:
  assumes "lists_ok lib" and "fetches_ok lib fetches"
    and "runVedirect lib (Some (product, rl)) c fetches es = (st, c', acts)"
  shows "victron_run_ok c (\<lambda>r. \<not> ve_Static r) st acts \<and> c' = c\<lparr>vi_model := product\<rparr> \<and> st \<noteq> VicPanicked"
proof -
  let ?c = "c\<lparr>vi_model := product\<rparr>" and ?rl = "rl_Filter lib (victron_filter c) rl"
  let ?rs = "rl_Registers lib ?rl" and ?polled = "rl_Filter lib (\<lambda>r. \<not> ve_Static r) ?rl"
  have polled: "set (rl_Registers lib ?polled) \<subseteq> set (filter (\<lambda>r. \<not> ve_Static r) ?rs)"
    using assms(1) by (auto simp: lists_ok_def)
  have "\<exists>first polls. acts = [victron_avail c True, AddRegisters (map ve_reg ?rs)] @ first @ polls @
      (if st = VicRunning then [] else [victron_avail c False]) \<and> list_all (announced_fill c ?rs) first \<and>
      list_all (announced_fill c (filter (\<lambda>r. \<not> ve_Static r) ?rs)) polls \<and> c' = ?c \<and> st \<noteq> VicPanicked"
  proof (cases fetches)
    case Nil
    with assms(3) show ?thesis
      by (intro exI [of _ "[]"]) (auto simp: runVedirect_def ve_addToRegisterDb_def Let_def)
  next
    case (Cons f fs)
    obtain vs res where f: "f ?rl = (vs, res)" by fastforce
    have first: "list_all (announced_fill c ?rs) (fetch_acts ?c vs)"
      using fetch_fills [of ?rs vs ?c] assms(2) f by (simp add: Cons) (metis fst_conv)
    note rest = vedirect_loop_fills [of lib fs ?c ?polled es]
    show ?thesis
    proof (cases res)
      case (FetchFailed ctxDone)
      with assms(3) first show ?thesis
        by (intro exI [of _ "fetch_acts ?c vs"] exI [of _ "[]"])
          (auto simp: Cons runVedirect_def f ve_addToRegisterDb_def Let_def)
    next
      case (FetchTook took)
      with assms(2,3) first announced_fill_mono [OF conjunct1 [OF rest] polled] rest show ?thesis
        by (intro exI [of _ "fetch_acts ?c vs"] exI [of _ "snd (vedirect_loop ?c ?polled es fs)"])
          (auto simp: Cons runVedirect_def f ve_addToRegisterDb_def Let_def case_prod_beta)
    qed
  qed
  then show ?thesis
    using filtered_pass [OF assms(1), of c rl] unfolding victron_run_ok_def by blast
qed

section \<open>Properties\<close>

text \<open>
  C22: A Victron device first becomes available and announces registers, all of which pass its filter;
  then it fills only values of these registers, of the type the register declares; and it ends
  unavailable. On VE.Direct the values of the static registers are only filled by the first fetch.
  Only random values can make it panic, for an enum without labels.
\<close>

theorem victron_fills:
  assumes "victron_Run env c = (st, c', acts)" and "env_ok env"
  shows "(acts = [] \<and> st = VicReturned True True \<and> c' = c) \<or>
    (if vd_kind (vi_Config c) = VictronVedirectKind
     then victron_run_ok c (\<lambda>r. \<not> ve_Static r) st acts \<and> st \<noteq> VicPanicked \<and> map_option fst (vn_api env) = Some (vi_model c')
     else victron_run_ok c (\<lambda>r. True) st acts \<and> c' = c)"
proof (cases "vd_kind (vi_Config c)")
  case VictronVedirectKind
  show ?thesis
  proof (cases "vn_api env")
    case None
    with assms(1) VictronVedirectKind show ?thesis by (simp add: victron_Run_def runVedirect_def)
  next
    case (Some p)
    with assms VictronVedirectKind runVedirect_ok [of "vn_lib env" "vn_fetches env" "fst p" "snd p" c "vn_events env" st c' acts]
    show ?thesis
      by (auto simp: victron_Run_def env_ok_def)
  qed
qed (use assms runRandom_ok [of "vn_lib env" c _ "vn_random env" st acts] in
  \<open>auto simp: victron_Run_def env_ok_def case_prod_beta Let_def prod_eq_iff\<close>)

definition example_lists :: "ve_register list register_lists" where
  "example_lists =
     \<lparr>rl_Filter = filter, rl_Registers = (\<lambda>l. l), rl_Number = filter (\<lambda>r. ve_Type r = VeNumber),
      rl_Text = filter (\<lambda>r. ve_Type r = VeText), rl_Enum = filter (\<lambda>r. ve_Type r = VeEnum),
      rl_Bmv = [], rl_Solar = []\<rparr>"

definition voltage_register :: ve_register where
  "voltage_register =
     \<lparr>ve_Category = ''Essential'', ve_Name = ''MainVoltage'', ve_Description = ''Main voltage'', ve_Type = VeNumber,
      ve_Sort = 1, ve_Static = False, ve_Writable = False, ve_Factory = None, ve_Uniter = Some ''V'',
      ve_Signed = True, ve_Factor = 100, ve_Offset = F_Fin 0\<rparr>"

definition example_victron :: victron_device where
  "example_victron = victron_NewDevice
     \<lparr>dc_Name = ''bmv'', dc_Filter = \<lparr>IncludeRegisters = [], SkipRegisters = [], IncludeCategories = [],
        SkipCategories = [], DefaultInclude = True\<rparr>, dc_LogDebug = False, dc_LogComDebug = False\<rparr>
     \<lparr>vd_DeviceConfig = \<lparr>cd_name = ''bmv'', cd_filter = \<lparr>IncludeRegisters = [], SkipRegisters = [],
          IncludeCategories = [], SkipCategories = [], DefaultInclude = True\<rparr>, cd_restartInterval = second,
          cd_restartIntervalMaxBackoff = minute, cd_logDebug = False, cd_logComDebug = False\<rparr>,
        vd_device = ''/dev/ttyUSB0'', vd_kind = VictronVedirectKind, vd_pollInterval = second, vd_ioLog = ''''\<rparr>"

definition example_victron_env :: "ve_register list victron_env" where
  "example_victron_env =
     \<lparr>vn_lib = example_lists, vn_random = [], vn_api = Some (''BMV-712'', [voltage_register]),
      vn_fetches = [\<lambda>l. (map (\<lambda>r. VeNumberValue r (F_Fin 12)) (filter (\<lambda>r. ve_Type r = VeNumber) l), FetchTook millisecond),
        \<lambda>l. ([], FetchFailed True)],
      vn_events = [VedirectTick]\<rparr>"

theorem victron_fills_witness:
  "victron_run_ok example_victron (\<lambda>r. \<not> ve_Static r) (VicReturned False False)
     (snd (snd (victron_Run example_victron_env example_victron)))"
proof -
  have run: "fst (victron_Run example_victron_env example_victron) = VicReturned False False"
    by (simp add: victron_Run_def example_victron_env_def example_victron_def victron_NewDevice_def runVedirect_def
        Let_def)
  have kind: "vd_kind (vi_Config example_victron) = VictronVedirectKind"
    by (simp add: example_victron_def victron_NewDevice_def)
  have "env_ok example_victron_env"
    by (auto simp: env_ok_def example_victron_env_def lists_ok_def example_lists_def list_all_iff)
  moreover obtain c' acts where "victron_Run example_victron_env example_victron = (VicReturned False False, c', acts)"
    using run by (metis prod.collapse)
  ultimately show ?thesis
    using victron_fills [of example_victron_env example_victron "VicReturned False False" c' acts] by (simp add: kind)
qed

end
