(* ===== verification/Duration_String.thy ===== *)
theory Duration_String
  imports Go_Duration
begin

text \<open>
  \<open>time.Duration.String\<close>, which prints the durations of a configuration, and the proof that
  \<open>time.ParseDuration\<close> reads them back unchanged.
\<close>

section \<open>Printing\<close>

definition strip_zeros :: "string \<Rightarrow> string" where
  "strip_zeros s = rev (dropWhile (\<lambda>c. c = CHR ''0'') (rev s))"

definition fixed_digits :: "nat \<Rightarrow> nat \<Rightarrow> string" where
  \<comment> \<open>the last \<open>k\<close> digits of a number\<close>
  "fixed_digits k n = (let s = nat_dec (n mod 10 ^ k) in replicate (k - length s) (CHR ''0'') @ s)"

definition fmtFrac :: "nat \<Rightarrow> nat \<Rightarrow> string" where
  "fmtFrac u prec = (let s = strip_zeros (fixed_digits prec u) in if s = [] then [] else ''.'' @ s)"

definition unsigned_String :: "nat \<Rightarrow> string" where
  "unsigned_String u =
     (let part = (\<lambda>prec unit. nat_dec (u div 10 ^ prec) @ fmtFrac u prec @ unit)
      in if u = 0 then ''0s''
         else if u < 1000 then part 0 ''ns''
         else if u < 1000000 then part 3 [CHR 0xC2, CHR 0xB5, CHR ''s'']
         else if u < 1000000000 then part 6 ''ms''
         else let sec = u div 10 ^ 9; secs = nat_dec (sec mod 60) @ fmtFrac u 9 @ ''s''
              in if sec < 60 then secs
                 else if sec < 3600 then nat_dec (sec div 60) @ ''m'' @ secs
                 else nat_dec (sec div 3600) @ ''h'' @ nat_dec (sec div 60 mod 60) @ ''m'' @ secs)"

definition Duration_String :: "duration \<Rightarrow> string" where
  "Duration_String d = (if d < 0 then ''-'' else []) @ unsigned_String (nat \<bar>d\<bar>)"

section \<open>Exact float64 numbers\<close>

lemma bit_length_le: "0 \<le> i \<Longrightarrow> i < 2 ^ k \<Longrightarrow> bit_length i \<le> int k"
proof (induction k arbitrary: i)
  case 0
  then show ?case by (simp add: bit_length.simps [of i])
next
  case (Suc k)
  have "i div 2 < 2 ^ k"
    using Suc.prems(2) by simp
  with Suc.IH [of "i div 2"] Suc.prems(1) show ?case
    by (simp add: bit_length.simps [of i])
qed

lemma bit_length_1: "bit_length 1 = 1"
  by (simp add: bit_length.simps)

lemma round_f64_int:
  assumes "0 \<le> i" and "i < 2 ^ 53"
  shows "round_f64 (of_int i) = F_Fin (of_int i)"
proof (cases "i = 0")
  case False
  have e: "floor_log2 (of_int i) \<le> 52"
    using bit_length_le [OF assms] by (simp add: floor_log2_def Let_def bit_length_1)
  define u where "u = max (floor_log2 (of_int i) - 52) (- 1074)"
  have u: "u \<le> 0" using e by (simp add: u_def)
  then have "pow2 u = 1 / 2 ^ nat (- u)"
    by (cases "u = 0") (simp_all add: pow2_def)
  then have q: "rat_of_int i / pow2 u = of_int (i * 2 ^ nat (- u))" and p: "pow2 u > 0"
    by simp_all
  have big: "(2 :: rat) ^ 53 < pow2 1024"
    by (simp add: pow2_def)
  have less: "rat_of_int i < 2 ^ 53"
    using assms(2) by (metis of_int_less_iff of_int_numeral of_int_power)
  have v: "of_int (round_half_even (of_int i / pow2 u)) * pow2 u = rat_of_int i"
    unfolding q round_half_even_int using p by (simp add: \<open>pow2 u = 1 / 2 ^ nat (- u)\<close>)
  show ?thesis
    using False assms(1) less big v
    by (simp add: round_f64_def Let_def u_def [symmetric])
qed (simp add: round_f64_def)

lemma round_f64_nat:
  assumes "n < 2 ^ 53"
  shows "round_f64 (rat_of_nat n) = F_Fin (rat_of_nat n)"
proof -
  have "int n < 2 ^ 53"
    using assms by (metis of_nat_less_iff of_nat_numeral of_nat_power)
  then show ?thesis
    using round_f64_int [of "int n"] by (simp only: of_int_of_nat_eq of_nat_0_le_iff)
qed

section \<open>Reading digits\<close>

definition no_digit_first :: "string \<Rightarrow> bool" where
  "no_digit_first t \<longleftrightarrow> t = [] \<or> \<not> is_digit (hd t)"

lemma dec_nat_Nil [simp]: "dec_nat [] = 0"
  by (simp add: dec_nat_def)

lemma dec_nat_append: "dec_nat (s @ t) = dec_nat s * 10 ^ length t + dec_nat t"
  by (induction t rule: rev_induct)
    (simp_all add: dec_nat_snoc algebra_simps flip: append_assoc)

lemma dec_nat_Cons: "dec_nat (c # s) = digit_val c * 10 ^ length s + dec_nat s"
  using dec_nat_append [of "[c]" s] by (simp add: dec_nat_def)

lemma dec_nat_zeros [simp]: "dec_nat (replicate k (CHR ''0'')) = 0"
  by (induction k) (simp_all add: dec_nat_Cons digit_val_def)

lemma dec_nat_less: "list_all is_digit s \<Longrightarrow> dec_nat s < 10 ^ length s"
proof (induction s)
  case (Cons c s)
  then have "dec_nat s < 10 ^ length s" and "digit_val c < 10"
    using is_digit_val_less by simp_all
  then have "digit_val c * 10 ^ length s \<le> 9 * 10 ^ length s"
    by (intro mult_right_mono) simp_all
  with \<open>dec_nat s < 10 ^ length s\<close> show ?case
    unfolding dec_nat_Cons length_Cons power_Suc by linarith
qed simp

text \<open>\<open>leadingInt\<close> reads the digits up to the first other character.\<close>

lemma leadingInt_digits:
  assumes "list_all is_digit s" "no_digit_first t" "0 \<le> x"
    and "x * 10 ^ length s + int (dec_nat s) \<le> 2 ^ 63"
  shows "leadingInt x (s @ t) = Some (x * 10 ^ length s + int (dec_nat s), t)"
  using assms
proof (induction s arbitrary: x)
  case Nil
  then show ?case by (cases t) (simp_all add: no_digit_first_def)
next
  case (Cons c s)
  define y where "y = x * 10 + int (digit_val c)"
  have sum: "x * 10 ^ length (c # s) + int (dec_nat (c # s)) = y * 10 ^ length s + int (dec_nat s)"
    by (simp add: dec_nat_Cons y_def algebra_simps)
  have "y * 1 \<le> y * 10 ^ length s"
    using Cons.prems(3) by (intro mult_left_mono) (simp_all add: y_def)
  then have y: "y \<le> 2 ^ 63"
    using Cons.prems(4) unfolding sum by simp
  then have "x \<le> 2 ^ 63 div 10" by (simp add: y_def)
  then have "leadingInt x ((c # s) @ t) = leadingInt y (s @ t)"
    using Cons.prems(1) y by (simp add: y_def)
  also have "\<dots> = Some (y * 10 ^ length s + int (dec_nat s), t)"
    using Cons.prems Cons.prems(4) [unfolded sum] by (intro Cons.IH) (simp_all add: y_def)
  finally show ?case unfolding sum .
qed

lemma leadingInt_nat_dec:
  "no_digit_first t \<Longrightarrow> int n \<le> 2 ^ 63 \<Longrightarrow> leadingInt 0 (nat_dec n @ t) = Some (int n, t)"
  using leadingInt_digits [of "nat_dec n" t 0] by (simp add: nat_dec_digits)

text \<open>\<open>leadingFraction\<close> does so too, as long as the scale is exact; up to fifteen digits are.\<close>

lemma times_ten_power: "k < 15 \<Longrightarrow> times_ten (F_Fin (10 ^ k)) = F_Fin (10 ^ Suc k)"
proof -
  assume "k < 15"
  then have "(10 :: nat) ^ Suc k \<le> 10 ^ 15" by (intro power_increasing) simp_all
  also have "\<dots> < 2 ^ 53" by simp
  finally show ?thesis
    using round_f64_nat [of "10 ^ Suc k"] by (simp add: times_ten_def mult.commute)
qed

lemma leadingFraction_digits:
  assumes "list_all is_digit s" "no_digit_first t" "k + length s \<le> 15" "x < 10 ^ k"
  shows "leadingFraction (int x) (F_Fin (10 ^ k)) False (s @ t) =
    (int (x * 10 ^ length s + dec_nat s), F_Fin (10 ^ (k + length s)), t)"
  using assms
proof (induction s arbitrary: x k)
  case Nil
  then show ?case by (cases t) (simp_all add: no_digit_first_def)
next
  case (Cons c s)
  have d: "digit_val c < 10" using Cons.prems(1) is_digit_val_less by simp
  have k: "k < 15" using Cons.prems(3) by simp
  define y where "y = x * 10 + digit_val c"
  have y: "y < 10 ^ Suc k" using Cons.prems(4) d by (simp add: y_def)
  also have "\<dots> \<le> 10 ^ 15" using k by (intro power_increasing) simp_all
  finally have "int y < 10 ^ 15" by simp
  then have "int x \<le> (2 ^ 63 - 1) div 10" "int y \<le> 2 ^ 63"
    by (simp_all add: y_def)
  then have "leadingFraction (int x) (F_Fin (10 ^ k)) False ((c # s) @ t) =
      leadingFraction (int y) (F_Fin (10 ^ Suc k)) False (s @ t)"
    using Cons.prems(1) times_ten_power [OF k] by (simp add: y_def del: power_Suc)
  also have "\<dots> = (int (y * 10 ^ length s + dec_nat s), F_Fin (10 ^ (Suc k + length s)), t)"
    using Cons.prems y by (intro Cons.IH) simp_all
  finally show ?case by (simp add: y_def dec_nat_Cons algebra_simps)
qed

section \<open>The digits after the point\<close>

lemma strip_zeros_append: "\<exists>z. s = strip_zeros s @ replicate z (CHR ''0'')"
proof -
  have "rev s = takeWhile (\<lambda>c. c = CHR ''0'') (rev s) @ dropWhile (\<lambda>c. c = CHR ''0'') (rev s)"
    by simp
  then have "s = strip_zeros s @ rev (takeWhile (\<lambda>c. c = CHR ''0'') (rev s))"
    by (metis rev_append rev_rev_ident strip_zeros_def)
  moreover have "takeWhile (\<lambda>c. c = CHR ''0'') (rev s) =
      replicate (length (takeWhile (\<lambda>c. c = CHR ''0'') (rev s))) (CHR ''0'')"
    by (rule replicate_eqI [symmetric, THEN sym]) (auto dest: set_takeWhileD)
  ultimately show ?thesis by (metis rev_replicate)
qed

lemma length_nat_dec: "n < 10 ^ k \<Longrightarrow> 0 < k \<Longrightarrow> length (nat_dec n) \<le> k"
proof (induction k arbitrary: n)
  case (Suc k)
  show ?case
  proof (cases "n < 10")
    case True
    then show ?thesis by (simp add: nat_dec.simps [of n])
  next
    case False
    have "n div 10 < 10 ^ k"
      using Suc.prems(1) by (simp add: less_mult_imp_div_less mult.commute)
    moreover have "0 < k"
      using False Suc.prems(1) by (cases k) simp_all
    ultimately have "length (nat_dec (n div 10)) \<le> k"
      by (rule Suc.IH)
    then show ?thesis using False by (simp add: nat_dec.simps [of n])
  qed
qed simp

lemma zeros_digits: "list_all is_digit (replicate k (CHR ''0''))"
  by (induction k) (simp_all add: is_digit_def)

lemma fixed_digits:
  assumes "0 < k"
  shows "list_all is_digit (fixed_digits k n)" "length (fixed_digits k n) = k"
    "dec_nat (fixed_digits k n) = n mod 10 ^ k"
  using length_nat_dec [of "n mod 10 ^ k" k] assms
  by (simp_all add: fixed_digits_def Let_def nat_dec_digits dec_nat_append zeros_digits)

text \<open>The stripped digits stand for the same fraction.\<close>

lemma stripped_digits:
  assumes "0 < k"
  obtains z where "length (strip_zeros (fixed_digits k n)) + z = k"
    and "dec_nat (strip_zeros (fixed_digits k n)) * 10 ^ z = n mod 10 ^ k"
    and "list_all is_digit (strip_zeros (fixed_digits k n))"
proof -
  let ?s = "strip_zeros (fixed_digits k n)"
  obtain z where z: "fixed_digits k n = ?s @ replicate z (CHR ''0'')"
    using strip_zeros_append by blast
  have "length ?s + z = k" "dec_nat ?s * 10 ^ z = n mod 10 ^ k" "list_all is_digit ?s"
    using arg_cong [OF z, of length] arg_cong [OF z, of dec_nat] arg_cong [OF z, of "list_all is_digit"]
    by (simp_all add: fixed_digits [OF assms] dec_nat_append)
  then show thesis by (rule that)
qed

lemma fraction_value_exact:
  assumes "f * 10 ^ z < 2 ^ 53" "0 < f"
  shows "fraction_value (int f) (10 ^ (k + z)) (F_Fin (10 ^ k)) = int (f * 10 ^ z)"
proof -
  have f: "f < 2 ^ 53" and z: "10 ^ z < (2 :: nat) ^ 53"
    using assms by (metis le_less_trans mult.right_neutral mult_le_mono2 one_le_power one_le_numeral,
        metis le_less_trans mult.commute mult.right_neutral mult_le_mono2 Suc_leI One_nat_def)
  have q: "rat_of_int (10 ^ (k + z)) / 10 ^ k = rat_of_nat (10 ^ z)"
    by (simp add: power_add)
  have p: "rat_of_nat f * rat_of_nat (10 ^ z) = rat_of_nat (f * 10 ^ z)"
    by simp
  have i: "rat_of_int (int f) = rat_of_nat f" by simp
  show ?thesis
    by (simp only: fraction_value_def Let_def f64.case q i round_f64_nat [OF f] round_f64_nat [OF z]
        f64_num.simps p round_f64_nat [OF assms(1)] floor_of_nat)
qed

section \<open>Reading one number with its unit\<close>

definition unit_name :: "string \<Rightarrow> int \<Rightarrow> bool" where
  "unit_name un unit \<longleftrightarrow> un \<noteq> [] \<and> list_all (\<lambda>c. \<not> number_char c) un \<and>
     map_of unitMap un = Some unit \<and> 0 < unit"

definition number_first :: "string \<Rightarrow> bool" where
  "number_first rest \<longleftrightarrow> rest = [] \<or> number_char (hd rest)"

lemma unit_names:
  "unit_name ''ns'' (10 ^ 0)" "unit_name [CHR 0xC2, CHR 0xB5, CHR ''s''] (10 ^ 3)"
  "unit_name ''ms'' (10 ^ 6)" "unit_name ''s'' (10 ^ 9)"
  "unit_name ''m'' 60000000000" "unit_name ''h'' 3600000000000"
  by (simp_all add: unit_name_def unitMap_def number_char_def is_digit_def)

lemma number_first_simps [simp]: "number_first []" "number_first (nat_dec n @ s)"
  using nat_dec_digits [of n] by (cases "nat_dec n"; simp add: number_first_def number_char_def)+

lemma unit_split:
  assumes "unit_name un unit" "number_first rest"
  shows "takeWhile (\<lambda>c. \<not> number_char c) (un @ rest) = un"
    and "dropWhile (\<lambda>c. \<not> number_char c) (un @ rest) = rest"
proof -
  have "takeWhile (\<lambda>c. \<not> number_char c) (un @ rest) = un @ takeWhile (\<lambda>c. \<not> number_char c) rest"
    and "dropWhile (\<lambda>c. \<not> number_char c) (un @ rest) = dropWhile (\<lambda>c. \<not> number_char c) rest"
    using assms(1) by (simp_all add: unit_name_def list_all_iff takeWhile_append2 dropWhile_append2)
  moreover have "takeWhile (\<lambda>c. \<not> number_char c) rest = [] \<and> dropWhile (\<lambda>c. \<not> number_char c) rest = rest"
    using assms(2) by (cases rest) (simp_all add: number_first_def)
  ultimately show "takeWhile (\<lambda>c. \<not> number_char c) (un @ rest) = un"
    and "dropWhile (\<lambda>c. \<not> number_char c) (un @ rest) = rest"
    by simp_all
qed

lemma unit_first:
  assumes "unit_name un unit"
  obtains c s where "un = c # s" "\<not> number_char c" "\<not> is_digit c" "c \<noteq> CHR ''.''"
  using assms by (cases un) (auto simp: unit_name_def number_char_def)

lemma duration_term_step:
  assumes un: "unit_name un unit" and rest: "number_first rest"
    and s: "s = c # t" "number_char c" "leadingInt 0 s = Some (v, s1)" "length s \<noteq> length s1"
    and fp: "fraction_part s1 = (f, scale, un @ rest)" and v: "v * unit \<le> 2 ^ 63"
  shows "duration_term s =
    (let w = v * unit + (if f > 0 then fraction_value f unit scale else 0)
     in if f > 0 \<and> w > 2 ^ 63 then None else Some (w, rest))"
proof -
  have unit: "0 < unit" "map_of unitMap un = Some unit" "un \<noteq> []"
    using un by (simp_all add: unit_name_def)
  have "v * unit div unit \<le> 2 ^ 63 div unit"
    using v unit(1) by (rule zdiv_mono1)
  then have le: "\<not> v > 2 ^ 63 div unit"
    using unit(1) by simp
  have "leadingInt 0 (c # t) = Some (v, s1)" "length s1 \<noteq> Suc (length t)"
    using s by simp_all
  then show ?thesis
    using le unit(3) s(2)
    by (simp add: duration_term_def s(1) fp unit_split [OF un rest] unit(2) Let_def
        del: leadingInt.simps takeWhile_eq_Nil_iff)
qed

lemma duration_term_whole:
  assumes un: "unit_name un unit" and rest: "number_first rest" and v: "int v * unit \<le> 2 ^ 63"
  shows "duration_term (nat_dec v @ un @ rest) = Some (int v * unit, rest)"
proof -
  obtain c s where c: "un = c # s" "\<not> number_char c" "\<not> is_digit c" "c \<noteq> CHR ''.''"
    using un by (rule unit_first)
  have "int v * 1 \<le> int v * unit"
    using un by (intro mult_left_mono) (simp_all add: unit_name_def)
  then have li: "leadingInt 0 (nat_dec v @ un @ rest) = Some (int v, un @ rest)"
    using v c by (intro leadingInt_nat_dec) (simp_all add: no_digit_first_def)
  have fp: "fraction_part (un @ rest) = (0, F_Fin 1, un @ rest)"
    using c by (simp add: fraction_part_def)
  obtain d ds where d: "nat_dec v = d # ds" "is_digit d"
    using nat_dec_digits [of v] by (cases "nat_dec v") simp_all
  show ?thesis
    using duration_term_step [OF un rest _ _ li _ fp v, of d "ds @ un @ rest"] d
    by (simp add: number_char_def)
qed

lemma fmtFrac_cases:
  assumes "0 < k"
  obtains "fmtFrac n k = []" "n mod 10 ^ k = 0"
  | f j z where "fmtFrac n k = ''.'' @ f" "list_all is_digit f" "length f = j" "j + z = k"
      "dec_nat f * 10 ^ z = n mod 10 ^ k"
proof -
  obtain z where z: "length (strip_zeros (fixed_digits k n)) + z = k"
    "dec_nat (strip_zeros (fixed_digits k n)) * 10 ^ z = n mod 10 ^ k"
    "list_all is_digit (strip_zeros (fixed_digits k n))"
    using stripped_digits [OF assms] by blast
  show thesis
  proof (cases "strip_zeros (fixed_digits k n) = []")
    case True
    with z(2) show thesis by (intro that(1)) (simp_all add: fmtFrac_def)
  next
    case False
    then show thesis
      using z by (intro that(2) [of "strip_zeros (fixed_digits k n)"]) (simp_all add: fmtFrac_def)
  qed
qed

lemma int_le_2_63: "n \<le> 2 ^ 63 \<Longrightarrow> int n \<le> 2 ^ 63"
  by simp

lemma duration_term_frac:
  assumes un: "unit_name un (10 ^ k)" and rest: "number_first rest" and k: "0 < k" "k \<le> 9"
    and v: "v * 10 ^ k + n mod 10 ^ k \<le> 2 ^ 63"
  shows "duration_term (nat_dec v @ fmtFrac n k @ un @ rest) = Some (int (v * 10 ^ k + n mod 10 ^ k), rest)"
  using k(1)
proof (cases rule: fmtFrac_cases [of k n])
  case 1
  have "int v * 10 ^ k \<le> 2 ^ 63"
    using int_le_2_63 [of "v * 10 ^ k"] v 1(2) by simp
  then show ?thesis
    using duration_term_whole [OF un rest, of v] 1 by simp
next
  case (2 f j z)
  obtain c s where c: "un = c # s" "\<not> number_char c" "\<not> is_digit c" "c \<noteq> CHR ''.''"
    using un by (rule unit_first)
  have vk: "int v * 10 ^ k \<le> 2 ^ 63"
    using int_le_2_63 [of "v * 10 ^ k"] v by simp
  have "int v * 1 \<le> int v * 10 ^ k"
    by (intro mult_left_mono) simp_all
  then have li: "leadingInt 0 (nat_dec v @ (''.'' @ f @ un @ rest)) = Some (int v, ''.'' @ f @ un @ rest)"
    using vk by (intro leadingInt_nat_dec) (simp_all add: no_digit_first_def is_digit_def)
  have fp: "fraction_part (''.'' @ f @ un @ rest) = (int (dec_nat f), F_Fin (10 ^ j), un @ rest)"
    using leadingFraction_digits [of f "un @ rest" 0 0] 2 c k
    by (simp add: fraction_part_def no_digit_first_def)
  obtain d ds where d: "nat_dec v = d # ds" "is_digit d"
    using nat_dec_digits [of v] by (cases "nat_dec v") simp_all
  have "n mod 10 ^ k < 10 ^ k" by simp
  also have "\<dots> \<le> 10 ^ 9" using k(2) by (intro power_increasing) simp_all
  finally have small: "dec_nat f * 10 ^ z < 2 ^ 53" by (simp add: 2(5))
  have fv: "fraction_value (int (dec_nat f)) (10 ^ k) (F_Fin (10 ^ j)) = int (n mod 10 ^ k)"
    if "0 < dec_nat f"
    using fraction_value_exact [OF small that, of j] 2(4,5) by simp
  have w: "int v * 10 ^ k + (if 0 < int (dec_nat f) then fraction_value (int (dec_nat f)) (10 ^ k) (F_Fin (10 ^ j)) else 0) =
      int (v * 10 ^ k + n mod 10 ^ k)"
    using fv 2(5) by (cases "dec_nat f = 0") simp_all
  have le: "\<not> int (v * 10 ^ k + n mod 10 ^ k) > 2 ^ 63"
    using int_le_2_63 [OF v] by (simp only: not_less)
  have "duration_term (nat_dec v @ (''.'' @ f @ un @ rest)) =
     (let w = int v * 10 ^ k + (if 0 < int (dec_nat f) then fraction_value (int (dec_nat f)) (10 ^ k) (F_Fin (10 ^ j)) else 0)
      in if 0 < int (dec_nat f) \<and> w > 2 ^ 63 then None else Some (w, rest))"
    using d by (intro duration_term_step [OF un rest _ _ li _ fp vk, of d "ds @ ''.'' @ f @ un @ rest"])
      (simp_all add: number_char_def)
  then show ?thesis
    unfolding w Let_def using le 2(1) by simp
qed

section \<open>The round trip\<close>

text \<open>A text that starts with a number is one term and what follows.\<close>

lemma duration_terms_step:
  assumes "duration_term s = Some (v, t)" "s \<noteq> []" "0 \<le> d + v" "d + v \<le> 2 ^ 63"
  shows "duration_terms d s = duration_terms (d + v) t"
  using assms by (simp add: duration_terms.simps [of d s] Let_def)

lemma duration_terms_Nil [simp]: "duration_terms d [] = Some d"
  by (simp add: duration_terms.simps [of d "[]"])

lemma duration_terms_frac:
  assumes "unit_name un (10 ^ k)" "0 < k" "k \<le> 9" "0 \<le> d"
    and "d + int (v * 10 ^ k + n mod 10 ^ k) \<le> 2 ^ 63"
  shows "duration_terms d (nat_dec v @ fmtFrac n k @ un) = Some (d + int (v * 10 ^ k + n mod 10 ^ k))"
proof -
  have "int (v * 10 ^ k + n mod 10 ^ k) \<le> int (2 ^ 63)"
    using assms(4,5) by (simp only: of_nat_power of_nat_numeral)
  then have "v * 10 ^ k + n mod 10 ^ k \<le> 2 ^ 63"
    by (simp only: of_nat_le_iff)
  then have "duration_term (nat_dec v @ fmtFrac n k @ un) = Some (int (v * 10 ^ k + n mod 10 ^ k), [])"
    using duration_term_frac [OF assms(1) _ assms(2,3), of "[]" v n] by simp
  from duration_terms_step [OF this _ _ assms(5)] assms(4) show ?thesis by simp
qed

lemma duration_terms_whole:
  assumes "unit_name un unit" "0 \<le> d" "d + int v * unit \<le> 2 ^ 63" "number_first rest"
  shows "duration_terms d (nat_dec v @ un @ rest) = duration_terms (d + int v * unit) rest"
proof -
  have "0 \<le> int v * unit" using assms(1) by (simp add: unit_name_def)
  moreover have "int v * unit \<le> 2 ^ 63" using assms(2,3) by linarith
  ultimately show ?thesis
    using duration_terms_step [OF duration_term_whole [OF assms(1,4)], of v d] assms(2,3) by simp
qed

lemma unsigned_String_terms:
  assumes "u \<le> 2 ^ 63"
  shows "duration_terms 0 (unsigned_String u) = Some (int u)"
proof -
  have u: "int u \<le> 2 ^ 63" using assms by (rule int_le_2_63)
  have part: "duration_terms 0 (nat_dec (u div 10 ^ k) @ fmtFrac u k @ un) = Some (int u)"
    if "unit_name un (10 ^ k)" "0 < k" "k \<le> 9" for un k
    using duration_terms_frac [OF that, of 0 "u div 10 ^ k" u] u unfolding div_mult_mod_eq by simp
  define sec where "sec = u div 10 ^ 9"
  define secs where "secs = nat_dec (sec mod 60) @ fmtFrac u 9 @ ''s''"
  have useq: "int u = int sec * 10 ^ 9 + int (u mod 10 ^ 9)"
    by (simp add: sec_def of_nat_div of_nat_mod)
  have secs: "duration_terms d secs = Some (d + int (sec mod 60) * 10 ^ 9 + int (u mod 10 ^ 9))"
    if "0 \<le> d" "d + int (sec mod 60) * 10 ^ 9 + int (u mod 10 ^ 9) \<le> 2 ^ 63" for d
    using duration_terms_frac [OF unit_names(4), of d "sec mod 60" u] that
    by (simp add: secs_def add.assoc)
  have sfirst: "number_first secs" by (simp add: secs_def)
  have str: "unsigned_String u =
      (if sec < 60 then secs
       else if sec < 3600 then nat_dec (sec div 60) @ ''m'' @ secs
       else nat_dec (sec div 3600) @ ''h'' @ nat_dec (sec div 60 mod 60) @ ''m'' @ secs)"
    if "10 ^ 9 \<le> u"
    using that by (simp add: unsigned_String_def Let_def sec_def secs_def)
  consider "u < 10 ^ 9" | "10 ^ 9 \<le> u" "sec < 60" | "10 ^ 9 \<le> u" "60 \<le> sec" "sec < 3600"
    | "10 ^ 9 \<le> u" "3600 \<le> sec" by linarith
  then show ?thesis
  proof cases
    case 1
    have z: "fmtFrac u 0 = []"
      by (simp add: fmtFrac_def fixed_digits_def nat_dec.simps digit_char_def strip_zeros_def)
    have "duration_terms 0 ''0s'' = Some 0"
      using duration_terms_whole [OF unit_names(4), of 0 0 "[]"]
      by (simp add: nat_dec.simps digit_char_def)
    moreover have "duration_terms 0 (nat_dec u @ fmtFrac u 0 @ ''ns'') = Some (int u)"
      using duration_terms_whole [OF unit_names(1), of 0 u "[]"] u by (simp add: z)
    ultimately show ?thesis
      using 1 part [OF unit_names(2)] part [OF unit_names(3)]
      by (simp add: unsigned_String_def Let_def)
  next
    case 2
    then have "sec mod 60 = sec" by simp
    with 2 show ?thesis using secs [of 0] useq u by (simp add: str)
  next
    case 3
    have split: "int sec = int (sec div 60) * 60 + int (sec mod 60)"
      by (simp add: of_nat_div of_nat_mod)
    have "duration_terms 0 (nat_dec (sec div 60) @ ''m'' @ secs) =
        duration_terms (int (sec div 60) * 60000000000) secs"
      using duration_terms_whole [OF unit_names(5), of 0 "sec div 60" secs] sfirst useq u split by simp
    also have "\<dots> = Some (int u)"
      using secs [of "int (sec div 60) * 60000000000"] useq u split by simp
    finally show ?thesis using 3 by (simp add: str)
  next
    case 4
    let ?h = "int (sec div 3600) * 3600000000000" and ?m = "int (sec div 60 mod 60) * 60000000000"
    have split: "int sec = int (sec div 3600) * 3600 + int (sec div 60 mod 60) * 60 + int (sec mod 60)"
    proof -
      have "sec div 60 = sec div 3600 * 60 + sec div 60 mod 60"
        using div_mult_mod_eq [of "sec div 60" 60] by (simp add: div_mult2_eq [of sec 60 60, simplified])
      then have "sec = (sec div 3600 * 60 + sec div 60 mod 60) * 60 + sec mod 60"
        using div_mult_mod_eq [of sec 60] by simp
      from arg_cong [OF this, of int] show ?thesis by simp
    qed
    have "duration_terms 0 (nat_dec (sec div 3600) @ ''h'' @ nat_dec (sec div 60 mod 60) @ ''m'' @ secs) =
        duration_terms ?h (nat_dec (sec div 60 mod 60) @ ''m'' @ secs)"
      using duration_terms_whole [OF unit_names(6), of 0 "sec div 3600"
        "nat_dec (sec div 60 mod 60) @ ''m'' @ secs"] useq u split by simp
    also have "\<dots> = duration_terms (?h + ?m) secs"
      using duration_terms_whole [OF unit_names(5), of ?h "sec div 60 mod 60" secs] sfirst useq u split
      by simp
    also have "\<dots> = Some (int u)"
      using secs [of "?h + ?m"] useq u split by simp
    finally show ?thesis using 4 by (simp add: str)
  qed
qed

lemma unsigned_String_first: "\<exists>c d e. unsigned_String u = c # d # e \<and> is_digit c"
proof -
  have "\<exists>c d e. nat_dec n @ x = c # d # e \<and> is_digit c" if "x \<noteq> []" for n x
    using nat_dec_digits [of n] that by (cases "nat_dec n"; cases "tl (nat_dec n)"; cases x) auto
  then show ?thesis
    by (simp add: unsigned_String_def Let_def) (simp add: is_digit_def)
qed

lemma ParseDuration_String:
  assumes "in_i64 d"
  shows "ParseDuration (Duration_String d) = Some d"
proof -
  let ?u = "nat \<bar>d\<bar>"
  have u: "?u \<le> 2 ^ 63"
    using assms by (auto simp: in_i64_def max_i64_def min_i64_def)
  obtain c c' cs where first: "unsigned_String ?u = c # c' # cs" "is_digit c"
    using unsigned_String_first by blast
  have "signed_duration (d < 0) (int ?u) = Some d"
  proof (cases "d = - (2 ^ 63)")
    case True
    then show ?thesis by (simp add: signed_duration_def wrap_i64_def)
  next
    case False
    then have "wrap_i64 (- d) = - d" "wrap_i64 d = d"
      using assms by (auto intro!: wrap_i64_id simp: in_i64_def max_i64_def min_i64_def)
    then show ?thesis
      using assms by (auto simp: signed_duration_def in_i64_def max_i64_def min_i64_def)
  qed
  then show ?thesis
    using first unsigned_String_terms [OF u]
    by (auto simp: ParseDuration_def Duration_String_def number_char_def is_digit_def)
qed

end
