(* ===== verification/Config_Print.thy ===== *)
theory Config_Print
  imports Config_Proofs Duration_String
begin

text \<open>
  src/config/marshaler.go: the conversion of a configuration back to the records it is read
  from, which \<open>PrintConfig\<close> writes to the log as \<open>the following config\<close>. Encoding the records as
  YAML text is left out. \<open>URL.String\<close> is the parameter \<open>us\<close>; it panics for a nil pointer
  (\<open>None\<close>). Then, for each section, what its transformation makes of the printed section.
\<close>

section \<open>Lists and maps\<close>

definition convertMapToRead :: "('i \<Rightarrow> string) \<Rightarrow> ('i \<Rightarrow> 'o) \<Rightarrow> 'i list \<Rightarrow> (string, 'o) gomap" where
  "convertMapToRead nm conv inp = foldl (\<lambda>oup c. AList.update (nm c) (conv c) oup) [] inp"

definition convertListToRead :: "('i \<Rightarrow> 'o) \<Rightarrow> 'i list \<Rightarrow> 'o list" where
  "convertListToRead conv inp = map conv inp"

text \<open>The same with a conversion that may panic.\<close>

definition convertMapToReadP ::
  "('i \<Rightarrow> string) \<Rightarrow> ('i \<Rightarrow> 'o option) \<Rightarrow> 'i list \<Rightarrow> (string, 'o) gomap option" where
  "convertMapToReadP nm conv inp =
     foldl (\<lambda>oup c. case (oup, conv c) of
              (Some m, Some r) \<Rightarrow> Some (AList.update (nm c) r m)
            | _ \<Rightarrow> None) (Some []) inp"

section \<open>Devices\<close>

definition filter_toRead :: "filter_conf \<Rightarrow> filterConfigRead" where
  "filter_toRead c =
     \<lparr>fr_IncludeRegisters = IncludeRegisters c, fr_SkipRegisters = SkipRegisters c,
      fr_IncludeCategories = IncludeCategories c, fr_SkipCategories = SkipCategories c,
      fr_DefaultInclude = Some (DefaultInclude c)\<rparr>"

definition modbus_toRead :: "ModbusConfig \<Rightarrow> modbusConfigRead" where
  "modbus_toRead c =
     \<lparr>mbr_Device = mb_device c, mbr_BaudRate = mb_baudRate c,
      mbr_ReadTimeout = Duration_String (mb_readTimeout c), mbr_LogDebug = Some (mb_logDebug c)\<rparr>"

definition device_toRead :: "DeviceConfig \<Rightarrow> deviceConfigRead" where
  "device_toRead c =
     \<lparr>dr_Filter = filter_toRead (cd_filter c),
      dr_RestartInterval = Duration_String (cd_restartInterval c),
      dr_RestartIntervalMaxBackoff = Duration_String (cd_restartIntervalMaxBackoff c),
      dr_LogDebug = Some (cd_logDebug c), dr_LogComDebug = Some (cd_logComDebug c)\<rparr>"

definition victron_toRead :: "VictronDeviceConfig \<Rightarrow> victronDeviceConfigRead" where
  "victron_toRead c =
     \<lparr>vr_device = device_toRead (vd_DeviceConfig c), vr_Device = vd_device c,
      vr_Kind = VictronDeviceKind_String (vd_kind c),
      vr_PollInterval = Duration_String (vd_pollInterval c), vr_IoLog = Some (vd_ioLog c)\<rparr>"

definition relay_toRead :: "relay_config \<Rightarrow> relayConfigRead" where
  "relay_toRead c =
     \<lparr>rr_Description = Some (rc_description c), rr_OpenLabel = Some (rc_openLabel c),
      rr_ClosedLabel = Some (rc_closedLabel c)\<rparr>"

definition hex_digit :: "nat \<Rightarrow> char" where
  "hex_digit n = ''0123456789abcdef'' ! n"

definition address_String :: "byte \<Rightarrow> string" where
  \<comment> \<open>the verb \<open>0x%02x\<close>\<close>
  "address_String b = ''0x'' @ [hex_digit (unat b div 16), hex_digit (unat b mod 16)]"

definition relays_toRead ::
  "((string \<times> relay_config) list \<Rightarrow> (string \<times> relay_config) list) \<Rightarrow>
     (string, relay_config) gomap \<Rightarrow> (string, relayConfigRead) gomap" where
  "relays_toRead it inp = foldl (\<lambda>oup (k, v). AList.update k (relay_toRead v) oup) [] (it inp)"

definition modbusDevice_toRead ::
  "((string \<times> relay_config) list \<Rightarrow> (string \<times> relay_config) list) \<Rightarrow> ModbusDeviceConfig \<Rightarrow>
     modbusDeviceConfigRead" where
  "modbusDevice_toRead it c =
     \<lparr>mr_device = device_toRead (md_DeviceConfig c), mr_Bus = mc_Bus (md_ModbusConfig c),
      mr_Kind = ModbusDeviceKind_String (mc_Kind (md_ModbusConfig c)),
      mr_Address = address_String (mc_Address (md_ModbusConfig c)),
      mr_Relays = relays_toRead it (mc_relays (md_ModbusConfig c)),
      mr_PollInterval = Duration_String (mc_PollInterval (md_ModbusConfig c))\<rparr>"

definition pin_toRead :: "PinConfig \<Rightarrow> pinConfigRead" where
  "pin_toRead c =
     \<lparr>pr_Pin = pin_pin c, pr_Description = Some (pin_description c),
      pr_LowLabel = Some (pin_lowLabel c), pr_HighLabel = Some (pin_highLabel c)\<rparr>"

definition gpio_toRead :: "GpioDeviceConfig \<Rightarrow> gpioDeviceConfigRead" where
  "gpio_toRead c =
     \<lparr>gr_device = device_toRead (gd_DeviceConfig c), gr_Chip = Some (gd_chip c),
      gr_InputDebounce = Duration_String (gd_inputDebounce c),
      gr_InputOptions = gd_inputOptions c, gr_OutputOptions = gd_outputOptions c,
      gr_Inputs = convertMapToRead pin_name pin_toRead (gd_inputs c),
      gr_Outputs = convertMapToRead pin_name pin_toRead (gd_outputs c)\<rparr>"

definition http_toRead :: "('u \<Rightarrow> string) \<Rightarrow> 'u HttpDeviceConfig \<Rightarrow> httpDeviceConfigRead option" where
  "http_toRead us c =
     (case hd_url c of
        None \<Rightarrow> None
      | Some u \<Rightarrow> Some
          \<lparr>hr_device = device_toRead (hd_DeviceConfig c), hr_Url = us u,
           hr_Kind = HttpDeviceKind_String (hd_kind c), hr_Username = hd_username c,
           hr_Password = hd_password c, hr_PollInterval = Duration_String (hd_pollInterval c)\<rparr>)"

definition mqttDevice_toRead :: "MqttDeviceConfig \<Rightarrow> mqttDeviceConfigRead" where
  "mqttDevice_toRead c =
     \<lparr>qr_device = device_toRead (qd_DeviceConfig c), qr_Kind = MqttDeviceKind_String (qd_kind c)\<rparr>"

section \<open>Genset devices\<close>

definition binding_insert ::
  "gensetDeviceBindingConfigRead \<Rightarrow> GensetDeviceBindingConfig \<Rightarrow> gensetDeviceBindingConfigRead" where
  "binding_insert oup b =
     AList.update (bi_deviceName b)
       (AList.update (bi_registerName b) (bi_name b)
         (case map_of oup (bi_deviceName b) of None \<Rightarrow> [] | Some m \<Rightarrow> m)) oup"

definition bindings_toRead :: "GensetDeviceBindingConfig list \<Rightarrow> gensetDeviceBindingConfigRead" where
  "bindings_toRead c = foldl binding_insert [] c"

definition genset_toRead :: "GensetDeviceConfig \<Rightarrow> gensetDeviceConfigRead" where
  "genset_toRead c =
     (let p = ed_params c in
      \<lparr>er_device = device_toRead (ed_DeviceConfig c),
       er_InputBindings = bindings_toRead (ed_inputBindings c),
       er_OutputBindings = bindings_toRead (ed_outputBindings c),
       er_PrimingTimeout = Duration_String (PrimingTimeout p),
       er_CrankingTimeout = Duration_String (CrankingTimeout p),
       er_WarmUpTimeout = Duration_String (WarmUpTimeout p),
       er_WarmUpMinTime = Duration_String (WarmUpMinTime p),
       er_WarmUpTemp = Some (WarmUpTemp p),
       er_EngineCoolDownTimeout = Duration_String (EngineCoolDownTimeout p),
       er_EngineCoolDownMinTime = Duration_String (EngineCoolDownMinTime p),
       er_EngineCoolDownTemp = Some (EngineCoolDownTemp p),
       er_EnclosureCoolDownTimeout = Duration_String (EnclosureCoolDownTimeout p),
       er_EnclosureCoolDownMinTime = Duration_String (EnclosureCoolDownMinTime p),
       er_EnclosureCoolDownTemp = Some (EnclosureCoolDownTemp p),
       er_EngineTempMin = Some (EngineTempMin p), er_EngineTempMax = Some (EngineTempMax p),
       er_AuxTemp0Min = Some (AuxTemp0Min p), er_AuxTemp0Max = Some (AuxTemp0Max p),
       er_AuxTemp1Min = Some (AuxTemp1Min p), er_AuxTemp1Max = Some (AuxTemp1Max p),
       er_SinglePhase = Some (SinglePhase p), er_UMin = Some (UMin p), er_UMax = Some (UMax p),
       er_FMin = Some (FMin p), er_FMax = Some (FMax p), er_PMax = Some (PMax p),
       er_PTotMax = Some (PTotMax p)\<rparr>)"

section \<open>MQTT clients\<close>

definition mqttDeviceSection_toRead :: "MqttDeviceSectionConfig \<Rightarrow> mqttDeviceSectionConfigRead" where
  "mqttDeviceSection_toRead c = \<lparr>sdr_Filter = Some (filter_toRead (sd_filter c))\<rparr>"

definition mqttSection_toRead :: "MqttSectionConfig \<Rightarrow> mqttSectionConfigRead" where
  "mqttSection_toRead c =
     \<lparr>sr_Enabled = Some (ms_enabled c), sr_TopicTemplate = Some (ms_topicTemplate c),
      sr_Interval = Duration_String (ms_interval c), sr_Retain = Some (ms_retain c),
      sr_Qos = Some (ms_qos c),
      sr_Devices = convertMapToRead sd_name mqttDeviceSection_toRead (ms_devices c)\<rparr>"

definition mqttClientDevice_toRead :: "MqttClientDeviceConfig \<Rightarrow> mqttClientDeviceConfigRead" where
  "mqttClientDevice_toRead c = \<lparr>mdr_MqttTopics = mcd_mqttTopics c\<rparr>"

definition mqttClient_toRead ::
  "('u \<Rightarrow> string) \<Rightarrow> 'u MqttClientConfig \<Rightarrow> mqttClientConfigRead option" where
  "mqttClient_toRead us c =
     (case cl_broker c of
        None \<Rightarrow> None
      | Some u \<Rightarrow> Some
          \<lparr>cr_Broker = us u, cr_ProtocolVersion = Some (cl_protocolVersion c),
           cr_User = cl_user c, cr_Password = cl_password c, cr_ClientId = Some (cl_clientId c),
           cr_KeepAlive = Duration_String (cl_keepAlive c),
           cr_ConnectRetryDelay = Duration_String (cl_connectRetryDelay c),
           cr_ConnectTimeout = Duration_String (cl_connectTimeout c),
           cr_TopicPrefix = Some (cl_topicPrefix c), cr_ReadOnly = Some (cl_readOnly c),
           cr_MaxBacklogSize = Some (cl_maxBacklogSize c),
           cr_MqttDevices = convertMapToRead mcd_name mqttClientDevice_toRead (cl_mqttDevices c),
           cr_AvailabilityClient = mqttSection_toRead (cl_availabilityClient c),
           cr_AvailabilityDevice = mqttSection_toRead (cl_availabilityDevice c),
           cr_Structure = mqttSection_toRead (cl_structure c),
           cr_Telemetry = mqttSection_toRead (cl_telemetry c),
           cr_Realtime = mqttSection_toRead (cl_realtime c),
           cr_HomeassistantDiscovery = mqttSection_toRead (cl_homeassistantDiscovery c),
           cr_Command = mqttSection_toRead (cl_command c),
           cr_LogDebug = Some (cl_logDebug c), cr_LogMessages = Some (cl_logMessages c)\<rparr>)"

section \<open>Web server, authentication, views\<close>

definition convertEnableableToRead :: "('i \<Rightarrow> bool) \<Rightarrow> ('i \<Rightarrow> 'o) \<Rightarrow> 'i \<Rightarrow> 'o option" where
  "convertEnableableToRead enabled conv inp = (if \<not> enabled inp then None else Some (conv inp))"

definition httpServer_toRead :: "('u \<Rightarrow> string) \<Rightarrow> 'u HttpServerConfig \<Rightarrow> httpServerConfigRead" where
  "httpServer_toRead us c =
     \<lparr>wr_Bind = ws_bind c, wr_Port = Some (ws_port c), wr_LogRequests = Some (ws_logRequests c),
      wr_FrontendProxy = (case ws_frontendProxy c of None \<Rightarrow> '''' | Some u \<Rightarrow> us u),
      wr_FrontendPath = ws_frontendPath c,
      wr_FrontendExpires = Duration_String (ws_frontendExpires c),
      wr_ConfigExpires = Duration_String (ws_configExpires c), wr_LogDebug = Some (ws_logDebug c)\<rparr>"

definition authentication_toRead :: "AuthenticationConfig \<Rightarrow> authenticationConfigRead" where
  "authentication_toRead c =
     \<lparr>ar_JwtSecret = Some (au_jwtSecret c), ar_JwtValidityPeriod = Duration_String (au_jwtValidityPeriod c),
      ar_HtaccessFile = Some (au_htaccessFile c)\<rparr>"

definition viewDevice_toRead :: "ViewDeviceConfig \<Rightarrow> viewDeviceConfigRead" where
  "viewDevice_toRead c =
     \<lparr>vdr_Name = vwd_name c, vdr_Title = vwd_title c, vdr_Filter = filter_toRead (vwd_filter c)\<rparr>"

definition view_toRead :: "((string \<times> unit) list \<Rightarrow> (string \<times> unit) list) \<Rightarrow> ViewConfig \<Rightarrow> viewConfigRead" where
  "view_toRead it c =
     \<lparr>vwr_Name = vw_name c, vwr_Title = vw_title c,
      vwr_Devices = convertListToRead viewDevice_toRead (vw_devices c),
      vwr_Autoplay = Some (vw_autoplay c), vwr_AllowedUsers = map fst (it (vw_allowedUsers c)),
      vwr_Hidden = Some (vw_hidden c)\<rparr>"

section \<open>The whole configuration\<close>

text \<open>The orders in which the runtime visits the two kinds of maps that are ranged over.\<close>

record marshal_orders =
  pit_relays :: "(string \<times> relay_config) list \<Rightarrow> (string \<times> relay_config) list"
  pit_users :: "(string \<times> unit) list \<Rightarrow> (string \<times> unit) list"

definition MarshalYAML :: "marshal_orders \<Rightarrow> ('u \<Rightarrow> string) \<Rightarrow> 'u Config \<Rightarrow> configRead option" where
  "MarshalYAML po us c =
     (case (convertMapToReadP cl_name (mqttClient_toRead us) (cf_mqttClients c),
            convertMapToReadP (cd_name \<circ> hd_DeviceConfig) (http_toRead us) (cf_httpDevices c)) of
        (Some clients, Some https) \<Rightarrow> Some
          \<lparr>Version = Some (cf_version c), ProjectTitle = cf_projectTitle c,
           LogConfig = Some (cf_logConfig c), LogWorkerStart = Some (cf_logWorkerStart c),
           LogStateStorageDebug = Some (cf_logStateStorageDebug c),
           LogCommandStorageDebug = Some (cf_logCommandStorageDebug c),
           HttpServer = convertEnableableToRead ws_enabled (httpServer_toRead us) (cf_httpServer c),
           Authentication = convertEnableableToRead au_enabled authentication_toRead (cf_authentication c),
           MqttClients = clients,
           Modbus = convertMapToRead mb_name modbus_toRead (cf_modbus c),
           VictronDevices = convertMapToRead (cd_name \<circ> vd_DeviceConfig) victron_toRead (cf_victronDevices c),
           ModbusDevices = convertMapToRead (cd_name \<circ> md_DeviceConfig)
             (modbusDevice_toRead (pit_relays po)) (cf_modbusDevices c),
           GpioDevices = convertMapToRead (cd_name \<circ> gd_DeviceConfig) gpio_toRead (cf_gpioDevices c),
           HttpDevices = https,
           MqttDevices = convertMapToRead (cd_name \<circ> qd_DeviceConfig) mqttDevice_toRead (cf_mqttDevices c),
           GensetDevices = convertMapToRead (cd_name \<circ> ed_DeviceConfig) genset_toRead (cf_gensetDevices c),
           Views = convertListToRead (view_toRead (pit_users po)) (cf_views c)\<rparr>
      | _ \<Rightarrow> None)"

end
