(* ===== verification/Config_Reprint.thy ===== *)
theory Config_Reprint
  imports Config_Print
begin

text \<open>
  What the transformation of a configuration makes of its own print: for each section without
  errors it is the section again, without errors; the exceptions are the Shelly devices and the
  MQTT clients.
\<close>

section \<open>Fields\<close>

lemma unsigned_String_not_empty: "Duration_String d \<noteq> []"
  using unsigned_String_first [of "nat \<bar>d\<bar>"] by (auto simp: Duration_String_def)

lemma length_Duration_String: "\<not> length (Duration_String d) < Suc 0" "Duration_String d \<noteq> []"
  using unsigned_String_not_empty [of d] by simp_all

lemma duration_field_reprint:
  "in_i64 d \<Longrightarrow> lower \<le> d \<Longrightarrow> duration_field path (Duration_String d) dflt lower = (d, [])"
  by (simp add: duration_field_def length_Duration_String ParseDuration_String)

lemma any_duration_field_reprint:
  "in_i64 d \<Longrightarrow> any_duration_field path (Duration_String d) dflt = (d, [])"
  by (simp add: any_duration_field_def length_Duration_String ParseDuration_String)

lemma any_duration_field_range: "in_i64 dflt \<Longrightarrow> in_i64 (fst (any_duration_field path s dflt))"
  by (auto simp: any_duration_field_def in_i64_def [of 0] max_i64_def min_i64_def
      dest: ParseDuration_range split: option.splits)

lemma in_i64_small: "- (2 ^ 63) \<le> d \<Longrightarrow> d < 2 ^ 63 \<Longrightarrow> in_i64 d"
  by (simp add: in_i64_def max_i64_def min_i64_def)

lemma nonneg_field_reprint:
  "\<not> f64_lt x (F_Fin 0) \<Longrightarrow> nonneg_field path (Some x) dflt = (x, [])"
  by (simp add: nonneg_field_def)

lemma or_default_Some [simp]: "or_default (Some x) y = x"
  by (simp add: or_default_def)

lemma filter_reprint [simp]: "filter_transform (filter_toRead f) = (f, [])"
  by (cases f) (simp add: filter_transform_def filter_toRead_def)

lemma Some_eq_True [simp]: "(Some b = Some True) = b" "(Some b \<noteq> Some False) = b"
  by simp_all

lemma hex_digit_all:
  "list_all (\<lambda>n. hex_val (hex_digit n) = n \<and> hex_digit n \<in> set hex_digits \<and> \<not> is_blank (hex_digit n)) [0..<16]"
  by code_simp

lemma address_reprint: "address_field path (address_String b) = (b, [])"
proof -
  have h: "hex_val (hex_digit n) = n \<and> hex_digit n \<in> set hex_digits \<and> \<not> is_blank (hex_digit n)"
    if "n < 16" for n
    using bspec [OF hex_digit_all [unfolded list_all_iff], of n] that by simp
  have "unat b < 256" using unsigned_less [of b, where 'a = nat] by simp
  then have d: "unat b div 16 < 16" "unat b mod 16 < 16" by simp_all
  have "scan_byte 16 [hex_digit (unat b div 16), hex_digit (unat b mod 16)] = Some (unat b)"
    using h [OF d(1)] h [OF d(2)] \<open>unat b < 256\<close> by (simp add: scan_byte_def Let_def)
  then show ?thesis
    by (simp add: address_field_def address_String_def str_contains_0x_def Sscanf_0x_def)
qed

section \<open>Lists and maps\<close>

lemma AList_update_new: "k \<notin> fst ` set m \<Longrightarrow> AList.update k v m = m @ [(k, v)]"
  by (induction m) auto

lemma convertMapToRead_distinct:
  "distinct (map nm xs) \<Longrightarrow> convertMapToRead nm conv xs = map (\<lambda>c. (nm c, conv c)) xs"
proof (induction xs rule: rev_induct)
  case (snoc x xs)
  then have "nm x \<notin> fst ` set (map (\<lambda>c. (nm c, conv c)) xs)"
    by (auto simp: image_iff)
  with snoc show ?case by (simp add: convertMapToRead_def AList_update_new)
qed (simp add: convertMapToRead_def)

lemma convertMapToReadP_distinct:
  assumes "distinct (map nm xs)" "\<And>c. c \<in> set xs \<Longrightarrow> conv c = Some (conv' c)"
  shows "convertMapToReadP nm conv xs = Some (map (\<lambda>c. (nm c, conv' c)) xs)"
  using assms
proof (induction xs rule: rev_induct)
  case (snoc x xs)
  then have "nm x \<notin> fst ` set (map (\<lambda>c. (nm c, conv' c)) xs)"
    by (auto simp: image_iff)
  with snoc show ?case by (simp add: convertMapToReadP_def AList_update_new)
qed (simp add: convertMapToReadP_def)

lemma gomap_get_map:
  "distinct (map nm xs) \<Longrightarrow> c \<in> set xs \<Longrightarrow> gomap_get (map (\<lambda>c. (nm c, conv c)) xs) (nm c) = conv c"
  by (induction xs) (auto simp: gomap_get_def image_iff)

text \<open>A list in the order of its names is what the transformation makes of its print, item by item.\<close>

lemma MapToList_reprint:
  assumes "sorted (map nm xs)" "distinct (map nm xs)"
    and "\<And>c. c \<in> set xs \<Longrightarrow> tr (conv c) (nm c) = (g c, [])"
  shows "TransformAndValidateMapToList (map (\<lambda>c. (nm c, conv c)) xs) tr = (map g xs, [])"
proof -
  let ?m = "map (\<lambda>c. (nm c, conv c)) xs"
  have keys: "sort (map fst ?m) = map nm xs"
    using assms(1) by (simp add: comp_def sorted_sort_id)
  have "map (\<lambda>k. tr (gomap_get ?m k) k) (map nm xs) = map (\<lambda>c. (g c, [])) xs"
    by (simp add: gomap_get_map [OF assms(2)] assms(3))
  then show ?thesis
    unfolding TransformAndValidateMapToList_def Let_def keys by (simp add: comp_def)
qed

text \<open>The result of a transformation is such a list.\<close>

lemma MapToList_sorted:
  assumes "wf_gomap inp" "\<And>x k. nm (fst (tr x k)) = k"
  shows "sorted (map nm (fst (TransformAndValidateMapToList inp tr)))"
    and "distinct (map nm (fst (TransformAndValidateMapToList inp tr)))"
  using assms(1) by (simp_all add: MapToList_names assms(2) wf_gomap_def)

lemma MapToList_item:
  assumes "c \<in> set (fst (TransformAndValidateMapToList inp tr))"
    and "snd (TransformAndValidateMapToList inp tr) = []"
  obtains x k where "c = fst (tr x k)" "snd (tr x k) = []" "k \<in> fst ` set inp" "x = gomap_get inp k"
  using assms by (auto simp: MapToList_set MapToList_no_errors)

section \<open>Sections\<close>

lemmas small_durations [simp] =
  in_i64_small [of "100 * millisecond", simplified] in_i64_small [of "200 * millisecond", simplified]
  in_i64_small [of "500 * millisecond", simplified] in_i64_small [of second, simplified]
  in_i64_small [of "2 * minute", simplified] in_i64_small [of "5 * minute", simplified]
  in_i64_small [of "10 * minute", simplified] in_i64_small [of "10 * second", simplified]
  in_i64_small [of minute, simplified] in_i64_small [of hour, simplified]

lemma modbus_range: "in_i64 (mb_readTimeout (fst (modbus_transform c k)))"
  by (simp add: modbus_transform_def case_prod_beta duration_field_range)

lemma modbus_reprint:
  assumes "modbus_ok m" "in_i64 (mb_readTimeout m)"
  shows "modbus_transform (modbus_toRead m) (mb_name m) = (m, [])"
  using assms by (cases m)
    (simp add: modbus_transform_def modbus_toRead_def modbus_ok_def duration_field_reprint)

definition device_range :: "DeviceConfig \<Rightarrow> bool" where
  "device_range d \<longleftrightarrow> in_i64 (cd_restartInterval d) \<and> in_i64 (cd_restartIntervalMaxBackoff d)"

lemma device_range_transform [simp]: "device_range (fst (device_transform c k))"
  by (simp add: device_range_def device_transform_def case_prod_beta Let_def duration_field_range)

lemma device_reprint:
  assumes "device_ok d" "device_range d"
  shows "device_transform (device_toRead d) (cd_name d) = (d, [])"
  using assms by (cases d)
    (simp add: device_transform_def device_toRead_def device_ok_def device_range_def
      duration_field_reprint)

definition victron_range :: "VictronDeviceConfig \<Rightarrow> bool" where
  "victron_range d \<longleftrightarrow> device_range (vd_DeviceConfig d) \<and> in_i64 (vd_pollInterval d)"

lemma victron_range_transform: "victron_range (fst (victron_transform c k))"
  by (simp add: victron_range_def victron_transform_def case_prod_beta Let_def duration_field_range)

lemma victron_reprint:
  assumes "victron_ok d" "victron_range d"
  shows "victron_transform (victron_toRead d) (cd_name (vd_DeviceConfig d)) = (d, [])"
  using assms by (cases d)
    (auto simp: victron_transform_def victron_toRead_def victron_ok_def victron_range_def
      duration_field_reprint device_reprint victron.read_show)

definition mqttDevice_range :: "MqttDeviceConfig \<Rightarrow> bool" where
  "mqttDevice_range d \<longleftrightarrow> device_range (qd_DeviceConfig d)"

lemma mqttDevice_range_transform: "mqttDevice_range (fst (mqttDevice_transform c k))"
  by (simp add: mqttDevice_range_def mqttDevice_transform_def case_prod_beta Let_def)

lemma mqttDevice_reprint:
  assumes "mqttDevice_ok d" "mqttDevice_range d"
  shows "mqttDevice_transform (mqttDevice_toRead d) (cd_name (qd_DeviceConfig d)) = (d, [])"
  using assms by (cases d)
    (simp add: mqttDevice_transform_def mqttDevice_toRead_def mqttDevice_ok_def mqttDevice_range_def
      device_reprint mqtt.read_show)

definition http_range :: "'u HttpDeviceConfig \<Rightarrow> bool" where
  "http_range d \<longleftrightarrow> device_range (hd_DeviceConfig d) \<and> in_i64 (hd_pollInterval d)"

lemma http_range_transform: "http_range (fst (http_transform env c k))"
  by (simp add: http_range_def http_transform_def case_prod_beta Let_def duration_field_range)

lemma http_reprint:
  assumes "http_ok d" "http_range d" "hd_kind d \<noteq> HttpShellyEm3Kind"
    and "hd_url d = Some u" "us u \<noteq> ''''" "url_ParseRequestURI env (us u) = Some u"
  shows "\<exists>r. http_toRead us d = Some r \<and> http_transform env r (cd_name (hd_DeviceConfig d)) = (d, [])"
  using assms by (cases d)
    (simp add: http_transform_def http_toRead_def http_ok_def http_range_def url_field_def
      duration_field_reprint device_reprint http_kind_read_show [THEN iffD2] Suc_le_eq)

lemma http_shelly_rejected:
  assumes "hd_kind d = HttpShellyEm3Kind" "http_toRead us d = Some r"
  shows "snd (http_transform env r k) \<noteq> []"
  using assms by (auto simp: http_toRead_def http_transform_def Let_def case_prod_beta
      HttpDeviceKindFromString_def split: option.splits)

text \<open>The printed client always sets the interval of a section that supports none.\<close>

lemma mqttClient_rejected:
  assumes "mqttClient_toRead us d = Some r"
  shows "snd (mqttClient_result env r k devices mqttDevices) \<noteq> []"
proof -
  have "cr_AvailabilityClient r = mqttSection_toRead (cl_availabilityClient d)"
    using assms by (auto simp: mqttClient_toRead_def split: option.splits)
  then show ?thesis
    by (simp add: mqttClient_result_def Let_def case_prod_beta mqtt_sections_def
        mqttSection_transform_def interval_field_def mqttSection_toRead_def length_Duration_String)
qed

section \<open>Modbus devices\<close>

text \<open>The relays are a map, of which the print keeps the contents, not the order.\<close>

definition same_modbusDevice :: "ModbusDeviceConfig \<Rightarrow> ModbusDeviceConfig \<Rightarrow> bool" where
  "same_modbusDevice d d' \<longleftrightarrow>
     md_DeviceConfig d' = md_DeviceConfig d \<and>
     (md_ModbusConfig d')\<lparr>mc_relays := mc_relays (md_ModbusConfig d)\<rparr> = md_ModbusConfig d \<and>
     map_of (mc_relays (md_ModbusConfig d')) = map_of (mc_relays (md_ModbusConfig d))"

lemma relay_reprint [simp]: "relay_transform (relay_toRead r) = (r, [])"
  by (cases r) (simp add: relay_transform_def relay_toRead_def)

lemma foldl_update_map_of:
  "map_of (foldl (\<lambda>oup (k, v). AList.update k (f v) oup) [] xs) = map_of (map (\<lambda>(k, v). (k, f v)) (rev xs))"
  by (induction xs rule: rev_induct) (auto simp: update_conv')

lemma map_of_rev_iter:
  assumes "wf_gomap m" "iter_order it"
  shows "map_of (rev (it m)) = map_of m"
proof -
  have "mset (map fst (it m)) = mset (map fst m)"
    by (simp only: mset_map iter_order_mset [OF assms(2)])
  then have "distinct (map fst (it m))" "distinct (map fst m)"
    using assms(1) mset_eq_imp_distinct_iff by (auto simp only: wf_gomap_def)
  then have "map_of (rev (it m)) = map_of m \<longleftrightarrow> set (rev (it m)) = set m"
    by (intro map_of_inject_set) (simp_all add: rev_map [symmetric])
  then show ?thesis by (simp add: iter_order_set [OF assms(2)])
qed

lemma TransformAndValidateMap_foldl:
  assumes "\<And>x k. tr x k = (f x, [])"
  shows "TransformAndValidateMap it m tr = (foldl (\<lambda>oup (k, v). AList.update k (f v) oup) [] (it m), [])"
proof -
  have "foldl (\<lambda>(ret, err) (k, v). let (o1, e) = tr v k in (AList.update k o1 ret, err @ e)) (a, e) xs =
      (foldl (\<lambda>oup (k, v). AList.update k (f v) oup) a xs, e)" for xs a e
    by (induction xs arbitrary: a) (auto simp: assms)
  then show ?thesis by (simp add: TransformAndValidateMap_def)
qed

lemma foldl_update_wf: "wf_gomap (foldl (\<lambda>oup (k, v). AList.update k (f v) oup) [] xs)"
  by (induction xs rule: rev_induct) (auto intro: wf_gomap_update)

lemma relays_reprint:
  assumes "wf_gomap m" "iter_order it" "iter_order it'"
  shows "snd (TransformAndValidateMap it' (relays_toRead it m) (\<lambda>inp _. relay_transform inp)) = []"
    and "map_of (fst (TransformAndValidateMap it' (relays_toRead it m) (\<lambda>inp _. relay_transform inp))) =
      map_of m"
proof -
  let ?f = "\<lambda>c. fst (relay_transform c)"
  have tr: "(\<lambda>inp _ :: string. relay_transform inp) = (\<lambda>inp _. (?f inp, []))"
    by (simp add: relay_transform_def)
  have f: "?f (relay_toRead r) = r" for r by simp
  note t = TransformAndValidateMap_foldl [of "\<lambda>inp _. (?f inp, [])" ?f, OF refl]
  show "snd (TransformAndValidateMap it' (relays_toRead it m) (\<lambda>inp _. relay_transform inp)) = []"
    by (simp add: tr t)
  have m: "map_of (map (\<lambda>(k, v). (k, g v)) xs) = map_option g \<circ> map_of xs" for g :: "'a \<Rightarrow> 'b" and xs :: "(string \<times> 'a) list"
    by (simp add: map_of_map)
  have w: "wf_gomap (relays_toRead it m)"
    by (simp add: relays_toRead_def foldl_update_wf)
  have "map_of (fst (TransformAndValidateMap it' (relays_toRead it m) (\<lambda>inp _. relay_transform inp))) =
      map_option ?f \<circ> map_of (rev (it' (relays_toRead it m)))"
    by (simp add: tr t foldl_update_map_of map_of_map)
  also have "\<dots> = map_option ?f \<circ> map_of (relays_toRead it m)"
    by (simp only: map_of_rev_iter [OF w assms(3)])
  also have "map_of (relays_toRead it m) = map_option relay_toRead \<circ> map_of (rev (it m))"
    by (simp add: relays_toRead_def foldl_update_map_of map_of_map)
  also have "map_of (rev (it m)) = map_of m"
    by (rule map_of_rev_iter [OF assms(1,2)])
  finally show "map_of (fst (TransformAndValidateMap it' (relays_toRead it m) (\<lambda>inp _. relay_transform inp))) = map_of m"
    by (simp add: fun_eq_iff f option.map_comp comp_def option.map_ident)
qed

definition modbusDevice_range :: "ModbusDeviceConfig \<Rightarrow> bool" where
  "modbusDevice_range d \<longleftrightarrow> device_range (md_DeviceConfig d) \<and>
     in_i64 (mc_PollInterval (md_ModbusConfig d)) \<and> wf_gomap (mc_relays (md_ModbusConfig d))"

lemma modbusDevice_range_transform: "modbusDevice_range (fst (modbusDevice_transform it c k ms))"
proof -
  have "(\<lambda>inp _ :: string. relay_transform inp) = (\<lambda>inp _. (fst (relay_transform inp), []))"
    by (simp add: relay_transform_def)
  then show ?thesis
    by (simp add: modbusDevice_range_def modbusDevice_transform_def case_prod_beta Let_def
        duration_field_range TransformAndValidateMap_foldl foldl_update_wf)
qed

lemma modbusDevice_reprint:
  assumes "modbusDevice_ok ms d" "modbusDevice_range d" "iter_order it" "iter_order it'"
  shows "\<exists>d'. modbusDevice_transform it' (modbusDevice_toRead it d) (cd_name (md_DeviceConfig d)) ms = (d', []) \<and>
    same_modbusDevice d d'"
proof -
  let ?r = "TransformAndValidateMap it' (relays_toRead it (mc_relays (md_ModbusConfig d)))
    (\<lambda>inp _. relay_transform inp)"
  have r: "snd ?r = []" "map_of (fst ?r) = map_of (mc_relays (md_ModbusConfig d))"
    using relays_reprint assms(2-4) by (simp_all add: modbusDevice_range_def)
  have "modbusDevice_transform it' (modbusDevice_toRead it d) (cd_name (md_DeviceConfig d)) ms =
      (d\<lparr>md_ModbusConfig := (md_ModbusConfig d)\<lparr>mc_relays := fst ?r\<rparr>\<rparr>, [])"
    using assms(1,2) r(1) by (cases d; cases "md_ModbusConfig d")
      (simp add: modbusDevice_transform_def modbusDevice_toRead_def modbusDevice_ok_def
        modbusDevice_range_def case_prod_beta Let_def duration_field_reprint device_reprint
        modbus.read_show address_reprint)
  then show ?thesis by (simp add: same_modbusDevice_def r(2))
qed

section \<open>GPIO devices\<close>

lemma pin_reprint: "pin_ok p \<Longrightarrow> pin_transform prefix (pin_toRead p) (pin_name p) = (p, [])"
  by (cases p) (simp add: pin_transform_def pin_toRead_def pin_ok_def Suc_le_eq)

definition pins_range :: "PinConfig list \<Rightarrow> bool" where
  "pins_range ps \<longleftrightarrow> sorted (map pin_name ps) \<and> distinct (map pin_name ps)"

lemma pins_range_transform:
  "wf_gomap m \<Longrightarrow> pins_range (fst (TransformAndValidateMapToList m (\<lambda>inp nm. pin_transform (p nm) inp nm)))"
  by (simp add: pins_range_def MapToList_sorted)

lemma pins_reprint:
  assumes "list_all pin_ok ps" "pins_range ps"
  shows "TransformAndValidateMapToList (convertMapToRead pin_name pin_toRead ps)
      (\<lambda>inp nm. pin_transform (p nm) inp nm) = (ps, [])"
  using assms MapToList_reprint [where g = "\<lambda>c. c" and nm = pin_name and conv = pin_toRead and xs = ps]
  by (simp add: pins_range_def convertMapToRead_distinct pin_reprint list_all_iff)

definition options_range :: "string list \<Rightarrow> string list \<Rightarrow> bool" where
  "options_range allowed opts \<longleftrightarrow> set opts \<subseteq> set allowed"

lemma options_range_transform: "options_range allowed (fst (option_list path allowed opts))"
  by (auto simp: options_range_def option_list_def Let_def)

lemma option_list_reprint:
  assumes "options_range allowed opts" "length opts \<le> 1"
  shows "option_list path allowed opts = (opts, [])"
proof -
  have "filter (\<lambda>opt. opt \<in> set allowed) opts = opts" "filter (\<lambda>opt. opt \<notin> set allowed) opts = []"
    using assms(1) by (auto simp: options_range_def filter_id_conv filter_empty_conv)
  then show ?thesis using assms(2) by (simp add: option_list_def)
qed

definition gpio_range :: "GpioDeviceConfig \<Rightarrow> bool" where
  "gpio_range d \<longleftrightarrow> device_range (gd_DeviceConfig d) \<and> in_i64 (gd_inputDebounce d) \<and>
     options_range [''WithBiasDisabled'', ''WithPullDown'', ''WithPullUp''] (gd_inputOptions d) \<and>
     options_range [''AsOpenDrain'', ''AsOpenSource'', ''AsPushPull''] (gd_outputOptions d) \<and>
     pins_range (gd_inputs d) \<and> pins_range (gd_outputs d)"

lemma gpio_range_transform:
  "wf_gomap (gr_Inputs c) \<Longrightarrow> wf_gomap (gr_Outputs c) \<Longrightarrow> gpio_range (fst (gpio_transform c k))"
  by (simp add: gpio_range_def gpio_transform_def case_prod_beta Let_def any_duration_field_range
      options_range_transform pins_range_transform)

lemma gpio_reprint:
  assumes "gpio_ok d" "gpio_range d"
  shows "gpio_transform (gpio_toRead d) (cd_name (gd_DeviceConfig d)) = (d, [])"
  using assms by (cases d)
    (simp add: gpio_transform_def gpio_toRead_def gpio_ok_def gpio_range_def Let_def Suc_le_eq
      any_duration_field_reprint device_reprint option_list_reprint pins_reprint)

section \<open>Web server and authentication\<close>

definition httpServer_range :: "'u HttpServerConfig \<Rightarrow> bool" where
  "httpServer_range s \<longleftrightarrow> in_i64 (ws_frontendExpires s) \<and> in_i64 (ws_configExpires s)"

lemma httpServer_range_transform: "httpServer_range (fst (httpServer_transform env c))"
  by (cases c) (simp_all add: httpServer_range_def httpServer_transform_def Let_def case_prod_beta
      duration_field_range in_i64_small)

lemma httpServer_disabled:
  "\<not> ws_enabled (fst (httpServer_transform env c)) \<Longrightarrow> c = None"
  by (cases c) (simp_all add: httpServer_transform_def Let_def case_prod_beta)

lemma httpServer_reprint:
  assumes "s = fst (httpServer_transform env c)" "httpServer_ok s"
    and "\<And>u. ws_frontendProxy s = Some u \<Longrightarrow> us u \<noteq> '''' \<and> url_Parse env' (us u) = Some u"
  shows "httpServer_transform env' (convertEnableableToRead ws_enabled (httpServer_toRead us) s) = (s, [])"
proof (cases "ws_enabled s")
  case False
  then have "c = None" using assms(1) httpServer_disabled by blast
  with False show ?thesis
    by (simp add: assms(1) convertEnableableToRead_def httpServer_transform_def)
next
  case True
  have "httpServer_range s" by (simp add: assms(1) httpServer_range_transform)
  with True assms(2,3) show ?thesis
    by (cases s; cases "ws_frontendProxy s")
      (simp_all add: convertEnableableToRead_def httpServer_transform_def httpServer_toRead_def
        httpServer_ok_def httpServer_range_def Let_def duration_field_reprint)
qed

text \<open>The secret of a server without authentication is drawn anew at every start.\<close>

definition same_authentication :: "AuthenticationConfig \<Rightarrow> AuthenticationConfig \<Rightarrow> bool" where
  "same_authentication a a' \<longleftrightarrow>
     a'\<lparr>au_jwtSecret := au_jwtSecret a\<rparr> = a \<and> (au_enabled a \<longrightarrow> au_jwtSecret a' = au_jwtSecret a)"

lemma authentication_disabled:
  "\<not> au_enabled (fst (authentication_transform env by c)) \<Longrightarrow> c = None"
  by (cases c) (simp_all add: authentication_transform_def Let_def case_prod_beta)

lemma authentication_range: "in_i64 (au_jwtValidityPeriod (fst (authentication_transform env by c)))"
  by (cases c) (auto simp: authentication_transform_def Let_def case_prod_beta
      dest: ParseDuration_range split: option.splits)

lemma authentication_file:
  assumes "snd (authentication_transform env by (Some c)) = []"
  shows "by \<or> os_Stat env (au_htaccessFile (fst (authentication_transform env by (Some c)))) = Some False"
  using assms by (auto simp: authentication_transform_def Let_def case_prod_beta
      split: option.splits if_splits)

lemma authentication_reprint:
  assumes "authentication_transform env by c = (a, [])" "os_Stat env' = os_Stat env"
    and "au_enabled a \<Longrightarrow> 32 \<le> length (au_jwtSecret a)"
  shows "\<exists>a'. authentication_transform env' by
      (convertEnableableToRead au_enabled authentication_toRead a) = (a', []) \<and> same_authentication a a'"
proof (cases c)
  case None
  with assms(1) show ?thesis
    by (auto simp: authentication_transform_def convertEnableableToRead_def same_authentication_def)
next
  case (Some r)
  have a: "a = fst (authentication_transform env by c)" "snd (authentication_transform env by c) = []"
    using assms(1) by simp_all
  have en: "au_enabled a" using a(1) Some authentication_disabled by fastforce
  have ok: "authentication_ok a" unfolding a(1) by (rule authentication_transform_ok [OF a(2)])
  have "by \<or> os_Stat env (au_htaccessFile a) = Some False"
    using authentication_file a Some by blast
  then have "authentication_transform env' by (Some (authentication_toRead a)) = (a, [])"
    using en ok assms(2,3) authentication_range [of env "by" c, folded a(1)]
    by (cases a) (auto simp: authentication_transform_def authentication_toRead_def
        authentication_ok_def Let_def ParseDuration_String length_Duration_String)
  with en show ?thesis by (simp add: convertEnableableToRead_def same_authentication_def)
qed

section \<open>Views\<close>

text \<open>The allowed users are a set, kept as a map.\<close>

definition same_view :: "ViewConfig \<Rightarrow> ViewConfig \<Rightarrow> bool" where
  "same_view v v' \<longleftrightarrow> v'\<lparr>vw_allowedUsers := vw_allowedUsers v\<rparr> = v \<and>
     map_of (vw_allowedUsers v') = map_of (vw_allowedUsers v)"

lemma ListUnique_reprint:
  assumes "\<And>x. x \<in> set xs \<Longrightarrow> tr (conv x) = (g x, [])" "\<And>x. x \<in> set xs \<Longrightarrow> nm (g x) = nm x"
    and "distinct (map nm xs)"
  shows "TransformAndValidateListUnique (map conv xs) tr (duplicateName nm) = (map g xs, [])"
proof -
  let ?r = "TransformAndValidateListUnique (map conv xs) tr (duplicateName nm)"
  have f: "fst ?r = map g xs"
    using assms(1) by (simp add: ListUnique_fst)
  moreover have names: "map nm (map g xs) = map nm xs"
    using assms(2) by simp
  ultimately have "snd ?r = []"
    using assms(1,3) unfolding ListUnique_no_errors f getNames_def names by simp
  with f show ?thesis by (simp add: prod_eq_iff)
qed

lemma users_map_of:
  "map_of (foldl (\<lambda>m user. AList.update user () m) [] us) = (\<lambda>u. if u \<in> set us then Some () else None)"
  by (induction us rule: rev_induct) (auto simp: update_conv' fun_eq_iff)

lemma map_of_unit: "map_of m = (\<lambda>u. if u \<in> fst ` set m then Some () else None)"
  by (induction m) (auto simp: fun_eq_iff)

lemma viewDevice_reprint:
  assumes "existsByName cd_name (vwd_name d) devices"
  shows "viewDevice_transform devices (viewDevice_toRead d) = (d, [])"
  using assms by (cases d) (simp add: viewDevice_transform_def viewDevice_toRead_def)

lemma view_reprint:
  assumes "view_ok devices v" "iter_order it"
  shows "\<exists>v'. view_transform devices (view_toRead it v) = (v', []) \<and> same_view v v'"
proof -
  let ?users = "foldl (\<lambda>m user. AList.update user () m) [] (map fst (it (vw_allowedUsers v)))"
  have "map_of ?users = map_of (vw_allowedUsers v)"
    by (simp add: users_map_of map_of_unit [of "vw_allowedUsers v"] iter_order_set [OF assms(2)])
  moreover have "TransformAndValidateListUnique (map viewDevice_toRead (vw_devices v))
      (viewDevice_transform devices) (duplicateName vwd_name) = (vw_devices v, [])"
    using assms(1) ListUnique_reprint [of "vw_devices v" "viewDevice_transform devices"
        viewDevice_toRead "\<lambda>d. d" vwd_name]
    by (simp add: view_ok_def list_all_iff getNames_def viewDevice_reprint)
  ultimately show ?thesis
    using assms(1) by (cases v) (simp add: view_transform_def view_toRead_def convertListToRead_def
        view_ok_def same_view_def Suc_le_eq)
qed

section \<open>Genset devices\<close>

definition binding_at :: "GensetDeviceBindingConfig \<Rightarrow> string \<times> string" where
  "binding_at b = (bi_deviceName b, bi_registerName b)"

definition bindings_range :: "GensetDeviceBindingConfig list \<Rightarrow> bool" where
  \<comment> \<open>each register of each device is bound once\<close>
  "bindings_range bs \<longleftrightarrow> sorted (map binding_key bs) \<and> distinct (map binding_at bs)"

definition wf_bindings :: "gensetDeviceBindingConfigRead \<Rightarrow> bool" where
  "wf_bindings c \<longleftrightarrow> wf_gomap c \<and> (\<forall>(d, m) \<in> set c. wf_gomap m)"

definition all_bindings :: "gensetDeviceBindingConfigRead \<Rightarrow> GensetDeviceBindingConfig list" where
  "all_bindings c = concat (map (bindings_of id) c)"

lemma binding_eta [simp]:
  "\<lparr>bi_name = bi_name b, bi_deviceName = bi_deviceName b, bi_registerName = bi_registerName b\<rparr> = b"
  by simp

lemma all_bindings_simps [simp]:
  "all_bindings [] = []"
  "all_bindings ((d, m) # c) = map (\<lambda>(r, nm). \<lparr>bi_name = nm, bi_deviceName = d, bi_registerName = r\<rparr>) m @ all_bindings c"
  "all_bindings (c @ c') = all_bindings c @ all_bindings c'"
  by (simp_all add: all_bindings_def bindings_of_def)

lemma update_split:
  assumes "map_of m k = Some old"
  obtains xs ys where "m = xs @ (k, old) # ys" "AList.update k v m = xs @ (k, v) # ys"
proof -
  have "\<exists>xs ys. m = xs @ (k, old) # ys \<and> AList.update k v m = xs @ (k, v) # ys"
    using assms
  proof (induction m)
    case (Cons p m)
    show ?case
    proof (cases "fst p = k")
      case True
      with Cons.prems have "p # m = [] @ (k, old) # m \<and> AList.update k v (p # m) = [] @ (k, v) # m"
        by (cases p) simp
      then show ?thesis by blast
    next
      case False
      with Cons obtain xs ys where "m = xs @ (k, old) # ys" "AList.update k v m = xs @ (k, v) # ys"
        by (cases p) auto
      with False have "p # m = (p # xs) @ (k, old) # ys \<and> AList.update k v (p # m) = (p # xs) @ (k, v) # ys"
        by (cases p) simp
      then show ?thesis by blast
    qed
  qed simp
  then show thesis using that by blast
qed

lemma wf_binding_insert:
  assumes "wf_bindings c"
  shows "wf_bindings (binding_insert c b)"
proof -
  have old: "wf_gomap m" if "map_of c d = Some m" for d m
    using assms map_of_SomeD [OF that] by (auto simp: wf_bindings_def)
  have upd: "wf_gomap m" if "(d, m) \<in> set (AList.update k v c)" "wf_gomap v" for d m k v
  proof (cases "map_of c k")
    case None
    then have "k \<notin> fst ` set c" by (simp add: map_of_eq_None_iff)
    with that assms show ?thesis by (auto simp: AList_update_new wf_bindings_def)
  next
    case (Some old)
    then obtain xs ys where "c = xs @ (k, old) # ys" "AList.update k v c = xs @ (k, v) # ys"
      by (rule update_split)
    with that assms show ?thesis by (auto simp: wf_bindings_def)
  qed
  have new: "wf_gomap (AList.update (bi_registerName b) (bi_name b)
      (case map_of c (bi_deviceName b) of None \<Rightarrow> [] | Some m \<Rightarrow> m))"
    using old wf_gomap_update [OF wf_gomap_empty]
    by (auto intro: wf_gomap_update split: option.split)
  have "wf_gomap c" using assms by (simp add: wf_bindings_def)
  with upd [OF _ new] show ?thesis
    by (auto simp: wf_bindings_def binding_insert_def intro: wf_gomap_update)
qed

text \<open>Inserting a register that is not bound yet adds one binding.\<close>

lemma mset_binding_insert:
  assumes "binding_at b \<notin> binding_at ` set (all_bindings c)"
  shows "mset (all_bindings (binding_insert c b)) = add_mset b (mset (all_bindings c))"
proof (cases "map_of c (bi_deviceName b)")
  case None
  then have "bi_deviceName b \<notin> fst ` set c" by (simp add: map_of_eq_None_iff)
  then show ?thesis
    by (simp add: binding_insert_def AList_update_new None)
next
  case (Some m)
  let ?m = "AList.update (bi_registerName b) (bi_name b) m"
  have ins: "binding_insert c b = AList.update (bi_deviceName b) ?m c"
    by (simp add: binding_insert_def Some)
  obtain xs ys where c: "c = xs @ (bi_deviceName b, m) # ys"
      "binding_insert c b = xs @ (bi_deviceName b, ?m) # ys"
    using update_split [OF Some, of ?m] unfolding ins by blast
  have "bi_registerName b \<notin> fst ` set m"
  proof
    assume "bi_registerName b \<in> fst ` set m"
    then obtain nm where nm: "(bi_registerName b, nm) \<in> set m" by auto
    let ?b = "\<lparr>bi_name = nm, bi_deviceName = bi_deviceName b, bi_registerName = bi_registerName b\<rparr>"
    have "?b \<in> set (all_bindings c)"
      using nm by (force simp: c(1))
    moreover have "binding_at ?b = binding_at b" by (simp add: binding_at_def)
    ultimately show False using assms by (metis image_eqI)
  qed
  then show ?thesis
    unfolding c(2) by (simp add: c(1) AList_update_new)
qed

lemma bindings_toRead_all:
  assumes "distinct (map binding_at bs)"
  shows "mset (all_bindings (bindings_toRead bs)) = mset bs \<and> wf_bindings (bindings_toRead bs)"
  using assms
proof (induction bs rule: rev_induct)
  case Nil
  show ?case by (simp add: bindings_toRead_def wf_bindings_def)
next
  case (snoc b bs)
  then have IH: "mset (all_bindings (bindings_toRead bs)) = mset bs" "wf_bindings (bindings_toRead bs)"
    by simp_all
  then have "set (all_bindings (bindings_toRead bs)) = set bs"
    by (metis set_mset_mset)
  then have "binding_at b \<notin> binding_at ` set (all_bindings (bindings_toRead bs))"
    using snoc.prems by simp
  then show ?case
    using mset_binding_insert [of b "bindings_toRead bs"] IH
    by (simp add: bindings_toRead_def wf_binding_insert)
qed

lemma bindings_devices:
  "fst ` set (bindings_toRead bs) = bi_deviceName ` set bs"
  by (induction bs rule: rev_induct)
    (simp_all add: bindings_toRead_def binding_insert_def dom_update)

lemma sort_key_sorted_id:
  assumes "sorted (map binding_key bs)"
  shows "sort_key binding_key bs = bs"
  using assms by (induction bs) (simp_all add: insort_is_Cons)

lemma bindings_reprint:
  assumes "bindings_range bs" "iter_order it" "iter_order it2"
    and "list_all (\<lambda>b. existsByName cd_name (bi_deviceName b) devices) bs"
  shows "bindings_transform it it2 (bindings_toRead bs) devices = (bs, [])"
proof -
  have m: "mset (all_bindings (bindings_toRead bs)) = mset bs"
    using assms(1) bindings_toRead_all by (simp add: bindings_range_def)
  have "fst (bindings_transform it it2 (bindings_toRead bs) devices) = bs"
    using sort_key_inj_cong [OF m] sort_key_sorted_id assms(1)
      bindings_transform_order(1) [OF assms(2,3)]
    by (simp add: bindings_transform_def bindings_range_def all_bindings_def)
  moreover have "existsByName cd_name d devices" if "(d, m) \<in> set (bindings_toRead bs)" for d m
    using that bindings_devices [of bs] assms(4) by (force simp: list_all_iff)
  then have "snd (bindings_transform it it2 (bindings_toRead bs) devices) = []"
    by (auto simp: bindings_transform_def iter_order_set [OF assms(2)])
  ultimately show ?thesis by (simp add: prod_eq_iff)
qed

lemma all_bindings_device: "b \<in> set (all_bindings c) \<Longrightarrow> bi_deviceName b \<in> fst ` set c"
  by (induction c) auto

lemma distinct_all_bindings: "wf_bindings c \<Longrightarrow> distinct (map binding_at (all_bindings c))"
proof (induction c)
  case (Cons p c)
  obtain d m where p: "p = (d, m)" by (cases p)
  then have "distinct (map fst m)" "d \<notin> fst ` set c" and IH: "distinct (map binding_at (all_bindings c))"
    using Cons by (auto simp: wf_bindings_def wf_gomap_def)
  have "inj_on (Pair d) (set (map fst m))" by (simp add: inj_on_def)
  then have "distinct (map (Pair d) (map fst m))"
    using \<open>distinct (map fst m)\<close> by (simp only: distinct_map)
  then have "distinct (map (\<lambda>(r, nm). (d, r)) m)"
    by (simp add: comp_def case_prod_unfold)
  moreover have "(d, r) \<notin> binding_at ` set (all_bindings c)" for r
    using \<open>d \<notin> fst ` set c\<close> all_bindings_device by (auto simp: binding_at_def)
  moreover have "map binding_at (all_bindings (p # c)) =
      map (\<lambda>(r, nm). (d, r)) m @ map binding_at (all_bindings c)"
    unfolding p by (simp add: case_prod_unfold binding_at_def)
  ultimately show ?case
    using IH by auto
qed simp

lemma bindings_range_transform:
  assumes "wf_bindings c" "iter_order it" "iter_order it2"
  shows "bindings_range (fst (bindings_transform it it2 c devices))"
proof -
  have "fst (bindings_transform it it2 c devices) = sort_key binding_key (all_bindings c)"
    unfolding bindings_transform_order(1) [OF assms(2,3), of c devices]
    by (simp add: bindings_transform_def all_bindings_def)
  moreover have "mset (map binding_at (sort_key binding_key (all_bindings c))) =
      mset (map binding_at (all_bindings c))"
    by (simp only: mset_map mset_sort)
  then have "distinct (map binding_at (sort_key binding_key (all_bindings c)))"
    using distinct_all_bindings [OF assms(1)] mset_eq_imp_distinct_iff by blast
  ultimately show ?thesis by (simp add: bindings_range_def)
qed

definition params_range :: "Params \<Rightarrow> bool" where
  "params_range p \<longleftrightarrow> list_all in_i64
     [PrimingTimeout p, CrankingTimeout p, WarmUpTimeout p, WarmUpMinTime p,
      EngineCoolDownTimeout p, EngineCoolDownMinTime p,
      EnclosureCoolDownTimeout p, EnclosureCoolDownMinTime p]"

definition genset_range :: "GensetDeviceConfig \<Rightarrow> bool" where
  "genset_range d \<longleftrightarrow> device_range (ed_DeviceConfig d) \<and> bindings_range (ed_inputBindings d) \<and>
     bindings_range (ed_outputBindings d) \<and> params_range (ed_params d)"

lemma timing_pair_range:
  "in_i64 dT \<Longrightarrow> in_i64 (fst (fst (timing_pair p f s dT f' s' dM)))"
  "in_i64 dM \<Longrightarrow> in_i64 (snd (fst (timing_pair p f s dT f' s' dM)))"
  by (simp_all add: timing_pair_def case_prod_beta Let_def any_duration_field_range)

lemma genset_range_transform:
  assumes "wf_bindings (er_InputBindings c)" "wf_bindings (er_OutputBindings c)"
    and "iter_order it" "iter_order it2"
  shows "genset_range (fst (genset_transform it it2 c k devices))"
  by (simp add: genset_range_def genset_transform_def case_prod_beta Let_def params_range_def
      bindings_range_transform [OF _ assms(3,4)] assms(1,2) genset_transitions_def
      genset_io_limits_def genset_output_limits_def any_duration_field_range timing_pair_range)

lemma timing_pair_reprint:
  "in_i64 t \<Longrightarrow> in_i64 m \<Longrightarrow> m \<le> t \<Longrightarrow>
     timing_pair p f (Duration_String t) dT f' (Duration_String m) dM = ((t, m), [])"
  by (simp add: timing_pair_def any_duration_field_reprint not_less)

lemma genset_reprint:
  assumes "genset_ok devices d" "genset_range d" "iter_order it" "iter_order it2"
  shows "genset_transform it it2 (genset_toRead d) (cd_name (ed_DeviceConfig d)) devices = (d, [])"
proof -
  obtain dev ib ob p where d: "d = \<lparr>ed_DeviceConfig = dev, ed_inputBindings = ib,
      ed_outputBindings = ob, ed_params = p\<rparr>"
    by (cases d)
  have "bindings_transform it it2 (bindings_toRead ib) devices = (ib, [])"
    "bindings_transform it it2 (bindings_toRead ob) devices = (ob, [])"
    using assms by (simp_all add: d genset_ok_def genset_range_def bindings_reprint)
  moreover have "genset_transitions path (genset_toRead d) zero_Params =
      (zero_Params\<lparr>PrimingTimeout := PrimingTimeout p, CrankingTimeout := CrankingTimeout p,
        WarmUpTimeout := WarmUpTimeout p, WarmUpMinTime := WarmUpMinTime p, WarmUpTemp := WarmUpTemp p,
        EngineCoolDownTimeout := EngineCoolDownTimeout p, EngineCoolDownMinTime := EngineCoolDownMinTime p,
        EngineCoolDownTemp := EngineCoolDownTemp p,
        EnclosureCoolDownTimeout := EnclosureCoolDownTimeout p,
        EnclosureCoolDownMinTime := EnclosureCoolDownMinTime p,
        EnclosureCoolDownTemp := EnclosureCoolDownTemp p\<rparr>, [])" for path
    using assms(1,2) by (simp add: d genset_transitions_def genset_toRead_def Let_def genset_ok_def
        genset_range_def params_range_def any_duration_field_reprint timing_pair_reprint)
  moreover have "genset_output_limits path (genset_toRead d) (genset_io_limits (genset_toRead d) q) =
      (q\<lparr>EngineTempMin := EngineTempMin p, EngineTempMax := EngineTempMax p,
        AuxTemp0Min := AuxTemp0Min p, AuxTemp0Max := AuxTemp0Max p, AuxTemp1Min := AuxTemp1Min p,
        AuxTemp1Max := AuxTemp1Max p, SinglePhase := SinglePhase p, UMin := UMin p, UMax := UMax p,
        FMin := FMin p, FMax := FMax p, PMax := PMax p, PTotMax := PTotMax p\<rparr>, [])" for path q
    using assms(1) by (simp add: d genset_output_limits_def genset_io_limits_def genset_toRead_def
        Let_def genset_ok_def nonneg_field_reprint)
  ultimately show ?thesis
    using assms(1,2) by (cases p)
      (simp add: genset_transform_def d Let_def genset_ok_def genset_range_def device_reprint
        zero_Params_def, simp add: genset_toRead_def Let_def device_reprint)
qed

end
