(* ===== verification/Marshal_Proofs.thy ===== *)
theory Marshal_Proofs
  imports Config_Reprint
begin

text \<open>
  The log says of the configuration it prints \<open>use the following config\<close>. The properties
  tell when that is so: an accepted configuration without MQTT clients and without Shelly devices
  is accepted again when its print is read, and means the same; with one of them it is rejected.
\<close>

section \<open>The same configuration\<close>

definition same_config :: "'u Config \<Rightarrow> 'u Config \<Rightarrow> bool" where
  "same_config cf cf' \<longleftrightarrow>
     cf'\<lparr>cf_authentication := cf_authentication cf, cf_modbusDevices := cf_modbusDevices cf,
       cf_views := cf_views cf\<rparr> = cf \<and>
     same_authentication (cf_authentication cf) (cf_authentication cf') \<and>
     list_all2 same_modbusDevice (cf_modbusDevices cf) (cf_modbusDevices cf') \<and>
     list_all2 same_view (cf_views cf) (cf_views cf')"

text \<open>What makes a read configuration one that decoding gives: its maps have distinct keys.\<close>

definition read_wf :: "configRead \<Rightarrow> bool" where
  "read_wf c \<longleftrightarrow> wf_gomap (Modbus c) \<and> wf_gomap (VictronDevices c) \<and> wf_gomap (ModbusDevices c) \<and>
     wf_gomap (GpioDevices c) \<and> wf_gomap (HttpDevices c) \<and> wf_gomap (MqttDevices c) \<and>
     wf_gomap (GensetDevices c) \<and>
     list_all (\<lambda>(_, g). wf_gomap (gr_Inputs g) \<and> wf_gomap (gr_Outputs g)) (GpioDevices c) \<and>
     list_all (\<lambda>(_, g). wf_bindings (er_InputBindings g) \<and> wf_bindings (er_OutputBindings g))
       (GensetDevices c)"

text \<open>\<open>URL.String\<close> reassembles a URL that parses as the same URL: needed of the URLs of the
  configuration alone.\<close>

definition urls_reparse :: "'u config_env \<Rightarrow> ('u \<Rightarrow> string) \<Rightarrow> 'u Config \<Rightarrow> bool" where
  "urls_reparse env us cf \<longleftrightarrow>
     (case ws_frontendProxy (cf_httpServer cf) of
        None \<Rightarrow> True
      | Some u \<Rightarrow> us u \<noteq> '''' \<and> url_Parse env (us u) = Some u) \<and>
     list_all (\<lambda>d. case hd_url d of
        None \<Rightarrow> True
      | Some u \<Rightarrow> us u \<noteq> '''' \<and> url_ParseRequestURI env (us u) = Some u) (cf_httpDevices cf)"

section \<open>Lists of sections\<close>

lemma section_reprint:
  fixes inp :: "(string, 'i) gomap" and tr :: "'i \<Rightarrow> string \<Rightarrow> 'o checked"
  defines "xs \<equiv> fst (TransformAndValidateMapToList inp tr)"
  assumes "wf_gomap inp" "snd (TransformAndValidateMapToList inp tr) = []"
    and names: "\<And>x k. nm (fst (tr x k)) = k"
    and item: "\<And>x k. (k, x) \<in> set inp \<Longrightarrow> snd (tr x k) = [] \<Longrightarrow>
      tr' (conv (fst (tr x k))) k = (g (fst (tr x k)), [])"
  shows "TransformAndValidateMapToList (convertMapToRead nm conv xs) tr' = (map g xs, [])"
proof -
  have s: "sorted (map nm xs)" "distinct (map nm xs)"
    unfolding xs_def using MapToList_sorted [OF assms(2), of nm tr] names by simp_all
  have "tr' (conv d) (nm d) = (g d, [])" if d: "d \<in> set xs" for d
  proof -
    obtain x k where k: "d = fst (tr x k)" "snd (tr x k) = []" "k \<in> fst ` set inp" "x = gomap_get inp k"
      using MapToList_item [OF d [unfolded xs_def] assms(3)] by blast
    then have "(k, x) \<in> set inp"
      using map_of_SomeD [of inp k] by (cases "map_of inp k") (auto simp: gomap_get_def map_of_eq_None_iff)
    then show ?thesis using item k(1,2) names by simp
  qed
  then show ?thesis
    unfolding convertMapToRead_distinct [OF s(2)] by (rule MapToList_reprint [OF s])
qed

lemmas section_reprint_same = section_reprint [where g = "\<lambda>d. d", simplified]

lemma modbus_section:
  assumes "wf_gomap m" "snd (TransformAndValidateMapToList m modbus_transform) = []"
  shows "TransformAndValidateMapToList (convertMapToRead mb_name modbus_toRead
      (fst (TransformAndValidateMapToList m modbus_transform))) modbus_transform =
    (fst (TransformAndValidateMapToList m modbus_transform), [])"
  using assms modbus_reprint [OF modbus_transform_ok modbus_range]
  by (intro section_reprint_same) simp_all

lemma victron_section:
  assumes "wf_gomap m" "snd (TransformAndValidateMapToList m victron_transform) = []"
  shows "TransformAndValidateMapToList (convertMapToRead (cd_name \<circ> vd_DeviceConfig) victron_toRead
      (fst (TransformAndValidateMapToList m victron_transform))) victron_transform =
    (fst (TransformAndValidateMapToList m victron_transform), [])"
  using assms victron_reprint [OF victron_transform_ok victron_range_transform]
  by (intro section_reprint_same) simp_all

lemma mqttDevice_section:
  assumes "wf_gomap m" "snd (TransformAndValidateMapToList m mqttDevice_transform) = []"
  shows "TransformAndValidateMapToList (convertMapToRead (cd_name \<circ> qd_DeviceConfig) mqttDevice_toRead
      (fst (TransformAndValidateMapToList m mqttDevice_transform))) mqttDevice_transform =
    (fst (TransformAndValidateMapToList m mqttDevice_transform), [])"
  using assms mqttDevice_reprint [OF mqttDevice_transform_ok mqttDevice_range_transform]
  by (intro section_reprint_same) simp_all

lemma gpio_section:
  assumes "wf_gomap m" "list_all (\<lambda>(_, g). wf_gomap (gr_Inputs g) \<and> wf_gomap (gr_Outputs g)) m"
    and "snd (TransformAndValidateMapToList m gpio_transform) = []"
  shows "TransformAndValidateMapToList (convertMapToRead (cd_name \<circ> gd_DeviceConfig) gpio_toRead
      (fst (TransformAndValidateMapToList m gpio_transform))) gpio_transform =
    (fst (TransformAndValidateMapToList m gpio_transform), [])"
proof (rule section_reprint_same [OF assms(1,3)])
  fix x k
  assume "(k, x) \<in> set m" "snd (gpio_transform x k) = []"
  then show "gpio_transform (gpio_toRead (fst (gpio_transform x k))) k = (fst (gpio_transform x k), [])"
    using gpio_reprint [OF gpio_transform_ok gpio_range_transform, of x k] assms(2)
    by (auto simp: list_all_iff)
qed simp

lemma genset_section:
  assumes "wf_gomap m"
    and "list_all (\<lambda>(_, g). wf_bindings (er_InputBindings g) \<and> wf_bindings (er_OutputBindings g)) m"
    and it: "iter_order it" "iter_order it2" "iter_order it'" "iter_order it2'"
    and "snd (TransformAndValidateMapToList m (\<lambda>inp nm. genset_transform it it2 inp nm devs)) = []"
  shows "TransformAndValidateMapToList (convertMapToRead (cd_name \<circ> ed_DeviceConfig) genset_toRead
      (fst (TransformAndValidateMapToList m (\<lambda>inp nm. genset_transform it it2 inp nm devs))))
      (\<lambda>inp nm. genset_transform it' it2' inp nm devs) =
    (fst (TransformAndValidateMapToList m (\<lambda>inp nm. genset_transform it it2 inp nm devs)), [])"
proof (rule section_reprint_same [OF assms(1,7)])
  fix x k
  assume x: "(k, x) \<in> set m" "snd (genset_transform it it2 x k devs) = []"
  let ?d = "fst (genset_transform it it2 x k devs)"
  have "genset_range ?d"
    using x(1) assms(2) it by (intro genset_range_transform) (auto simp: list_all_iff)
  then show "genset_transform it' it2' (genset_toRead ?d) k devs = (?d, [])"
    using genset_reprint [OF genset_transform_ok [OF it(1,2) x(2)] _ it(3,4)] by simp
qed simp

lemma modbusDevice_section:
  assumes "wf_gomap m" and it: "iter_order pit" "iter_order it'"
    and "snd (TransformAndValidateMapToList m (\<lambda>inp nm. modbusDevice_transform it inp nm ms)) = []"
  obtains ds where "TransformAndValidateMapToList
      (convertMapToRead (cd_name \<circ> md_DeviceConfig) (modbusDevice_toRead pit)
        (fst (TransformAndValidateMapToList m (\<lambda>inp nm. modbusDevice_transform it inp nm ms))))
      (\<lambda>inp nm. modbusDevice_transform it' inp nm ms) = (ds, [])"
    and "list_all2 same_modbusDevice
      (fst (TransformAndValidateMapToList m (\<lambda>inp nm. modbusDevice_transform it inp nm ms))) ds"
proof -
  let ?xs = "fst (TransformAndValidateMapToList m (\<lambda>inp nm. modbusDevice_transform it inp nm ms))"
  define g where "g d = fst (modbusDevice_transform it' (modbusDevice_toRead pit d) (cd_name (md_DeviceConfig d)) ms)" for d
  have g: "modbusDevice_transform it' (modbusDevice_toRead pit d) (cd_name (md_DeviceConfig d)) ms = (g d, [])
      \<and> same_modbusDevice d (g d)" if "modbusDevice_ok ms d" "modbusDevice_range d" for d
    using modbusDevice_reprint [OF that it] by (auto simp: g_def)
  have "TransformAndValidateMapToList (convertMapToRead (cd_name \<circ> md_DeviceConfig) (modbusDevice_toRead pit) ?xs)
      (\<lambda>inp nm. modbusDevice_transform it' inp nm ms) = (map g ?xs, [])"
    using g [OF modbusDevice_transform_ok modbusDevice_range_transform]
    by (intro section_reprint [OF assms(1,4)]) simp_all
  moreover have "list_all2 same_modbusDevice ?xs (map g ?xs)"
    using g [OF modbusDevice_transform_ok modbusDevice_range_transform] assms(4)
    by (auto simp: list.rel_map list_all2_same MapToList_set MapToList_no_errors)
  ultimately show thesis by (rule that)
qed

lemma http_section:
  fixes env env' :: "'u config_env"
  defines "tr \<equiv> http_transform env"
  assumes "wf_gomap m" and ok: "snd (TransformAndValidateMapToList m tr) = []"
    and urls: "list_all (\<lambda>d. case hd_url d of None \<Rightarrow> True
      | Some u \<Rightarrow> us u \<noteq> '''' \<and> url_ParseRequestURI env' (us u) = Some u) (fst (TransformAndValidateMapToList m tr))"
    and kinds: "list_all (\<lambda>d. hd_kind d \<noteq> HttpShellyEm3Kind) (fst (TransformAndValidateMapToList m tr))"
  obtains r where "convertMapToReadP (cd_name \<circ> hd_DeviceConfig) (http_toRead us)
      (fst (TransformAndValidateMapToList m tr)) = Some r"
    and "TransformAndValidateMapToList r (http_transform env') = (fst (TransformAndValidateMapToList m tr), [])"
proof -
  let ?xs = "fst (TransformAndValidateMapToList m tr)" and ?nm = "cd_name \<circ> hd_DeviceConfig"
  define conv where "conv d = the (http_toRead us d)" for d
  have names: "?nm (fst (tr x k)) = k" for x k by (simp add: tr_def)
  have s: "sorted (map ?nm ?xs)" "distinct (map ?nm ?xs)"
    using MapToList_sorted [OF assms(2), of ?nm tr, OF names] by simp_all
  have item: "http_toRead us d = Some (conv d) \<and> http_transform env' (conv d) (?nm d) = (d, [])"
    if d: "d \<in> set ?xs" for d
  proof -
    obtain x k where x: "d = fst (tr x k)" "snd (tr x k) = []"
      using MapToList_item [OF d ok] by blast
    then have h: "http_ok d" "http_range d"
      using http_transform_ok http_range_transform by (simp_all add: tr_def)
    then obtain u where u: "hd_url d = Some u" by (auto simp: http_ok_def)
    have "us u \<noteq> '''' \<and> url_ParseRequestURI env' (us u) = Some u" "hd_kind d \<noteq> HttpShellyEm3Kind"
      using bspec [OF urls [unfolded list_all_iff] d] bspec [OF kinds [unfolded list_all_iff] d] u
      by simp_all
    then obtain r where "http_toRead us d = Some r" "http_transform env' r (cd_name (hd_DeviceConfig d)) = (d, [])"
      using http_reprint [OF h _ u, of us env'] by blast
    then show ?thesis by (simp add: conv_def)
  qed
  have "convertMapToReadP ?nm (http_toRead us) ?xs = Some (map (\<lambda>c. (?nm c, conv c)) ?xs)"
    using item by (intro convertMapToReadP_distinct [OF s(2)]) simp
  moreover have "TransformAndValidateMapToList (map (\<lambda>c. (?nm c, conv c)) ?xs) (http_transform env') =
      (map (\<lambda>d. d) ?xs, [])"
    using item by (intro MapToList_reprint [OF s]) simp
  ultimately show thesis using that by simp
qed

lemma views_section:
  assumes "snd (TransformAndValidateListUnique vs (view_transform devices) (duplicateName vw_name)) = []"
    and "iter_order it"
  obtains ws where "TransformAndValidateListUnique (convertListToRead (view_toRead it)
      (fst (TransformAndValidateListUnique vs (view_transform devices) (duplicateName vw_name))))
      (view_transform devices) (duplicateName vw_name) = (ws, [])"
    and "list_all2 same_view
      (fst (TransformAndValidateListUnique vs (view_transform devices) (duplicateName vw_name))) ws"
proof -
  let ?xs = "fst (TransformAndValidateListUnique vs (view_transform devices) (duplicateName vw_name))"
  define g where "g v = fst (view_transform devices (view_toRead it v))" for v
  have ok: "distinct (map vw_name ?xs)" "list_all (view_ok devices) ?xs"
    using views_ok [OF assms(1)] by (simp_all add: getNames_def)
  have g: "view_transform devices (view_toRead it v) = (g v, []) \<and> same_view v (g v)" if "v \<in> set ?xs" for v
    using view_reprint [OF _ assms(2), of devices v] ok(2) that by (auto simp: g_def list_all_iff)
  then have "vw_name (g v) = vw_name v" if "v \<in> set ?xs" for v
    using that by (metis ViewConfig.select_convs(1) ViewConfig.surjective ViewConfig.update_convs(5) same_view_def)
  then have "TransformAndValidateListUnique (convertListToRead (view_toRead it) ?xs) (view_transform devices)
      (duplicateName vw_name) = (map g ?xs, [])"
    unfolding convertListToRead_def using g ok(1) by (intro ListUnique_reprint) simp_all
  moreover have "list_all2 same_view ?xs (map g ?xs)"
    using g by (simp add: list.rel_map list_all2_same)
  ultimately show thesis by (rule that)
qed

lemma same_modbusDevice_devices:
  "list_all2 same_modbusDevice ds ds' \<Longrightarrow> map md_DeviceConfig ds' = map md_DeviceConfig ds"
  by (induction rule: list_all2_induct) (simp_all add: same_modbusDevice_def)

section \<open>The sections of a file\<close>

text \<open>What each section of an accepted file was transformed to, and how it ends up in the
  configuration.\<close>

definition devices_of :: "'u Config \<Rightarrow> DeviceConfig list" where
  "devices_of cf = nonMqttGenset_devices (cf_victronDevices cf) (cf_modbusDevices cf)
     (cf_gpioDevices cf) (cf_httpDevices cf) (cf_mqttDevices cf)"

lemma accepted_sections:
  assumes "TransformAndValidate o1 env b c = Some (cf, [])"
  shows "version_field (Version c) = (cf_version cf, [])" "cf_projectTitle cf \<noteq> ''''"
    and "httpServer_transform env (HttpServer c) = (cf_httpServer cf, [])"
    and "authentication_transform env b (Authentication c) = (cf_authentication cf, [])"
    and "TransformAndValidateMapToList (Modbus c) modbus_transform = (cf_modbus cf, [])"
    and "TransformAndValidateMapToList (VictronDevices c) victron_transform = (cf_victronDevices cf, [])"
    and "TransformAndValidateMapToList (ModbusDevices c)
      (\<lambda>inp nm. modbusDevice_transform (it_relays o1) inp nm (cf_modbus cf)) = (cf_modbusDevices cf, [])"
    and "TransformAndValidateMapToList (GpioDevices c) gpio_transform = (cf_gpioDevices cf, [])"
    and "TransformAndValidateMapToList (HttpDevices c) (http_transform env) = (cf_httpDevices cf, [])"
    and "TransformAndValidateMapToList (MqttDevices c) mqttDevice_transform = (cf_mqttDevices cf, [])"
    and "TransformAndValidateMapToList (GensetDevices c)
      (\<lambda>inp nm. genset_transform (it_bindings o1) (it_registers o1) inp nm (devices_of cf)) =
      (cf_gensetDevices cf, [])"
    and "cf_devices cf = devices_of cf @ map ed_DeviceConfig (cf_gensetDevices cf)"
    and "TransformAndValidateListUnique (Views c) (view_transform (cf_devices cf)) (duplicateName vw_name) =
      (cf_views cf, [])"
  using assms unfolding TransformAndValidate_eq
  by (auto simp: prod_eq_iff devices_of_def split: if_splits)

lemma sections_accepted:
  fixes cf' :: "'u Config"
  assumes "version_field (Version r) = (cf_version cf', [])" "cf_projectTitle cf' = ProjectTitle r"
      "ProjectTitle r \<noteq> ''''"
    and "httpServer_transform env (HttpServer r) = (cf_httpServer cf', [])"
    and "authentication_transform env b (Authentication r) = (cf_authentication cf', [])"
    and "TransformAndValidateMapToList (Modbus r) modbus_transform = (cf_modbus cf', [])"
    and "TransformAndValidateMapToList (VictronDevices r) victron_transform = (cf_victronDevices cf', [])"
    and "TransformAndValidateMapToList (ModbusDevices r)
      (\<lambda>inp nm. modbusDevice_transform (it_relays o1) inp nm (cf_modbus cf')) = (cf_modbusDevices cf', [])"
    and "TransformAndValidateMapToList (GpioDevices r) gpio_transform = (cf_gpioDevices cf', [])"
    and "TransformAndValidateMapToList (HttpDevices r) (http_transform env) = (cf_httpDevices cf', [])"
    and "TransformAndValidateMapToList (MqttDevices r) mqttDevice_transform = (cf_mqttDevices cf', [])"
    and "TransformAndValidateMapToList (GensetDevices r)
      (\<lambda>inp nm. genset_transform (it_bindings o1) (it_registers o1) inp nm (devices_of cf')) =
      (cf_gensetDevices cf', [])"
    and "cf_devices cf' = devices_of cf' @ map ed_DeviceConfig (cf_gensetDevices cf')"
    and "TransformAndValidateListUnique (Views r) (view_transform (cf_devices cf')) (duplicateName vw_name) =
      (cf_views cf', [])"
    and "MqttClients r = []" "cf_mqttClients cf' = []"
    and "LogConfig r = Some (cf_logConfig cf')" "LogWorkerStart r = Some (cf_logWorkerStart cf')"
      "LogStateStorageDebug r = Some (cf_logStateStorageDebug cf')"
      "LogCommandStorageDebug r = Some (cf_logCommandStorageDebug cf')"
  shows "TransformAndValidate o1 env b r = Some (cf', [])"
proof -
  have "TransformAndValidateMapToListP [] tr = Some ([], [])" for tr :: "mqttClientConfigRead \<Rightarrow> string \<Rightarrow> 'u MqttClientConfig checked option"
    by (simp add: TransformAndValidateMapToListP_def)
  with assms show ?thesis
    unfolding TransformAndValidate_def
    by (cases cf') (simp add: Let_def devices_of_def)
qed

section \<open>What is not accepted again\<close>

lemma AList_update_subset: "set (AList.update k v m) \<subseteq> insert (k, v) (set m)"
  by (induction m) auto

lemma convertMapToReadP_snoc:
  "convertMapToReadP nm conv (xs @ [x]) =
     (case (convertMapToReadP nm conv xs, conv x) of
        (Some m, Some r) \<Rightarrow> Some (AList.update (nm x) r m)
      | _ \<Rightarrow> None)"
  by (simp add: convertMapToReadP_def)

lemma convertMapToReadP_snocE:
  assumes "convertMapToReadP nm conv (xs @ [x]) = Some m"
  obtains m' r where "convertMapToReadP nm conv xs = Some m'" "conv x = Some r"
    "m = AList.update (nm x) r m'"
  using assms by (auto simp: convertMapToReadP_snoc split: option.splits)

lemma convertMapToReadP_total:
  "list_all (\<lambda>c. conv c \<noteq> None) xs \<Longrightarrow> convertMapToReadP nm conv xs \<noteq> None"
  by (induction xs rule: rev_induct) (auto simp: convertMapToReadP_snoc convertMapToReadP_def [of nm conv "[]"])

text \<open>Every accepted configuration can be printed: its URLs are set.\<close>

lemma accepted_prints:
  assumes "map_orders_ok o1" "TransformAndValidate o1 env b c = Some (cf, [])"
  shows "\<exists>r. MarshalYAML po us cf = Some r"
proof -
  have ok: "config_ok cf" using assms by (rule accepted_config_ok)
  have "list_all (\<lambda>d. mqttClient_toRead us d \<noteq> None) (cf_mqttClients cf)"
    using ok by (auto simp: config_ok_def list_all_iff mqttClient_ok_def mqttClient_toRead_def)
  moreover have "list_all (\<lambda>d. http_toRead us d \<noteq> None) (cf_httpDevices cf)"
    using ok by (auto simp: config_ok_def list_all_iff http_ok_def http_toRead_def)
  ultimately have "convertMapToReadP cl_name (mqttClient_toRead us) (cf_mqttClients cf) \<noteq> None"
    "convertMapToReadP (cd_name \<circ> hd_DeviceConfig) (http_toRead us) (cf_httpDevices cf) \<noteq> None"
    using convertMapToReadP_total by blast+
  then show ?thesis
    by (auto simp: MarshalYAML_def)
qed

lemma convertMapToReadP_values:
  "convertMapToReadP nm conv xs = Some m \<Longrightarrow> (k, v) \<in> set m \<Longrightarrow> \<exists>c \<in> set xs. conv c = Some v"
proof (induction xs arbitrary: m rule: rev_induct)
  case (snoc x xs)
  from snoc.prems(1) obtain m' r where m: "convertMapToReadP nm conv xs = Some m'" "conv x = Some r"
    "m = AList.update (nm x) r m'"
    by (rule convertMapToReadP_snocE)
  have "(k, v) \<in> insert (nm x, r) (set m')"
    using subsetD [OF AList_update_subset [of "nm x" r m'], of "(k, v)"] snoc.prems(2) by (simp only: m(3))
  with snoc.IH [OF m(1)] m(2) show ?case by auto
qed (simp add: convertMapToReadP_def)

lemma convertMapToReadP_defined:
  "convertMapToReadP nm conv xs = Some m \<Longrightarrow> c \<in> set xs \<Longrightarrow> conv c \<noteq> None \<and> nm c \<in> fst ` set m"
proof (induction xs arbitrary: m rule: rev_induct)
  case (snoc x xs)
  from snoc.prems(1) obtain m' r where m: "convertMapToReadP nm conv xs = Some m'" "conv x = Some r"
    "m = AList.update (nm x) r m'"
    by (rule convertMapToReadP_snocE)
  show ?case
  proof (cases "c \<in> set xs")
    case True
    from snoc.IH [OF m(1) True] show ?thesis by (simp add: m(3) dom_update)
  next
    case False
    with snoc.prems(2) show ?thesis by (simp add: m dom_update)
  qed
qed simp

lemma gomap_get_in: "k \<in> fst ` set m \<Longrightarrow> (k, gomap_get m k) \<in> set m"
  by (cases "map_of m k") (auto simp: gomap_get_def map_of_eq_None_iff dest: map_of_SomeD)

lemma MapToListP_item:
  assumes "TransformAndValidateMapToListP m tr = Some (rs, [])" "k \<in> fst ` set m"
  obtains x where "tr (gomap_get m k) k = Some x" "snd x = []"
proof -
  obtain ys where ys: "those (map (\<lambda>k. tr (gomap_get m k) k) (sort (map fst m))) = Some ys"
      "concat (map snd ys) = []"
    using assms(1) by (auto simp: TransformAndValidateMapToListP_def Let_def split: option.splits)
  have "\<exists>x. tr (gomap_get m k) k = Some x \<and> x \<in> set ys" if "k \<in> set ks"
      "those (map (\<lambda>k. tr (gomap_get m k) k) ks) = Some ys" for ks ys
    using that by (induction ks arbitrary: ys) (auto split: option.splits)
  from this [OF _ ys(1)] obtain x where "tr (gomap_get m k) k = Some x" "x \<in> set ys"
    using assms(2) by auto
  with ys(2) that show thesis by auto
qed

lemma printed_client_rejected:
  assumes "convertMapToReadP cl_name (mqttClient_toRead us) cls = Some m" "cls \<noteq> []"
  shows "TransformAndValidateMapToListP m (\<lambda>inp nm. mqttClient_transform env inp nm devs ms) \<noteq> Some (rs, [])"
proof
  assume acc: "TransformAndValidateMapToListP m (\<lambda>inp nm. mqttClient_transform env inp nm devs ms) = Some (rs, [])"
  obtain c where "c \<in> set cls" using assms(2) by (cases cls) auto
  then have k: "cl_name c \<in> fst ` set m" using convertMapToReadP_defined [OF assms(1)] by blast
  obtain d where "mqttClient_toRead us d = Some (gomap_get m (cl_name c))"
    using convertMapToReadP_values [OF assms(1) gomap_get_in [OF k]] by blast
  then have "snd (mqttClient_result env (gomap_get m (cl_name c)) (cl_name c) devs ms) \<noteq> []"
    by (rule mqttClient_rejected)
  moreover obtain x where "mqttClient_transform env (gomap_get m (cl_name c)) (cl_name c) devs ms = Some x"
      "snd x = []"
    by (rule MapToListP_item [OF acc k])
  ultimately show False
    by (auto simp: mqttClient_transform_def Let_def split: if_splits)
qed

lemma printed_shelly_rejected:
  assumes m: "convertMapToReadP (cd_name \<circ> hd_DeviceConfig) (http_toRead us) ds = Some m"
    and "distinct (map (cd_name \<circ> hd_DeviceConfig) ds)" "d \<in> set ds" "hd_kind d = HttpShellyEm3Kind"
  shows "snd (TransformAndValidateMapToList m (http_transform env)) \<noteq> []"
proof -
  let ?nm = "cd_name \<circ> hd_DeviceConfig"
  have some: "http_toRead us c = Some (the (http_toRead us c))" if "c \<in> set ds" for c
    using convertMapToReadP_defined [OF m that] by auto
  have "m = map (\<lambda>c. (?nm c, the (http_toRead us c))) ds"
    using convertMapToReadP_distinct [OF assms(2) some] m by simp
  then have "gomap_get m (?nm d) = the (http_toRead us d)"
    using gomap_get_map [OF assms(2,3)] by simp
  then have "snd (http_transform env (gomap_get m (?nm d)) (?nm d)) \<noteq> []"
    using http_shelly_rejected [OF assms(4)] some [OF assms(3)] by simp
  moreover have "?nm d \<in> fst ` set m"
    using convertMapToReadP_defined [OF m assms(3)] by blast
  ultimately show ?thesis unfolding MapToList_no_errors by blast
qed

lemma print_rejected:
  fixes cf :: "'u Config" and env' :: "'u config_env"
  assumes r: "MarshalYAML po us cf = Some r"
    and names: "distinct (map (cd_name \<circ> hd_DeviceConfig) (cf_httpDevices cf))"
    and bad: "cf_mqttClients cf \<noteq> [] \<or> (\<exists>d \<in> set (cf_httpDevices cf). hd_kind d = HttpShellyEm3Kind)"
  shows "TransformAndValidate o2 env' b' r \<noteq> Some (cf', [])"
proof
  assume again: "TransformAndValidate o2 env' b' r = Some (cf', [])"
  obtain cls hs where m: "convertMapToReadP cl_name (mqttClient_toRead us) (cf_mqttClients cf) = Some cls"
      "convertMapToReadP (cd_name \<circ> hd_DeviceConfig) (http_toRead us) (cf_httpDevices cf) = Some hs"
      "MqttClients r = cls" "HttpDevices r = hs"
    using r by (auto simp: MarshalYAML_def split: option.splits)
  have "\<exists>devs ms rs. TransformAndValidateMapToListP cls
      (\<lambda>inp nm. mqttClient_transform env' inp nm devs ms) = Some (rs, [])"
    using again unfolding TransformAndValidate_eq m(3) by auto
  moreover have "snd (TransformAndValidateMapToList hs (http_transform env')) = []"
    using accepted_sections(9) [OF again] by (simp add: m(4))
  ultimately show False
    using bad names printed_client_rejected [OF m(1)] printed_shelly_rejected [OF m(2)] by metis
qed

section \<open>A file\<close>

definition reprint_config :: configRead where
  "reprint_config = (demo_config demo_remote)\<lparr>MqttClients := [],
     HttpServer := Some \<lparr>wr_Bind = ''[::1]'', wr_Port = None, wr_LogRequests = None,
       wr_FrontendProxy = ''http://localhost:3000'', wr_FrontendPath = '''', wr_FrontendExpires = ''90s'',
       wr_ConfigExpires = '''', wr_LogDebug = None\<rparr>,
     Authentication := Some \<lparr>ar_JwtSecret = None, ar_JwtValidityPeriod = ''90m'', ar_HtaccessFile = Some ''auth''\<rparr>,
     HttpDevices := [(''web'', \<lparr>hr_device = default_device, hr_Url = ''http://web'', hr_Kind = ''Teracom'',
       hr_Username = '''', hr_Password = '''', hr_PollInterval = ''1500ms''\<rparr>)]\<rparr>"

definition print_orders_rev :: marshal_orders where
  "print_orders_rev = \<lparr>pit_relays = rev, pit_users = rev\<rparr>"

definition second_env :: "string config_env" where
  \<comment> \<open>the second start draws other random numbers\<close>
  "second_env = demo_env\<lparr>rand_Int := (\<lambda>i n. Some 0)\<rparr>"

definition reprint_ready :: "string Config checked option \<Rightarrow> bool" where
  \<comment> \<open>the conditions on a transformed file under which its print is accepted\<close>
  "reprint_ready res =
     (case res of
        Some (cf, es) \<Rightarrow> length es = 0 \<and> urls_reparse second_env (\<lambda>u. u) cf \<and>
          (au_enabled (cf_authentication cf) \<longrightarrow> 32 \<le> length (au_jwtSecret (cf_authentication cf))) \<and>
          cf_mqttClients cf = [] \<and> list_all (\<lambda>d. hd_kind d \<noteq> HttpShellyEm3Kind) (cf_httpDevices cf)
      | _ \<Rightarrow> False)"

lemma reprint_config_ready: "reprint_ready (TransformAndValidate demo_orders demo_env True reprint_config)"
  by code_simp

lemma reprint_config_wf: "read_wf reprint_config"
  by code_simp

definition accepted_clients :: "string Config checked option \<Rightarrow> nat option" where
  "accepted_clients res =
     (case res of Some (cf, es) \<Rightarrow> Some (length es + length (cf_mqttClients cf)) | None \<Rightarrow> None)"

lemma demo_clients: "accepted_clients (TransformAndValidate demo_orders demo_env True (demo_config demo_remote)) =
    Some 1"
  by code_simp

section \<open>Properties\<close>

text \<open>An accepted configuration without clients and Shelly devices is accepted again as it was.\<close>

lemma marshal_roundtrip:
  assumes orders: "map_orders_ok o1" "map_orders_ok o2" "iter_order (pit_relays po)" "iter_order (pit_users po)"
    and acc: "TransformAndValidate o1 env b c = Some (cf, [])" and wf: "read_wf c"
    and env: "os_Stat env' = os_Stat env" and urls: "urls_reparse env' us cf"
    and secret: "au_enabled (cf_authentication cf) \<longrightarrow> 32 \<le> length (au_jwtSecret (cf_authentication cf))"
    and clients: "cf_mqttClients cf = []"
    and kinds: "list_all (\<lambda>d. hd_kind d \<noteq> HttpShellyEm3Kind) (cf_httpDevices cf)"
  shows "\<exists>r cf'. MarshalYAML po us cf = Some r \<and> TransformAndValidate o2 env' b r = Some (cf', []) \<and>
    same_config cf cf'"
proof -
  note secs = accepted_sections [OF acc] and wf' = wf [unfolded read_wf_def]
  note it = map_orders_okD [OF orders(1)] map_orders_okD [OF orders(2)]
  have "iter_order (it_relays o2)" using orders(2) by (simp add: map_orders_ok_def)
  then obtain ds where ds: "TransformAndValidateMapToList (convertMapToRead (cd_name \<circ> md_DeviceConfig)
        (modbusDevice_toRead (pit_relays po)) (cf_modbusDevices cf))
      (\<lambda>inp nm. modbusDevice_transform (it_relays o2) inp nm (cf_modbus cf)) = (ds, [])"
    "list_all2 same_modbusDevice (cf_modbusDevices cf) ds"
    using modbusDevice_section [OF _ orders(3), of "ModbusDevices c" "it_relays o2" "it_relays o1" "cf_modbus cf"]
      wf' secs(7) by auto
  obtain hr where hr: "convertMapToReadP (cd_name \<circ> hd_DeviceConfig) (http_toRead us) (cf_httpDevices cf) = Some hr"
    "TransformAndValidateMapToList hr (http_transform env') = (cf_httpDevices cf, [])"
    using http_section [where m = "HttpDevices c" and env = env and env' = env' and us = us] wf' secs(9) urls kinds
    by (auto simp: urls_reparse_def)
  obtain ws where ws: "TransformAndValidateListUnique (convertListToRead (view_toRead (pit_users po)) (cf_views cf))
      (view_transform (cf_devices cf)) (duplicateName vw_name) = (ws, [])" "list_all2 same_view (cf_views cf) ws"
    using views_section [OF _ orders(4), of "Views c" "cf_devices cf"] secs(13) by auto
  obtain a where a: "authentication_transform env' b (convertEnableableToRead au_enabled
      authentication_toRead (cf_authentication cf)) = (a, [])" "same_authentication (cf_authentication cf) a"
    using authentication_reprint [OF secs(4) env] secret by blast
  have hs: "httpServer_transform env' (convertEnableableToRead ws_enabled (httpServer_toRead us)
      (cf_httpServer cf)) = (cf_httpServer cf, [])"
    using urls secs(3) httpServer_transform_ok [of env "HttpServer c"]
    by (intro httpServer_reprint [of _ env "HttpServer c"]) (auto simp: urls_reparse_def split: option.splits)
  have gs: "TransformAndValidateMapToList (convertMapToRead (cd_name \<circ> ed_DeviceConfig) genset_toRead
      (cf_gensetDevices cf)) (\<lambda>inp nm. genset_transform (it_bindings o2) (it_registers o2) inp nm (devices_of cf)) =
      (cf_gensetDevices cf, [])"
    using genset_section [OF _ _ it, of "GensetDevices c" "devices_of cf"] wf' secs(11) by simp
  let ?cf = "cf\<lparr>cf_authentication := a, cf_modbusDevices := ds, cf_views := ws\<rparr>"
  have devs: "devices_of ?cf = devices_of cf"
    using same_modbusDevice_devices [OF ds(2)] by (simp add: devices_of_def nonMqttGenset_devices_def)
  obtain r where r: "MarshalYAML po us cf = Some r"
    by (simp add: MarshalYAML_def clients convertMapToReadP_def [of cl_name] hr(1))
  have "TransformAndValidate o2 env' b r = Some (?cf, [])"
  proof (rule sections_accepted)
    show "version_field (Version r) = (cf_version ?cf, [])"
      using r secs(1) version_field_ok [of "Version c"]
      by (auto simp: MarshalYAML_def version_field_def split: option.splits)
  qed (use r secs wf' ds(1) hr ws(1) a(1) hs devs clients modbus_section [of "Modbus c"]
      victron_section [of "VictronDevices c"] gpio_section [of "GpioDevices c"]
      mqttDevice_section [of "MqttDevices c"] gs
    in \<open>auto simp: MarshalYAML_def convertMapToReadP_def [of cl_name]\<close>)
  then show ?thesis
    using r ds(2) ws(2) a(2) by (auto simp: same_config_def)
qed

text \<open>
  C29: the print of an accepted configuration with an MQTT client or a Shelly device is always
  rejected: it sets the interval of the availability of the client, which supports none, and
  names the device \<open>Shelly3m\<close>, a kind that is not read.
\<close>

theorem marshal_rejected:
  fixes env :: "'u config_env"
  assumes acc: "TransformAndValidate o1 env b c = Some (cf, [])" and wf: "wf_gomap (HttpDevices c)"
    and o1: "map_orders_ok o1"
    and bad: "cf_mqttClients cf \<noteq> [] \<or> (\<exists>d \<in> set (cf_httpDevices cf). hd_kind d = HttpShellyEm3Kind)"
  shows "\<exists>r. MarshalYAML po us cf = Some r \<and>
    (\<forall>o2 (env' :: 'u config_env) b' cf'. TransformAndValidate o2 env' b' r \<noteq> Some (cf', []))"
proof -
  obtain r where r: "MarshalYAML po us cf = Some r"
    using accepted_prints [OF o1 acc] by blast
  moreover have "distinct (map (cd_name \<circ> hd_DeviceConfig) (cf_httpDevices cf))"
    using MapToList_sorted(2) [OF wf, of "cd_name \<circ> hd_DeviceConfig" "http_transform env"]
      accepted_sections(9) [OF acc] by simp
  ultimately show ?thesis
    using print_rejected [OF _ _ bad] by blast
qed

theorem marshal_rejected_witness:
  "\<exists>cf r. TransformAndValidate demo_orders demo_env True (demo_config demo_remote) = Some (cf, []) \<and>
     MarshalYAML print_orders_rev (\<lambda>u. u) cf = Some r \<and>
     (\<forall>cf'. TransformAndValidate demo_orders demo_env True r \<noteq> Some (cf', []))"
proof -
  obtain cf where acc: "TransformAndValidate demo_orders demo_env True (demo_config demo_remote) = Some (cf, [])"
    using demo_no_errors by (auto simp: transform_errors_def)
  then have "length (cf_mqttClients cf) = 1"
    using demo_clients by (simp add: accepted_clients_def)
  then have "cf_mqttClients cf \<noteq> []" by auto
  moreover have "wf_gomap (HttpDevices (demo_config demo_remote))" by code_simp
  ultimately obtain r where "MarshalYAML print_orders_rev (\<lambda>u. u) cf = Some r"
      "\<forall>o2 (env' :: string config_env) b' cf'. TransformAndValidate o2 env' b' r \<noteq> Some (cf', [])"
    using marshal_rejected [OF acc _ demo_orders_ok, of print_orders_rev "\<lambda>u. u"] by blast
  with acc show ?thesis by blast
qed

end
