(* ===== verification/Config_Read.thy ===== *)
theory Config_Read
  imports Marshal_Proofs
begin

text \<open>
  src/config/config.go: reading a file and printing a configuration as text. Variables of the
  environment are expanded in the text (\<open>os.ExpandEnv\<close>), which is then decoded: the decoder and
  the encoder of YAML are third-party, so they are the parameters \<open>decode\<close> and \<open>encode\<close>. What is
  printed goes to the log line by line.
\<close>

section \<open>os.Expand\<close>

definition isShellSpecialVar :: "char \<Rightarrow> bool" where
  "isShellSpecialVar c \<longleftrightarrow> c \<in> set ''*#$@!?-0123456789''"

definition isAlphaNum :: "char \<Rightarrow> bool" where
  "isAlphaNum c \<longleftrightarrow> c = CHR ''_'' \<or> is_digit c \<or> is_lower c \<or> is_upper c"

definition getShellName :: "string \<Rightarrow> string \<times> nat" where
  \<comment> \<open>the name at the start of the text after a dollar sign, which is not empty, and the number
    of characters it takes\<close>
  "getShellName s =
     (if hd s = CHR ''{'' then
        (if length s > 2 \<and> isShellSpecialVar (s ! 1) \<and> s ! 2 = CHR ''}'' then ([s ! 1], 3)
         else let nm = takeWhile (\<lambda>c. c \<noteq> CHR ''}'') (tl s)
              in if length nm = length (tl s) then ('''', 1)
                 else if nm = '''' then ('''', 2) else (nm, length nm + 2))
      else if isShellSpecialVar (hd s) then ([hd s], 1)
      else let nm = takeWhile isAlphaNum s in (nm, length nm))"

function Expand :: "(string \<Rightarrow> string) \<Rightarrow> string \<Rightarrow> string" where
  "Expand mapping [] = []"
| "Expand mapping (c # s) =
     (if c \<noteq> CHR ''$'' \<or> s = [] then c # Expand mapping s
      else let (nm, w) = getShellName s
           in (if nm = '''' \<and> w > 0 then '''' else if nm = '''' then [c] else mapping nm) @
              Expand mapping (drop w s))"
  by pat_completeness auto
termination
  by (relation "measure (\<lambda>(_, s). length s)") (auto simp: le_imp_less_Suc)

lemma Expand_no_dollar: "CHR ''$'' \<notin> set s \<Longrightarrow> Expand mapping s = s"
  by (induction s) auto

section \<open>Reading\<close>

datatype read_error =
    CannotReadFile string \<comment> \<open>the name of the program; the reason is not told\<close>
  | CannotParseYaml string
  | Rejected error

text \<open>\<open>decode\<close> fails with a message. The transformation may panic (\<open>None\<close>).\<close>

definition ReadConfig ::
  "(string \<Rightarrow> string) \<Rightarrow> (string \<Rightarrow> string + configRead) \<Rightarrow> map_orders \<Rightarrow> 'u config_env \<Rightarrow> bool \<Rightarrow>
     string \<Rightarrow> ('u Config option \<times> read_error list) option" where
  "ReadConfig getenv decode o1 env bypassFileCheck yamlStr =
     (case decode (Expand getenv yamlStr) of
        Inl e \<Rightarrow> Some (None, [CannotParseYaml e])
      | Inr cr \<Rightarrow> map_option (\<lambda>(cfg, err). (Some cfg, map Rejected err))
                    (TransformAndValidate o1 env bypassFileCheck cr))"

definition ReadConfigFile ::
  "(string \<Rightarrow> string option) \<Rightarrow> (string \<Rightarrow> string) \<Rightarrow> (string \<Rightarrow> string + configRead) \<Rightarrow> map_orders \<Rightarrow>
     'u config_env \<Rightarrow> string \<Rightarrow> string \<Rightarrow> bool \<Rightarrow> ('u Config option \<times> read_error list) option" where
  "ReadConfigFile files getenv decode o1 env exe source bypassFileCheck =
     (case files source of
        None \<Rightarrow> Some (None, [CannotReadFile exe])
      | Some yamlStr \<Rightarrow> ReadConfig getenv decode o1 env bypassFileCheck yamlStr)"

text \<open>The message of a file that cannot be read formats the empty list of errors in place of the
  error of the file system.\<close>

definition cannot_read_message :: "string \<Rightarrow> string" where
  "cannot_read_message exe =
     ''cannot read configuration: []; use see `'' @ exe @ '' --help`''"

section \<open>Printing\<close>

fun Split :: "char \<Rightarrow> string \<Rightarrow> string list" where
  "Split sep [] = [[]]"
| "Split sep (c # s) =
     (if c = sep then [] # Split sep s
      else case Split sep s of
             [] \<Rightarrow> [[c]]
           | l # ls \<Rightarrow> (c # l) # ls)"

fun Join :: "char \<Rightarrow> string list \<Rightarrow> string" where
  "Join sep [] = []"
| "Join sep [l] = l"
| "Join sep (l # ls) = l @ sep # Join sep ls"

lemma Split_not_empty: "Split sep s \<noteq> []"
  by (induction s) (auto split: list.splits)

lemma Join_Split: "Join sep (Split sep s) = s"
proof (induction s)
  case (Cons c s)
  obtain l ls where ls: "Split sep s = l # ls"
    using Split_not_empty [of sep s] by (cases "Split sep s") auto
  with Cons show ?case by (cases ls) auto
qed simp

text \<open>The lines given to the log; \<open>None\<close>: the marshaler panics; an error of the encoder is returned
  and nothing is logged.\<close>

definition PrintConfig ::
  "(configRead \<Rightarrow> string option) \<Rightarrow> marshal_orders \<Rightarrow> ('u \<Rightarrow> string) \<Rightarrow> 'u Config \<Rightarrow> (unit + string list) option" where
  "PrintConfig encode po us c =
     map_option (\<lambda>r. case encode r of
         None \<Rightarrow> Inl ()
       | Some newYamlStr \<Rightarrow> Inr (''config: use the following config:'' #
           map (\<lambda>line. ''config: '' @ line) (Split (CHR 0x0A) newYamlStr))) (MarshalYAML po us c)"

text \<open>What a user copies from the log: the lines after the first, without their prefix.\<close>

definition copied :: "string list \<Rightarrow> string" where
  "copied ls = Join (CHR 0x0A) (map (drop (length ''config: '')) (tl ls))"

lemma copied_print:
  "MarshalYAML po us c = Some r \<Longrightarrow> encode r = Some t \<Longrightarrow>
     \<exists>ls. PrintConfig encode po us c = Some (Inr ls) \<and> copied ls = t"
  by (simp add: PrintConfig_def copied_def comp_def Join_Split)

section \<open>Properties\<close>

text \<open>
  C28: what the log shows of an accepted configuration can be copied into a file: read again it
  gives the same configuration without errors, whatever the orders of the maps, the random numbers
  and the variables of the second start, when it has no MQTT client and no Shelly device, a
  secret of at least 32 characters if it has authentication, and no dollar sign in its text. The
  configurations differ at most in the order of the maps of the relays and of the allowed users,
  and in the random secret nobody uses when there is no authentication.
\<close>

theorem print_read_roundtrip:
  assumes orders: "map_orders_ok o1" "map_orders_ok o2" "iter_order (pit_relays po)" "iter_order (pit_users po)"
    and acc: "TransformAndValidate o1 env b c = Some (cf, [])" and wf: "read_wf c"
    and env: "os_Stat env' = os_Stat env" "urls_reparse env' us cf"
    and secret: "au_enabled (cf_authentication cf) \<longrightarrow> 32 \<le> length (au_jwtSecret (cf_authentication cf))"
    and kinds: "cf_mqttClients cf = []" "list_all (\<lambda>d. hd_kind d \<noteq> HttpShellyEm3Kind) (cf_httpDevices cf)"
    and codec: "\<And>r. MarshalYAML po us cf = Some r \<Longrightarrow>
      \<exists>t. encode r = Some t \<and> decode t = Inr r \<and> CHR ''$'' \<notin> set t"
  shows "\<exists>ls cf'. PrintConfig encode po us cf = Some (Inr ls) \<and>
    ReadConfig getenv decode o2 env' b (copied ls) = Some (Some cf', []) \<and> same_config cf cf'"
proof -
  obtain r cf' where r: "MarshalYAML po us cf = Some r" "TransformAndValidate o2 env' b r = Some (cf', [])"
      "same_config cf cf'"
    using marshal_roundtrip [OF orders acc wf env secret kinds] by blast
  obtain t where t: "encode r = Some t" "decode t = Inr r" "CHR ''$'' \<notin> set t"
    using codec [OF r(1)] by blast
  obtain ls where "PrintConfig encode po us cf = Some (Inr ls)" "copied ls = t"
    using copied_print [of po us cf r encode t] r(1) t(1) by blast
  with r(2,3) t(2) show ?thesis
    by (auto simp: ReadConfig_def Expand_no_dollar [OF t(3)])
qed

theorem print_read_roundtrip_witness:
  "\<exists>cf decode ls cf'. TransformAndValidate demo_orders demo_env True reprint_config = Some (cf, []) \<and>
     PrintConfig (\<lambda>r. Some ''Version: 2'') print_orders_rev (\<lambda>u. u) cf = Some (Inr ls) \<and>
     ReadConfig (\<lambda>v. '''') decode demo_orders second_env True (copied ls) = Some (Some cf', []) \<and>
     same_config cf cf'"
proof -
  obtain cf where acc: "TransformAndValidate demo_orders demo_env True reprint_config = Some (cf, [])"
    and ready: "urls_reparse second_env (\<lambda>u. u) cf" "cf_mqttClients cf = []"
      "au_enabled (cf_authentication cf) \<longrightarrow> 32 \<le> length (au_jwtSecret (cf_authentication cf))"
      "list_all (\<lambda>d. hd_kind d \<noteq> HttpShellyEm3Kind) (cf_httpDevices cf)"
    using reprint_config_ready by (auto simp: reprint_ready_def split: option.splits)
  obtain r where r: "MarshalYAML print_orders_rev (\<lambda>u. u) cf = Some r"
    using accepted_prints [OF demo_orders_ok acc] by blast
  have it: "iter_order (pit_relays print_orders_rev)" "iter_order (pit_users print_orders_rev)"
    and stat: "os_Stat second_env = os_Stat demo_env"
    by (simp_all add: print_orders_rev_def second_env_def)
  have "\<exists>ls cf'. PrintConfig (\<lambda>r. Some ''Version: 2'') print_orders_rev (\<lambda>u. u) cf = Some (Inr ls) \<and>
      ReadConfig (\<lambda>v. '''') (\<lambda>t. Inr r) demo_orders second_env True (copied ls) = Some (Some cf', []) \<and>
      same_config cf cf'"
    by (rule print_read_roundtrip [OF demo_orders_ok demo_orders_ok it acc reprint_config_wf stat ready(1,3,2,4)])
      (simp add: r)
  with acc show ?thesis by blast
qed

text \<open>
  A variable is replaced by its value, and a dollar sign that no name follows is kept; there is no
  way to write a dollar sign that a letter follows.
\<close>

lemma Expand_examples:
  "Expand (\<lambda>v. if v = ''USER'' then ''ann'' else '''') ''User: $USER'' = ''User: ann''"
  "Expand (\<lambda>v. if v = ''USER'' then ''ann'' else '''') ''${USER}s: 5$ $$x'' = ''anns: 5$ x''"
  by code_simp+

end
