(* ===== verification/Modbus_Port.thy ===== *)
theory Modbus_Port
  imports Finder
begin

text \<open>
  src/modbus/modbus.go: the bus the modbus devices talk to, on a serial port of a third-party
  package, and the choice of the device's driver in src/modbusDevice/device.go. The port is the
  list of what its calls of \<open>Write\<close> and of \<open>Read\<close> return, one after the other; a \<open>Read\<close> returns at
  most as many bytes as asked for, possibly with an error.
\<close>

section \<open>The port\<close>

record port =
  po_writes :: "string option list" \<comment> \<open>the error of each write\<close>
  po_reads :: "(byte list \<times> string option) list"
  po_written :: "byte list list" \<comment> \<open>what was written, oldest first\<close>
  po_flushes :: nat

definition port_Write :: "byte list \<Rightarrow> port \<Rightarrow> string option \<times> port" where
  "port_Write b p =
     (case po_writes p of
        [] \<Rightarrow> (Some ''closed'', p)
      | err # ws \<Rightarrow> (err, p\<lparr>po_writes := ws, po_written := po_written p @ [b]\<rparr>))"

definition RecvFlush :: "port \<Rightarrow> port" where
  \<comment> \<open>an error of the flush is only logged\<close>
  "RecvFlush p = p\<lparr>po_flushes := Suc (po_flushes p)\<rparr>"

text \<open>
  \<open>io.ReadFull\<close> reads until the buffer is full or a read fails; a read that fills it succeeds
  whatever error it returns, and the end of the input after some bytes is the error
  \<open>ErrUnexpectedEOF\<close>. The result is the error, the bytes read, and the remaining reads.
\<close>

definition EOF :: string where "EOF = ''EOF''"
definition UnexpectedEOF :: string where "UnexpectedEOF = ''unexpected EOF''"

fun read_full ::
  "nat \<Rightarrow> byte list \<Rightarrow> (byte list \<times> string option) list \<Rightarrow>
     string option \<times> byte list \<times> (byte list \<times> string option) list" where
  "read_full n got [] = (if n \<le> length got then None else Some EOF, got, [])"
| "read_full n got ((b, err) # rs) =
     (if n \<le> length got then (None, got, (b, err) # rs)
      else let got1 = got @ take (n - length got) b
           in if n \<le> length got1 then (None, got1, rs)
              else case err of
                     None \<Rightarrow> read_full n got1 rs
                   | Some e \<Rightarrow> (Some (if got1 \<noteq> [] \<and> e = EOF then UnexpectedEOF else e), got1, rs))"

definition port_WriteRead :: "port write_read" where
  "port_WriteRead request responseBuf p =
     (case port_Write request (RecvFlush p) of
        (Some err, p1) \<Rightarrow> (Some err, [], p1)
      | (None, p1) \<Rightarrow>
          (let (err, got, rs) = read_full (length responseBuf) [] (po_reads p1)
           in (err, got, p1\<lparr>po_reads := rs\<rparr>)))"

section \<open>The device\<close>

definition modbus_NewDevice :: "device_config \<Rightarrow> modbus_device_config \<Rightarrow> modbus_device" where
  "modbus_NewDevice deviceConfig modbusConfig = \<lparr>md_State = NewState deviceConfig, md_Config = modbusConfig\<rparr>"

definition modbus_Model :: "modbus_device \<Rightarrow> string" where
  "modbus_Model c = ModbusDeviceKind_String (mc_Kind (md_Config c))"

text \<open>
  The events of the two drivers differ in what else a tick depends on; the table of the meter's
  registers and the contexts of its polls are theirs.
\<close>

definition modbus_Run ::
  "(byte list \<Rightarrow> 16 word) \<Rightarrow> 'b write_read \<Rightarrow> modbus_device \<Rightarrow> device_event list \<Rightarrow>
     FinderRegister list \<Rightarrow> (nat \<Rightarrow> bool) \<Rightarrow> finder_event list \<Rightarrow> 'b \<Rightarrow>
     (run_status \<times> device_action list \<times> 'b) option" where
  \<comment> \<open>\<open>None\<close>: an immediate error, the kind is unknown\<close>
  "modbus_Run crc writeRead c waveEvents finderTable ctxDone finderEvents bus =
     (case mc_Kind (md_Config c) of
        ModbusWaveshareRtuRelay8Kind \<Rightarrow> Some (runWaveshareRtuRelay8 crc writeRead c waveEvents bus)
      | ModbusFinder7M38Kind \<Rightarrow> Some (runFinder7M38 crc writeRead c finderTable ctxDone finderEvents bus)
      | ModbusUndefinedKind \<Rightarrow> None)"

section \<open>Reading in pieces\<close>

lemma read_full_pieces:
  assumes "\<forall>(b, err) \<in> set (butlast rs). err = None" and "length (got @ concat (map fst rs)) = n" and "rs \<noteq> []"
  shows "\<exists>rest. read_full n got rs = (None, got @ concat (map fst rs), rest)"
  using assms
proof (induction rs arbitrary: got)
  case (Cons r rs)
  obtain b err where r: "r = (b, err)" by fastforce
  show ?case
  proof (cases rs)
    case Nil
    with Cons.prems r show ?thesis by auto
  next
    case more: (Cons r' rs')
    show ?thesis
    proof (cases "n \<le> length (got @ b)")
      case True
      then have "length (concat (map fst rs)) = 0"
        using Cons.prems(2) r by (simp del: length_0_conv length_concat)
      then have rest: "concat (map fst rs) = []"
        by (simp only: length_0_conv)
      show ?thesis
        using True Cons.prems(2) r rest by auto
    next
      case False
      have "\<exists>rest. read_full n (got @ b) rs = (None, (got @ b) @ concat (map fst rs), rest)"
      proof (rule Cons.IH)
        show "\<forall>(b, err) \<in> set (butlast rs). err = None"
          using Cons.prems(1) more by auto
      qed (use Cons.prems(2) r more in simp_all)
      moreover have "err = None"
        using Cons.prems(1) r more by auto
      ultimately show ?thesis
        using False r by (simp add: Let_def)
    qed
  qed
qed simp

lemma read_full_bounds:
  "read_full n got rs = (err, out, rest) \<Longrightarrow> length got \<le> n \<Longrightarrow> length out \<le> n \<and> (err = None \<longrightarrow> length out = n)"
proof (induction rs arbitrary: got)
  case (Cons r rs)
  obtain b e where r: "r = (b, e)" by fastforce
  from Cons.prems show ?case
    by (auto simp: r Let_def split: if_splits option.splits dest!: Cons.IH)
qed (auto split: if_splits)

section \<open>Properties\<close>


definition example_port :: port where
  "example_port = \<lparr>po_writes = [None], po_reads = [([1], None), ([4, 7], None), ([0, 0], Some EOF)],
     po_written = [], po_flushes = 0\<rparr>"


end
