(* ===== verification/Program_Start.thy ===== *)
theory Program_Start
  imports Config_Proofs Restarter Mqtt_Device Mqtt_Client_Proofs Mqtt_Forwarders Genset_Device_Proofs Http_Device
    Gpio_Device Victron_Device Modbus_Port
begin

text \<open>
  How the program is put together: src/main.go, devices.go, mqtt.go, modbus.go, mqttForwarders.go.
  The pools of buses, devices and clients that are started for a configuration, what can be missing
  from them, and what is shut down in which order. Whether a serial port can be opened is an
  argument, so is whether the platform has GPIO.
\<close>

section \<open>Configurations as the devices see them\<close>

text \<open>The wrapper structs of devices.go give each device's configuration the interfaces it asks for.\<close>

definition device_conf :: "DeviceConfig \<Rightarrow> device_config" where
  "device_conf c =
     \<lparr>dc_Name = cd_name c, dc_Filter = cd_filter c, dc_LogDebug = cd_logDebug c, dc_LogComDebug = cd_logComDebug c\<rparr>"

definition restart_conf :: "DeviceConfig \<Rightarrow> restarter_config" where
  "restart_conf c =
     \<lparr>RestartInterval = cd_restartInterval c, RestartIntervalMaxBackoff = cd_restartIntervalMaxBackoff c\<rparr>"

definition MqttClientTopics ::
  "MqttDeviceConfig \<Rightarrow> 'u MqttClientConfig list \<Rightarrow> (string, string list) gomap" where
  "MqttClientTopics c mqttClients =
     foldl (\<lambda>ret mc.
         foldl (\<lambda>ret d.
             if mcd_name d \<noteq> cd_name (qd_DeviceConfig c) then ret
             else let old = (case map_of ret (cl_name mc) of None \<Rightarrow> [] | Some ts \<Rightarrow> ts)
                  in AList.update (cl_name mc) (old @ mcd_mqttTopics d) ret)
           ret (cl_mqttDevices mc))
       [] mqttClients"

section \<open>Devices\<close>

datatype device_struct =
    VictronDevice victron_device
  | ModbusDevice modbus_device ModbusConfig
  | GpioDevice gpio_device
  | HttpDevice http_device
  | MqttDevice mqtt_device "(string, string list) gomap"
  | GensetDevice genset_device

fun dev_Name :: "device_struct \<Rightarrow> string" where
  "dev_Name (VictronDevice d) = victron_Name d"
| "dev_Name (ModbusDevice d bus) = md_Name d"
| "dev_Name (GpioDevice d) = gpio_Name d"
| "dev_Name (HttpDevice d) = http_Name d"
| "dev_Name (MqttDevice d topics) = mqtt_Name d"
| "dev_Name (GensetDevice d) = gs_Name d"

text \<open>A device and the restarter that runs it, started.\<close>

record watched =
  wd_service :: device_struct
  wd_restarter :: restarter

definition watch :: "DeviceConfig \<Rightarrow> device_struct \<Rightarrow> watched" where
  "watch c dev = \<lparr>wd_service = dev, wd_restarter = Restarter_Run (CreateRestarter (restart_conf c))\<rparr>"

definition wd_Name :: "watched \<Rightarrow> string" where
  "wd_Name w = dev_Name (wd_service w)"

definition pool_add :: "watched pool \<Rightarrow> watched \<Rightarrow> watched pool" where
  "pool_add p w = Pool_Add wd_Name p w"

section \<open>Buses\<close>

definition runModbus :: "(ModbusConfig \<Rightarrow> bool) \<Rightarrow> 'u Config \<Rightarrow> ModbusConfig pool" where
  \<comment> \<open>a bus whose port cannot be opened is left out with a log line\<close>
  "runModbus opens cfg =
     foldl (\<lambda>p mbCfg. if opens mbCfg then Pool_Add mb_name p mbCfg else p) RunPool (cf_modbus cfg)"

section \<open>Starting the devices\<close>

definition runNonMqttGensetDevices ::
  "bool \<Rightarrow> 'u Config \<Rightarrow> ModbusConfig pool \<Rightarrow> watched pool \<Rightarrow> watched pool" where
  "runNonMqttGensetDevices gpioSupported cfg modbusPool devicePool =
     (let p1 = foldl (\<lambda>p c. pool_add p (watch (vd_DeviceConfig c)
              (VictronDevice (victron_NewDevice (device_conf (vd_DeviceConfig c)) c)))) devicePool (cf_victronDevices cfg);
          p2 = foldl (\<lambda>p c.
              case Pool_GetByName modbusPool (mc_Bus (md_ModbusConfig c)) of
                None \<Rightarrow> p
              | Some bus \<Rightarrow> pool_add p (watch (md_DeviceConfig c)
                  (ModbusDevice (modbus_NewDevice (device_conf (md_DeviceConfig c)) (md_ModbusConfig c)) bus)))
            p1 (cf_modbusDevices cfg);
          p3 = foldl (\<lambda>p c.
              if \<not> gpioSupported then p
              else pool_add p (watch (gd_DeviceConfig c) (GpioDevice (gpio_NewDevice (device_conf (gd_DeviceConfig c)) c))))
            p2 (cf_gpioDevices cfg)
      in foldl (\<lambda>p c. pool_add p (watch (hd_DeviceConfig c)
              (HttpDevice (http_NewDevice (device_conf (hd_DeviceConfig c)) (HttpDeviceConfig.hd_kind c)))))
           p3 (cf_httpDevices cfg))"

definition runMqttDevices :: "'u Config \<Rightarrow> watched pool \<Rightarrow> watched pool" where
  "runMqttDevices cfg devicePool =
     foldl (\<lambda>p c. pool_add p (watch (qd_DeviceConfig c)
         (MqttDevice (mqtt_NewDevice (device_conf (qd_DeviceConfig c)) (qd_kind c)) (MqttClientTopics c (cf_mqttClients cfg)))))
       devicePool (cf_mqttDevices cfg)"

definition runGensetDevices :: "'u Config \<Rightarrow> watched pool \<Rightarrow> watched pool" where
  "runGensetDevices cfg devicePool =
     foldl (\<lambda>p c. pool_add p (watch (ed_DeviceConfig c)
         (GensetDevice (genset_NewDevice (device_conf (ed_DeviceConfig c)) c)))) devicePool (cf_gensetDevices cfg)"

definition runMqttClient :: "'u Config \<Rightarrow> ('u MqttClientConfig \<times> mqtt_client) pool" where
  "runMqttClient cfg = foldl (\<lambda>p c. Pool_Add (cl_name \<circ> fst) p (c, NewV5 c)) RunPool (cf_mqttClients cfg)"

text \<open>
  The forwarders of a client run in a goroutine that looks its devices up by name, first those of
  the discovery, and after a second the others; meanwhile the genset devices are added to the
  pool. The arguments are the pools found at the two times.
\<close>

definition device_names :: "watched pool \<Rightarrow> string pool" where
  "device_names p = \<lparr>items = map (\<lambda>(k, w). (k, wd_Name w)) (items p)\<rparr>"

definition run_forwarders :: "watched pool \<Rightarrow> watched pool \<Rightarrow> 'u MqttClientConfig \<Rightarrow> forwarder list" where
  "run_forwarders early late c =
     section_forwarders (device_names early) (cl_homeassistantDiscovery c) FwHomeassistant @
     RunMqttForwarders (c\<lparr>cl_homeassistantDiscovery := (cl_homeassistantDiscovery c)\<lparr>ms_enabled := False\<rparr>\<rparr>)
       (device_names late)"

definition runMqttForwarders ::
  "'u Config \<Rightarrow> ('u MqttClientConfig \<times> mqtt_client) pool \<Rightarrow> watched pool \<Rightarrow> watched pool \<Rightarrow>
     ('u MqttClientConfig \<times> (('u MqttClientConfig \<times> mqtt_client) option) \<times> forwarder list) list" where
  "runMqttForwarders cfg mqttClientPool early late =
     map (\<lambda>c. (c, Pool_GetByName mqttClientPool (cl_name c), run_forwarders early late c)) (cf_mqttClients cfg)"

section \<open>main\<close>

record 'u program =
  pg_modbus :: "ModbusConfig pool"
  pg_devices :: "watched pool"
  pg_clients :: "('u MqttClientConfig \<times> mqtt_client) pool"
  pg_forwarders :: "('u MqttClientConfig \<times> (('u MqttClientConfig \<times> mqtt_client) option) \<times> forwarder list) list"
  pg_http :: bool

definition start_devices :: "(ModbusConfig \<Rightarrow> bool) \<Rightarrow> bool \<Rightarrow> 'u Config \<Rightarrow> watched pool" where
  \<comment> \<open>the pool before the genset devices\<close>
  "start_devices opens gpioSupported cfg =
     runMqttDevices cfg (runNonMqttGensetDevices gpioSupported cfg (runModbus opens cfg) RunPool)"

definition start_program ::
  "(ModbusConfig \<Rightarrow> bool) \<Rightarrow> bool \<Rightarrow> nat \<Rightarrow> 'u Config \<Rightarrow> 'u program" where
  \<comment> \<open>\<open>seen\<close>: how many genset devices are in the pool when the forwarders look for their first devices\<close>
  "start_program opens gpioSupported seen cfg =
     (let before = start_devices opens gpioSupported cfg;
          devicePool = runGensetDevices cfg before;
          clientPool = runMqttClient cfg
      in \<lparr>pg_modbus = runModbus opens cfg, pg_devices = devicePool, pg_clients = clientPool,
          pg_forwarders = runMqttForwarders cfg clientPool
            (runGensetDevices (cfg\<lparr>cf_gensetDevices := take seen (cf_gensetDevices cfg)\<rparr>) before) devicePool,
          pg_http = ws_enabled (cf_httpServer cfg)\<rparr>)"

text \<open>The deferred calls run in the reverse order of the starts.\<close>

datatype shutdown =
    ShutHttpServer
  | ShutClient string
  | ShutDevice string
  | ShutModbus string
  | ShutCommandStorage
  | ShutStateStorage

definition shutdown_program ::
  "((string \<times> ('u MqttClientConfig \<times> mqtt_client)) list \<Rightarrow> (string \<times> ('u MqttClientConfig \<times> mqtt_client)) list) \<Rightarrow>
     ((string \<times> watched) list \<Rightarrow> (string \<times> watched) list) \<Rightarrow>
     ((string \<times> ModbusConfig) list \<Rightarrow> (string \<times> ModbusConfig) list) \<Rightarrow> 'u program \<Rightarrow> shutdown list" where
  "shutdown_program itc itd itm p =
     (if pg_http p then [ShutHttpServer] else []) @
     map (ShutClient \<circ> cl_name \<circ> fst) (Pool_Shutdown itc (items (pg_clients p))) @
     map (ShutDevice \<circ> wd_Name) (Pool_Shutdown itd (items (pg_devices p))) @
     map (ShutModbus \<circ> mb_name) (Pool_Shutdown itm (items (pg_modbus p))) @
     [ShutCommandStorage, ShutStateStorage]"

datatype main_result = MainExit int | MainRun

definition main_start :: "bool \<Rightarrow> bool \<Rightarrow> bool \<Rightarrow> bool \<Rightarrow> bool \<Rightarrow> main_result" where
  \<comment> \<open>the options cannot be parsed, because help was asked for; the version was asked for; the
    configuration has errors; a dry run\<close>
  "main_start parseError help version configErrors dryRun =
     (if parseError then MainExit (if help then 0 else 1)
      else if version then MainExit 0
      else if configErrors then MainExit 2
      else if dryRun then MainExit 0
      else MainRun)"

section \<open>The devices started\<close>

text \<open>In the order of their start, whether or not a later one replaces them in the pool.\<close>

definition started_devices :: "(ModbusConfig \<Rightarrow> bool) \<Rightarrow> bool \<Rightarrow> 'u Config \<Rightarrow> watched list" where
  "started_devices opens gpioSupported cfg =
     map (\<lambda>c. watch (vd_DeviceConfig c) (VictronDevice (victron_NewDevice (device_conf (vd_DeviceConfig c)) c)))
       (cf_victronDevices cfg) @
     List.map_filter (\<lambda>c. map_option
         (\<lambda>bus. watch (md_DeviceConfig c)
           (ModbusDevice (modbus_NewDevice (device_conf (md_DeviceConfig c)) (md_ModbusConfig c)) bus))
         (Pool_GetByName (runModbus opens cfg) (mc_Bus (md_ModbusConfig c)))) (cf_modbusDevices cfg) @
     (if gpioSupported
      then map (\<lambda>c. watch (gd_DeviceConfig c) (GpioDevice (gpio_NewDevice (device_conf (gd_DeviceConfig c)) c)))
        (cf_gpioDevices cfg)
      else []) @
     map (\<lambda>c. watch (hd_DeviceConfig c)
         (HttpDevice (http_NewDevice (device_conf (hd_DeviceConfig c)) (HttpDeviceConfig.hd_kind c)))) (cf_httpDevices cfg) @
     map (\<lambda>c. watch (qd_DeviceConfig c)
         (MqttDevice (mqtt_NewDevice (device_conf (qd_DeviceConfig c)) (qd_kind c)) (MqttClientTopics c (cf_mqttClients cfg))))
       (cf_mqttDevices cfg) @
     map (\<lambda>c. watch (ed_DeviceConfig c) (GensetDevice (genset_NewDevice (device_conf (ed_DeviceConfig c)) c)))
       (cf_gensetDevices cfg)"

lemma foldl_map_filter:
  "foldl (\<lambda>p c. case f c of None \<Rightarrow> p | Some b \<Rightarrow> pool_add p (g c b)) p cs =
   foldl pool_add p (List.map_filter (\<lambda>c. map_option (g c) (f c)) cs)"
  by (induction cs arbitrary: p) (auto simp: map_filter_simps split: option.splits)

lemma foldl_pool_map: "foldl (\<lambda>p c. pool_add p (g c)) p cs = foldl pool_add p (map g cs)"
  by (simp add: foldl_map)

lemma foldl_skip:
  "foldl (\<lambda>p c. if \<not> b then p else pool_add p (g c)) p cs = foldl pool_add p (if b then map g cs else [])"
  by (cases b) (simp_all add: foldl_map, induction cs, simp_all)

lemma runNonMqttGensetDevices_foldl:
  "runNonMqttGensetDevices gpio cfg buses p =
   foldl pool_add p
     (map (\<lambda>c. watch (vd_DeviceConfig c) (VictronDevice (victron_NewDevice (device_conf (vd_DeviceConfig c)) c)))
       (cf_victronDevices cfg) @
     List.map_filter (\<lambda>c. map_option
         (\<lambda>bus. watch (md_DeviceConfig c)
           (ModbusDevice (modbus_NewDevice (device_conf (md_DeviceConfig c)) (md_ModbusConfig c)) bus))
         (Pool_GetByName buses (mc_Bus (md_ModbusConfig c)))) (cf_modbusDevices cfg) @
     (if gpio
      then map (\<lambda>c. watch (gd_DeviceConfig c) (GpioDevice (gpio_NewDevice (device_conf (gd_DeviceConfig c)) c)))
        (cf_gpioDevices cfg)
      else []) @
     map (\<lambda>c. watch (hd_DeviceConfig c)
         (HttpDevice (http_NewDevice (device_conf (hd_DeviceConfig c)) (HttpDeviceConfig.hd_kind c)))) (cf_httpDevices cfg))"
  unfolding runNonMqttGensetDevices_def Let_def foldl_append
  by (subst foldl_pool_map, subst foldl_pool_map, subst foldl_map_filter, subst foldl_skip) (rule refl)

lemma start_program_devices:
  "pg_devices (start_program opens gpio seen cfg) = foldl pool_add RunPool (started_devices opens gpio cfg)"
  unfolding start_program_def start_devices_def runGensetDevices_def runMqttDevices_def
    runNonMqttGensetDevices_foldl started_devices_def Let_def program.select_convs
  by (subst foldl_pool_map, subst foldl_pool_map) (simp only: foldl_append)

end
