(* ===== verification/Program_Proofs.thy ===== *)
theory Program_Proofs
  imports Program_Start
begin

text \<open>
  The program that is started for an accepted configuration: which devices it starts, finds by
  name and shuts down, which topics a mirror device subscribes to, and which devices the
  forwarders find.
\<close>

section \<open>Names\<close>

lemmas device_Name_defs = wd_Name_def watch_def victron_Name_def md_Name_def gpio_Name_def http_Name_def
  mqtt_Name_def gs_Name_def victron_NewDevice_def modbus_NewDevice_def gpio_NewDevice_def
  http_NewDevice_def mqtt_NewDevice_def genset_NewDevice_def device_conf_def

lemma wd_Name_watch [simp]:
  "wd_Name (watch c (VictronDevice (victron_NewDevice (device_conf dc) v))) = cd_name dc"
  "wd_Name (watch c (ModbusDevice (modbus_NewDevice (device_conf dc) m) b)) = cd_name dc"
  "wd_Name (watch c (GpioDevice (gpio_NewDevice (device_conf dc) g))) = cd_name dc"
  "wd_Name (watch c (HttpDevice (http_NewDevice (device_conf dc) h))) = cd_name dc"
  "wd_Name (watch c (MqttDevice (mqtt_NewDevice (device_conf dc) q) ts)) = cd_name dc"
  "wd_Name (watch c (GensetDevice (genset_NewDevice (device_conf dc) e))) = cd_name dc"
  by (simp_all add: device_Name_defs)

lemma opened_buses:
  "\<forall>m \<in> set ms. opens m \<Longrightarrow>
     foldl (\<lambda>p m. if opens m then Pool_Add mb_name p m else p) p ms = foldl (Pool_Add mb_name) p ms"
  by (induction ms arbitrary: p) simp_all

lemma added_found:
  "Pool_GetByName (foldl (Pool_Add nm) RunPool xs) n = find (\<lambda>i. nm i = n) (rev xs)"
  using pool.get_add_all [of nm RunPool xs n]
  by (simp add: pool.add_all_def Pool_GetByName_def RunPool_def split: option.splits)

lemma find_rev_None_iff: "find P (rev xs) = None \<longleftrightarrow> (\<forall>x \<in> set xs. \<not> P x)"
  by (auto simp: find_None_iff)

lemma runModbus_finds:
  assumes "\<forall>m \<in> set (cf_modbus cfg). opens m" and "existsByName mb_name n (cf_modbus cfg)"
  shows "Pool_GetByName (runModbus opens cfg) n \<noteq> None"
  unfolding runModbus_def opened_buses [OF assms(1)] added_found
  using assms(2) by (simp only: find_rev_None_iff) (auto simp: existsByName_def list_ex_iff)

lemma map_filter_names:
  "\<forall>c \<in> set cs. f c \<noteq> None \<Longrightarrow> (\<And>c b. h (g c b) = k c) \<Longrightarrow>
     map h (List.map_filter (\<lambda>c. map_option (g c) (f c)) cs) = map k cs"
  by (induction cs) (auto simp: map_filter_simps)

text \<open>In an accepted configuration every device is started when its bus could be opened.\<close>

lemma started_names:
  assumes "map_orders_ok o1" and "TransformAndValidate o1 env b c = Some (cfg, [])"
    and "\<forall>m \<in> set (cf_modbus cfg). opens m"
  shows "map wd_Name (started_devices opens True cfg) = map cd_name (cf_devices cfg)"
proof -
  have "list_all (modbusDevice_ok (cf_modbus cfg)) (cf_modbusDevices cfg)"
    using accepted_config_ok [OF assms(1,2)] by (simp add: config_ok_def)
  then have "\<forall>d \<in> set (cf_modbusDevices cfg).
      Pool_GetByName (runModbus opens cfg) (mc_Bus (md_ModbusConfig d)) \<noteq> None"
    using runModbus_finds [OF assms(3)] by (auto simp: list_all_iff modbusDevice_ok_def)
  note modbus = map_filter_names [OF this, of wd_Name _ "\<lambda>d. cd_name (md_DeviceConfig d)"]
  show ?thesis
    by (simp add: started_devices_def accepted_devices [OF assms(2)] nonMqttGenset_devices_def comp_def
        modbus)
qed

lemma wf_devices: "wf_pool wd_Name (foldl pool_add RunPool ws)"
  using pool.inv_add_all [of wd_Name RunPool ws] by (simp add: pool.add_all_def pool_add_def [abs_def])

lemma devices_found: "Pool_GetByName (foldl pool_add RunPool ws) n = find (\<lambda>w. wd_Name w = n) (rev ws)"
  using added_found [of wd_Name ws n] by (simp add: pool_add_def [abs_def])

lemma in_pool_iff: "Pool_GetByName (foldl pool_add RunPool ws) n \<noteq> None \<longleftrightarrow> n \<in> wd_Name ` set ws"
  unfolding devices_found find_rev_None_iff by auto

text \<open>A pool holds one item for each name that was added.\<close>

lemma pool_item_names:
  "mset (map nm (Pool_Shutdown it (items (foldl (Pool_Add nm) RunPool xs)))) = mset_set (nm ` set xs)"
  if "iter_order it"
proof -
  let ?p = "foldl (Pool_Add nm) RunPool xs"
  have wf: "wf_pool nm ?p"
    using pool.inv_add_all [of nm RunPool xs] by (simp add: pool.add_all_def)
  then have "map nm (map snd (items ?p)) = map fst (items ?p)"
    by (auto simp: wf_pool_def)
  moreover have "mset (map nm (Pool_Shutdown it (items ?p))) = mset (map nm (map snd (items ?p)))"
    using Pool_Shutdown_all [OF that, of "items ?p"] by (metis mset_map)
  moreover have "mset (map fst (items ?p)) = mset_set (fst ` set (items ?p))"
    using mset_set_set [of "map fst (items ?p)"] wf by (simp add: wf_pool_def wf_gomap_def del: mset_map)
  moreover have "fst ` set (items ?p) = nm ` set xs"
  proof -
    have "k \<in> fst ` set (items ?p) \<longleftrightarrow> Pool_GetByName ?p k \<noteq> None" for k
      by (simp add: Pool_GetByName_def map_of_eq_None_iff)
    then show ?thesis
      unfolding added_found find_rev_None_iff by (auto simp: set_eq_iff)
  qed
  ultimately show ?thesis by (simp only:)
qed

section \<open>Topics of the mirror devices\<close>

lemma topics_of_client:
  "map_of (foldl (\<lambda>ret d. if mcd_name d \<noteq> n then ret
        else let old = (case map_of ret k of None \<Rightarrow> [] | Some ts \<Rightarrow> ts)
             in AList.update k (old @ mcd_mqttTopics d) ret) ret ds) m =
   (let own = filter (\<lambda>d. mcd_name d = n) ds
    in if m = k \<and> own \<noteq> []
       then Some ((case map_of ret k of None \<Rightarrow> [] | Some ts \<Rightarrow> ts) @ concat (map mcd_mqttTopics own))
       else map_of ret m)"
  by (induction ds arbitrary: ret) (auto simp: Let_def update_conv' split: option.splits)

lemma MqttClientTopics_snoc:
  "MqttClientTopics q (cls @ [mc]) =
     foldl (\<lambda>ret d. if mcd_name d \<noteq> cd_name (qd_DeviceConfig q) then ret
        else let old = (case map_of ret (cl_name mc) of None \<Rightarrow> [] | Some ts \<Rightarrow> ts)
             in AList.update (cl_name mc) (old @ mcd_mqttTopics d) ret)
       (MqttClientTopics q cls) (cl_mqttDevices mc)"
  by (simp add: MqttClientTopics_def)

definition client_entries :: "string \<Rightarrow> string \<Rightarrow> 'u MqttClientConfig list \<Rightarrow> MqttClientDeviceConfig list" where
  \<comment> \<open>the entries for a device of the clients with a name\<close>
  "client_entries device client cls =
     filter (\<lambda>d. mcd_name d = device) (concat (map cl_mqttDevices (filter (\<lambda>mc. cl_name mc = client) cls)))"

section \<open>The forwarders of a section\<close>

lemma device_names_get: "wf_pool wd_Name p \<Longrightarrow>
    Pool_GetByName (device_names p) n = (if Pool_GetByName p n = None then None else Some n)"
  using pool.get_named [of wd_Name p n]
  unfolding device_names_def Pool_GetByName_def pool.select_convs map_of_map
  by (cases "map_of (items p) n") simp_all

lemma section_forwarders_iff:
  assumes "wf_pool wd_Name p"
  shows "fw \<in> set (section_forwarders (device_names p) s mk) \<longleftrightarrow> ms_enabled s \<and>
    (\<exists>d \<in> set (ms_devices s). Pool_GetByName p (sd_name d) \<noteq> None \<and> fw = mk (sd_name d) (sd_filter d))"
  by (auto simp: section_forwarders_def device_names_get [OF assms] split: if_splits)

lemma discovery_forwarders:
  assumes "wf_pool wd_Name early" and "wf_pool wd_Name late"
  shows "FwHomeassistant n f \<in> set (run_forwarders early late c) \<longleftrightarrow> ms_enabled (cl_homeassistantDiscovery c) \<and>
    (\<exists>d \<in> set (ms_devices (cl_homeassistantDiscovery c)). sd_name d = n \<and> sd_filter d = f) \<and>
    Pool_GetByName early n \<noteq> None"
  by (auto simp: run_forwarders_def RunMqttForwarders_def section_forwarders_iff [OF assms(1)]
      section_forwarders_iff [OF assms(2)])

lemma start_devices_gensets [simp]:
  "start_devices opens gpio (cfg\<lparr>cf_gensetDevices := gs\<rparr>) = start_devices opens gpio cfg"
  by (simp add: start_devices_def runMqttDevices_def runNonMqttGensetDevices_def runModbus_def)

lemma runGensetDevices_started:
  "runGensetDevices (cfg\<lparr>cf_gensetDevices := gs\<rparr>) (start_devices opens gpio cfg) =
     foldl pool_add RunPool (started_devices opens gpio (cfg\<lparr>cf_gensetDevices := gs\<rparr>))"
  using start_program_devices [of opens gpio 0 "cfg\<lparr>cf_gensetDevices := gs\<rparr>"]
  by (simp add: start_program_def Let_def)

lemma started_gensets:
  "wd_Name ` set (started_devices opens gpio (cfg\<lparr>cf_gensetDevices := gs\<rparr>)) =
     wd_Name ` set (started_devices opens gpio (cfg\<lparr>cf_gensetDevices := []\<rparr>)) \<union>
     cd_name ` ed_DeviceConfig ` set gs"
  by (simp add: started_devices_def runModbus_def image_Un image_image Un_assoc)

section \<open>Properties\<close>


definition clash_config :: configRead where
  "clash_config = (demo_config (demo_remote @
     [(''relays'', \<lparr>qr_device = default_device, qr_Kind = ''GoIotdeviceV3''\<rparr>)]))"


text \<open>
  A mirror device subscribes on a client to the topics of all the client's entries for it,
  in their order, and has no subscription on a client without such an entry. Clients of the same
  name count as one.
\<close>

theorem mqtt_client_topics:
  "map_of (MqttClientTopics q cls) m =
     (let entries = client_entries (cd_name (qd_DeviceConfig q)) m cls
      in if entries = [] then None else Some (concat (map mcd_mqttTopics entries)))"
proof (induction cls rule: rev_induct)
  case Nil
  show ?case by (simp add: MqttClientTopics_def client_entries_def)
next
  case (snoc mc cls)
  show ?case
    unfolding MqttClientTopics_snoc topics_of_client
    by (cases "cl_name mc = m"; cases "filter (\<lambda>d. mcd_name d = cd_name (qd_DeviceConfig q)) (cl_mqttDevices mc) = []")
      (simp_all add: snoc client_entries_def Let_def)
qed


definition hass_config :: configRead where
  "hass_config = demo_config demo_remote
     \<lparr>MqttClients := [(''local'', demo_client\<lparr>cr_ReadOnly := None,
        cr_HomeassistantDiscovery := default_section\<lparr>sr_Enabled := Some True\<rparr>\<rparr>)]\<rparr>"

definition hass_program :: "string Config" where
  "hass_program = (case TransformAndValidate demo_orders demo_env True hass_config of Some (cfg, []) \<Rightarrow> cfg)"


end
