(* ===== verification/Web_Auth.thy ===== *)
theory Web_Auth
  imports Config_Root Go_Float
begin

text \<open>
  The web server of src/httpServer, first part: responses (response.go), tokens (jwt.go), the
  login (login.go), and who may see a view. The packages for JSON, MD5, the tokens and the file of
  passwords are third-party: \<open>marshal\<close>, \<open>md5hex\<close>, the record \<open>jwt_lib\<close>, and the outcome of reading
  and of matching the file. A response is the record of what the handler writes.
\<close>

section \<open>Responses\<close>

record 'j response =
  rp_status :: int
  rp_cache :: "string option" \<comment> \<open>Cache-Control\<close>
  rp_etag :: "string option"
  rp_body :: string
  rp_json :: "'j option" \<comment> \<open>an object the framework encodes itself\<close>

definition no_response :: "'j response" where
  \<comment> \<open>nothing written: the framework sends the status 200\<close>
  "no_response = \<lparr>rp_status = 200, rp_cache = None, rp_etag = None, rp_body = [], rp_json = None\<rparr>"

definition jsonErrorResponse :: "(string \<Rightarrow> 'j) \<Rightarrow> int \<Rightarrow> string \<Rightarrow> 'j response" where
  "jsonErrorResponse errorObj status msg = no_response\<lparr>rp_status := status, rp_json := Some (errorObj msg)\<rparr>"

definition TrimPrefix :: "string \<Rightarrow> string \<Rightarrow> string" where
  "TrimPrefix s p = (if take (length p) s = p then drop (length p) s else s)"

definition sendNotModified :: "string \<Rightarrow> string \<Rightarrow> bool" where
  "sendNotModified ifNoneMatch etag \<longleftrightarrow> length ifNoneMatch \<ge> 1 \<and> TrimPrefix ifNoneMatch ''W/'' = etag"

definition jsonGetResponse ::
  "('j \<Rightarrow> string option) \<Rightarrow> (string \<Rightarrow> string) \<Rightarrow> string \<Rightarrow> 'j \<Rightarrow> 'j response \<Rightarrow> 'j response" where
  \<comment> \<open>the last argument: what was written before. After an error of \<open>marshal\<close> the status 500 is set,
    but the function goes on with the nil slice, and the status is overwritten\<close>
  "jsonGetResponse marshal md5hex ifNoneMatch obj rp =
     (let jsonBytes = (case marshal obj of None \<Rightarrow> [] | Some b \<Rightarrow> b);
          etag = md5hex jsonBytes
      in if sendNotModified ifNoneMatch etag then rp\<lparr>rp_status := 304\<rparr>
         else rp\<lparr>rp_status := 200, rp_etag := Some (''W/'' @ etag), rp_body := jsonBytes\<rparr>)"

text \<open>\<open>Duration.Seconds\<close>, and its conversion to an \<open>int\<close>.\<close>

definition duration_Seconds :: "duration \<Rightarrow> f64" where
  "duration_Seconds d =
     (let sec = (if d < 0 then - (- d div second) else d div second);
          nsec = d - sec * second
      in f64_add (round_f64 (of_int sec)) (f64_div (round_f64 (of_int nsec)) (F_Fin 1000000000)))"

definition setCacheControlPublic :: "duration \<Rightarrow> 'j response \<Rightarrow> 'j response" where
  "setCacheControlPublic maxAge rp =
     (let m = (if maxAge < 0 then 0 else maxAge)
      in rp\<lparr>rp_cache := Some (''public, max-age='' @ itoa \<lfloor>f64_num (duration_Seconds m)\<rfloor>)\<rparr>)"

section \<open>Tokens\<close>

record jwt_claims =
  jc_User :: string
  jc_ExpiresAt :: int

text \<open>
  The package signs claims with a secret, and reads a token of the secret back at a time, in
  seconds; a token that is forged or has expired is an error.
\<close>

record jwt_lib =
  jw_sign :: "string \<Rightarrow> jwt_claims \<Rightarrow> string option"
  jw_parse :: "string \<Rightarrow> int \<Rightarrow> string \<Rightarrow> jwt_claims option"

type_synonym nanoseconds = int \<comment> \<open>since 1970\<close>

definition createJwtToken :: "jwt_lib \<Rightarrow> AuthenticationConfig \<Rightarrow> nanoseconds \<Rightarrow> string \<Rightarrow> string option" where
  "createJwtToken lib config now user =
     jw_sign lib (au_jwtSecret config)
       \<lparr>jc_User = user, jc_ExpiresAt = (now + au_jwtValidityPeriod config) div second\<rparr>"

definition checkToken :: "jwt_lib \<Rightarrow> nanoseconds \<Rightarrow> string \<Rightarrow> string \<Rightarrow> string option" where
  "checkToken lib now tokenStr jwtSecret =
     (case jw_parse lib jwtSecret (now div second) tokenStr of None \<Rightarrow> None | Some claims \<Rightarrow> Some (jc_User claims))"

text \<open>
  The middleware in front of every handler: the user it sets, empty without a token, or an
  abort with the status 401.
\<close>

definition authJwtMiddleware ::
  "jwt_lib \<Rightarrow> (string \<Rightarrow> 'j) \<Rightarrow> AuthenticationConfig \<Rightarrow> nanoseconds \<Rightarrow> string \<Rightarrow> 'j response + string" where
  "authJwtMiddleware lib errorObj auth now authorization =
     (if length authorization < 1 then Inr ''''
      else case checkToken lib now authorization (au_jwtSecret auth) of
             None \<Rightarrow> Inl (jsonErrorResponse errorObj 401 ''invalid jwt token'')
           | Some user \<Rightarrow> Inr user)"

section \<open>Views\<close>

definition IsAllowed :: "ViewConfig \<Rightarrow> string \<Rightarrow> bool" where
  "IsAllowed c user \<longleftrightarrow> in_map (vw_allowedUsers c) user"

definition IsPublic :: "ViewConfig \<Rightarrow> bool" where
  "IsPublic c \<longleftrightarrow> length (vw_allowedUsers c) = 0"

definition isViewAuthenticatedByUser :: "ViewConfig \<Rightarrow> string \<Rightarrow> bool \<Rightarrow> bool" where
  "isViewAuthenticatedByUser v user allowAnonymous =
     (if \<not> allowAnonymous \<and> length user < 1 then False
      else if IsPublic v then True
      else if length user < 1 then False
      else IsAllowed v user)"

section \<open>Login\<close>

text \<open>
  The file of passwords as last read, and the time of the last reload, which all requests
  share. \<open>acquired\<close>: the semaphore was free; \<open>reread\<close>: what reading the file now gives.
\<close>

record 'f auth_checker =
  ac_file :: 'f
  ac_lastReload :: nanoseconds

definition reloadAuthChecker :: "bool \<Rightarrow> nanoseconds \<Rightarrow> 'f option \<Rightarrow> 'f auth_checker \<Rightarrow> 'f auth_checker" where
  "reloadAuthChecker acquired now reread st =
     (if \<not> acquired then st
      else if ac_lastReload st + second > now then st
      else \<lparr>ac_file = (case reread of None \<Rightarrow> ac_file st | Some f \<Rightarrow> f), ac_lastReload = now\<rparr>)"

record loginResponse =
  lr_User :: string
  lr_Token :: string
  lr_AllowedViews :: "string list"

definition login ::
  "jwt_lib \<Rightarrow> (string \<Rightarrow> 'j) \<Rightarrow> (loginResponse \<Rightarrow> 'j) \<Rightarrow> ('f \<Rightarrow> string \<Rightarrow> string \<Rightarrow> bool) \<Rightarrow>
     AuthenticationConfig \<Rightarrow> ViewConfig list \<Rightarrow> bool \<Rightarrow> nanoseconds \<Rightarrow> 'f option \<Rightarrow> (string \<times> string) option \<Rightarrow>
     'f auth_checker \<Rightarrow> 'j response \<times> 'f auth_checker" where
  \<comment> \<open>the request: user and password, where the body could be decoded\<close>
  "login lib errorObj loginObj Match auth views acquired now reread req st =
     (case req of
        None \<Rightarrow> (jsonErrorResponse errorObj 422 ''Invalid json body provided'', st)
      | Some (user, password) \<Rightarrow>
          (let st1 = reloadAuthChecker acquired now reread st
           in if \<not> Match (ac_file st1) user password
              then (jsonErrorResponse errorObj 401 ''Invalid credentials'', st1)
              else case createJwtToken lib auth now user of
                     None \<Rightarrow> (jsonErrorResponse errorObj 500 ''Cannot create token'', st1)
                   | Some tokenStr \<Rightarrow>
                       (no_response\<lparr>rp_json := Some (loginObj
                          \<lparr>lr_User = user, lr_Token = tokenStr,
                           lr_AllowedViews = map vw_name (filter (\<lambda>v. IsAllowed v user) views)\<rparr>)\<rparr>, st1)))"

definition disabledLogin :: "(string \<Rightarrow> 'j) \<Rightarrow> 'j response" where
  "disabledLogin errorObj = jsonErrorResponse errorObj 503 ''Authentication module is disabled''"

section \<open>What the package of the tokens promises\<close>

definition jwt_ok :: "jwt_lib \<Rightarrow> bool" where
  \<comment> \<open>a token is accepted until it expires, and only a token the secret was used for is\<close>
  "jwt_ok lib \<longleftrightarrow>
     (\<forall>secret c tok. jw_sign lib secret c = Some tok \<longrightarrow>
        (\<forall>t. jc_ExpiresAt c \<noteq> 0 \<longrightarrow> jw_parse lib secret t tok = (if t \<le> jc_ExpiresAt c then Some c else None))) \<and>
     (\<forall>secret t tok c. jw_parse lib secret t tok = Some c \<longrightarrow> jw_sign lib secret c = Some tok)"

lemma jwt_ok_sign:
  "jwt_ok lib \<Longrightarrow> jw_sign lib secret c = Some tok \<Longrightarrow> jc_ExpiresAt c \<noteq> 0 \<Longrightarrow>
     jw_parse lib secret t tok = (if t \<le> jc_ExpiresAt c then Some c else None)"
  unfolding jwt_ok_def by blast

lemma jwt_ok_parse: "jwt_ok lib \<Longrightarrow> jw_parse lib secret t tok = Some c \<Longrightarrow> jw_sign lib secret c = Some tok"
  unfolding jwt_ok_def by blast

lemma checkToken_created:
  assumes "jwt_ok lib" and "createJwtToken lib config now user = Some tok"
    and "0 < (now + au_jwtValidityPeriod config) div second"
  shows "checkToken lib later tok (au_jwtSecret config) =
    (if later div second \<le> (now + au_jwtValidityPeriod config) div second then Some user else None)"
proof -
  let ?c = "\<lparr>jc_User = user, jc_ExpiresAt = (now + au_jwtValidityPeriod config) div second\<rparr>"
  have "jw_sign lib (au_jwtSecret config) ?c = Some tok"
    using assms(2) by (simp only: createJwtToken_def)
  from jwt_ok_sign [OF assms(1) this] assms(3) show ?thesis
    by (simp add: checkToken_def)
qed

lemma checkToken_signed:
  "jwt_ok lib \<Longrightarrow> checkToken lib now tok secret = Some user \<Longrightarrow>
     \<exists>c. jc_User c = user \<and> jw_sign lib secret c = Some tok"
  by (auto simp: checkToken_def split: option.splits dest: jwt_ok_parse)

lemma authenticated_iff:
  "isViewAuthenticatedByUser v user anonymous \<longleftrightarrow>
     (IsPublic v \<and> (anonymous \<or> user \<noteq> '''')) \<or> (user \<noteq> '''' \<and> IsAllowed v user)"
  by (auto simp: isViewAuthenticatedByUser_def IsPublic_def IsAllowed_def in_map_def Suc_le_eq)

section \<open>Properties\<close>

text \<open>
  C40: The login gives a token exactly when the password matches the file as last read; the token
  is accepted, as this user, through the second in which its period of validity ends, and with it the
  views named in the response, which are those with the user in their list. A failing login gives
  no token, and only a request without a body that can be decoded leaves the file unread.
\<close>

theorem login_grants:
  assumes "jwt_ok lib" and "login lib E L Match auth views acquired now reread (Some (user, password)) st = (rp, st')"
    and "0 < (now + au_jwtValidityPeriod auth) div second"
  shows "st' = reloadAuthChecker acquired now reread st \<and>
    (rp_status rp = 200 \<longleftrightarrow> Match (ac_file st') user password \<and> createJwtToken lib auth now user \<noteq> None) \<and>
    (rp_status rp = 200 \<longrightarrow> (\<exists>tok. createJwtToken lib auth now user = Some tok \<and> rp_json rp = Some (L \<lparr>lr_User = user, lr_Token = tok,
         lr_AllowedViews = map vw_name (filter (\<lambda>v. IsAllowed v user) views)\<rparr>) \<and>
       authJwtMiddleware lib E auth later tok =
         (if tok = '''' then Inr ''''
          else if later div second \<le> (now + au_jwtValidityPeriod auth) div second then Inr user
          else Inl (jsonErrorResponse E 401 ''invalid jwt token''))))"
proof -
  have ok: "checkToken lib later tok (au_jwtSecret auth) =
      (if later div second \<le> (now + au_jwtValidityPeriod auth) div second then Some user else None)"
    if "createJwtToken lib auth now user = Some tok" for tok
    using checkToken_created [OF assms(1) that assms(3)] .
  have st: "st' = reloadAuthChecker acquired now reread st"
    using assms(2) by (auto simp: login_def Let_def split: if_splits option.splits)
  show ?thesis
  proof (cases "Match (ac_file st') user password")
    case False
    with assms(2) st have "rp = jsonErrorResponse E 401 ''Invalid credentials''"
      by (simp add: login_def Let_def)
    then have "rp_status rp = 401"
      by (simp add: jsonErrorResponse_def)
    with False st show ?thesis by simp
  next
    case True
    show ?thesis
    proof (cases "createJwtToken lib auth now user")
      case None
      with True assms(2) st have "rp = jsonErrorResponse E 500 ''Cannot create token''"
        by (simp add: login_def Let_def)
      then have "rp_status rp = 500"
        by (simp add: jsonErrorResponse_def)
      with None st show ?thesis by simp
    next
      case (Some tok)
      with True assms(2) st have "rp = no_response\<lparr>rp_json := Some (L \<lparr>lr_User = user, lr_Token = tok,
          lr_AllowedViews = map vw_name (filter (\<lambda>v. IsAllowed v user) views)\<rparr>)\<rparr>"
        by (simp add: login_def Let_def)
      moreover have "authJwtMiddleware lib E auth later tok =
          (if tok = '''' then Inr ''''
           else if later div second \<le> (now + au_jwtValidityPeriod auth) div second then Inr user
           else Inl (jsonErrorResponse E 401 ''invalid jwt token''))"
        using ok [OF Some] by (simp add: authJwtMiddleware_def Suc_le_eq)
      ultimately show ?thesis
        using True st Some by (intro conjI impI exI [of _ tok]) (simp_all add: no_response_def)
    qed
  qed
qed

definition example_jwt :: jwt_lib where
  \<comment> \<open>a package that signs one set of claims\<close>
  "example_jwt =
     \<lparr>jw_sign = (\<lambda>secret c. if secret = ''s'' \<and> c = \<lparr>jc_User = ''ann'', jc_ExpiresAt = 3600\<rparr> then Some ''tok'' else None),
      jw_parse = (\<lambda>secret t tok. if secret = ''s'' \<and> tok = ''tok'' \<and> t \<le> 3600
        then Some \<lparr>jc_User = ''ann'', jc_ExpiresAt = 3600\<rparr> else None)\<rparr>"

lemma example_jwt_ok: "jwt_ok example_jwt"
  by (auto simp: jwt_ok_def example_jwt_def split: if_splits)

definition example_auth :: AuthenticationConfig where
  "example_auth = \<lparr>au_enabled = True, au_jwtSecret = ''s'', au_jwtValidityPeriod = hour, au_htaccessFile = ''htaccess''\<rparr>"

theorem login_grants_witness:
  "authJwtMiddleware example_jwt (\<lambda>m. m) example_auth (59 * minute) ''tok'' = Inr ''ann''"
proof -
  let ?m = "\<lambda>f user password. user = ''ann'' \<and> password = f"
  let ?st = "\<lparr>ac_file = ''old'', ac_lastReload = 0\<rparr>"
  obtain rp st' where run: "login example_jwt (\<lambda>m. m) (\<lambda>l. lr_Token l) ?m example_auth [] True 0 None
      (Some (''ann'', ''old'')) ?st = (rp, st')"
    by (rule prod.exhaust)
  have "createJwtToken example_jwt example_auth 0 ''ann'' = Some ''tok''"
    by (simp add: createJwtToken_def example_jwt_def example_auth_def)
  moreover have "ac_file (reloadAuthChecker True 0 None ?st) = ''old''"
    by (simp add: reloadAuthChecker_def)
  moreover have "0 < (0 + au_jwtValidityPeriod example_auth) div second"
    by (simp add: example_auth_def)
  moreover have "(59 * minute) div second \<le> (0 + au_jwtValidityPeriod example_auth) div second"
    by (simp add: example_auth_def)
  ultimately show ?thesis
    using login_grants [OF example_jwt_ok run, of "59 * minute"] by auto
qed

end
