(* ===== verification/Web_Api.thy ===== *)
theory Web_Api
  imports Web_Auth Value_Storage Register_Db Device_State
begin

text \<open>
  The web server, second part: what its routes answer (config.go, registers.go, values.go). The
  encoder writes a map with its keys sorted, so a map inside an object is a function here. A handler
  is a function of the user the middleware set, of the request, and of the registers and the state
  it reads.
\<close>

section \<open>Objects\<close>

record registerResponse =
  rr_Category :: string
  rr_Name :: string
  rr_Description :: string
  rr_Type :: string
  rr_Enum :: enum_map
  rr_Unit :: string
  rr_Sort :: int
  rr_Writable :: bool

record viewResponse =
  vr_Name :: string
  vr_Title :: string
  vr_Devices :: "(string \<times> string) list" \<comment> \<open>name and title\<close>
  vr_Autoplay :: bool
  vr_IsPublic :: bool
  vr_Hidden :: bool

record configResponse =
  cr_ProjectTitle :: string
  cr_BackendVersion :: string
  cr_Views :: "viewResponse list"

datatype json_obj =
    JError string
  | JLogin loginResponse
  | JConfig configResponse
  | JRegisters "registerResponse list"
  | JValues "string \<rightharpoonup> generic"

section \<open>Registers and values\<close>

definition createRegisterResponse :: "register \<Rightarrow> registerResponse" where
  "createRegisterResponse r =
     \<lparr>rr_Category = reg_category r, rr_Name = reg_name r, rr_Description = reg_description r,
      rr_Type = RegisterType_String (reg_type r), rr_Enum = reg_enum r, rr_Unit = reg_unit r,
      rr_Sort = reg_sort r, rr_Writable = reg_writable r\<rparr>"

definition compile1DRegisterResponse :: "register list \<Rightarrow> registerResponse list" where
  "compile1DRegisterResponse registers = map createRegisterResponse registers"

definition compile1DValueResponse :: "val list \<Rightarrow> (string, generic) gomap" where
  "compile1DValueResponse vals = foldl (\<lambda>m v. AList.update (val_name v) (GenericValue v) m) [] vals"

type_synonym 'a map2D = "(string, (string, 'a) gomap) gomap"

definition inner_map :: "'a map2D \<Rightarrow> string \<Rightarrow> (string, 'a) gomap" where
  \<comment> \<open>\<open>m[d0]\<close>, the nil map where there is none\<close>
  "inner_map m d0 = (case map_of m d0 of None \<Rightarrow> [] | Some i \<Rightarrow> i)"

definition append2DRegisterResponse :: "registerResponse map2D \<Rightarrow> val \<Rightarrow> registerResponse map2D \<times> bool" where
  "append2DRegisterResponse m v =
     (let d0 = DeviceName v; d1 = val_name v; i = inner_map m d0
      in if map_of i d1 = None
         then (AList.update d0 (AList.update d1 (createRegisterResponse (val_reg v)) i) m, True)
         else (m, False))"

definition compile2DRegisterResponse :: "val list \<Rightarrow> registerResponse map2D" where
  "compile2DRegisterResponse vals = foldl (\<lambda>m v. fst (append2DRegisterResponse m v)) [] vals"

definition append2DValueResponse :: "generic map2D \<Rightarrow> val \<Rightarrow> generic map2D" where
  "append2DValueResponse m v =
     (let d0 = DeviceName v
      in AList.update d0 (AList.update (val_name v) (GenericValue v) (inner_map m d0)) m)"

definition compile2DValueResponse :: "val list \<Rightarrow> generic map2D" where
  "compile2DValueResponse vals = foldl append2DValueResponse [] vals"

definition getViewValueFilter :: "ViewDeviceConfig list \<Rightarrow> value_filter" where
  "getViewValueFilter viewDevices =
     (let filters = foldl (\<lambda>m vd. AList.update (vwd_name vd) (RegisterValueFilter (vwd_filter vd)) m) [] viewDevices
      in (\<lambda>v. case map_of filters (DeviceName v) of None \<Rightarrow> False | Some f \<Rightarrow> f v))"

section \<open>Handlers\<close>

text \<open>What the handlers share: the packages and the configuration.\<close>

record web_env =
  we_marshal :: "json_obj \<Rightarrow> string option"
  we_md5hex :: "string \<Rightarrow> string"
  we_jwt :: jwt_lib
  we_title :: string
  we_version :: string
  we_configExpires :: duration
  we_frontendExpires :: duration
  we_auth :: AuthenticationConfig
  we_views :: "ViewConfig list"
  we_floatToInt :: "f64 \<Rightarrow> int" \<comment> \<open>of a number that is no \<open>int\<close>: up to the platform\<close>

definition forbidden :: "json_obj response" where
  "forbidden = jsonErrorResponse JError 403 ''User is not allowed here''"

definition web_get :: "web_env \<Rightarrow> string \<Rightarrow> json_obj \<Rightarrow> json_obj response \<Rightarrow> json_obj response" where
  "web_get env ifNoneMatch obj rp = jsonGetResponse (we_marshal env) (we_md5hex env) ifNoneMatch obj rp"

definition viewResponse_of :: "ViewConfig \<Rightarrow> viewResponse" where
  "viewResponse_of v =
     \<lparr>vr_Name = vw_name v, vr_Title = vw_title v, vr_Devices = map (\<lambda>d. (vwd_name d, vwd_title d)) (vw_devices v),
      vr_Autoplay = vw_autoplay v, vr_IsPublic = IsPublic v, vr_Hidden = vw_hidden v\<rparr>"

definition config_get :: "web_env \<Rightarrow> string \<Rightarrow> json_obj response" where
  "config_get env ifNoneMatch =
     web_get env ifNoneMatch
       (JConfig \<lparr>cr_ProjectTitle = we_title env, cr_BackendVersion = we_version env,
          cr_Views = map viewResponse_of (we_views env)\<rparr>)
       (setCacheControlPublic (we_configExpires env) no_response)"

text \<open>The iteration orders of the maps the handlers range over.\<close>

record web_orders =
  wo_registers :: "(string \<times> register) list \<Rightarrow> (string \<times> register) list"
  wo_ties :: "register list \<Rightarrow> register list" \<comment> \<open>of the unstable sort\<close>
  wo_state :: state_iter

definition registers_get ::
  "web_env \<Rightarrow> web_orders \<Rightarrow> ViewConfig \<Rightarrow> ViewDeviceConfig \<Rightarrow> register_db \<Rightarrow> string \<Rightarrow> string \<Rightarrow> json_obj response" where
  "registers_get env ord v vd rdb user ifNoneMatch =
     (if \<not> isViewAuthenticatedByUser v user True then forbidden
      else let registers = SortRegisterStructs (wo_ties ord)
                 (FilterRegisters (rdb_GetAll (wo_registers ord) rdb) (vwd_filter vd))
           in web_get env ifNoneMatch (JRegisters (compile1DRegisterResponse registers))
                (setCacheControlPublic (10 * second) no_response))"

definition values_get ::
  "web_env \<Rightarrow> web_orders \<Rightarrow> ViewConfig \<Rightarrow> ViewDeviceConfig \<Rightarrow> storage_state \<Rightarrow> string \<Rightarrow> string \<Rightarrow> json_obj response" where
  "values_get env ord v vd st user ifNoneMatch =
     (if \<not> isViewAuthenticatedByUser v user True then forbidden
      else web_get env ifNoneMatch
             (JValues (map_of (compile1DValueResponse
                (GetStateFiltered (wo_state ord) st (getViewValueFilter [vd]))))) no_response)"

section \<open>Commands\<close>

text \<open>A member of the decoded body; a JSON number is always a float64.\<close>

datatype json_value = JString string | JNumber f64 | JOther

definition patch_int :: "web_env \<Rightarrow> f64 \<Rightarrow> int" where
  \<comment> \<open>\<open>int(v)\<close>: cut off at the decimal point\<close>
  "patch_int env x =
     (case x of
        F_Fin q \<Rightarrow> (let i = (if q < 0 then - \<lfloor>- q\<rfloor> else \<lfloor>q\<rfloor>) in if in_i64 i then i else we_floatToInt env x)
      | F_NegZero \<Rightarrow> 0
      | _ \<Rightarrow> we_floatToInt env x)"

definition patch_input :: "web_env \<Rightarrow> string \<Rightarrow> register_db \<Rightarrow> string \<Rightarrow> json_value \<Rightarrow> string + val list" where
  \<comment> \<open>an error message, or the value for one member of the body\<close>
  "patch_input env deviceName rdb registerName value =
     (case rdb_GetByName rdb registerName of
        None \<Rightarrow> Inl ''Invalid json body provided''
      | Some register \<Rightarrow>
          (let invalidType = (\<lambda>t. Inl (''expect type of '' @ registerName @ '' to be a '' @ t))
           in case reg_type register of
                TextRegister \<Rightarrow>
                  (case value of JString s \<Rightarrow> Inr [TextRegisterValue deviceName register s] | _ \<Rightarrow> invalidType ''string'')
              | NumberRegister \<Rightarrow>
                  (case value of JNumber x \<Rightarrow> Inr [NumericRegisterValue deviceName register x] | _ \<Rightarrow> invalidType ''float'')
              | EnumRegister \<Rightarrow>
                  (case value of
                     JNumber x \<Rightarrow> Inr [EnumRegisterValue deviceName register (patch_int env x)]
                   | _ \<Rightarrow> invalidType ''float'')
              | UndefinedRegister \<Rightarrow> Inr []))"

fun patch_inputs :: "web_env \<Rightarrow> string \<Rightarrow> register_db \<Rightarrow> (string \<times> json_value) list \<Rightarrow> string + val list" where
  "patch_inputs env deviceName rdb [] = Inr []"
| "patch_inputs env deviceName rdb ((n, value) # req) =
     (case patch_input env deviceName rdb n value of
        Inl e \<Rightarrow> Inl e
      | Inr vs \<Rightarrow>
          (case patch_inputs env deviceName rdb req of
             Inl e \<Rightarrow> Inl e
           | Inr ws \<Rightarrow> Inr (vs @ ws)))"

definition values_patch ::
  "web_env \<Rightarrow> ViewConfig \<Rightarrow> string \<Rightarrow> register_db \<Rightarrow> string \<Rightarrow> (string \<times> json_value) list option \<Rightarrow>
     json_obj response \<times> device_action list" where
  \<comment> \<open>the decoded body in the order of the range over it\<close>
  "values_patch env v deviceName rdb user body =
     (if \<not> isViewAuthenticatedByUser v user False then (forbidden, [])
      else case body of
             None \<Rightarrow> (jsonErrorResponse JError 422 ''Invalid json body provided'', [])
           | Some req \<Rightarrow>
               (case patch_inputs env deviceName rdb req of
                  Inl e \<Rightarrow> (jsonErrorResponse JError 422 e, [])
                | Inr inputs \<Rightarrow> (no_response, map FillCommand inputs)))"

end
