(* ===== verification/Web_Socket.thy ===== *)
theory Web_Socket
  imports Web_Api
begin

text \<open>
  The web server, third part: the connection of a view (ws.go). The reader waits for a token, the
  sender gives the client all values of the view and then what changes, at most once per tick. Whether
  the connection takes a message, and whether it can be encoded, are arguments.
\<close>

section \<open>Sender\<close>

record ws_message =
  wm_Operation :: string
  wm_Registers :: "registerResponse map2D"
  wm_Values :: "generic map2D"

record ws_sender =
  sn_registers :: "registerResponse map2D"
  sn_newRegisters :: "registerResponse map2D"
  sn_newValues :: "generic map2D"
  sn_tickerRunning :: bool
  sn_sent :: "ws_message list"

datatype ws_event =
    WsTick bool \<comment> \<open>whether the connection takes a message now\<close>
  | WsValue val
  | WsShutdown \<comment> \<open>the subscription's channel is closed\<close>

definition sender_step :: "(ws_message \<Rightarrow> bool) \<Rightarrow> ws_event \<Rightarrow> ws_sender \<Rightarrow> ws_sender option" where
  \<comment> \<open>\<open>None\<close>: the sender returns\<close>
  "sender_step encodes e s =
     (case e of
        WsTick ok \<Rightarrow>
          if length (sn_newValues s) > 0 then
            (let m = \<lparr>wm_Operation = ''inc'', wm_Registers = sn_newRegisters s, wm_Values = sn_newValues s\<rparr>
             in if ok \<and> encodes m
                then Some (s\<lparr>sn_sent := sn_sent s @ [m], sn_newRegisters := [], sn_newValues := []\<rparr>)
                else None)
          else Some (s\<lparr>sn_tickerRunning := False\<rparr>)
      | WsValue v \<Rightarrow>
          (let (regs, created) = append2DRegisterResponse (sn_registers s) v
           in Some (s\<lparr>sn_registers := regs,
                sn_newRegisters := (if created then fst (append2DRegisterResponse (sn_newRegisters s) v)
                                    else sn_newRegisters s),
                sn_newValues := append2DValueResponse (sn_newValues s) v,
                sn_tickerRunning := True\<rparr>))
      | WsShutdown \<Rightarrow> None)"

fun sender_run :: "(ws_message \<Rightarrow> bool) \<Rightarrow> ws_event list \<Rightarrow> ws_sender \<Rightarrow> bool \<times> ws_sender" where
  \<comment> \<open>whether it still runs, and the last state\<close>
  "sender_run encodes [] s = (True, s)"
| "sender_run encodes (e # es) s =
     (case sender_step encodes e s of None \<Rightarrow> (False, s) | Some s1 \<Rightarrow> sender_run encodes es s1)"

definition wsValuesSender :: "(ws_message \<Rightarrow> bool) \<Rightarrow> val list \<Rightarrow> bool \<Rightarrow> ws_event list \<Rightarrow> bool \<times> ws_message list" where
  \<comment> \<open>the initial values of the subscription, and whether the connection takes the first message\<close>
  "wsValuesSender encodes initial ok es =
     (let m = \<lparr>wm_Operation = ''init'', wm_Registers = compile2DRegisterResponse initial,
                wm_Values = compile2DValueResponse initial\<rparr>
      in if ok \<and> encodes m
         then (let (running, s) = sender_run encodes es
                     \<lparr>sn_registers = wm_Registers m, sn_newRegisters = [], sn_newValues = [],
                      sn_tickerRunning = True, sn_sent = [m]\<rparr>
               in (running, sn_sent s))
         else (False, []))"

section \<open>Reader\<close>

text \<open>
  The messages of the client with the time each arrives, whether it is text, and the token in it,
  where it could be decoded. The result is how many senders are started.
\<close>

fun ws_read ::
  "jwt_lib \<Rightarrow> string \<Rightarrow> ViewConfig \<Rightarrow> bool \<Rightarrow> (nanoseconds \<times> bool \<times> string option) list \<Rightarrow> nat" where
  "ws_read lib secret v started [] = 0"
| "ws_read lib secret v started ((now, text, authToken) # ms) =
     (let allowed = (if \<not> text then False
          else case authToken of
                 None \<Rightarrow> False
               | Some t \<Rightarrow>
                   (case checkToken lib now t secret of
                      None \<Rightarrow> False
                    | Some user \<Rightarrow> isViewAuthenticatedByUser v user True))
      in if allowed \<and> \<not> started then Suc (ws_read lib secret v True ms)
         else ws_read lib secret v started ms)"

definition ws_connection ::
  "jwt_lib \<Rightarrow> string \<Rightarrow> ViewConfig \<Rightarrow> bool \<Rightarrow> (nanoseconds \<times> bool \<times> string option) list \<Rightarrow> nat" where
  \<comment> \<open>\<open>accepted\<close>: the upgrade of the connection succeeds\<close>
  "ws_connection lib secret v accepted ms =
     (if \<not> accepted then 0
      else if IsPublic v then Suc (ws_read lib secret v True ms)
      else ws_read lib secret v False ms)"

section \<open>What the client knows\<close>

definition lookup2 :: "'a map2D \<Rightarrow> string \<times> string \<Rightarrow> 'a option" where
  "lookup2 m k = map_of (inner_map m (fst k)) (snd k)"

definition ws_key :: "val \<Rightarrow> string \<times> string" where
  "ws_key v = (DeviceName v, val_name v)"

text \<open>The client puts what a message holds over what it knows.\<close>

definition client_values :: "ws_message list \<Rightarrow> string \<times> string \<rightharpoonup> generic" where
  "client_values ms = foldl (\<lambda>m x. m ++ lookup2 (wm_Values x)) (\<lambda>k. None) ms"

definition client_registers :: "ws_message list \<Rightarrow> string \<times> string \<rightharpoonup> registerResponse" where
  "client_registers ms = foldl (\<lambda>m x. m ++ lookup2 (wm_Registers x)) (\<lambda>k. None) ms"

definition latest_values :: "val list \<Rightarrow> string \<times> string \<rightharpoonup> generic" where
  "latest_values vs = foldl (\<lambda>m v. m(ws_key v \<mapsto> GenericValue v)) (\<lambda>k. None) vs"

definition first_registers :: "val list \<Rightarrow> string \<times> string \<rightharpoonup> registerResponse" where
  \<comment> \<open>the register of the first value under a key\<close>
  "first_registers vs = foldr (\<lambda>v m. m(ws_key v \<mapsto> createRegisterResponse (val_reg v))) vs (\<lambda>k. None)"

lemma first_registers_snoc:
  "first_registers (vs @ [v]) k =
     (case first_registers vs k of
        Some r \<Rightarrow> Some r
      | None \<Rightarrow> if k = ws_key v then Some (createRegisterResponse (val_reg v)) else None)"
  by (induction vs) (simp_all add: first_registers_def)

lemma latest_values_snoc: "latest_values (vs @ [v]) = (latest_values vs)(ws_key v \<mapsto> GenericValue v)"
  by (simp add: latest_values_def)

lemma client_snoc:
  "client_values (ms @ [m]) = client_values ms ++ lookup2 (wm_Values m)"
  "client_registers (ms @ [m]) = client_registers ms ++ lookup2 (wm_Registers m)"
  by (simp_all add: client_values_def client_registers_def)

lemma inner_map_update: "inner_map (AList.update d i m) d' = (if d' = d then i else inner_map m d')"
  by (simp add: inner_map_def update_conv')

lemma lookup2_Nil [simp]: "lookup2 [] = Map.empty"
  by (simp add: lookup2_def inner_map_def fun_eq_iff)

lemma lookup2_append_value: "lookup2 (append2DValueResponse m v) = (lookup2 m)(ws_key v \<mapsto> GenericValue v)"
  by (auto simp: fun_eq_iff lookup2_def append2DValueResponse_def Let_def inner_map_update update_conv' ws_key_def)

lemma append_register_created: "snd (append2DRegisterResponse m v) \<longleftrightarrow> lookup2 m (ws_key v) = None"
  by (simp add: append2DRegisterResponse_def Let_def lookup2_def ws_key_def)

lemma lookup2_append_register:
  "lookup2 (fst (append2DRegisterResponse m v)) k =
     (case lookup2 m k of
        Some r \<Rightarrow> Some r
      | None \<Rightarrow> if k = ws_key v then Some (createRegisterResponse (val_reg v)) else None)"
  by (cases k)
    (auto simp: lookup2_def append2DRegisterResponse_def Let_def inner_map_update update_conv' ws_key_def
      split: option.splits)

lemma lookup2_compile_values: "lookup2 (compile2DValueResponse vs) = latest_values vs"
  by (induction vs rule: rev_induct)
    (simp_all add: compile2DValueResponse_def latest_values_snoc lookup2_append_value latest_values_def fun_eq_iff)

lemma lookup2_compile_registers: "lookup2 (compile2DRegisterResponse vs) = first_registers vs"
proof (induction vs rule: rev_induct)
  case Nil
  show ?case by (simp add: compile2DRegisterResponse_def first_registers_def fun_eq_iff)
next
  case (snoc v vs)
  then show ?case
    by (simp add: compile2DRegisterResponse_def fun_eq_iff lookup2_append_register first_registers_snoc)
qed

section \<open>Invariant of the sender\<close>

definition apart :: "('k \<rightharpoonup> 'a) \<Rightarrow> ('k \<rightharpoonup> 'b) \<Rightarrow> bool" where
  "apart f g \<longleftrightarrow> (\<forall>k. f k = None \<or> g k = None)"

lemma apart_empty [simp]: "apart f Map.empty"
  by (simp add: apart_def)

definition sender_inv :: "val list \<Rightarrow> ws_sender \<Rightarrow> bool" where
  \<comment> \<open>after the values received so far, the initial ones first\<close>
  "sender_inv vs s \<longleftrightarrow>
     client_values (sn_sent s) ++ lookup2 (sn_newValues s) = latest_values vs \<and>
     lookup2 (sn_registers s) = first_registers vs \<and>
     client_registers (sn_sent s) ++ lookup2 (sn_newRegisters s) = first_registers vs \<and>
     apart (client_registers (sn_sent s)) (lookup2 (sn_newRegisters s)) \<and>
     (sn_newValues s \<noteq> [] \<longrightarrow> sn_tickerRunning s)"

fun received :: "ws_event list \<Rightarrow> val list" where
  "received [] = []"
| "received (WsValue v # es) = v # received es"
| "received (_ # es) = received es"

lemma received_append: "received (es @ fs) = received es @ received fs"
  by (induction es rule: received.induct) simp_all

lemma sender_inv_value:
  assumes "sender_inv vs s"
  shows "\<exists>s'. sender_step encodes (WsValue v) s = Some s' \<and> sn_sent s' = sn_sent s \<and> sender_inv (vs @ [v]) s'"
proof -
  let ?c = "client_registers (sn_sent s)" and ?n = "lookup2 (sn_newRegisters s)" and ?k = "ws_key v"
  let ?regs = "append2DRegisterResponse (sn_registers s) v"
  let ?new = "if snd ?regs then fst (append2DRegisterResponse (sn_newRegisters s) v) else sn_newRegisters s"
  have created: "snd ?regs \<longleftrightarrow> first_registers vs ?k = None"
    using assms by (simp add: append_register_created sender_inv_def)
  have regs: "lookup2 (fst ?regs) = first_registers (vs @ [v])"
    using assms by (simp add: fun_eq_iff lookup2_append_register first_registers_snoc sender_inv_def)
  have sum: "(?c ++ ?n) k = first_registers vs k" and dis: "?c k = None \<or> ?n k = None" for k
    using assms unfolding sender_inv_def apart_def by metis+
  have new: "(?c ++ lookup2 ?new) k = first_registers (vs @ [v]) k \<and> (?c k = None \<or> lookup2 ?new k = None)" for k
    using sum [of k] sum [of ?k] dis [of k] created
    by (auto simp: map_add_def lookup2_append_register first_registers_snoc split: option.splits)
  then have "?c ++ lookup2 ?new = first_registers (vs @ [v])"
    by (intro ext) (rule conjunct1)
  moreover have "apart ?c (lookup2 ?new)"
    using new by (simp only: apart_def) blast
  moreover have "client_values (sn_sent s) ++ lookup2 (append2DValueResponse (sn_newValues s) v) = latest_values (vs @ [v])"
    using assms by (simp add: sender_inv_def lookup2_append_value latest_values_snoc)
  ultimately show ?thesis
    using regs by (simp add: sender_step_def case_prod_beta Let_def sender_inv_def)
qed

lemma sender_inv_tick:
  assumes "sender_inv vs s" and "sender_step encodes (WsTick ok) s = Some s'"
  shows "sender_inv vs s' \<and> lookup2 (sn_newValues s') = (\<lambda>k. None)"
  using assms by (auto simp: sender_step_def Let_def sender_inv_def client_snoc split: if_splits)

lemma sender_inv_run:
  "sender_inv vs s \<Longrightarrow> sender_run encodes es s = (True, s') \<Longrightarrow> sender_inv (vs @ received es) s'"
proof (induction es arbitrary: vs s)
  case (Cons e es)
  obtain s1 where step: "sender_step encodes e s = Some s1" and run: "sender_run encodes es s1 = (True, s')"
    using Cons.prems(2) by (auto split: option.splits)
  show ?case
  proof (cases e)
    case (WsTick ok)
    with Cons.IH [OF _ run] sender_inv_tick [OF Cons.prems(1)] step show ?thesis by simp
  next
    case (WsValue v)
    with step sender_inv_value [OF Cons.prems(1), of encodes v] have "sender_inv (vs @ [v]) s1" by simp
    from Cons.IH [OF this run] WsValue show ?thesis by simp
  next
    case WsShutdown
    with step show ?thesis by (simp add: sender_step_def)
  qed
qed simp

lemma sender_inv_initial:
  "sender_inv initial
     \<lparr>sn_registers = compile2DRegisterResponse initial, sn_newRegisters = [], sn_newValues = [], sn_tickerRunning = True,
      sn_sent = [\<lparr>wm_Operation = op, wm_Registers = compile2DRegisterResponse initial,
                  wm_Values = compile2DValueResponse initial\<rparr>]\<rparr>"
  by (simp add: sender_inv_def client_values_def client_registers_def lookup2_compile_values
      lookup2_compile_registers)

lemma ws_read_started: "ws_read lib secret v True ms = 0"
  by (induction lib secret v True ms rule: ws_read.induct) (simp_all add: Let_def)

definition ws_admits :: "jwt_lib \<Rightarrow> string \<Rightarrow> ViewConfig \<Rightarrow> nanoseconds \<times> bool \<times> string option \<Rightarrow> bool" where
  "ws_admits lib secret v m \<longleftrightarrow> (case m of (now, text, authToken) \<Rightarrow>
     text \<and> (\<exists>t user. authToken = Some t \<and> checkToken lib now t secret = Some user \<and> isViewAuthenticatedByUser v user True))"

lemma ws_read_Cons:
  "ws_read lib secret v started (m # ms) =
     (if ws_admits lib secret v m \<and> \<not> started then Suc (ws_read lib secret v True ms)
      else ws_read lib secret v started ms)"
proof (cases m)
  case (fields now t tok)
  then show ?thesis
    by (cases t; cases tok; cases "checkToken lib now (the tok) secret") (simp_all add: ws_admits_def Let_def)
qed

lemma ws_read_count: "ws_read lib secret v False ms = (if list_ex (ws_admits lib secret v) ms then 1 else 0)"
  by (induction ms) (simp_all add: ws_read_Cons ws_read_started del: ws_read.simps(2))

section \<open>Properties\<close>

text \<open>
  C9: While the sender of a view runs, what the client was sent, and over it what waits for the next
  tick, is for every register the latest of the initial and received values; and whatever waits, the
  ticker is running to send it. The client knows the register of every value it was sent, as it was
  with the first value under its name: a later change of the register is not sent.
\<close>

theorem ws_in_step:
  assumes "sender_run encodes es
      \<lparr>sn_registers = compile2DRegisterResponse initial, sn_newRegisters = [], sn_newValues = [],
       sn_tickerRunning = True,
       sn_sent = [\<lparr>wm_Operation = ''init'', wm_Registers = compile2DRegisterResponse initial,
                   wm_Values = compile2DValueResponse initial\<rparr>]\<rparr> = (True, s)"
  shows "client_values (sn_sent s) ++ lookup2 (sn_newValues s) = latest_values (initial @ received es) \<and>
    client_registers (sn_sent s) ++ lookup2 (sn_newRegisters s) = first_registers (initial @ received es) \<and>
    (sn_newValues s \<noteq> [] \<longrightarrow> sn_tickerRunning s) \<and>
    (\<forall>ok s'. sender_step encodes (WsTick ok) s = Some s' \<longrightarrow>
       client_values (sn_sent s') = latest_values (initial @ received es))"
proof -
  have inv: "sender_inv (initial @ received es) s"
    using sender_inv_run [OF sender_inv_initial assms] .
  have "client_values (sn_sent s') = latest_values (initial @ received es)"
    if "sender_step encodes (WsTick ok) s = Some s'" for ok s'
  proof -
    have "lookup2 (sn_newValues s') = Map.empty" and "sender_inv (initial @ received es) s'"
      using sender_inv_tick [OF inv that] by simp_all
    then show ?thesis
      unfolding sender_inv_def by (metis map_add_empty)
  qed
  with inv show ?thesis
    by (simp add: sender_inv_def)
qed

definition example_value :: "f64 \<Rightarrow> val" where
  "example_value x = NumericRegisterValue ''bmv''
     (NewRegisterStruct ''Essential'' ''Voltage'' ''Voltage'' NumberRegister None ''V'' 0 False) x"

theorem ws_in_step_witness:
  "\<exists>s :: ws_sender. client_values (sn_sent s) = Map.empty((''bmv'', ''Voltage'') \<mapsto> GFloat (F_Fin 13)) \<and> length (sn_sent s) = 2"
proof -
  let ?es = "[WsValue (example_value F_NaN), WsValue (example_value (F_Fin 13)), WsTick True]"
  let ?init = "[example_value (F_Fin 12)]"
  let ?s0 = "\<lparr>sn_registers = compile2DRegisterResponse ?init, sn_newRegisters = [], sn_newValues = [],
       sn_tickerRunning = True,
       sn_sent = [\<lparr>wm_Operation = ''init'', wm_Registers = compile2DRegisterResponse ?init,
                   wm_Values = compile2DValueResponse ?init\<rparr>]\<rparr>"
  have all: "fst (sender_run (\<lambda>m. True) ?es ?s0) \<and> length (sn_sent (snd (sender_run (\<lambda>m. True) ?es ?s0))) = 2 \<and>
      sn_newValues (snd (sender_run (\<lambda>m. True) ?es ?s0)) = []"
    by code_simp
  obtain b s where bs: "sender_run (\<lambda>m. True) ?es ?s0 = (b, s)"
    by (rule prod.exhaust)
  have run: "sender_run (\<lambda>m. True) ?es ?s0 = (True, s)" and
    sent: "length (sn_sent s) = 2" "lookup2 (sn_newValues s) = Map.empty"
    using all unfolding bs by simp_all
  have "latest_values (?init @ received ?es) = Map.empty((''bmv'', ''Voltage'') \<mapsto> GFloat (F_Fin 13))"
    by (simp add: latest_values_def ws_key_def example_value_def val_name_def NewRegisterStruct_def)
  with ws_in_step [OF run] sent show ?thesis by auto
qed

text \<open>
  A connection of a view starts at most one sender, and starts it exactly if the view is public or
  one of the client's text messages holds a token that is valid when it arrives, of a user the
  view allows. Nobody asks again: the sender outlives the token.
\<close>

theorem ws_authorized:
  "ws_connection lib secret v accepted ms =
     (if accepted \<and> (IsPublic v \<or> (\<exists>(now, isText, authToken) \<in> set ms. isText \<and>
          (\<exists>t user. authToken = Some t \<and> checkToken lib now t secret = Some user \<and> user \<noteq> '''' \<and> IsAllowed v user)))
      then 1 else 0)"
proof -
  have "list_ex (ws_admits lib secret v) ms \<longleftrightarrow> (\<exists>(now, isText, authToken) \<in> set ms. isText \<and>
      (\<exists>t user. authToken = Some t \<and> checkToken lib now t secret = Some user \<and> user \<noteq> '''' \<and> IsAllowed v user))"
    if "\<not> IsPublic v"
    using that by (fastforce simp: list_ex_iff ws_admits_def authenticated_iff)
  then show ?thesis
    by (auto simp: ws_connection_def ws_read_started ws_read_count)
qed

end
