(* ===== verification/Web_Routes.thy ===== *)
theory Web_Routes
  imports Web_Socket Config_Proofs
begin

text \<open>
  The web server, fourth part: its routes (apiV2.go, docs.go, frontend.go, httpServer.go), and what
  the handler of a route does for a request. The framework is third-party: whether it takes a table
  of routes is the argument \<open>register\<close>, which handler it picks for a request is one of the table.
\<close>

section \<open>Routes\<close>

datatype http_method = GET | POST | PATCH

datatype web_handler =
    ServeConfig
  | ServeLogin
  | ServeNoLogin
  | ServeRegisters ViewConfig ViewDeviceConfig
  | ServeValues ViewConfig ViewDeviceConfig
  | PatchValues ViewConfig string
  | ServeWs ViewConfig
  | ServeFile string

record route =
  rt_method :: http_method
  rt_path :: string
  rt_handler :: web_handler

definition api_route :: "http_method \<Rightarrow> string \<Rightarrow> web_handler \<Rightarrow> route" where
  \<comment> \<open>in the group \<open>/api/v2/\<close>\<close>
  "api_route m relativePath h = \<lparr>rt_method = m, rt_path = ''/api/v2/'' @ relativePath, rt_handler = h\<rparr>"

text \<open>The devices of the views that are in the pool, in the order of the loops.\<close>

definition found_devices :: "(string \<Rightarrow> bool) \<Rightarrow> ViewConfig list \<Rightarrow> (ViewConfig \<times> ViewDeviceConfig) list" where
  "found_devices inPool vs = concat (map (\<lambda>v. map (\<lambda>d. (v, d)) (filter (\<lambda>d. inPool (vwd_name d)) (vw_devices v))) vs)"

definition device_path :: "string \<Rightarrow> string \<Rightarrow> string \<Rightarrow> string" where
  "device_path v d what = ''views/'' @ v @ ''/devices/'' @ d @ ''/'' @ what"

definition setupLogin :: "bool \<Rightarrow> bool \<Rightarrow> route list" where
  \<comment> \<open>whether authentication is enabled, and whether its file can be read\<close>
  "setupLogin enabled readable =
     [api_route POST ''auth/login'' (if enabled \<and> readable then ServeLogin else ServeNoLogin)]"

definition setupRegisters :: "(string \<Rightarrow> bool) \<Rightarrow> ViewConfig list \<Rightarrow> route list" where
  "setupRegisters inPool vs =
     map (\<lambda>(v, d). api_route GET (device_path (vw_name v) (vwd_name d) ''registers'') (ServeRegisters v d))
       (found_devices inPool vs)"

definition setupValuesGetJson :: "(string \<Rightarrow> bool) \<Rightarrow> ViewConfig list \<Rightarrow> route list" where
  "setupValuesGetJson inPool vs =
     map (\<lambda>(v, d). api_route GET (device_path (vw_name v) (vwd_name d) ''values'') (ServeValues v d))
       (found_devices inPool vs)"

definition setupValuesPatch :: "(string \<Rightarrow> bool) \<Rightarrow> ViewConfig list \<Rightarrow> route list" where
  "setupValuesPatch inPool vs =
     map (\<lambda>(v, d). api_route PATCH (device_path (vw_name v) (vwd_name d) ''values'') (PatchValues v (vwd_name d)))
       (found_devices inPool vs)"

definition setupDocs :: "route list" where
  "setupDocs = [api_route GET ''docs'' (ServeFile ''docs/swagger.html''),
     api_route GET ''docs/swagger.json'' (ServeFile ''docs/swagger.json''),
     api_route GET ''docs/swagger.yaml'' (ServeFile ''docs/swagger.yaml'')]"

definition setupValuesWs :: "ViewConfig list \<Rightarrow> route list" where
  "setupValuesWs vs = map (\<lambda>v. api_route GET (''views/'' @ vw_name v @ ''/ws'') (ServeWs v)) vs"

definition addApiV2Routes :: "(string \<Rightarrow> bool) \<Rightarrow> bool \<Rightarrow> bool \<Rightarrow> ViewConfig list \<Rightarrow> route list" where
  "addApiV2Routes inPool enabled readable vs =
     [api_route GET ''config/frontend'' ServeConfig] @ setupLogin enabled readable @ setupRegisters inPool vs @
     setupValuesGetJson inPool vs @ setupValuesPatch inPool vs @ setupDocs @ setupValuesWs vs"

section \<open>Frontend\<close>

text \<open>\<open>path.Clean\<close>.\<close>

fun split_slash :: "string \<Rightarrow> string \<Rightarrow> string list" where
  "split_slash acc [] = [acc]"
| "split_slash acc (c # s) = (if c = CHR ''/'' then acc # split_slash [] s else split_slash (acc @ [c]) s)"

fun clean_parts :: "bool \<Rightarrow> string list \<Rightarrow> string list \<Rightarrow> string list" where
  \<comment> \<open>the parts kept so far, the last one first\<close>
  "clean_parts rooted acc [] = rev acc"
| "clean_parts rooted acc (p # ps) =
     (if p = '''' \<or> p = ''.'' then clean_parts rooted acc ps
      else if p = ''..'' then
        (if acc \<noteq> [] \<and> hd acc \<noteq> ''..'' then clean_parts rooted (tl acc) ps
         else if rooted then clean_parts rooted acc ps
         else clean_parts rooted (''..'' # acc) ps)
      else clean_parts rooted (p # acc) ps)"

fun join_slash :: "string list \<Rightarrow> string" where
  "join_slash [] = []"
| "join_slash [p] = p"
| "join_slash (p # ps) = p @ ''/'' @ join_slash ps"

definition path_Clean :: "string \<Rightarrow> string" where
  "path_Clean p =
     (let rooted = p \<noteq> [] \<and> hd p = CHR ''/''; body = join_slash (clean_parts rooted [] (split_slash [] p))
      in if rooted then ''/'' @ body else if body = [] then ''.'' else body)"

definition serveStatic :: "string \<Rightarrow> string \<Rightarrow> route" where
  \<comment> \<open>in the group \<open>/\<close>\<close>
  "serveStatic relativePath filePath =
     \<lparr>rt_method = GET, rt_path = ''/'' @ relativePath, rt_handler = ServeFile filePath\<rparr>"

text \<open>
  \<open>lstat\<close>: whether a path is a directory, \<open>files\<close>: the files visited by the walk. The name of a file's
  route is cut off its path, which panics (\<open>None\<close>) where the path is too short.
\<close>

definition setupFrontend ::
  "bool \<Rightarrow> string \<Rightarrow> (string \<Rightarrow> bool option) \<Rightarrow> string list \<Rightarrow> ViewConfig list \<Rightarrow> route list option" where
  "setupFrontend proxy frontendPath0 lstat files vs =
     (if proxy then Some []
      else let frontendPath = path_Clean frontendPath0
           in if length frontendPath = 0 \<or> lstat frontendPath \<noteq> Some True then Some []
              else if \<not> list_all (\<lambda>p. length frontendPath + 1 \<le> length p) files then None
              else Some (map (\<lambda>p. serveStatic (drop (length frontendPath + 1) p) p) files @
                         map (\<lambda>r. serveStatic r (frontendPath @ ''/index.html'')) (map vw_name vs @ ['''', ''login''])))"

definition web_Run ::
  "((http_method \<times> string) list \<Rightarrow> bool) \<Rightarrow> (string \<Rightarrow> bool) \<Rightarrow> bool \<Rightarrow> bool \<Rightarrow> bool \<Rightarrow> string \<Rightarrow>
     (string \<Rightarrow> bool option) \<Rightarrow> string list \<Rightarrow> ViewConfig list \<Rightarrow> route list option" where
  \<comment> \<open>the table of routes; \<open>None\<close>: setting it up panics\<close>
  "web_Run register inPool enabled readable proxy frontendPath lstat files vs =
     (case setupFrontend proxy frontendPath lstat files vs of
        None \<Rightarrow> None
      | Some frontend \<Rightarrow>
          (let routes = addApiV2Routes inPool enabled readable vs @ frontend
           in if register (map (\<lambda>r. (rt_method r, rt_path r)) routes) then Some routes else None))"

section \<open>Requests\<close>

record request =
  rq_now :: nanoseconds
  rq_Authorization :: string
  rq_IfNoneMatch :: string
  rq_values :: "(string \<times> json_value) list option" \<comment> \<open>the body of a command, decoded\<close>
  rq_login :: "(string \<times> string) option" \<comment> \<open>the body of a login, decoded\<close>
  rq_acquired :: bool
  rq_reread :: "string option"

record web_state =
  wt_registers :: "string \<Rightarrow> register_db" \<comment> \<open>of the device of a name\<close>
  wt_state :: storage_state
  wt_checker :: "string auth_checker"

definition handle ::
  "web_env \<Rightarrow> (string \<Rightarrow> string \<Rightarrow> string \<Rightarrow> bool) \<Rightarrow> web_orders \<Rightarrow> web_handler \<Rightarrow> request \<Rightarrow> web_state \<Rightarrow>
     json_obj response \<times> device_action list \<times> string auth_checker" where
  \<comment> \<open>the middleware and then the handler of the route; an upgrade to a websocket is not answered here\<close>
  "handle env Match ord h rq st =
     (case authJwtMiddleware (we_jwt env) JError (we_auth env) (rq_now rq) (rq_Authorization rq) of
        Inl rp \<Rightarrow> (rp, [], wt_checker st)
      | Inr user \<Rightarrow>
          (case h of
             ServeConfig \<Rightarrow> (config_get env (rq_IfNoneMatch rq), [], wt_checker st)
           | ServeLogin \<Rightarrow>
               (let (rp, checker) = login (we_jwt env) JError JLogin Match (we_auth env) (we_views env) (rq_acquired rq)
                      (rq_now rq) (rq_reread rq) (rq_login rq) (wt_checker st)
                in (rp, [], checker))
           | ServeNoLogin \<Rightarrow> (disabledLogin JError, [], wt_checker st)
           | ServeRegisters v d \<Rightarrow>
               (registers_get env ord v d (wt_registers st (vwd_name d)) user (rq_IfNoneMatch rq), [], wt_checker st)
           | ServeValues v d \<Rightarrow> (values_get env ord v d (wt_state st) user (rq_IfNoneMatch rq), [], wt_checker st)
           | PatchValues v n \<Rightarrow>
               (let (rp, acts) = values_patch env v n (wt_registers st n) user (rq_values rq) in (rp, acts, wt_checker st))
           | ServeWs v \<Rightarrow> (no_response, [], wt_checker st)
           | ServeFile p \<Rightarrow> (setCacheControlPublic (we_frontendExpires env) no_response, [], wt_checker st)))"

end
