(* ===== verification/Web_Proofs.thy ===== *)
theory Web_Proofs
  imports Web_Routes
begin

text \<open>
  The web server: when its table of routes can be set up, who gets data and whose commands are
  executed, what the values of a device are answered with, and which bodies of a command are taken.
\<close>

section \<open>Paths\<close>

definition plain_name :: "string \<Rightarrow> bool" where
  "plain_name n \<longleftrightarrow> CHR ''/'' \<notin> set n \<and> CHR '':'' \<notin> set n \<and> CHR ''*'' \<notin> set n"

lemma nameMatcher_plain: "nameMatcher n \<Longrightarrow> plain_name n"
proof -
  assume "nameMatcher n"
  then have "c \<in> set n \<Longrightarrow> name_char c" for c
    by (simp add: nameMatcher_def list_all_iff)
  moreover have "\<not> name_char (CHR ''/'')" and "\<not> name_char (CHR '':'')" and "\<not> name_char (CHR ''*'')"
    by (simp_all add: name_char_def)
  ultimately show ?thesis
    unfolding plain_name_def by blast
qed

lemma slash_split:
  "CHR ''/'' \<notin> set a \<Longrightarrow> CHR ''/'' \<notin> set b \<Longrightarrow>
     a @ CHR ''/'' # x = b @ CHR ''/'' # y \<longleftrightarrow> a = b \<and> x = y"
  by (induction a arbitrary: b) (case_tac b; auto)+

lemma slash_split_end:
  "CHR ''/'' \<notin> set a \<Longrightarrow> a @ CHR ''/'' # x = b \<Longrightarrow> CHR ''/'' \<in> set b"
  by auto

lemma device_path_eq:
  "plain_name v \<Longrightarrow> plain_name v' \<Longrightarrow> plain_name d \<Longrightarrow> plain_name d' \<Longrightarrow>
     device_path v d w = device_path v' d' w' \<longleftrightarrow> v = v' \<and> d = d' \<and> w = w'"
  by (auto simp: device_path_def plain_name_def slash_split)

lemma device_path_ws:
  "plain_name v \<Longrightarrow> plain_name v' \<Longrightarrow> device_path v d w \<noteq> ''views/'' @ v' @ ''/ws''"
  by (simp add: device_path_def plain_name_def slash_split)

definition wf_views :: "ViewConfig list \<Rightarrow> bool" where
  "wf_views vs \<longleftrightarrow> distinct (map vw_name vs) \<and>
     (\<forall>v \<in> set vs. plain_name (vw_name v) \<and> distinct (map vwd_name (vw_devices v)) \<and>
        (\<forall>d \<in> set (vw_devices v). plain_name (vwd_name d)))"

lemma accepted_wf_views:
  assumes "map_orders_ok o1" and "TransformAndValidate o1 env b c = Some (cfg, [])"
  shows "wf_views (cf_views cfg)"
proof -
  have ok: "config_ok cfg" by (rule accepted_config_ok [OF assms])
  have "list_all device_ok (cf_devices cfg)"
    using ok by (auto simp: config_ok_def accepted_devices [OF assms(2)] nonMqttGenset_devices_def list_all_iff
        victron_ok_def modbusDevice_ok_def gpio_ok_def http_ok_def mqttDevice_ok_def genset_ok_def)
  then have "existsByName cd_name n (cf_devices cfg) \<Longrightarrow> plain_name n" for n
    by (auto simp: existsByName_def list_ex_iff list_all_iff device_ok_def intro: nameMatcher_plain)
  then show ?thesis
    using ok by (auto simp: config_ok_def wf_views_def view_ok_def list_all_iff getNames_def intro: nameMatcher_plain)
qed

section \<open>The table of routes\<close>

definition keys :: "route list \<Rightarrow> (http_method \<times> string) list" where
  "keys rs = map (\<lambda>r. (rt_method r, rt_path r)) rs"

lemma keys_append [simp]: "keys (rs @ rs') = keys rs @ keys rs'" "keys [] = []"
    "keys (r # rs) = (rt_method r, rt_path r) # keys rs"
  by (simp_all add: keys_def)

definition name_pairs :: "(string \<Rightarrow> bool) \<Rightarrow> ViewConfig list \<Rightarrow> (string \<times> string) list" where
  "name_pairs inPool vs = map (\<lambda>(v, d). (vw_name v, vwd_name d)) (found_devices inPool vs)"

lemma found_devices_Cons:
  "found_devices inPool (v # vs) =
     map (\<lambda>d. (v, d)) (filter (\<lambda>d. inPool (vwd_name d)) (vw_devices v)) @ found_devices inPool vs"
  "found_devices inPool [] = []"
  by (simp_all add: found_devices_def)

lemma name_pairs_Cons:
  "name_pairs inPool (v # vs) =
     map (\<lambda>d. (vw_name v, vwd_name d)) (filter (\<lambda>d. inPool (vwd_name d)) (vw_devices v)) @ name_pairs inPool vs"
  "name_pairs inPool [] = []"
  by (simp_all add: name_pairs_def found_devices_Cons comp_def)

lemma name_pairs_views: "(a, b) \<in> set (name_pairs inPool vs) \<Longrightarrow> a \<in> vw_name ` set vs"
  by (auto simp: name_pairs_def found_devices_def)

lemma distinct_name_pairs: "wf_views vs \<Longrightarrow> distinct (name_pairs inPool vs)"
proof (induction vs)
  case (Cons v vs)
  have "distinct (map (\<lambda>d. (vw_name v, vwd_name d)) (filter (\<lambda>d. inPool (vwd_name d)) (vw_devices v)))"
    using Cons.prems by (auto simp: wf_views_def distinct_map inj_on_def)
  moreover have "distinct (name_pairs inPool vs)"
    using Cons by (simp add: wf_views_def)
  moreover have "(vw_name v, n) \<notin> set (name_pairs inPool vs)" for n
    using Cons.prems by (auto simp: wf_views_def dest!: name_pairs_views)
  ultimately show ?case
    by (auto simp: name_pairs_Cons)
qed (simp add: name_pairs_Cons)

lemma pairs_plain: "wf_views vs \<Longrightarrow> (a, b) \<in> set (name_pairs inPool vs) \<Longrightarrow> plain_name a \<and> plain_name b"
  by (auto simp: name_pairs_def found_devices_def wf_views_def)

lemma device_keys:
  "keys (setupRegisters inPool vs) = map (\<lambda>(a, b). (GET, ''/api/v2/'' @ device_path a b ''registers'')) (name_pairs inPool vs)"
  "keys (setupValuesGetJson inPool vs) = map (\<lambda>(a, b). (GET, ''/api/v2/'' @ device_path a b ''values'')) (name_pairs inPool vs)"
  "keys (setupValuesPatch inPool vs) = map (\<lambda>(a, b). (PATCH, ''/api/v2/'' @ device_path a b ''values'')) (name_pairs inPool vs)"
  "keys (setupValuesWs vs) = map (\<lambda>n. (GET, ''/api/v2/views/'' @ n @ ''/ws'')) (map vw_name vs)"
  by (simp_all add: keys_def setupRegisters_def setupValuesGetJson_def setupValuesPatch_def setupValuesWs_def
      api_route_def name_pairs_def comp_def split_def)

lemma distinct_device_keys:
  "wf_views vs \<Longrightarrow> distinct (map (\<lambda>(a, b). (m, ''/api/v2/'' @ device_path a b w)) (name_pairs inPool vs))"
proof -
  assume wf: "wf_views vs"
  have "(a, b) = (a', b')" if "(a, b) \<in> set (name_pairs inPool vs)" and "(a', b') \<in> set (name_pairs inPool vs)"
    and "device_path a b w = device_path a' b' w" for a b a' b'
    using pairs_plain [OF wf that(1)] pairs_plain [OF wf that(2)] that(3) by (simp add: device_path_eq)
  then have "inj_on (\<lambda>(a, b). (m, ''/api/v2/'' @ device_path a b w)) (set (name_pairs inPool vs))"
    by (auto simp: inj_on_def)
  then show ?thesis
    using distinct_name_pairs [OF wf] by (simp add: distinct_map)
qed

lemma distinct_api:
  assumes "wf_views vs"
  shows "distinct (keys (addApiV2Routes inPool enabled readable vs))"
proof -
  have ws: "distinct (map (\<lambda>n. (GET, ''/api/v2/views/'' @ n @ ''/ws'')) (map vw_name vs))"
    using assms by (subst distinct_map) (auto simp: wf_views_def inj_on_def)
  have plain: "v \<in> set vs \<Longrightarrow> plain_name (vw_name v)" for v
    using assms by (simp add: wf_views_def)
  note apart = device_path_eq device_path_ws
  show ?thesis
    unfolding addApiV2Routes_def keys_append device_keys
    using ws distinct_device_keys [OF assms]
    by (auto simp: setupLogin_def setupDocs_def api_route_def device_path_def plain slash_split plain_name_def
        dest!: pairs_plain [OF assms])
qed

definition static_path :: "string \<Rightarrow> bool" where
  \<comment> \<open>without the characters that make a path a pattern\<close>
  "static_path p \<longleftrightarrow> CHR '':'' \<notin> set p \<and> CHR ''*'' \<notin> set p"

lemma api_paths:
  assumes "wf_views vs" and "(m, p) \<in> set (keys (addApiV2Routes inPool enabled readable vs))"
  shows "static_path p \<and> (\<exists>r. p = ''/api/v2/'' @ r)"
  using assms
  by (auto simp: addApiV2Routes_def device_keys setupLogin_def setupDocs_def api_route_def static_path_def
      device_path_def wf_views_def plain_name_def dest!: pairs_plain [OF assms(1)])

definition frontend_names :: "string list \<Rightarrow> ViewConfig list \<Rightarrow> string list" where
  "frontend_names names vs = names @ map vw_name vs @ ['''', ''login'']"

lemma frontend_keys:
  assumes "lstat (path_Clean p) = Some True" and "path_Clean p \<noteq> []"
  shows "\<exists>rs. setupFrontend False p lstat (map (\<lambda>f. path_Clean p @ ''/'' @ f) names) vs = Some rs \<and>
     keys rs = map (\<lambda>n. (GET, ''/'' @ n)) (frontend_names names vs)"
  using assms
  by (auto simp: setupFrontend_def Let_def list_all_iff keys_def serveStatic_def frontend_names_def comp_def)

lemma path_Clean_nonempty: "path_Clean p \<noteq> []"
  by (auto simp: path_Clean_def Let_def)

text \<open>File names of a frontend that do not meet the other routes.\<close>

definition fine_files :: "string list \<Rightarrow> ViewConfig list \<Rightarrow> bool" where
  "fine_files names vs \<longleftrightarrow> distinct names \<and>
     (\<forall>n \<in> set names. static_path n \<and> take 7 n \<noteq> ''api/v2/'' \<and> n \<notin> {'''', ''login''} \<union> vw_name ` set vs)"

lemma distinct_frontend:
  assumes "wf_views vs" and "fine_files names vs"
  shows "distinct (frontend_names names vs) \<longleftrightarrow> ''login'' \<notin> vw_name ` set vs \<and> '''' \<notin> vw_name ` set vs"
  using assms by (auto simp: frontend_names_def fine_files_def wf_views_def)

lemma frontend_name_static:
  assumes "wf_views vs" and "fine_files names vs" and "n \<in> set (frontend_names names vs)"
  shows "static_path n" and "''/'' @ n \<noteq> ''/api/v2/'' @ r"
proof -
  have "static_path n \<and> (take 7 n \<noteq> ''api/v2/'' \<or> plain_name n)"
    using assms by (auto simp: frontend_names_def fine_files_def wf_views_def static_path_def plain_name_def)
  then show "static_path n" and "''/'' @ n \<noteq> ''/api/v2/'' @ r"
    by (auto simp: plain_name_def)
qed

section \<open>Properties\<close>

text \<open>
  C39: For an accepted configuration the routes of the interface never collide, so with a proxy the
  web server always starts. With a directory of a frontend, whose files do not meet other routes, it
  starts unless a view is named login: that name is accepted, but the route is registered twice, which
  the framework answers with a panic.
\<close>

theorem http_routes:
  assumes "map_orders_ok o1" and "TransformAndValidate o1 env b c = Some (cfg, [])"
    and "\<And>ks. list_all (\<lambda>(m, p). static_path p) ks \<Longrightarrow> register ks = distinct ks"
    and "lstat (path_Clean path) = Some True" and "files = map (\<lambda>f. path_Clean path @ ''/'' @ f) names"
    and "fine_files names (cf_views cfg)"
  shows "web_Run register inPool enabled readable True path lstat files (cf_views cfg) \<noteq> None \<and>
    (web_Run register inPool enabled readable False path lstat files (cf_views cfg) \<noteq> None \<longleftrightarrow>
       ''login'' \<notin> vw_name ` set (cf_views cfg))"
proof -
  let ?vs = "cf_views cfg"
  let ?api = "addApiV2Routes inPool enabled readable ?vs"
  have wf: "wf_views ?vs" by (rule accepted_wf_views [OF assms(1,2)])
  have named: "'''' \<notin> vw_name ` set ?vs"
    using accepted_config_ok [OF assms(1,2)] by (auto simp: config_ok_def list_all_iff view_ok_def nameMatcher_def)
  obtain fr where fr: "setupFrontend False path lstat files ?vs = Some fr"
    and frk: "keys fr = map (\<lambda>n. (GET, ''/'' @ n)) (frontend_names names ?vs)"
    using frontend_keys [of lstat path names ?vs, OF assms(4) path_Clean_nonempty] unfolding assms(5) by blast
  have api: "list_all (\<lambda>(m, p). static_path p) (keys ?api)"
    using api_paths [OF wf] by (force simp: list_all_iff)
  have all: "list_all (\<lambda>(m, p). static_path p) (keys (?api @ fr))"
    using api frontend_name_static(1) [OF wf assms(6)] by (auto simp: frk list_all_iff static_path_def)
  have "set (keys ?api) \<inter> set (keys fr) = {}"
    using api_paths [OF wf] frontend_name_static(2) [OF wf assms(6)] by (force simp: frk)
  moreover have "distinct (keys fr) \<longleftrightarrow> distinct (frontend_names names ?vs)"
    unfolding frk by (auto simp: distinct_map inj_on_def)
  ultimately have "distinct (keys (?api @ fr)) \<longleftrightarrow> ''login'' \<notin> vw_name ` set ?vs"
    using distinct_api [OF wf, of inPool enabled readable] distinct_frontend [OF wf assms(6)] named by simp
  then have "register (keys (?api @ fr)) = (''login'' \<notin> vw_name ` set ?vs)"
    using assms(3) [OF all] by simp
  moreover have "register (keys ?api)"
    using assms(3) [OF api] distinct_api [OF wf] by simp
  moreover have "setupFrontend True path lstat files ?vs = Some []"
    by (simp add: setupFrontend_def)
  ultimately show ?thesis
    by (simp add: web_Run_def fr keys_def del: keys_append)
qed

definition login_view_config :: configRead where
  "login_view_config = demo_config demo_remote
     \<lparr>Views := [\<lparr>vwr_Name = ''login'', vwr_Title = ''Login'', vwr_Devices = [], vwr_Autoplay = None,
        vwr_AllowedUsers = [], vwr_Hidden = None\<rparr>]\<rparr>"

theorem http_routes_witness:
  "\<exists>cfg. TransformAndValidate demo_orders demo_env True login_view_config = Some (cfg, []) \<and>
     web_Run distinct (\<lambda>n. True) True True False ''./frontend-build/'' (\<lambda>p. Some True) [''frontend-build/index.html'']
       (cf_views cfg) = None"
proof -
  have "map_option (\<lambda>(cfg, e). (map vw_name (cf_views cfg), e))
      (TransformAndValidate demo_orders demo_env True login_view_config) = Some ([''login''], [])"
    by code_simp
  then obtain cfg where cfg: "TransformAndValidate demo_orders demo_env True login_view_config = Some (cfg, [])"
    and names: "map vw_name (cf_views cfg) = [''login'']"
    by auto
  have views: "vw_name ` set (cf_views cfg) = {''login''}"
    using arg_cong [OF names, of set] by simp
  have clean: "path_Clean ''./frontend-build/'' = ''frontend-build''"
    by code_simp
  have "fine_files [''index.html''] (cf_views cfg)"
    by (simp add: fine_files_def views static_path_def)
  then show ?thesis
    using http_routes [OF demo_orders_ok cfg, of distinct "\<lambda>p. Some True" "''./frontend-build/''"
        "[''frontend-build/index.html'']" "[''index.html'']" "\<lambda>n. True" True True] cfg
    by (simp add: clean views)
qed

section \<open>Data and commands\<close>

lemma compile1D_lookup:
  "map_of (foldl (\<lambda>m v. AList.update (val_name v) (GenericValue v) m) m vs) n =
     (case find (\<lambda>v. val_name v = n) (rev vs) of None \<Rightarrow> map_of m n | Some v \<Rightarrow> Some (GenericValue v))"
  by (induction vs rule: rev_induct) (simp_all add: update_conv')

lemma view_filter_device:
  "getViewValueFilter [vd] v \<longleftrightarrow> DeviceName v = vwd_name vd \<and> RegisterFilter (vwd_filter vd) (val_reg v)"
  by (simp add: getViewValueFilter_def RegisterValueFilter_def)

text \<open>The values of a device that its filter in the view lets through.\<close>

definition view_values :: "storage_state \<Rightarrow> ViewDeviceConfig \<Rightarrow> string \<rightharpoonup> generic" where
  "view_values st vd n =
     (case map_of st \<lparr>sk_deviceName = vwd_name vd, sk_registerName = n\<rparr> of
        None \<Rightarrow> None
      | Some w \<Rightarrow> if RegisterFilter (vwd_filter vd) (val_reg w) then Some (GenericValue w) else None)"

lemma values_of_device:
  assumes "wf_state st" and "iter_order it"
  shows "map_of (compile1DValueResponse (GetStateFiltered it st (getViewValueFilter [vd]))) = view_values st vd"
proof
  fix n
  let ?vs = "GetStateFiltered it st (getViewValueFilter [vd])" and ?k = "\<lparr>sk_deviceName = vwd_name vd, sk_registerName = n\<rparr>"
  have key: "val_key w = ?k \<longleftrightarrow> DeviceName w = vwd_name vd \<and> val_name w = n" for w
    by (auto simp: val_key_def)
  have mem: "w \<in> set ?vs \<and> val_name w = n \<longleftrightarrow> map_of st ?k = Some w \<and> RegisterFilter (vwd_filter vd) (val_reg w)" for w
  proof -
    have "w \<in> set ?vs \<longleftrightarrow> map_of st (val_key w) = Some w \<and> DeviceName w = vwd_name vd \<and>
        RegisterFilter (vwd_filter vd) (val_reg w)"
      unfolding GetStateFiltered_set [OF assms] view_filter_device by blast
    moreover have "map_of st ?k = Some w \<Longrightarrow> val_key w = ?k"
      by (rule wf_state_lookup(1) [OF assms(1)])
    ultimately show ?thesis
      using key [of w] by metis
  qed
  show "map_of (compile1DValueResponse ?vs) n = view_values st vd n"
  proof (cases "find (\<lambda>v. val_name v = n) (rev ?vs)")
    case None
    then have "\<forall>w \<in> set ?vs. val_name w \<noteq> n"
      by (auto simp: find_None_iff)
    then have "\<not> (map_of st ?k = Some w \<and> RegisterFilter (vwd_filter vd) (val_reg w))" for w
      using mem by blast
    with None show ?thesis
      by (auto simp: compile1DValueResponse_def compile1D_lookup view_values_def split: option.splits)
  next
    case (Some w)
    then have "w \<in> set ?vs \<and> val_name w = n"
      by (auto simp: find_Some_iff) (metis nth_mem length_rev set_rev)
    with mem [of w] Some show ?thesis
      by (simp add: compile1DValueResponse_def compile1D_lookup view_values_def)
  qed
qed

text \<open>
  C38: The values of a device in a view are answered with exactly the state's values of the device that
  its filter in the view lets through, whatever the order of the maps; with 304 and no body, if
  the client's copy has the same hash. But where they cannot be encoded, as a NaN cannot, the
  answer is an empty body with the status 200, the hash included.
\<close>

theorem http_values:
  assumes "wf_state st" and "iter_order (wo_state ord)" and "isViewAuthenticatedByUser v user True"
  shows "values_get env ord v vd st user ifNoneMatch =
    (let bytes = (case we_marshal env (JValues (view_values st vd)) of None \<Rightarrow> [] | Some b \<Rightarrow> b);
         etag = we_md5hex env bytes
     in if sendNotModified ifNoneMatch etag then no_response\<lparr>rp_status := 304\<rparr>
        else no_response\<lparr>rp_etag := Some (''W/'' @ etag), rp_body := bytes\<rparr>)"
  using assms
  by (simp add: values_get_def values_of_device web_get_def jsonGetResponse_def Let_def no_response_def)

definition patch_fits :: "register_db \<Rightarrow> string \<times> json_value \<Rightarrow> bool" where
  "patch_fits rdb m \<longleftrightarrow> (case rdb_GetByName rdb (fst m) of
     None \<Rightarrow> False
   | Some r \<Rightarrow> (case reg_type r of
        TextRegister \<Rightarrow> (case snd m of JString s \<Rightarrow> True | _ \<Rightarrow> False)
      | UndefinedRegister \<Rightarrow> True
      | _ \<Rightarrow> (case snd m of JNumber x \<Rightarrow> True | _ \<Rightarrow> False)))"

definition patch_values :: "web_env \<Rightarrow> string \<Rightarrow> register_db \<Rightarrow> string \<times> json_value \<Rightarrow> val list" where
  "patch_values env n rdb m = (case patch_input env n rdb (fst m) (snd m) of Inl e \<Rightarrow> [] | Inr vs \<Rightarrow> vs)"

lemma patch_input_fits:
  "(\<exists>vs. patch_input env n rdb (fst m) (snd m) = Inr vs) \<longleftrightarrow> patch_fits rdb m"
  by (auto simp: patch_input_def patch_fits_def Let_def split: option.splits RegisterType.splits json_value.splits)

lemma patch_inputs_Inr:
  "(\<exists>vs. patch_inputs env n rdb req = Inr vs) \<longleftrightarrow> list_all (patch_fits rdb) req"
  "patch_inputs env n rdb req = Inr vs \<Longrightarrow> vs = concat (map (patch_values env n rdb) req)"
proof (induction req arbitrary: vs)
  case (Cons m req)
  {
    case 1
    show ?case
      using Cons(1) patch_input_fits [of env n rdb m] by (cases m) (auto split: sum.splits)
  next
    case 2
    then show ?case
      using Cons(2) by (cases m) (auto simp: patch_values_def split: sum.splits)
  }
qed auto

lemma patch_values_ok:
  assumes "wf_rdb rdb" and "w \<in> set (patch_values env n rdb m)"
  shows "well_typed w \<and> DeviceName w = n \<and> val_name w = fst m \<and> rdb_GetByName rdb (fst m) = Some (val_reg w)"
proof -
  have "reg_name r = fst m" if "rdb_GetByName rdb (fst m) = Some r" for r
    using assms(1) that by (auto simp: wf_rdb_def rdb_GetByName_def dest: map_of_SomeD)
  then show ?thesis
    using assms(2)
    by (auto simp: patch_values_def patch_input_def Let_def val_name_def
        split: option.splits RegisterType.splits json_value.splits)
qed


text \<open>
  C8: Whatever the request, its answer depends on the registers and the state, or commands are
  executed, only at a route of a view, for which the view is public and data is read, or
  the request carries a token that the secret was used for and whose user is the view's, or anyone
  if the view is public. Every other answer is the same whatever the devices say.
\<close>

theorem http_authorized:
  assumes "jwt_ok (we_jwt env)"
    and "handle env M ord h rq st = (rp, acts, ck)" and "handle env M ord h rq st' = (rp', acts', ck')"
    and "wt_checker st = wt_checker st'" and "rp \<noteq> rp' \<or> acts \<noteq> []"
  shows "\<exists>v. (IsPublic v \<and> (\<exists>d. h = ServeRegisters v d \<or> h = ServeValues v d)) \<or>
    ((\<exists>d n. h = ServeRegisters v d \<or> h = ServeValues v d \<or> h = PatchValues v n) \<and>
     (\<exists>c. jw_sign (we_jwt env) (au_jwtSecret (we_auth env)) c = Some (rq_Authorization rq) \<and>
        jc_User c \<noteq> '''' \<and> (IsPublic v \<or> IsAllowed v (jc_User c))))"
proof -
  obtain user where user: "authJwtMiddleware (we_jwt env) JError (we_auth env) (rq_now rq) (rq_Authorization rq) = Inr user"
    using assms(2-5) by (auto simp: handle_def split: sum.splits)
  have token: "\<exists>c. jw_sign (we_jwt env) (au_jwtSecret (we_auth env)) c = Some (rq_Authorization rq) \<and> jc_User c = user"
    if "user \<noteq> ''''"
    using user that checkToken_signed [OF assms(1), of "rq_now rq" "rq_Authorization rq" "au_jwtSecret (we_auth env)"]
    by (auto simp: authJwtMiddleware_def split: if_splits option.splits)
  show ?thesis
  proof (cases h)
    case (ServeRegisters v d)
    with assms user have "isViewAuthenticatedByUser v user True"
      by (auto simp: handle_def registers_get_def split: if_splits)
    with token ServeRegisters show ?thesis
      by (auto simp: authenticated_iff)
  next
    case (ServeValues v d)
    with assms user have "isViewAuthenticatedByUser v user True"
      by (auto simp: handle_def values_get_def split: if_splits)
    with token ServeValues show ?thesis
      by (auto simp: authenticated_iff)
  next
    case (PatchValues v n)
    with assms user have "isViewAuthenticatedByUser v user False"
      by (auto simp: handle_def values_patch_def split: if_splits)
    with token PatchValues show ?thesis
      by (auto simp: authenticated_iff)
  qed (use assms user in \<open>auto simp: handle_def split: prod.splits\<close>)
qed

section \<open>An example\<close>

definition example_view :: ViewConfig where
  "example_view = \<lparr>vw_name = ''private'', vw_title = ''Private'',
     vw_devices = [\<lparr>vwd_name = ''bmv'', vwd_title = ''Battery'', vwd_filter = \<lparr>IncludeRegisters = [],
        SkipRegisters = [], IncludeCategories = [], SkipCategories = [], DefaultInclude = False\<rparr>\<rparr>],
     vw_autoplay = True, vw_allowedUsers = [(''ann'', ())], vw_hidden = False\<rparr>"

definition example_web :: web_env where
  "example_web = \<lparr>we_marshal = (\<lambda>j. None), we_md5hex = (\<lambda>s. ''d4''), we_jwt = example_jwt, we_title = ''t'',
     we_version = ''v'', we_configExpires = 0, we_frontendExpires = 0, we_auth = example_auth,
     we_views = [example_view], we_floatToInt = (\<lambda>x. 0)\<rparr>"

definition example_orders :: web_orders where
  "example_orders = \<lparr>wo_registers = rev, wo_ties = rev, wo_state = rev\<rparr>"

definition example_register :: register where
  "example_register = NewRegisterStruct ''Essential'' ''Voltage'' ''Voltage'' NumberRegister None ''V'' 0 False"

definition example_db :: register_db where
  "example_db = \<lparr>rdb_registers = [(''Voltage'', example_register)], rdb_subscriptions = [], rdb_next_elem = 0\<rparr>"

lemma wf_example_db: "wf_rdb example_db"
  by (simp add: wf_rdb_def example_db_def example_register_def wf_gomap_def NewRegisterStruct_def)


theorem http_values_witness:
  "rp_body (values_get example_web example_orders example_view (hd (vw_devices example_view)) [] ''ann'' '''') = [] \<and>
   rp_status (values_get example_web example_orders example_view (hd (vw_devices example_view)) [] ''ann'' '''') = 200"
proof -
  have "iter_order (wo_state example_orders)"
    by (simp add: example_orders_def)
  moreover have "isViewAuthenticatedByUser example_view ''ann'' True"
    by (simp add: authenticated_iff IsAllowed_def in_map_def example_view_def)
  ultimately show ?thesis
    using http_values [OF wf_state_empty, of example_orders example_view "''ann''" example_web
        "hd (vw_devices example_view)" "''''"]
    by (simp add: example_web_def sendNotModified_def no_response_def Let_def)
qed

definition example_request :: request where
  "example_request = \<lparr>rq_now = 0, rq_Authorization = ''tok'', rq_IfNoneMatch = '''',
     rq_values = Some [(''Voltage'', JNumber (F_Fin 1))], rq_login = None, rq_acquired = True, rq_reread = None\<rparr>"

definition example_state :: web_state where
  "example_state = \<lparr>wt_registers = (\<lambda>n. example_db), wt_state = [],
     wt_checker = \<lparr>ac_file = '''', ac_lastReload = 0\<rparr>\<rparr>"

theorem http_authorized_witness:
  "\<exists>c. jw_sign example_jwt ''s'' c = Some ''tok'' \<and> IsAllowed example_view (jc_User c)"
proof -
  let ?h = "handle example_web (\<lambda>f u p. False) example_orders (PatchValues example_view ''bmv'') example_request example_state"
  obtain rp acts ck where run: "?h = (rp, acts, ck)"
    by (rule prod_cases3)
  have "fst (snd ?h) \<noteq> []"
    by (simp add: handle_def example_web_def example_request_def example_state_def authJwtMiddleware_def checkToken_def
        example_jwt_def example_auth_def values_patch_def authenticated_iff IsAllowed_def in_map_def example_view_def
        patch_input_def rdb_GetByName_def example_db_def example_register_def NewRegisterStruct_def)
  with run have acts: "rp \<noteq> rp \<or> acts \<noteq> []" by simp
  have "jwt_ok (we_jwt example_web)"
    by (simp add: example_web_def example_jwt_ok)
  from http_authorized [OF this run run refl acts] show ?thesis
    by (auto simp: example_web_def example_auth_def example_request_def IsPublic_def example_view_def)
qed

end
