(* ===== verification/Program_Run.thy ===== *)
theory Program_Run
  imports Program_Proofs Web_Proofs
begin

text \<open>
  The rest of src/main: the web server that is started for a configuration (httpServer.go), the
  profiles (pprof.go), and the body of main with its deferred calls (main.go). What the web server
  asks of the environment is the record \<open>web_libs\<close>.
\<close>

section \<open>The web server\<close>

record web_libs =
  wl_marshal :: "json_obj \<Rightarrow> string option"
  wl_md5hex :: "string \<Rightarrow> string"
  wl_jwt :: jwt_lib
  wl_floatToInt :: "f64 \<Rightarrow> int"
  wl_register :: "(http_method \<times> string) list \<Rightarrow> bool" \<comment> \<open>whether the framework takes the routes\<close>
  wl_readable :: "string \<Rightarrow> bool" \<comment> \<open>of the file of passwords\<close>
  wl_lstat :: "string \<Rightarrow> bool option"
  wl_files :: "string \<Rightarrow> string list" \<comment> \<open>below a directory, in the order of the walk\<close>

definition web_environment :: "web_libs \<Rightarrow> string \<Rightarrow> 'u Config \<Rightarrow> web_env" where
  "web_environment libs buildVersion cfg =
     \<lparr>we_marshal = wl_marshal libs, we_md5hex = wl_md5hex libs, we_jwt = wl_jwt libs,
      we_title = cf_projectTitle cfg, we_version = buildVersion,
      we_configExpires = ws_configExpires (cf_httpServer cfg),
      we_frontendExpires = ws_frontendExpires (cf_httpServer cfg),
      we_auth = cf_authentication cfg, we_views = cf_views cfg, we_floatToInt = wl_floatToInt libs\<rparr>"

definition server_Addr :: "'u HttpServerConfig \<Rightarrow> string" where
  "server_Addr s = ws_bind s @ '':'' @ itoa (ws_port s)"

datatype web_start =
    WebOff
  | WebPanics
  | WebServes web_env "route list" string

definition runHttpServer :: "web_libs \<Rightarrow> string \<Rightarrow> 'u Config \<Rightarrow> watched pool \<Rightarrow> web_start" where
  "runHttpServer libs buildVersion cfg devicePool =
     (let s = cf_httpServer cfg; auth = cf_authentication cfg
      in if \<not> ws_enabled s then WebOff
         else case web_Run (wl_register libs) (\<lambda>n. Pool_GetByName devicePool n \<noteq> None) (au_enabled auth)
                (wl_readable libs (au_htaccessFile auth)) (ws_frontendProxy s \<noteq> None) (ws_frontendPath s)
                (wl_lstat libs) (wl_files libs (path_Clean (ws_frontendPath s))) (cf_views cfg) of
             None \<Rightarrow> WebPanics
           | Some table \<Rightarrow> WebServes (web_environment libs buildVersion cfg) table (server_Addr s))"

section \<open>Profiles\<close>

definition runCpuProfile :: "string \<Rightarrow> bool \<Rightarrow> bool \<Rightarrow> bool" where
  \<comment> \<open>whether the file can be created and the profile started\<close>
  "runCpuProfile fileName created started = (fileName \<noteq> '''' \<and> created \<and> started)"

datatype profile_event = LogCreateFailed | CollectGarbage | WriteHeap | LogWriteFailed | LogWritten | CloseFile

definition writeMemProfile :: "string \<Rightarrow> bool \<Rightarrow> bool \<Rightarrow> profile_event list" where
  \<comment> \<open>writing to a file that was not created fails; the code goes on after either error\<close>
  "writeMemProfile fileName created written =
     (if fileName = '''' then []
      else (if created then [] else [LogCreateFailed]) @ [CollectGarbage] @
           (if created \<and> written then [WriteHeap] else [LogWriteFailed]) @ [LogWritten, CloseFile])"

lemma says_written: "LogWritten \<in> set (writeMemProfile fileName created written) \<longleftrightarrow> fileName \<noteq> ''''"
  by (simp add: writeMemProfile_def)

section \<open>The body of main\<close>

datatype part = PartCpuProfile | PartStateStorage | PartCommandStorage | PartModbus | PartDevices
  | PartClients | PartWeb

datatype main_event =
    Started part
  | RanNonMqttGensetDevices
  | RanMqttDevices
  | RanMqttForwarders
  | RanGensetDevices
  | Caught
  | Profiled profile_event
  | Stopped part
  | Exited int

text \<open>The events so far, and the deferred calls, the last one first.\<close>

type_synonym main_state = "main_event list \<times> part list"

definition start_deferred :: "part \<Rightarrow> main_state \<Rightarrow> main_state" where
  "start_deferred p = (\<lambda>(es, ds). (es @ [Started p], p # ds))"

definition start_if :: "bool \<Rightarrow> part \<Rightarrow> main_state \<Rightarrow> main_state" where
  "start_if b p s = (if b then start_deferred p s else s)"

definition ran :: "main_event \<Rightarrow> main_state \<Rightarrow> main_state" where
  "ran e = (\<lambda>(es, ds). (es @ [e], ds))"

definition main_body :: "bool \<Rightarrow> bool \<Rightarrow> profile_event list \<Rightarrow> main_event list" where
  "main_body cpu web mem =
     (let s = start_if cpu PartCpuProfile ([], []);
          s = start_deferred PartCommandStorage (start_deferred PartStateStorage s);
          s = start_deferred PartDevices (start_deferred PartModbus s);
          s = ran RanNonMqttGensetDevices s;
          s = start_deferred PartClients s;
          s = ran RanGensetDevices (ran RanMqttForwarders (ran RanMqttDevices s));
          (es, ds) = start_if web PartWeb s
      in es @ [Caught] @ map Profiled mem @ map Stopped ds @ [Exited 0])"

text \<open>The parts are stopped in the reverse order of their start.\<close>

lemma main_body_lifo:
  "List.map_filter (\<lambda>e. case e of Stopped p \<Rightarrow> Some p | _ \<Rightarrow> None) (main_body cpu web mem) =
   rev (List.map_filter (\<lambda>e. case e of Started p \<Rightarrow> Some p | _ \<Rightarrow> None) (main_body cpu web mem))"
proof -
  have "List.map_filter (\<lambda>e. case e of Started p \<Rightarrow> Some p | _ \<Rightarrow> None) (map Profiled mem) = []"
    "List.map_filter (\<lambda>e. case e of Stopped p \<Rightarrow> Some p | _ \<Rightarrow> None) (map Profiled mem) = []"
    by (induction mem) (simp_all add: map_filter_simps)
  then show ?thesis
    by (cases cpu; cases web) (simp_all add: main_body_def start_if_def start_deferred_def ran_def
        map_filter_def)
qed

section \<open>Properties\<close>

definition device_routes :: "ViewConfig \<Rightarrow> ViewDeviceConfig \<Rightarrow> route list" where
  \<comment> \<open>the three routes of a device of a view\<close>
  "device_routes v d =
     [api_route GET (device_path (vw_name v) (vwd_name d) ''registers'') (ServeRegisters v d),
      api_route GET (device_path (vw_name v) (vwd_name d) ''values'') (ServeValues v d),
      api_route PATCH (device_path (vw_name v) (vwd_name d) ''values'') (PatchValues v (vwd_name d))]"

lemma frontend_handlers:
  "setupFrontend proxy path lstat files vs = Some rs \<Longrightarrow> r \<in> set rs \<Longrightarrow> \<exists>f. rt_handler r = ServeFile f"
  by (auto simp: setupFrontend_def Let_def serveStatic_def split: if_splits)

lemma found_devices_iff:
  "(v, d) \<in> set (found_devices inPool vs) \<longleftrightarrow> v \<in> set vs \<and> d \<in> set (vw_devices v) \<and> inPool (vwd_name d)"
  by (auto simp: found_devices_def)

lemma setup_iff:
  "r \<in> set (setupRegisters inPool vs) \<longleftrightarrow> (\<exists>v d. (v, d) \<in> set (found_devices inPool vs) \<and>
     r = api_route GET (device_path (vw_name v) (vwd_name d) ''registers'') (ServeRegisters v d))"
  "r \<in> set (setupValuesGetJson inPool vs) \<longleftrightarrow> (\<exists>v d. (v, d) \<in> set (found_devices inPool vs) \<and>
     r = api_route GET (device_path (vw_name v) (vwd_name d) ''values'') (ServeValues v d))"
  "r \<in> set (setupValuesPatch inPool vs) \<longleftrightarrow> (\<exists>v d. (v, d) \<in> set (found_devices inPool vs) \<and>
     r = api_route PATCH (device_path (vw_name v) (vwd_name d) ''values'') (PatchValues v (vwd_name d)))"
  by (auto simp: setupRegisters_def setupValuesGetJson_def setupValuesPatch_def)

lemma device_route_iff:
  assumes "web_Run reg inPool enabled readable proxy path lstat files vs = Some table"
    and "v \<in> set vs" "d \<in> set (vw_devices v)" "r \<in> set (device_routes v d)"
  shows "r \<in> set table \<longleftrightarrow> inPool (vwd_name d)"
proof -
  have noFile: "\<not> (\<exists>f. rt_handler r = ServeFile f)"
    using assms(4) by (auto simp: device_routes_def api_route_def)
  have "r \<in> set table \<longleftrightarrow> r \<in> set (addApiV2Routes inPool enabled readable vs)"
  proof -
    obtain rs where "setupFrontend proxy path lstat files vs = Some rs"
        "table = addApiV2Routes inPool enabled readable vs @ rs"
      using assms(1) by (auto simp: web_Run_def Let_def split: option.splits if_splits)
    then show ?thesis using noFile frontend_handlers [of proxy path lstat files vs rs r] by auto
  qed
  also have "\<dots> \<longleftrightarrow> r \<in> set (setupRegisters inPool vs) \<or> r \<in> set (setupValuesGetJson inPool vs) \<or>
      r \<in> set (setupValuesPatch inPool vs)"
    using assms(4) noFile
    by (auto simp: addApiV2Routes_def device_routes_def api_route_def setupLogin_def setupDocs_def setupValuesWs_def)
  also have "\<dots> \<longleftrightarrow> inPool (vwd_name d)"
  proof -
    consider "r = api_route GET (device_path (vw_name v) (vwd_name d) ''registers'') (ServeRegisters v d)"
      | "r = api_route GET (device_path (vw_name v) (vwd_name d) ''values'') (ServeValues v d)"
      | "r = api_route PATCH (device_path (vw_name v) (vwd_name d) ''values'') (PatchValues v (vwd_name d))"
      using assms(4) by (auto simp: device_routes_def)
    then show ?thesis
      using assms(2,3) unfolding setup_iff by cases (auto simp: api_route_def found_devices_iff)
  qed
  finally show ?thesis .
qed

text \<open>
  C31: when the web server of an accepted configuration serves, each device of a view has its
  routes, for its registers, its values and its commands, exactly if a device of this name was
  started; if all serial ports could be opened, on a platform with GPIO, every device of every
  view has them. A device whose bus was not there is not served for the whole run.
\<close>

theorem program_web:
  assumes "map_orders_ok o1" and "TransformAndValidate o1 env b c = Some (cfg, [])"
    and "runHttpServer libs version cfg (pg_devices (start_program opens gpio seen cfg)) = WebServes e table addr"
    and "v \<in> set (cf_views cfg)" and "d \<in> set (vw_devices v)" and "r \<in> set (device_routes v d)"
  shows "(r \<in> set table \<longleftrightarrow> vwd_name d \<in> wd_Name ` set (started_devices opens gpio cfg)) \<and>
    (gpio \<and> (\<forall>m \<in> set (cf_modbus cfg). opens m) \<longrightarrow> r \<in> set table)"
proof -
  have iff: "r \<in> set table \<longleftrightarrow> vwd_name d \<in> wd_Name ` set (started_devices opens gpio cfg)"
  proof -
    let ?s = "cf_httpServer cfg" and ?a = "cf_authentication cfg"
    have "web_Run (wl_register libs) (\<lambda>n. Pool_GetByName (pg_devices (start_program opens gpio seen cfg)) n \<noteq> None)
        (au_enabled ?a) (wl_readable libs (au_htaccessFile ?a)) (ws_frontendProxy ?s \<noteq> None) (ws_frontendPath ?s)
        (wl_lstat libs) (wl_files libs (path_Clean (ws_frontendPath ?s))) (cf_views cfg) = Some table"
      using assms(3) by (auto simp: runHttpServer_def Let_def split: if_splits option.splits)
    from device_route_iff [OF this assms(4-6)] show ?thesis
      unfolding start_program_devices in_pool_iff .
  qed
  have "existsByName cd_name (vwd_name d) (cf_devices cfg)"
    using accepted_config_ok [OF assms(1,2)] assms(4,5) by (auto simp: config_ok_def view_ok_def list_all_iff)
  then have "vwd_name d \<in> cd_name ` set (cf_devices cfg)"
    by (auto simp: existsByName_iff getNames_def)
  then have "gpio \<and> (\<forall>m \<in> set (cf_modbus cfg). opens m) \<longrightarrow>
      vwd_name d \<in> wd_Name ` set (started_devices opens gpio cfg)"
    using started_names [OF assms(1,2), of opens] by (metis (full_types) set_map)
  with iff show ?thesis by blast
qed

definition web_config :: configRead where
  "web_config = demo_config demo_remote
     \<lparr>HttpServer := Some \<lparr>wr_Bind = ''[::1]'', wr_Port = None, wr_LogRequests = None,
        wr_FrontendProxy = ''http://localhost:3000'', wr_FrontendPath = '''', wr_FrontendExpires = '''',
        wr_ConfigExpires = '''', wr_LogDebug = None\<rparr>\<rparr>"

definition web_demo_libs :: web_libs where
  "web_demo_libs = \<lparr>wl_marshal = (\<lambda>j. None), wl_md5hex = (\<lambda>s. s), wl_jwt = example_jwt, wl_floatToInt = (\<lambda>x. 0),
     wl_register = distinct, wl_readable = (\<lambda>f. True), wl_lstat = (\<lambda>p. None), wl_files = (\<lambda>p. [])\<rparr>"

text \<open>The view of the example shows the relays, which are served exactly if their port opens.\<close>

theorem program_web_witness:
  "\<exists>cfg e table addr v d. TransformAndValidate demo_orders demo_env True web_config = Some (cfg, []) \<and>
     runHttpServer web_demo_libs ''v3'' cfg (pg_devices (start_program (\<lambda>m. True) True 1 cfg)) = WebServes e table addr \<and>
     vwd_name d = ''relays'' \<and> set (device_routes v d) \<subseteq> set table"
proof -
  have "map_option (\<lambda>(cfg, es). (length es, map (map vwd_name \<circ> vw_devices) (cf_views cfg), ws_enabled (cf_httpServer cfg),
        ws_frontendProxy (cf_httpServer cfg)))
      (TransformAndValidate demo_orders demo_env True web_config) =
      Some (0, [[''relays'']], True, Some ''http://localhost:3000'')"
    by code_simp
  then obtain cfg where cfg: "TransformAndValidate demo_orders demo_env True web_config = Some (cfg, [])"
    and vs: "map (map vwd_name \<circ> vw_devices) (cf_views cfg) = [[''relays'']]"
    and web: "ws_enabled (cf_httpServer cfg)" "ws_frontendProxy (cf_httpServer cfg) = Some ''http://localhost:3000''"
    by auto
  obtain v d where v: "cf_views cfg = [v]" "vw_devices v = [d]" "vwd_name d = ''relays''"
    using vs by auto
  have "wf_views (cf_views cfg)" by (rule accepted_wf_views [OF demo_orders_ok cfg])
  then have "\<exists>e table addr. runHttpServer web_demo_libs ''v3'' cfg (pg_devices (start_program (\<lambda>m. True) True 1 cfg)) =
      WebServes e table addr"
    using web distinct_api [of "cf_views cfg"]
    by (simp add: runHttpServer_def Let_def web_Run_def setupFrontend_def web_demo_libs_def keys_def)
  then obtain e table addr where run: "runHttpServer web_demo_libs ''v3'' cfg
      (pg_devices (start_program (\<lambda>m. True) True 1 cfg)) = WebServes e table addr"
    by blast
  have "r \<in> set table" if "r \<in> set (device_routes v d)" for r
    using program_web [OF demo_orders_ok cfg run _ _ that] v by auto
  with cfg run v show ?thesis by blast
qed

end
