(* ===== verification/Command_Path.thy ===== *)
theory Command_Path
  imports Waveshare Value_Storage
begin

text \<open>
  The way of a command, over the parts it passes: values are filled into the command storage
  (src/dataflow/valueStorage.go), which drops those its state already holds and forwards the
  others; the subscription of a relay board (src/modbusDevice/waveshareDevice.go) takes those for
  its device that are not null; the device writes them to the board, and fills a null to reset the
  command. The section on the storage is about any device, the rest about the relay board.
\<close>

section \<open>The storage drops no news\<close>

definition newest :: "(val \<Rightarrow> bool) \<Rightarrow> val list \<Rightarrow> val option" where
  "newest P vs = find P (rev vs)"

lemma newest_Nil [simp]: "newest P [] = None"
  by (simp add: newest_def)

lemma newest_snoc [simp]: "newest P (vs @ [v]) = (if P v then Some v else newest P vs)"
  by (simp add: newest_def)

lemma find_narrower:
  "find P xs = Some w \<Longrightarrow> Q w \<Longrightarrow> (\<And>v. Q v \<Longrightarrow> P v) \<Longrightarrow> find Q xs = Some w"
  by (induction xs) (auto split: if_splits)

lemma newest_filter: "(\<And>v. P v \<Longrightarrow> Q v) \<Longrightarrow> newest P (filter Q vs) = newest P vs"
  by (induction vs rule: rev_induct) auto

lemma forwarded_snoc:
  "forwarded st (vs @ [v]) = forwarded st vs @
     (if snd (updateState (fst (vs_feed.feed st vs)) v) then [v] else [])"
  by (simp add: forwarded_feed vs_feed.feed_append case_prod_unfold Let_def)

lemma fed_snoc:
  "fst (vs_feed.feed st (vs @ [v])) = fst (updateState (fst (vs_feed.feed st vs)) v)"
  by (simp add: vs_feed.feed_append case_prod_unfold Let_def)

text \<open>An entry of the state is the last value that was forwarded for its key.\<close>

lemma entry_forwarded:
  assumes "wf_state st" and "map_of st k = None"
    and "map_of (fst (vs_feed.feed st vs)) k = Some w"
  shows "newest (\<lambda>v. \<not> is_null v \<and> val_key v = k) (forwarded st vs) = Some w"
  using assms(3)
proof (induction vs arbitrary: w rule: rev_induct)
  case Nil
  with assms(2) show ?case by simp
next
  case (snoc v vs)
  let ?s = "fst (vs_feed.feed st vs)"
  have wf: "wf_state ?s"
    using assms(1) by (rule vs_feed.inv_feed)
  show ?case
  proof (cases "val_key v = k")
    case True
    have "map_of (fst (updateState ?s v)) k = Some w"
      using snoc.prems by (simp add: fed_snoc)
    with True updateState_lookup [OF wf, of v] snoc.IH [of w] show ?thesis
      by (cases "is_null v"; cases "snd (updateState ?s v)") (simp_all add: forwarded_snoc)
  next
    case False
    with snoc.prems updateState_other [of k v ?s] snoc.IH show ?thesis
      by (simp add: forwarded_snoc fed_snoc)
  qed
qed

text \<open>
  Of the values of one key that a predicate lets through, the last one filled is also the last one
  forwarded, up to equality of values, if the state held nothing under the key.
\<close>

lemma newest_forwarded:
  assumes "wf_state st" and "map_of st k = None"
    and P: "\<And>v. P v \<Longrightarrow> \<not> is_null v \<and> val_key v = k"
    and equal: "\<And>v w. P v \<Longrightarrow> val_key w = k \<Longrightarrow> Value_Equals w v \<Longrightarrow> P w"
  shows "rel_option (\<lambda>v w. w = v \<or> Value_Equals w v) (newest P vs) (newest P (forwarded st vs))"
proof (induction vs rule: rev_induct)
  case (snoc v vs)
  let ?s = "fst (vs_feed.feed st vs)"
  show ?case
  proof (cases "P v \<and> \<not> snd (updateState ?s v)")
    case True
    then obtain w where w: "map_of ?s k = Some w" "Value_Equals w v"
      using P [of v] by (auto simp: updateState_changed)
    then have "newest (\<lambda>v. \<not> is_null v \<and> val_key v = k) (forwarded st vs) = Some w"
      by (intro entry_forwarded [OF assms(1,2)])
    moreover have "P w"
      using True w equal wf_state_lookup(1) [OF vs_feed.inv_feed [OF assms(1)] w(1)] by blast
    ultimately have "newest P (forwarded st vs) = Some w"
      unfolding newest_def using P by (rule find_narrower)
    with True w(2) show ?thesis
      by (simp add: forwarded_snoc)
  next
    case False
    with snoc show ?thesis
      by (auto simp: forwarded_snoc)
  qed
qed simp

text \<open>A value that the state holds from the start is dropped as long as it is filled again.\<close>

lemma repeated_dropped:
  assumes "map_of st k = Some w" and "\<forall>v \<in> set vs. val_key v = k \<longrightarrow> Value_Equals w v"
  shows "\<forall>v \<in> set (forwarded st vs). val_key v \<noteq> k"
  using assms
proof (induction vs arbitrary: st)
  case (Cons v vs)
  show ?case
  proof (cases "val_key v = k")
    case True
    with Cons.prems have "\<not> snd (updateState st v)" and "fst (updateState st v) = st"
      using vs_feed.put_skip [of st v] by (auto simp: updateState_changed)
    with Cons show ?thesis
      by (simp add: case_prod_unfold Let_def)
  next
    case False
    then have "map_of (fst (updateState st v)) k = Some w"
      using Cons.prems(1) updateState_other [of k v st] by simp
    from Cons.IH [OF this] Cons.prems(2) False show ?thesis
      by (auto simp: case_prod_unfold Let_def)
  qed
qed simp

section \<open>The relays a list of values commands\<close>

definition relay_key :: "string \<Rightarrow> nat \<Rightarrow> state_key" where
  "relay_key n i = \<lparr>sk_deviceName = n, sk_registerName = ''CH'' @ nat_dec (i + 1)\<rparr>"

text \<open>The relay a value commands on the device of a name, and whether it is to be closed.\<close>

definition commanded :: "string \<Rightarrow> val \<Rightarrow> (nat \<times> bool) option" where
  "commanded n v =
     (case v of
        EnumRegisterValue d r idx \<Rightarrow>
          (case waveshareRtuRelay8RegisterAddress r of
             Some address \<Rightarrow>
               if d = n \<and> (idx = 0 \<or> idx = 1) \<and> 0 \<le> address \<and> address < 8
               then Some (nat address, idx = 1) else None
           | None \<Rightarrow> None)
      | _ \<Rightarrow> None)"

definition commands_relay :: "string \<Rightarrow> nat \<Rightarrow> val \<Rightarrow> bool" where
  "commands_relay n i v \<longleftrightarrow> (\<exists>on. commanded n v = Some (i, on))"

definition command_on :: "string \<Rightarrow> val \<Rightarrow> bool" where
  "command_on n v \<longleftrightarrow> map_option snd (commanded n v) = Some True"

definition apply_command :: "string \<Rightarrow> bool list \<Rightarrow> val \<Rightarrow> bool list" where
  "apply_command n state v = (case commanded n v of Some (i, on) \<Rightarrow> state[i := on] | None \<Rightarrow> state)"

lemma digit_char_val: "is_digit d \<Longrightarrow> digit_char (digit_val d) = d"
  by (auto simp: is_digit_def digit_val_def digit_char_def)

lemma commands_relay_key:
  assumes "commands_relay n i v"
  shows "\<not> is_null v \<and> val_key v = relay_key n i \<and> i < 8"
proof -
  obtain r idx address where v: "v = EnumRegisterValue n r idx"
    and a: "waveshareRtuRelay8RegisterAddress r = Some address" "0 \<le> address" "address < 8" "i = nat address"
    using assms by (auto simp: commands_relay_def commanded_def split: val.splits option.splits if_splits)
  then obtain d where "reg_name r = [CHR ''C'', CHR ''H'', d]" "is_digit d" "address = int (digit_val d) - 1"
    by (auto simp: waveshareRtuRelay8RegisterAddress_def split: list.splits if_splits)
  moreover from this a have "digit_val d = i + 1" and "i < 8"
    by auto
  moreover have "digit_char (digit_val d) = d"
    by (rule digit_char_val) fact
  ultimately show ?thesis
    using v by (simp add: is_null_def val_key_def val_name_def relay_key_def nat_dec_digit)
qed

lemma commanded_equal:
  assumes "val_key v = val_key w" and "Value_Equals w v"
  shows "commanded n v = commanded n w"
  using assms
  by (cases v; cases w)
    (auto simp: commanded_def is_null_def val_key_def val_name_def waveshareRtuRelay8RegisterAddress_def)

lemma apply_command_length [simp]: "length (apply_command n state v) = length state"
  by (simp add: apply_command_def split: option.splits)

lemma apply_commands_length [simp]: "length (foldl (apply_command n) state vs) = length state"
  by (induction vs arbitrary: state) simp_all

lemma apply_command_nth:
  "i < length state \<Longrightarrow>
   apply_command n state v ! i = (if commands_relay n i v then command_on n v else state ! i)"
  by (auto simp: apply_command_def commands_relay_def command_on_def nth_list_update split: option.splits)

lemma apply_commands_nth:
  assumes "i < length state"
  shows "foldl (apply_command n) state vs ! i =
    (case newest (commands_relay n i) vs of None \<Rightarrow> state ! i | Some v \<Rightarrow> command_on n v)"
proof (induction vs rule: rev_induct)
  case (snoc v vs)
  then show ?case
    using assms by (simp add: apply_command_nth)
qed simp

section \<open>A board that follows its protocol\<close>

text \<open>
  Such a board tells its version, echoes a request to write a relay and switches it, and answers a
  request to read with its relays packed into a byte. \<open>relays\<close> and \<open>switch\<close> are the board's own.
\<close>

definition board_protocol ::
  "(byte list \<Rightarrow> 16 word) \<Rightarrow> 'b write_read \<Rightarrow> byte \<Rightarrow> ('b \<Rightarrow> byte) \<Rightarrow> ('b \<Rightarrow> nat \<Rightarrow> bool \<Rightarrow> 'b) \<Rightarrow> bool" where
  "board_protocol crc writeRead a relays switch \<longleftrightarrow>
     (\<forall>bus. \<exists>x y. writeRead (frame crc a WaveshareFunctionReadAddressAndVersion [0x20, 0x00, 0x00, 0x01])
        (replicate 6 0) bus = (None, frame crc a WaveshareFunctionReadAddressAndVersion [x, y], bus)) \<and>
     (\<forall>bus. writeRead (frame crc a WaveshareFunctionReadRelay [0x00, 0xFF, 0x00, 0x01]) (replicate 6 0) bus =
        (None, frame crc a WaveshareFunctionReadRelay [1, relays bus], bus)) \<and>
     (\<forall>nr on bus. nr < 8 \<longrightarrow>
        writeRead (frame crc a WaveshareFunctionWriteRelay
          (be16 (word_of_nat nr) @ be16 (if on then RelayClose else RelayOpen))) (replicate 8 0) bus =
        (None, frame crc a WaveshareFunctionWriteRelay
          (be16 (word_of_nat nr) @ be16 (if on then RelayClose else RelayOpen)), switch bus nr on)) \<and>
     (\<forall>nr on bus. nr < 8 \<longrightarrow> bits_of_byte (relays (switch bus nr on)) = (bits_of_byte (relays bus))[nr := on])"

lemma board_protocolD:
  assumes "board_protocol crc writeRead a relays switch"
  shows "\<exists>x y. writeRead (frame crc a WaveshareFunctionReadAddressAndVersion [0x20, 0x00, 0x00, 0x01])
      (replicate 6 0) bus = (None, frame crc a WaveshareFunctionReadAddressAndVersion [x, y], bus)"
    and "writeRead (frame crc a WaveshareFunctionReadRelay [0x00, 0xFF, 0x00, 0x01]) (replicate 6 0) bus =
      (None, frame crc a WaveshareFunctionReadRelay [1, relays bus], bus)"
    and "nr < 8 \<Longrightarrow> writeRead (frame crc a WaveshareFunctionWriteRelay
        (be16 (word_of_nat nr) @ be16 (if on then RelayClose else RelayOpen))) (replicate 8 0) bus =
      (None, frame crc a WaveshareFunctionWriteRelay
        (be16 (word_of_nat nr) @ be16 (if on then RelayClose else RelayOpen)), switch bus nr on)"
    and "nr < 8 \<Longrightarrow> bits_of_byte (relays (switch bus nr on)) = (bits_of_byte (relays bus))[nr := on]"
  using assms unfolding board_protocol_def by blast+

lemma board_version:
  assumes "board_protocol crc writeRead a relays switch"
  shows "\<exists>s. WaveshareReadSoftwareRevision crc writeRead a bus = (Inr s, bus)"
proof -
  obtain x y where "writeRead (frame crc a WaveshareFunctionReadAddressAndVersion [0x20, 0x00, 0x00, 0x01])
      (replicate 6 0) bus = (None, frame crc a WaveshareFunctionReadAddressAndVersion [x, y], bus)"
    using board_protocolD(1) [OF assms] by blast
  then have "callFunction crc writeRead a WaveshareFunctionReadAddressAndVersion [0x20, 0x00, 0x00, 0x01] 2 bus =
      (Inr [x, y], bus)"
    using callFunction_ok_iff [of writeRead crc a WaveshareFunctionReadAddressAndVersion
        "[0x20, 0x00, 0x00, 0x01]" 2 bus _ bus "[x, y]" bus]
    by simp
  then show ?thesis
    by (simp add: WaveshareReadSoftwareRevision_def)
qed

lemma board_poll:
  assumes "board_protocol crc writeRead a relays switch" and "mc_Address (md_Config c) = a"
  shows "\<exists>fills. wave_execPoll crc writeRead c (wave_registers c) bus = (PollOk, fills, bus)"
proof -
  have "WaveshareReadRelays crc writeRead a bus = (Inr (bits_of_byte (relays bus)), bus)"
    by (rule ReadRelays_ok) (rule board_protocolD(2) [OF assms(1)])
  then have "snd (snd (wave_execPoll crc writeRead c (wave_registers c) bus)) = bus"
    and "\<forall>e. fst (wave_execPoll crc writeRead c (wave_registers c) bus) \<noteq> PollErr e"
    using assms(2) by (simp_all add: wave_execPoll_def case_prod_unfold Let_def)
  then show ?thesis
    using wave_execPoll_cases [of crc writeRead c bus] by auto
qed

text \<open>A command for the device switches its relay and is reset; any other value changes no relay.\<close>

lemma board_command:
  assumes "board_protocol crc writeRead a relays switch" and "mc_Address (md_Config c) = a"
    and "DeviceName v = md_Name c"
  shows "\<exists>acts bus'. wave_execCommand crc writeRead c v bus = (acts, bus') \<and>
    bits_of_byte (relays bus') = apply_command (md_Name c) (bits_of_byte (relays bus)) v"
proof (cases "commanded (md_Name c) v")
  case (Some io)
  then obtain i on where io: "io = (i, on)" by (cases io)
  obtain r where v: "v = EnumRegisterValue (md_Name c) r (if on then 1 else 0)"
    and a: "waveshareRtuRelay8RegisterAddress r = Some (int i)" and i: "i < 8"
    using Some io by (auto simp: commanded_def split: val.splits option.splits if_splits)
  have "WaveshareWriteRelay crc writeRead a (word_of_nat i) (if on then RelayClose else RelayOpen) bus =
      (None, switch bus i on)"
    by (rule WriteRelay_ok [OF i]) (rule board_protocolD(3) [OF assms(1) i])
  then have "snd (wave_execCommand crc writeRead c v bus) = switch bus i on"
    using a v assms(2) by (cases on) (simp_all add: wave_execCommand_def)
  moreover have "bits_of_byte (relays (switch bus i on)) = (bits_of_byte (relays bus))[i := on]"
    by (rule board_protocolD(4) [OF assms(1) i])
  ultimately show ?thesis
    using Some io by (cases "wave_execCommand crc writeRead c v bus") (simp add: apply_command_def)
next
  case None
  have "snd (wave_execCommand crc writeRead c v bus) = bus"
  proof (cases v)
    case (EnumRegisterValue d r idx)
    show ?thesis
    proof (cases "waveshareRtuRelay8RegisterAddress r")
      case (Some address)
      then have "-1 \<le> address \<and> address \<le> 8"
        by (auto simp: waveshareRtuRelay8RegisterAddress_def is_digit_def digit_val_def split: list.splits if_splits)
      moreover have "idx = 0 \<or> idx = 1 \<Longrightarrow> address < 0 \<or> 8 \<le> address"
        using None Some assms(3) EnumRegisterValue by (auto simp: commanded_def split: if_splits)
      ultimately have "idx = 0 \<or> idx = 1 \<Longrightarrow> address = -1 \<or> address = 8"
        by auto
      then have "idx = 0 \<or> idx = 1 \<Longrightarrow> word_of_int address > (7 :: 16 word)"
        by auto
      then show ?thesis
        using Some EnumRegisterValue by (auto simp: wave_execCommand_def WriteRelay_invalid)
    qed (use EnumRegisterValue in \<open>simp add: wave_execCommand_def\<close>)
  qed (simp_all add: wave_execCommand_def)
  with None show ?thesis
    by (cases "wave_execCommand crc writeRead c v bus") (simp add: apply_command_def)
qed

text \<open>The commands among the events of a run that goes on.\<close>

fun event_commands :: "device_event list \<Rightarrow> val list" where
  "event_commands [] = []"
| "event_commands (EvCommand (Some v) # evs) = v # event_commands evs"
| "event_commands (EvTick # evs) = event_commands evs"
| "event_commands (EvCommand None # evs) = event_commands evs"
| "event_commands (EvCtxDone # evs) = event_commands evs"

lemma board_loop:
  assumes "board_protocol crc writeRead a relays switch" and "mc_Address (md_Config c) = a"
    and "EvCtxDone \<notin> set evs" and "EvCommand None \<notin> set evs"
    and "\<forall>v \<in> set (event_commands evs). DeviceName v = md_Name c"
  shows "\<exists>acts bus'. wave_loop crc writeRead c (wave_registers c) evs bus = (RunContinues, acts, bus') \<and>
    bits_of_byte (relays bus') =
      foldl (apply_command (md_Name c)) (bits_of_byte (relays bus)) (event_commands evs)"
  using assms(3-)
proof (induction evs arbitrary: bus rule: event_commands.induct)
  case (2 v evs)
  then obtain acts1 bus1 where "wave_execCommand crc writeRead c v bus = (acts1, bus1)"
    and "bits_of_byte (relays bus1) = apply_command (md_Name c) (bits_of_byte (relays bus)) v"
    using board_command [OF assms(1,2)] by (metis event_commands.simps(2) list.set_intros(1))
  moreover obtain acts bus' where "wave_loop crc writeRead c (wave_registers c) evs bus1 = (RunContinues, acts, bus')"
    and "bits_of_byte (relays bus') =
      foldl (apply_command (md_Name c)) (bits_of_byte (relays bus1)) (event_commands evs)"
    using "2.IH" [of bus1] "2.prems" by auto
  ultimately show ?case
    by simp
next
  case (3 evs)
  obtain fills where "wave_execPoll crc writeRead c (wave_registers c) bus = (PollOk, fills, bus)"
    using board_poll [OF assms(1,2)] by blast
  moreover obtain acts bus' where "wave_loop crc writeRead c (wave_registers c) evs bus = (RunContinues, acts, bus')"
    and "bits_of_byte (relays bus') =
      foldl (apply_command (md_Name c)) (bits_of_byte (relays bus)) (event_commands evs)"
    using "3.IH" [of bus] "3.prems" by auto
  ultimately show ?case
    by simp
qed auto

lemma board_run:
  assumes "board_protocol crc writeRead a relays switch" and "mc_Address (md_Config c) = a"
    and "EvCtxDone \<notin> set evs" and "EvCommand None \<notin> set evs"
    and "\<forall>v \<in> set (event_commands evs). DeviceName v = md_Name c"
  shows "\<exists>acts bus'. runWaveshareRtuRelay8 crc writeRead c evs bus = (RunContinues, acts, bus') \<and>
    bits_of_byte (relays bus') =
      foldl (apply_command (md_Name c)) (bits_of_byte (relays bus)) (event_commands evs)"
proof -
  obtain s where "WaveshareReadSoftwareRevision crc writeRead a bus = (Inr s, bus)"
    using board_version [OF assms(1)] by blast
  moreover obtain fills where "wave_execPoll crc writeRead c (wave_registers c) bus = (PollOk, fills, bus)"
    using board_poll [OF assms(1,2)] by blast
  moreover obtain acts bus' where "wave_loop crc writeRead c (wave_registers c) evs bus = (RunContinues, acts, bus')"
    and "bits_of_byte (relays bus') =
      foldl (apply_command (md_Name c)) (bits_of_byte (relays bus)) (event_commands evs)"
    using board_loop [OF assms, of bus] by blast
  ultimately show ?thesis
    using assms(2) by (simp add: runWaveshareRtuRelay8_def wave_registers_def)
qed

section \<open>Relays follow their commands\<close>

lemma length_bits_of_byte [simp]: "length (bits_of_byte b) = 8"
  by (simp add: bits_of_byte_def)

lemma newest_command_on:
  assumes "wf_state st" and "map_of st (relay_key n i) = None"
  shows "map_option (command_on n) (newest (commands_relay n i) (filter (DeviceNonNullValueFilter n) (forwarded st fs))) =
    map_option (command_on n) (newest (commands_relay n i) fs)"
proof -
  let ?P = "commands_relay n i"
  have key: "\<not> is_null v \<and> val_key v = relay_key n i" if "?P v" for v
    using commands_relay_key [OF that] by simp
  have equal: "commanded n w = commanded n v" if "?P v" "val_key w = relay_key n i" "Value_Equals w v" for v w
    using commanded_equal [of v w n] key [OF that(1)] that(2,3) by simp
  have rel: "rel_option (\<lambda>v w. w = v \<or> Value_Equals w v) (newest ?P fs) (newest ?P (forwarded st fs))"
    using assms key by (rule newest_forwarded) (auto simp: commands_relay_def equal)
  have filt: "newest ?P (filter (DeviceNonNullValueFilter n) (forwarded st fs)) = newest ?P (forwarded st fs)"
    by (rule newest_filter)
      (use key in \<open>force simp: DeviceNonNullValueFilter_def NonNullValueFilter_def DeviceNameValueFilter_def
         val_key_def relay_key_def\<close>)
  have P: "?P v" if "newest ?P vs = Some v" for v vs
    using that by (auto simp: newest_def find_Some_iff)
  have on: "command_on n w = command_on n v"
    if "newest ?P fs = Some v" and "newest ?P (forwarded st fs) = Some w" and "w = v \<or> Value_Equals w v" for v w
  proof -
    have "commanded n w = commanded n v"
      using that P [of fs v] P [of "forwarded st fs" w] key [of w] equal [of v w] by auto
    then show ?thesis by (simp only: command_on_def)
  qed
  show ?thesis
  proof (cases "newest ?P fs")
    case None
    with rel show ?thesis
      by (simp add: filt)
  next
    case (Some v)
    with rel obtain w where "newest ?P (forwarded st fs) = Some w" "w = v \<or> Value_Equals w v"
      by (auto simp: option_rel_Some1)
    with on [OF Some] Some show ?thesis
      by (simp add: filt)
  qed
qed

text \<open>
  C19: On a board that follows its protocol each relay stands, when the commands forwarded to the
  device are executed, as the last value commanded of all that were filled into the command
  storage, whatever else was filled and however the resets of the device came in between, and as
  before if there was none; the storage's suppression of equal values loses no command. This
  needs that the storage held no value for the relay when the device subscribed: a command that
  was left there (the device takes no initial values) is not executed, also when it is given
  again.
\<close>

theorem relays_follow_commands:
  assumes "board_protocol crc writeRead (mc_Address (md_Config c)) relays switch" and "wf_state st"
    and "event_commands evs = filter (DeviceNonNullValueFilter (md_Name c)) (forwarded st fs)"
    and "EvCtxDone \<notin> set evs" and "EvCommand None \<notin> set evs"
    and "runWaveshareRtuRelay8 crc writeRead c evs bus = (res, acts, bus')" and "i < 8"
  shows "res = RunContinues \<and>
    (map_of st (relay_key (md_Name c) i) = None \<longrightarrow>
      bits_of_byte (relays bus') ! i =
        (case newest (commands_relay (md_Name c) i) fs of
           None \<Rightarrow> bits_of_byte (relays bus) ! i
         | Some v \<Rightarrow> command_on (md_Name c) v)) \<and>
    (\<forall>w. map_of st (relay_key (md_Name c) i) = Some w \<longrightarrow>
      (\<forall>v \<in> set fs. val_key v = relay_key (md_Name c) i \<longrightarrow> Value_Equals w v) \<longrightarrow>
      bits_of_byte (relays bus') ! i = bits_of_byte (relays bus) ! i)"
proof -
  let ?P = "commands_relay (md_Name c) i" and ?vs = "filter (DeviceNonNullValueFilter (md_Name c)) (forwarded st fs)"
  have "\<forall>v \<in> set (event_commands evs). DeviceName v = md_Name c"
    by (simp add: assms(3) DeviceNonNullValueFilter_def DeviceNameValueFilter_def)
  then have res: "res = RunContinues"
    and bits: "bits_of_byte (relays bus') = foldl (apply_command (md_Name c)) (bits_of_byte (relays bus)) ?vs"
    using board_run [OF assms(1) refl assms(4,5), of bus] assms(3,6) by auto
  have nth: "bits_of_byte (relays bus') ! i =
      (case newest ?P ?vs of None \<Rightarrow> bits_of_byte (relays bus) ! i | Some v \<Rightarrow> command_on (md_Name c) v)"
    using assms(7) by (simp add: bits apply_commands_nth)
  moreover have "newest ?P ?vs = None"
    if "map_of st (relay_key (md_Name c) i) = Some w"
      and "\<forall>v \<in> set fs. val_key v = relay_key (md_Name c) i \<longrightarrow> Value_Equals w v" for w
    using repeated_dropped [OF that] commands_relay_key [of "md_Name c" i]
    by (auto simp: newest_def find_None_iff)
  ultimately show ?thesis
    using res newest_command_on [OF assms(2), of "md_Name c" i fs]
    by (auto split: option.splits)
qed

text \<open>
  For the witness, a command for CH2 was left in the storage and is given again, and CH3 is closed,
  reset and closed again.
\<close>

definition version_board :: "byte write_read" where
  "version_board request buf relays =
     (if request ! 1 = WaveshareFunctionReadAddressAndVersion
      then (None, frame (\<lambda>_. 0) (request ! 0) WaveshareFunctionReadAddressAndVersion [0, 200], relays)
      else demo_board request buf relays)"

lemma version_board_frame:
  "f \<noteq> WaveshareFunctionReadAddressAndVersion \<Longrightarrow>
   version_board (frame crc a f p) buf relays = demo_board (frame crc a f p) buf relays"
  "version_board (frame (\<lambda>_. 0) a WaveshareFunctionReadAddressAndVersion p) buf relays =
     (None, frame (\<lambda>_. 0) a WaveshareFunctionReadAddressAndVersion [0, 200], relays)"
  by (simp_all add: version_board_def frame_def)

lemma version_board_protocol: "board_protocol (\<lambda>_. 0) version_board 1 (\<lambda>b. b) set_relay"
proof -
  have other: "WaveshareFunctionReadRelay \<noteq> WaveshareFunctionReadAddressAndVersion"
    "WaveshareFunctionWriteRelay \<noteq> WaveshareFunctionReadAddressAndVersion"
    by (simp_all add: WaveshareFunctionReadRelay_def WaveshareFunctionWriteRelay_def
        WaveshareFunctionReadAddressAndVersion_def)
  have "demo_board (frame (\<lambda>_. 0) 1 WaveshareFunctionReadRelay p) buf b =
      (None, frame (\<lambda>_. 0) 1 WaveshareFunctionReadRelay [1, b], b)" for p buf b
    by (simp add: demo_board_def frame_def)
  then show ?thesis
    by (auto simp: board_protocol_def version_board_frame other demo_board_write bits_set_relay)
qed

definition demo_command :: "nat \<Rightarrow> val" where
  "demo_command i = EnumRegisterValue ''board'' (relay_register (md_Config demo_device) i) 1"

definition demo_fills :: "val list" where
  "demo_fills = [demo_command 1, demo_command 2,
     NullRegisterValue ''board'' (relay_register (md_Config demo_device) 2), demo_command 1, demo_command 2]"

definition demo_state :: storage_state where
  "demo_state = [(relay_key ''board'' 1, demo_command 1)]"

definition demo_events :: "device_event list" where
  "demo_events = [EvTick, EvCommand (Some (demo_command 2)), EvTick, EvCommand (Some (demo_command 2))]"

lemma demo_command_keys:
  "val_key (demo_command i) = relay_key ''board'' i"
  "val_key (NullRegisterValue ''board'' (relay_register cfg i)) = relay_key ''board'' i"
  by (simp_all add: demo_command_def val_key_def val_name_def relay_key_def relay_register_def Let_def)

lemma demo_command_value [simp]:
  "DeviceName (demo_command i) = ''board''" "\<not> is_null (demo_command i)"
  "is_null (NullRegisterValue n r)" "Value_Equals (demo_command i) (demo_command i)"
  "\<not> Value_Equals (demo_command i) (NullRegisterValue n r)"
  by (simp_all add: demo_command_def is_null_def)

lemma demo_relay_keys [simp]:
  "relay_key n (Suc 0) \<noteq> relay_key n 2" "relay_key n 2 \<noteq> relay_key n (Suc 0)"
  by (simp_all add: relay_key_def nat_dec_digit digit_char_def)

lemma demo_forwarded:
  "event_commands demo_events = filter (DeviceNonNullValueFilter ''board'') (forwarded demo_state demo_fills)"
  by (simp add: demo_events_def demo_fills_def demo_state_def updateState_def Let_def demo_command_keys
      DeviceNonNullValueFilter_def NonNullValueFilter_def DeviceNameValueFilter_def)

lemma demo_state_wf: "wf_state demo_state"
  by (simp add: demo_state_def wf_state_def wf_gomap_def demo_command_keys)

theorem relays_follow_commands_witness:
  "\<exists>acts bus'. runWaveshareRtuRelay8 (\<lambda>_. 0) version_board demo_device demo_events 0 = (RunContinues, acts, bus') \<and>
     bits_of_byte bus' ! 2 \<and> \<not> bits_of_byte bus' ! 1"
proof -
  have nm: "md_Name demo_device = ''board''" and a: "mc_Address (md_Config demo_device) = 1"
    by (simp_all add: demo_device_def md_Name_def ds_Name_def NewState_def)
  obtain res acts bus' where run: "runWaveshareRtuRelay8 (\<lambda>_. 0) version_board demo_device demo_events 0 = (res, acts, bus')"
    by (metis prod_cases3)
  note rule = relays_follow_commands [where c = demo_device and st = demo_state and fs = demo_fills,
      unfolded nm a, OF version_board_protocol demo_state_wf demo_forwarded _ _ run]
  have cmd: "commanded ''board'' (demo_command 2) = Some (2, True)"
    by (simp add: commanded_def demo_command_def relay_register_address)
  then have "commands_relay ''board'' 2 (demo_command 2)"
    by (auto simp: commands_relay_def)
  then have "newest (commands_relay ''board'' 2) demo_fills = Some (demo_command 2)"
    by (simp add: newest_def demo_fills_def)
  then have "res = RunContinues" and "bits_of_byte bus' ! 2"
    using rule [of 2] cmd by (simp_all add: demo_events_def demo_state_def command_on_def)
  moreover have "\<not> bits_of_byte bus' ! 1"
    using rule [of 1]
    by (simp add: demo_events_def demo_state_def demo_fills_def demo_command_keys bits_of_byte_def)
  ultimately show ?thesis
    using run by blast
qed

end
