(* ===== verification/Spec2Isabelle.thy ===== *)
theory Spec2Isabelle
  imports Fifo Pool Restarter Topic_Matcher Register_Db Storage_Streams Genset_Device_Proofs Finder Config_Proofs
    Mqtt_Mirror Hass_Discovery Typed_Values Gpio_Proofs Mqtt_Client_Proofs Victron_Proofs Config_Read
    Program_Run Command_Path
begin

text \<open>
  go-iotdevice reads registers of devices (modbus boards and meters, solar chargers, web
  relays, other instances over MQTT), keeps their current values, and publishes them by MQTT
  and HTTP; commands flow the other way. This development models its core in Isabelle/HOL and
  proves what makes it correct.

  \<^bold>\<open>How the program is put together.\<close> A configuration file is transformed and validated
  (src/config). Each device runs in a restarter (src/restarter), which a pool finds by name
  (src/pool). A device registers its registers in its register database and fills values into
  the state storage (src/dataflow, src/device); commands are values in a second storage.
  Subscribers, the forwarders to MQTT, the web server, and other devices such as the genset
  controller (src/genset), receive the changes of a storage through channels.

  \<^bold>\<open>Theories.\<close>
  \<^item> \<open>Go_Prelude\<close>: 64-bit integers, float64, time, decimal rendering, Go maps and their iteration
    order. \<open>Go_Duration\<close>: \<open>time.ParseDuration\<close> and \<open>fmt.Sscanf\<close> of a byte. \<open>Go_Float\<close>:
    \<open>strconv.ParseFloat\<close>.
  \<^item> \<open>Fifo\<close> (src/queue/fifo.go), \<open>Pool\<close> (src/pool/pool.go), \<open>Restarter\<close>
    (src/restarter/restarter.go), \<open>Topic_Matcher\<close> (src/topicMatcher/topicMatcher.go).
  \<^item> \<open>Kinds\<close> (src/types, src/dataflow/registerType.go): enumerations and their names; the locale
    \<open>kind_names\<close> is the contract of a name codec.
  \<^item> \<open>Registers\<close>, \<open>Register_Db\<close>, \<open>Vals\<close>, \<open>Value_Storage\<close> (src/dataflow): registers, filters, the
    register database, values, the state of a value storage. The locale \<open>change_feed\<close> of
    \<open>Change_Feed\<close> states what a subscriber relies on, that the changes it is sent bring a copy
    up to date; the database and the storage are its interpretations.
  \<^item> \<open>Storage_Steps\<close>, \<open>Storage_Invariants\<close>, \<open>Storage_Streams\<close> (src/dataflow/valueStorage.go): the
    goroutines of a storage, its channels, wait group and lock as a step relation, the
    invariants of its reachable states, and what subscribers receive.
  \<^item> \<open>Genset\<close>, \<open>Genset_Proofs\<close> (src/genset/controller.go, stateNode.go): the state machine that
    starts, supervises and stops a generator. \<open>Genset_Device\<close>, \<open>Genset_Device_Proofs\<close>
    (src/gensetDevice): the device around it, which binds registers of other devices to its inputs.
  \<^item> \<open>Device_State\<close> (src/device): configuration, registers and availability of a device.
  \<^item> \<open>Modbus_Frame\<close> (src/modbusDevice/modbus.go), \<open>Waveshare\<close> (waveshareV2.go,
    waveshareDevice.go), \<open>Finder\<close> (finderRegister.go, finder7M38.go): frames with a checksum, a
    board of relays, a power meter.
  \<^item> \<open>Config_Base\<close>, \<open>Config_Devices\<close>, \<open>Config_Genset\<close>, \<open>Config_Mqtt\<close>, \<open>Config_Root\<close>,
    \<open>Config_Proofs\<close> (src/config): the sections of the configuration as read (records \<open>...Read\<close>)
    and as used, their transformation with the list of errors, and the specification
    \<open>config_ok\<close> of a valid configuration.
  \<^item> \<open>Duration_String\<close> (\<open>time.Duration.String\<close>), \<open>Config_Print\<close>, \<open>Config_Reprint\<close>, \<open>Marshal_Proofs\<close>
    (src/config/marshaler.go): the configuration converted back to the records it is read from;
    the duration, each section and then the whole file are read back unchanged, or not at all.
    \<open>Config_Read\<close> (src/config/config.go): the same for the text, whose variables are expanded.
  \<^item> \<open>Mqtt_Topics\<close> (src/config/getters.go), \<open>Mqtt_Messages\<close>, \<open>Mqtt_Forwarders\<close>,
    \<open>Mqtt_Forwarders_Proofs\<close>, \<open>Hass_Discovery\<close> (src/mqttForwarders): topics, messages and the
    goroutines that publish a device. \<open>Mqtt_Device\<close> (src/mqttDevice): the device that mirrors a
    device of another instance; \<open>Mqtt_Mirror\<close>: the two together.

  \<^item> \<open>Http_Device\<close>, \<open>Http_Shelly\<close>, \<open>Http_Teracom\<close>, \<open>Http_Proofs\<close> (src/httpDevice): devices polled by
    HTTP; the locale \<open>http_implementation\<close> is what the device relies on in its two
    implementations. The fields of a status are a list of calls that register a register and
    fill its value.
  \<^item> \<open>Typed_Values\<close>: all kinds of devices fill values of the type of their register, but one.
  \<^item> \<open>Modbus_Port\<close> (src/modbus/modbus.go, src/modbusDevice/device.go): the serial bus, whose port
    is the list of what its calls return, and the choice of a driver.
  \<^item> \<open>Gpio_Device\<close>, \<open>Gpio_Proofs\<close> (src/gpioDevice): lines of a GPIO chip; what the chip is asked
    for is a list of operations, recorded in order with the fills.
  \<^item> \<open>Victron_Device\<close>, \<open>Victron_Proofs\<close> (src/victronDevice): devices on the VE.Direct protocol and
    their random stand-ins.
  \<^item> \<open>Mqtt_Client\<close>, \<open>Mqtt_Client_Proofs\<close> (src/mqttClient): routes, publishing, and the backlog, which
    goroutines drain when the connection comes up; the events of \<open>mc_run\<close> are their steps, in
    any order, with the outcomes of the connection manager's calls.
  \<^item> \<open>Web_Auth\<close> (response.go, jwt.go, login.go), \<open>Web_Api\<close> (registers.go, values.go, config.go),
    \<open>Web_Socket\<close> (ws.go), \<open>Web_Routes\<close>, \<open>Web_Proofs\<close> (apiV2.go, docs.go, frontend.go,
    httpServer.go, all of src/httpServer): who may see a view, what the routes answer and command,
    what a websocket sends, and when the table of routes can be set up.
  \<^item> \<open>Program_Start\<close>, \<open>Program_Proofs\<close> (src/main.go, devices.go, mqtt.go, modbus.go,
    mqttForwarders.go): what is started for a configuration, found by name, and shut down.
    \<open>Program_Run\<close> (httpServer.go, pprof.go, main.go): the web server of a configuration and the
    devices it serves, the profiles, and the body of main with its deferred calls.
  \<^item> \<open>Command_Path\<close>: a command from the storage it is filled into to the relay it switches, over
    \<open>Value_Storage\<close> and \<open>Waveshare\<close>.

  \<^bold>\<open>How code becomes definitions.\<close> A struct is a record; an interface value of a device
  or of a register is the record of what its getters return. A function that changes a struct
  returns it changed. An operation that sends to channels or calls back returns the list of
  what it sends. Errors and panics are values: a sum, an option, a list of errors, or a state of
  the step relation. Integers that may overflow wrap as in Go; words are \<open>word\<close>s. A float64 is
  NaN, an infinity or an exact rational, rounded after each operation. A map is an association
  list with distinct keys, and a function that ranges over a map takes the order as an argument;
  its theorems hold for every order. Strings are lists of bytes.

  \<^bold>\<open>What the lemmas show.\<close> Each theory first proves its well-formedness invariant, preserved by
  each operation (collection \<open>wf_intros\<close>), then the functional lemmas of its operations, then the
  properties, numbered C1, C2, and so on, in the order of their importance. The components with a
  contract have an abstract specification: the bounded queue is the list of its newest values,
  the pool the map of the last additions, a subscription the replay of changes, a frame the
  concatenation of its fields, a valid configuration the predicate \<open>config_ok\<close>.

  \<^bold>\<open>Bounds.\<close> The loop of the genset controller is bounded in the code by eight iterations:
  the rank of a state is at most six and decreases with each update, so the bound is never
  reached. Reads of the meter are retried at most eight times, as in the code. No definition
  takes fuel; recursion that is not structural ends by a measure.

  \<^bold>\<open>Parameters.\<close> The checksum, what a serial port and a GPIO chip answer, the outcome of a publish, URL
  parsing, random numbers, identifiers, file status, HTTP responses, JSON and the rendering of times are arguments of the definitions that use them. Where a
  theorem needs JSON to read back what it wrote, this is the hypothesis \<open>codec_exact\<close> for the
  messages concerned; for YAML it is a hypothesis on the printed text, and for URLs
  \<open>urls_reparse\<close>, on the URLs of the configuration.

  \<^bold>\<open>Not modelled.\<close> Log output other than the printed configuration; encoding and decoding YAML;
  the debug output of the genset controller (genset/string.go), which renders times and floats
  by the verb \<open>%v\<close>. A getter that returns a field is the selector of the record. The web framework, the connection manager of MQTT,
  the driver of the serial port, the GPIO chip and the VE.Direct protocol are third-party packages:
  the outcome of each of their calls is an argument or part of an event.
\<close>

end
